(* ===== verification/Prelude.thy ===== *)
theory Prelude
  imports Complex_Main
    "HOL-Library.AList"
    "HOL-Library.Char_ord"
    "HOL-Library.List_Lexorder"
    "HOL-Library.Product_Lexorder"
    "HOL-Library.Option_ord"
    "HOL-Library.Multiset"
begin

text \<open>
  Shared vocabulary of the development: Python values the components exchange
  (strings as character lists, dicts as association lists in insertion order,
  \<^verbatim>\<open>round\<close> with ties to even, decimal integers as text), and the generic
  facts on lists and dicts the component proofs use.  Times and coordinates are
  real numbers; rounding of binary floats is not modelled.
\<close>

named_theorems py_simps \<open>rewrite rules for the Python vocabulary\<close>

subsection \<open>Dicts: association lists with distinct keys, in insertion order\<close>

type_synonym ('k, 'v) dict = "('k \<times> 'v) list"

abbreviation dict_ok :: "('k, 'v) dict \<Rightarrow> bool" where
  "dict_ok d \<equiv> distinct (map fst d)"

text \<open>\<^verbatim>\<open>d.setdefault(k, []).append(x)\<close>\<close>

definition dict_push :: "'k \<Rightarrow> 'v \<Rightarrow> ('k, 'v list) dict \<Rightarrow> ('k, 'v list) dict" where
  "dict_push k x d = AList.map_default k [x] (\<lambda>xs. xs @ [x]) d"

text \<open>\<^verbatim>\<open>d.get(k, [])\<close>\<close>

definition dict_list :: "('k, 'v list) dict \<Rightarrow> 'k \<Rightarrow> 'v list" where
  "dict_list d k = (case map_of d k of None \<Rightarrow> [] | Some xs \<Rightarrow> xs)"

lemma dict_list_Nil [simp]: "dict_list [] k = []"
  by (simp add: dict_list_def)

lemma dict_list_push [simp]:
  "dict_list (dict_push k x d) k' = (if k' = k then dict_list d k @ [x] else dict_list d k')"
  by (simp add: dict_list_def dict_push_def AList.map_of_map_default split: option.splits)

lemma dict_keys_push: "fst ` set (dict_push k x d) = insert k (fst ` set d)"
  by (simp add: dict_push_def dom_map_default)

lemma dict_ok_push [simp]: "dict_ok d \<Longrightarrow> dict_ok (dict_push k x d)"
  by (simp add: dict_push_def distinct_map_default)

lemma dict_ok_update [simp]: "dict_ok d \<Longrightarrow> dict_ok (AList.update k v d)"
  by (simp add: distinct_update)

lemma dict_entry_iff: "dict_ok d \<Longrightarrow> (k, v) \<in> set d \<longleftrightarrow> map_of d k = Some v"
  by simp

lemma dict_list_eqI: "dict_ok d \<Longrightarrow> (k, v) \<in> set d \<Longrightarrow> dict_list d k = v"
  using map_of_is_SomeI[of d k v] by (simp add: dict_list_def)

lemma dict_push_nonempty: "\<forall>v\<in>snd ` set d. v \<noteq> [] \<Longrightarrow> v \<in> snd ` set (dict_push k x d) \<Longrightarrow> v \<noteq> []"
proof -
  have "v \<in> snd ` set (AList.map_default k [x] (\<lambda>xs. xs @ [x]) d) \<Longrightarrow> v \<in> snd ` set d \<or> v \<noteq> []"
    by (induction d) (auto split: if_splits)
  then show "\<forall>v\<in>snd ` set d. v \<noteq> [] \<Longrightarrow> v \<in> snd ` set (dict_push k x d) \<Longrightarrow> v \<noteq> []"
    by (auto simp: dict_push_def)
qed

text \<open>Grouping a list by a key, the idiom
  \<^verbatim>\<open>for x in xs: d.setdefault(key(x), []).append(x)\<close>.\<close>

definition group_by :: "('a \<Rightarrow> 'k) \<Rightarrow> 'a list \<Rightarrow> ('k, 'a list) dict" where
  "group_by f xs = fold (\<lambda>x. dict_push (f x) x) xs []"

lemma fold_push_ok: "dict_ok d \<Longrightarrow> dict_ok (fold (\<lambda>x. dict_push (f x) (g x)) xs d)"
  by (induction xs arbitrary: d) auto

lemma fold_push_keys:
  "fst ` set (fold (\<lambda>x. dict_push (f x) (g x)) xs d) = fst ` set d \<union> f ` set xs"
  by (induction xs arbitrary: d) (auto simp: dict_keys_push)

lemma fold_push_list:
  "dict_list (fold (\<lambda>x. dict_push (f x) (g x)) xs d) k = dict_list d k @ map g (filter (\<lambda>x. f x = k) xs)"
  by (induction xs arbitrary: d) auto

lemma group_by_ok [simp]: "dict_ok (group_by f xs)"
  by (simp add: group_by_def fold_push_ok)

lemma group_by_keys [simp]: "fst ` set (group_by f xs) = f ` set xs"
  by (simp add: group_by_def fold_push_keys)

lemma group_by_list [simp]: "dict_list (group_by f xs) k = filter (\<lambda>x. f x = k) xs"
  by (simp add: group_by_def fold_push_list)

lemma fold_push_entry:
  "(k, v) \<in> set (fold (\<lambda>x. dict_push (f x) (g x)) xs []) \<longleftrightarrow>
     k \<in> f ` set xs \<and> v = map g (filter (\<lambda>x. f x = k) xs)"
  (is "?L \<longleftrightarrow> ?R")
proof -
  let ?d = "fold (\<lambda>x. dict_push (f x) (g x)) xs []"
  have ok: "dict_ok ?d" and ks: "fst ` set ?d = f ` set xs"
    using fold_push_ok[of "[]" f g xs] fold_push_keys[of f g xs "[]"] by simp_all
  have l: "dict_list ?d k = map g (filter (\<lambda>x. f x = k) xs)"
    using fold_push_list[of f g xs "[]" k] by simp
  show ?thesis
  proof
    assume e: ?L
    then have "dict_list ?d k = v" by (rule dict_list_eqI[OF ok])
    moreover have "k \<in> fst ` set ?d" using e by force
    ultimately show ?R using l ks by simp
  next
    assume r: ?R
    then have "k \<in> fst ` set ?d" using ks by simp
    then obtain v' where "(k, v') \<in> set ?d" by fastforce
    moreover from this have "dict_list ?d k = v'" by (rule dict_list_eqI[OF ok])
    ultimately show ?L using r l by simp
  qed
qed

lemma group_by_entry:
  "(k, g) \<in> set (group_by f xs) \<longleftrightarrow> k \<in> f ` set xs \<and> g = filter (\<lambda>x. f x = k) xs"
  using fold_push_entry[of k g f "\<lambda>x. x" xs] by (simp add: group_by_def)

lemma group_by_groups:
  "snd ` set (group_by f xs) = (\<lambda>x. filter (\<lambda>y. f y = f x) xs) ` set xs" (is "?L = ?R")
proof (rule set_eqI)
  fix g
  have "g \<in> ?L \<longleftrightarrow> (\<exists>k. (k, g) \<in> set (group_by f xs))" by force
  also have "\<dots> \<longleftrightarrow> g \<in> ?R" unfolding group_by_entry by blast
  finally show "g \<in> ?L \<longleftrightarrow> g \<in> ?R" .
qed

subsection \<open>Strings\<close>

definition py_is_space :: "char \<Rightarrow> bool" where
  "py_is_space c \<longleftrightarrow> of_char c \<in> {9::nat, 10, 11, 12, 13, 28, 29, 30, 31, 32}"

definition py_strip :: "string \<Rightarrow> string" where
  "py_strip s = rev (dropWhile py_is_space (rev (dropWhile py_is_space s)))"

definition py_lower_char :: "char \<Rightarrow> char" where
  "py_lower_char c = (let n = of_char c :: nat in if 65 \<le> n \<and> n \<le> 90 then char_of (n + 32) else c)"

definition py_lower :: "string \<Rightarrow> string" where
  "py_lower s = map py_lower_char s"

fun py_starts_with :: "string \<Rightarrow> string \<Rightarrow> bool" where
  "py_starts_with [] s \<longleftrightarrow> True"
| "py_starts_with (p # ps) [] \<longleftrightarrow> False"
| "py_starts_with (p # ps) (c # cs) \<longleftrightarrow> p = c \<and> py_starts_with ps cs"

definition py_ends_with :: "string \<Rightarrow> string \<Rightarrow> bool" where
  "py_ends_with p s \<longleftrightarrow> py_starts_with (rev p) (rev s)"

lemma py_starts_with_iff: "py_starts_with p s \<longleftrightarrow> (\<exists>r. s = p @ r)"
  by (induction p s rule: py_starts_with.induct) auto

lemma py_ends_with_iff: "py_ends_with p s \<longleftrightarrow> (\<exists>r. s = r @ p)"
  unfolding py_ends_with_def py_starts_with_iff
  by (metis rev_append rev_rev_ident)

text \<open>\<^verbatim>\<open>s.split(c)\<close> for a one-character separator, and \<^verbatim>\<open>c.join(parts)\<close>.\<close>

fun split_on :: "char \<Rightarrow> string \<Rightarrow> string list" where
  "split_on c [] = [[]]"
| "split_on c (x # xs) =
     (if x = c then [] # split_on c xs
      else (case split_on c xs of [] \<Rightarrow> [[x]] | p # ps \<Rightarrow> (x # p) # ps))"

fun join_on :: "string \<Rightarrow> string list \<Rightarrow> string" where
  "join_on c [] = []"
| "join_on c [p] = p"
| "join_on c (p # q # ps) = p @ c @ join_on c (q # ps)"

lemma split_on_ne [simp]: "split_on c s \<noteq> []"
  by (induction s) (auto split: list.splits)

lemma split_on_no_sep: "c \<notin> set s \<Longrightarrow> split_on c s = [s]"
  by (induction s) auto

lemma split_on_append_sep:
  "c \<notin> set s \<Longrightarrow> split_on c (s @ c # t) = s # split_on c t"
  by (induction s) auto

lemma split_on_append_sep_last:
  "c \<notin> set t \<Longrightarrow> split_on c (s @ c # t) = split_on c s @ [t]"
  by (induction s) (auto simp: split_on_no_sep split: list.splits)

lemma join_split [simp]: "join_on [c] (split_on c s) = s"
proof (induction s)
  case (Cons x xs)
  then show ?case
    by (cases "split_on c xs" rule: list.exhaust; cases "tl (split_on c xs)") (auto split: list.splits)
qed simp

lemma split_on_parts: "p \<in> set (split_on c s) \<Longrightarrow> c \<notin> set p"
  by (induction s arbitrary: p) (auto split: list.splits if_splits)

lemma split_join:
  "ps \<noteq> [] \<Longrightarrow> \<forall>p\<in>set ps. c \<notin> set p \<Longrightarrow> split_on c (join_on [c] ps) = ps"
  by (induction "[c]" ps rule: join_on.induct) (auto simp: split_on_no_sep split_on_append_sep)

subsection \<open>Decimal integers\<close>

definition digit_char :: "nat \<Rightarrow> char" where
  "digit_char n = char_of (48 + n)"

definition is_digit :: "char \<Rightarrow> bool" where
  "is_digit c \<longleftrightarrow> 48 \<le> (of_char c :: nat) \<and> (of_char c :: nat) \<le> 57"

definition digit_val :: "char \<Rightarrow> nat" where
  "digit_val c = of_char c - 48"

fun str_of_nat :: "nat \<Rightarrow> string" where
  "str_of_nat n = (if n < 10 then [digit_char n] else str_of_nat (n div 10) @ [digit_char (n mod 10)])"

declare str_of_nat.simps [simp del]

definition str_of_int :: "int \<Rightarrow> string" where
  "str_of_int i = (if i < 0 then CHR ''-'' # str_of_nat (nat (- i)) else str_of_nat (nat i))"

definition nat_of_digits :: "string \<Rightarrow> nat" where
  "nat_of_digits s = foldl (\<lambda>n c. 10 * n + digit_val c) 0 s"

text \<open>The digits of Python's \<^verbatim>\<open>int\<close>: groups of digits separated by single
  underscores.  Only ASCII digits and white space are modelled.\<close>

fun digit_groups :: "string \<Rightarrow> bool" where
  "digit_groups [] \<longleftrightarrow> False"
| "digit_groups [c] \<longleftrightarrow> is_digit c"
| "digit_groups (c # d # cs) \<longleftrightarrow>
     is_digit c \<and> (if d = CHR ''_'' then digit_groups cs else digit_groups (d # cs))"

definition unsigned_of :: "string \<Rightarrow> nat option" where
  "unsigned_of s = (if digit_groups s then Some (nat_of_digits (filter (\<lambda>c. c \<noteq> CHR ''_'') s)) else None)"

definition py_int :: "string \<Rightarrow> int option" where
  "py_int s =
     (case py_strip s of
        [] \<Rightarrow> None
      | c # cs \<Rightarrow>
          if c = CHR ''-'' then map_option (\<lambda>n. - int n) (unsigned_of cs)
          else if c = CHR ''+'' then map_option int (unsigned_of cs)
          else map_option int (unsigned_of (c # cs)))"

lemma of_char_digit [simp]: "n < 10 \<Longrightarrow> (of_char (digit_char n) :: nat) = 48 + n"
  by (simp add: digit_char_def)

lemma is_digit_digit_char [simp]: "n < 10 \<Longrightarrow> is_digit (digit_char n)"
  by (simp add: is_digit_def)

lemma digit_val_digit_char [simp]: "n < 10 \<Longrightarrow> digit_val (digit_char n) = n"
  by (simp add: digit_val_def)

lemma is_digit_plain:
  assumes "is_digit c"
  shows "c \<noteq> CHR ''_''" "c \<noteq> CHR ''-''" "c \<noteq> CHR ''+''" "c \<noteq> CHR ''.''" "\<not> py_is_space c"
  using assms by (auto simp: is_digit_def py_is_space_def)

lemma digit_groups_digits: "s \<noteq> [] \<Longrightarrow> \<forall>c\<in>set s. is_digit c \<Longrightarrow> digit_groups s"
  by (induction s rule: digit_groups.induct) (auto dest: is_digit_plain)

lemma str_of_nat_digits: "\<forall>c\<in>set (str_of_nat n). is_digit c"
proof (induction n rule: str_of_nat.induct)
  case (1 n)
  then show ?case by (subst str_of_nat.simps) auto
qed

lemma str_of_nat_ne [simp]: "str_of_nat n \<noteq> []"
  by (subst str_of_nat.simps) auto

lemma nat_of_digits_snoc: "nat_of_digits (s @ [c]) = 10 * nat_of_digits s + digit_val c"
  by (simp add: nat_of_digits_def)

lemma nat_of_str [simp]: "nat_of_digits (str_of_nat n) = n"
proof (induction n rule: str_of_nat.induct)
  case (1 n)
  show ?case
  proof (cases "n < 10")
    case True
    then show ?thesis by (subst str_of_nat.simps) (simp add: nat_of_digits_def)
  next
    case False
    then show ?thesis using 1 by (subst str_of_nat.simps) (simp add: nat_of_digits_snoc)
  qed
qed

lemma dropWhile_space_digits: "\<forall>c\<in>set s. is_digit c \<Longrightarrow> dropWhile py_is_space s = s"
  by (cases s) (auto dest: is_digit_plain)

lemma py_strip_no_space: "\<forall>c\<in>set s. \<not> py_is_space c \<Longrightarrow> py_strip s = s"
proof -
  assume *: "\<forall>c\<in>set s. \<not> py_is_space c"
  have "dropWhile py_is_space s = s" using * by (cases s) auto
  moreover have "dropWhile py_is_space (rev s) = rev s"
    using * by (metis dropWhile_eq_self_iff hd_in_set set_rev)
  ultimately show ?thesis by (simp add: py_strip_def)
qed

lemma filter_no_underscore: "\<forall>c\<in>set s. is_digit c \<Longrightarrow> filter (\<lambda>c. c \<noteq> CHR ''_'') s = s"
  by (auto simp: filter_id_conv dest: is_digit_plain)

lemma unsigned_of_str [simp]: "unsigned_of (str_of_nat n) = Some n"
  using str_of_nat_digits[of n]
  by (simp add: unsigned_of_def digit_groups_digits filter_no_underscore)

lemma py_int_str_of_nat [simp]: "py_int (str_of_nat n) = Some (int n)"
proof -
  have d: "\<forall>c\<in>set (str_of_nat n). is_digit c" by (rule str_of_nat_digits)
  then have s: "py_strip (str_of_nat n) = str_of_nat n"
    by (intro py_strip_no_space) (auto dest: is_digit_plain)
  obtain c cs where c: "str_of_nat n = c # cs" by (cases "str_of_nat n") auto
  with d have c1: "is_digit c" by simp
  have u: "unsigned_of (c # cs) = Some n" using unsigned_of_str[of n] unfolding c .
  show ?thesis
    unfolding py_int_def s unfolding c using is_digit_plain(2,3)[OF c1] by (simp add: u)
qed

lemma py_int_str_of_int [simp]: "py_int (str_of_int i) = Some i"
proof (cases "i < 0")
  case True
  let ?s = "str_of_nat (nat (- i))"
  have "\<forall>c\<in>set (CHR ''-'' # ?s). \<not> py_is_space c"
    using str_of_nat_digits[of "nat (- i)"] is_digit_plain(5) by (auto simp: py_is_space_def)
  then have "py_strip (CHR ''-'' # ?s) = CHR ''-'' # ?s" by (rule py_strip_no_space)
  then show ?thesis using True by (simp add: py_int_def str_of_int_def)
qed (simp add: str_of_int_def)

lemma str_of_nat_no_dot: "CHR ''.'' \<notin> set (str_of_nat n)"
  using str_of_nat_digits is_digit_plain(4) by blast

lemma str_of_int_no_dot: "CHR ''.'' \<notin> set (str_of_int i)"
  by (auto simp: str_of_int_def dest: str_of_nat_no_dot[THEN notE])

lemma str_of_nat_inject [simp]: "str_of_nat m = str_of_nat n \<longleftrightarrow> m = n"
  by (metis nat_of_str)

subsection \<open>Rounding\<close>

text \<open>Python's \<^verbatim>\<open>round(x)\<close>: to the nearest integer, ties to the even one.\<close>

definition py_round :: "real \<Rightarrow> int" where
  "py_round x =
     (let f = \<lfloor>x\<rfloor>; d = x - of_int f in
      if d < 1 / 2 then f else if d > 1 / 2 then f + 1 else if even f then f else f + 1)"

lemma py_round_bounds: "\<bar>of_int (py_round x) - x\<bar> \<le> 1 / 2"
  unfolding py_round_def Let_def by (smt (verit) of_int_1 of_int_add field_sum_of_halves le_of_int_ceiling
      floor_correct)

lemma py_round_of_int [simp]: "py_round (of_int i) = i"
  by (simp add: py_round_def)

lemma py_round_mono: "x \<le> y \<Longrightarrow> py_round x \<le> py_round y"
proof -
  assume xy: "x \<le> y"
  consider "\<lfloor>x\<rfloor> = \<lfloor>y\<rfloor>" | "\<lfloor>x\<rfloor> < \<lfloor>y\<rfloor>"
    using floor_mono[OF xy] by linarith
  then show ?thesis
    by cases (use xy in \<open>auto simp: py_round_def Let_def\<close>)
qed

subsection \<open>Lists\<close>

lemma in_set_tlD: "x \<in> set (tl xs) \<Longrightarrow> x \<in> set xs"
  by (cases xs) auto

lemma in_enumerate: "(i, x) \<in> set (enumerate 0 xs) \<longleftrightarrow> i < length xs \<and> xs ! i = x"
  by (auto simp: in_set_enumerate_eq)

lemma sort_key_hd_min:
  fixes f :: "'a \<Rightarrow> 'b::linorder"
  assumes "x \<in> set xs"
  shows "f (hd (sort_key f xs)) \<le> f x"
proof -
  have ne: "sort_key f xs \<noteq> []" using assms by (metis empty_iff list.set(1) set_sort)
  have "sorted (map f (sort_key f xs))" by simp
  then have "\<forall>y\<in>set (sort_key f xs). f (hd (sort_key f xs)) \<le> f y"
    using ne by (cases "sort_key f xs") auto
  then show ?thesis using assms by simp
qed

text \<open>The first element minimising \<^verbatim>\<open>f\<close>, Python's \<^verbatim>\<open>min(xs, key=f)\<close>.\<close>

definition min_by :: "('a \<Rightarrow> 'b::linorder) \<Rightarrow> 'a list \<Rightarrow> 'a" where
  "min_by f xs = foldl (\<lambda>m x. if f x < f m then x else m) (hd xs) (tl xs)"

lemma foldl_min_in: "foldl (\<lambda>m x. if f x < f m then x else m) a xs \<in> insert a (set xs)"
  by (induction xs arbitrary: a) (simp, fastforce)

lemma min_by_in: "xs \<noteq> [] \<Longrightarrow> min_by f xs \<in> set xs"
  using foldl_min_in[of f "hd xs" "tl xs"] by (cases xs) (auto simp: min_by_def)

lemma in_map_filter: "y \<in> set (List.map_filter f xs) \<longleftrightarrow> (\<exists>x\<in>set xs. f x = Some y)"
  by (induction xs) (auto split: option.splits)

text \<open>Two dicts with the same keys in the same order and the same values are equal.\<close>

lemma dict_eqI:
  "map fst xs = map fst ys \<Longrightarrow> dict_ok ys \<Longrightarrow> \<forall>k\<in>fst ` set ys. map_of xs k = map_of ys k \<Longrightarrow> xs = ys"
proof (induction xs arbitrary: ys)
  case (Cons x xs)
  then obtain y zs where ys: "ys = y # zs" by (cases ys) auto
  have "\<forall>k\<in>fst ` set zs. map_of xs k = map_of zs k"
  proof
    fix k assume k: "k \<in> fst ` set zs"
    have "fst x \<notin> fst ` set zs" using Cons.prems(1,2) ys by simp
    then have "k \<noteq> fst x" using k by blast
    then show "map_of xs k = map_of zs k" using k Cons.prems(1,3) ys by (cases x, cases y) auto
  qed
  then have "xs = zs" using Cons.IH Cons.prems(1,2) ys by simp
  then show ?case using Cons.prems(1,3) ys by (cases x, cases y) auto
qed simp

subsection \<open>Tables\<close>

text \<open>A table is the list of its rows in rowid order.  \<^verbatim>\<open>SELECT\<close> filters,
  \<^verbatim>\<open>UPDATE .. WHERE\<close> rewrites the rows that match, \<^verbatim>\<open>DELETE\<close> drops them and
  \<^verbatim>\<open>cursor.rowcount\<close> is the number of rows that matched.\<close>

definition sql_update :: "('r \<Rightarrow> bool) \<Rightarrow> ('r \<Rightarrow> 'r) \<Rightarrow> 'r list \<Rightarrow> 'r list" where
  "sql_update P f t = map (\<lambda>r. if P r then f r else r) t"

definition sql_delete :: "('r \<Rightarrow> bool) \<Rightarrow> 'r list \<Rightarrow> 'r list" where
  "sql_delete P t = filter (\<lambda>r. \<not> P r) t"

definition rowcount :: "('r \<Rightarrow> bool) \<Rightarrow> 'r list \<Rightarrow> nat" where
  "rowcount P t = length (filter P t)"

lemma sql_update_Nil [simp]: "sql_update P f [] = []"
  by (simp add: sql_update_def)

lemma sql_update_Cons [simp]: "sql_update P f (r # t) = (if P r then f r else r) # sql_update P f t"
  by (simp add: sql_update_def)

lemma set_sql_update: "set (sql_update P f t) = (\<lambda>r. if P r then f r else r) ` set t"
  by (simp add: sql_update_def)

lemma ball_sql_update: "(\<forall>r\<in>set (sql_update P f t). Q r) \<longleftrightarrow> (\<forall>r\<in>set t. Q (if P r then f r else r))"
  by (induction t) auto

lemma bex_sql_update: "(\<exists>r\<in>set (sql_update P f t). Q r) \<longleftrightarrow> (\<exists>r\<in>set t. Q (if P r then f r else r))"
  by (induction t) auto

lemma set_sql_delete [simp]: "set (sql_delete P t) = {r \<in> set t. \<not> P r}"
  by (auto simp: sql_delete_def)

lemma sql_update_none: "\<forall>r\<in>set t. \<not> P r \<Longrightarrow> sql_update P f t = t"
  unfolding sql_update_def by (rule map_idI) auto

lemma sql_delete_none: "\<forall>r\<in>set t. \<not> P r \<Longrightarrow> sql_delete P t = t"
  by (auto simp: sql_delete_def filter_id_conv)

lemma rowcount_pos: "0 < rowcount P t \<longleftrightarrow> (\<exists>r\<in>set t. P r)"
  by (auto simp: rowcount_def filter_empty_conv)

lemma rowcount_zero: "rowcount P t = 0 \<longleftrightarrow> (\<forall>r\<in>set t. \<not> P r)"
  by (auto simp: rowcount_def filter_empty_conv)

lemma map_sql_update:
  "(\<And>r. P r \<Longrightarrow> g (f r) = g r) \<Longrightarrow> map g (sql_update P f t) = map g t"
  by (auto simp: sql_update_def)

lemma length_sql_update [simp]: "length (sql_update P f t) = length t"
  by (simp add: sql_update_def)

lemma distinct_sql_delete: "distinct (map g t) \<Longrightarrow> distinct (map g (sql_delete P t))"
  unfolding sql_delete_def by (rule distinct_map_filter)

text \<open>Looking a row up by its primary key.\<close>

definition row_by :: "('r \<Rightarrow> 'k) \<Rightarrow> 'k \<Rightarrow> 'r list \<Rightarrow> 'r option" where
  "row_by key k t = find (\<lambda>r. key r = k) t"

lemma row_by_Nil [simp]: "row_by key k [] = None"
  by (simp add: row_by_def)

lemma row_by_Cons [simp]: "row_by key k (r # t) = (if key r = k then Some r else row_by key k t)"
  by (simp add: row_by_def)

lemma row_by_SomeD: "row_by key k t = Some r \<Longrightarrow> r \<in> set t \<and> key r = k"
  by (auto simp: row_by_def find_Some_iff)

lemma row_by_None: "row_by key k t = None \<longleftrightarrow> k \<notin> key ` set t"
  by (auto simp: row_by_def find_None_iff)

lemma row_by_unique:
  "distinct (map key t) \<Longrightarrow> r \<in> set t \<Longrightarrow> row_by key (key r) t = Some r"
  by (induction t) auto

lemma row_by_update_same:
  "(\<And>r. P r \<Longrightarrow> key (f r) = key r) \<Longrightarrow>
   row_by key k (sql_update P f t) = map_option (\<lambda>r. if P r then f r else r) (row_by key k t)"
  by (induction t) auto

lemma row_by_delete:
  "distinct (map key t) \<Longrightarrow>
   row_by key k (sql_delete P t) = (case row_by key k t of Some r \<Rightarrow> if P r then None else Some r | None \<Rightarrow> None)"
proof (induction t)
  case (Cons r t)
  show ?case
  proof (cases "key r = k")
    case True
    then have n: "row_by key k t = None" using Cons.prems by (simp add: row_by_None)
    then have "row_by key k (sql_delete P t) = None" using Cons by simp
    then show ?thesis using True n by (simp add: sql_delete_def)
  next
    case False
    then show ?thesis using Cons by (simp add: sql_delete_def)
  qed
qed (simp add: sql_delete_def)

lemma row_by_snoc:
  "row_by key k (t @ [r]) = (case row_by key k t of Some x \<Rightarrow> Some x | None \<Rightarrow> if key r = k then Some r else None)"
  by (induction t) auto

subsection \<open>Numbers and JSON values\<close>

datatype pyfloat = Fin real | PosInf | NegInf | NaN

datatype json =
    JNull
  | JBool bool
  | JInt int
  | JFloat pyfloat
  | JStr string
  | JList "json list"
  | JObj "(string \<times> json) list"

text \<open>\<^verbatim>\<open>obj.get(key)\<close> on a JSON object.\<close>

fun json_get :: "string \<Rightarrow> json \<Rightarrow> json option" where
  "json_get k (JObj d) = map_of d k"
| "json_get k _ = None"

definition json_opt :: "string option \<Rightarrow> json" where
  "json_opt s = (case s of None \<Rightarrow> JNull | Some x \<Rightarrow> JStr x)"

text \<open>\<^verbatim>\<open>x or ""\<close> on an optional string.\<close>

definition or_empty :: "string option \<Rightarrow> string" where
  "or_empty s = (case s of None \<Rightarrow> [] | Some x \<Rightarrow> x)"

subsection \<open>Stable sorting\<close>

lemma insort_key_snoc: "f x \<le> f z \<Longrightarrow> insort_key f x (xs @ [z]) = insort_key f x xs @ [z]"
  for f :: "'a \<Rightarrow> 'b::linorder"
  by (induction xs) auto

lemma sort_key_snoc: "\<forall>y\<in>set xs. f y \<le> f x \<Longrightarrow> sort_key f (xs @ [x]) = sort_key f xs @ [x]"
  for f :: "'a \<Rightarrow> 'b::linorder"
  by (induction xs) (simp_all add: insort_key_snoc)

lemma insort_key_map: "insort_key f (g x) (map g xs) = map g (insort_key (\<lambda>x. f (g x)) x xs)"
  for f :: "'a \<Rightarrow> 'b::linorder"
  by (induction xs) auto

lemma sort_key_map: "sort_key f (map g xs) = map g (sort_key (\<lambda>x. f (g x)) xs)"
  for f :: "'a \<Rightarrow> 'b::linorder"
  by (induction xs) (simp_all add: insort_key_map)

lemma filter_sql_update:
  "(\<And>r. P r \<Longrightarrow> Q (f r) = Q r) \<Longrightarrow> filter Q (sql_update P f t) = sql_update P f (filter Q t)"
  by (induction t) auto

lemma sort_key_sql_update:
  fixes k :: "'r \<Rightarrow> 'b::linorder"
  assumes "\<And>r. P r \<Longrightarrow> k (f r) = k r"
  shows "sort_key k (sql_update P f t) = sql_update P f (sort_key k t)"
proof -
  have "k (if P r then f r else r) = k r" for r using assms by simp
  then show ?thesis unfolding sql_update_def by (simp add: sort_key_map)
qed

text \<open>Appending under a key the dict has, and the keys of a dict of lists.\<close>

lemma dict_push_known: "k \<in> fst ` set d \<Longrightarrow> dict_push k x d = AList.map_entry k (\<lambda>xs. xs @ [x]) d"
  unfolding dict_push_def by (induction d) auto

lemma map_entry_as_map:
  "dict_ok d \<Longrightarrow> AList.map_entry k h d = map (\<lambda>(c, ys). (c, if c = k then h ys else ys)) d"
proof (induction d)
  case (Cons a d)
  have "map (\<lambda>(c, ys). (c, if c = k then h ys else ys)) d = d" if "k \<notin> fst ` set d"
    using that by (intro map_idI) force
  then show ?case using Cons by (cases a) auto
qed simp

lemma fold_push_filter:
  assumes "dict_ok d" "f ` set xs \<subseteq> fst ` set d"
  shows "fold (\<lambda>x. dict_push (f x) (g x)) xs d = map (\<lambda>(c, ys). (c, ys @ map g (filter (\<lambda>x. f x = c) xs))) d"
  using assms
proof (induction xs arbitrary: d)
  case (Cons x xs)
  have e: "dict_push (f x) (g x) d = map (\<lambda>(c, ys). (c, if c = f x then ys @ [g x] else ys)) d"
    using Cons.prems by (simp add: dict_push_known map_entry_as_map)
  have k: "map fst (dict_push (f x) (g x) d) = map fst d" unfolding e by (simp add: case_prod_beta comp_def)
  then have "fst ` set (dict_push (f x) (g x) d) = fst ` set d" by (metis list.set_map)
  then have "fold (\<lambda>x. dict_push (f x) (g x)) xs (dict_push (f x) (g x) d) =
      map (\<lambda>(c, ys). (c, ys @ map g (filter (\<lambda>x. f x = c) xs))) (dict_push (f x) (g x) d)"
    using Cons k by (intro Cons.IH) auto
  then show ?case unfolding e by (simp add: case_prod_beta comp_def e)
qed simp

subsection \<open>Loops that may raise\<close>

fun fold_err :: "('a \<Rightarrow> 's \<Rightarrow> 'e + 's) \<Rightarrow> 'a list \<Rightarrow> 's \<Rightarrow> 'e + 's" where
  "fold_err f [] s = Inr s"
| "fold_err f (x # xs) s = (case f x s of Inl e \<Rightarrow> Inl e | Inr s' \<Rightarrow> fold_err f xs s')"

lemma fold_err_invariant:
  "fold_err f xs s = Inr s' \<Longrightarrow> P s \<Longrightarrow> (\<And>x s s'. x \<in> set xs \<Longrightarrow> P s \<Longrightarrow> f x s = Inr s' \<Longrightarrow> P s') \<Longrightarrow> P s'"
proof (induction xs arbitrary: s)
  case (Cons x xs)
  obtain t where t: "f x s = Inr t" "fold_err f xs t = Inr s'" using Cons.prems(1) by (auto split: sum.splits)
  have "P t" by (rule Cons.prems(3)[OF _ Cons.prems(2) t(1)]) simp
  then show ?case using Cons.IH[OF t(2)] Cons.prems(3) by (meson list.set_intros(2))
qed simp

end
