(* ===== verification/Taxonomy.thy ===== *)
theory Taxonomy
  imports Prelude
begin

text \<open>
  The class taxonomy of \<^verbatim>\<open>app/library.py\<close>: the default classes, their
  match configuration, their match-JSON keys, the legacy renames, the per-class
  view constraints and the toolbar categories, with the consistency check the
  module runs when it is imported.
\<close>

type_synonym class_name = string
type_synonym match_config = "string \<times> real option"  \<comment> \<open>(strategy, bbox_ratio)\<close>

definition DEFAULT_CLASSES :: "class_name list" where
  "DEFAULT_CLASSES =
    [''Substrate'', ''Pin-1'', ''RingOuter'', ''RingInner'', ''LidOuter'',
     ''LidInner'', ''Lid(SideView)'', ''NovelLidOuter'', ''NovelLidFP'', ''DieArea'',
     ''DAM1'', ''DAM2'', ''FiducialCircle'', ''FiducialCross'', ''FiducialSquare'',
     ''SMD-2T'', ''C4Ball'', ''BGABall'', ''Protrusion'', ''2DBarcode'',
     ''SMD-3T'', ''SMD-8T'', ''SMD-14T'']"

definition DEPRECATED_CLASSES :: "class_name list" where
  "DEPRECATED_CLASSES = [''FiducialMark'', ''Side'', ''DAM'']"

definition CLASS_DEFAULT_MATCH_CONFIG :: "(class_name, match_config) dict" where
  "CLASS_DEFAULT_MATCH_CONFIG =
    [(''Substrate'', (''signature'', Some (1 / 10000))), (''RingOuter'', (''signature'', Some (1 / 10000))),
     (''RingInner'', (''signature'', Some (1 / 10000))), (''LidOuter'', (''signature'', Some (1 / 10000))),
     (''LidInner'', (''signature'', Some (1 / 10000))), (''Lid(SideView)'', (''signature'', Some (1 / 10000))),
     (''NovelLidOuter'', (''signature'', Some (1 / 10000))), (''NovelLidFP'', (''signature'', Some (1 / 10000))),
     (''Pin-1'', (''signature'', Some (5 / 10000))), (''DieArea'', (''signature'', Some (5 / 10000))),
     (''DAM1'', (''signature'', Some (5 / 10000))), (''DAM2'', (''signature'', Some (5 / 10000)))]"

definition CLASS_JSON_KEY :: "(class_name, string) dict" where
  "CLASS_JSON_KEY =
    [(''Substrate'', ''substrate''), (''Pin-1'', ''pin_1''), (''RingOuter'', ''ring_outer''),
     (''RingInner'', ''ring_inner''), (''LidOuter'', ''lid_outer''), (''LidInner'', ''lid_inner''),
     (''Lid(SideView)'', ''lid_side_view''), (''NovelLidOuter'', ''novel_lid_outer''), (''NovelLidFP'', ''novel_lid_fp''),
     (''DieArea'', ''die_area''), (''DAM1'', ''dam1''), (''DAM2'', ''dam2''),
     (''FiducialCircle'', ''fiducial_circle''), (''FiducialCross'', ''fiducial_cross''), (''FiducialSquare'', ''fiducial_square''),
     (''SMD-2T'', ''smd_2t''), (''C4Ball'', ''c4_ball''), (''BGABall'', ''bga_ball''),
     (''Protrusion'', ''protrusion''), (''2DBarcode'', ''2d_barcode''), (''SMD-3T'', ''smd_3t''),
     (''SMD-8T'', ''smd_8t''), (''SMD-14T'', ''smd_14t'')]"

definition LEGACY_CLASS_RENAME :: "(class_name, class_name) dict" where
  "LEGACY_CLASS_RENAME =
    [(''smd'', ''SMD-2T''), (''substrate'', ''Substrate''), (''die_area'', ''DieArea''),
     (''lid_outer'', ''LidOuter''), (''lid_inner'', ''LidInner''), (''bga_ball'', ''BGABall''),
     (''pin_mark'', ''Pin-1''), (''2d_barcode'', ''2DBarcode'')]"

definition CLASS_VIEW_CONSTRAINTS :: "(class_name, string list) dict" where
  "CLASS_VIEW_CONSTRAINTS =
    [(''C4Ball'', [''top_view'']), (''BGABall'', [''bottom_view'']),
     (''FiducialCircle'', [''top_view'']), (''FiducialCross'', [''top_view'', ''bottom_view'']),
     (''FiducialSquare'', [''top_view'', ''bottom_view'']), (''SMD-2T'', [''top_view'', ''bottom_view'']),
     (''SMD-3T'', [''top_view'', ''bottom_view'']), (''SMD-8T'', [''top_view'', ''bottom_view'']),
     (''SMD-14T'', [''top_view'', ''bottom_view''])]"

definition is_allowed_view :: "class_name \<Rightarrow> string option \<Rightarrow> bool" where
  "is_allowed_view class_name view =
     (case map_of CLASS_VIEW_CONSTRAINTS class_name of
        None \<Rightarrow> True
      | Some allowed \<Rightarrow> (case view of None \<Rightarrow> False | Some v \<Rightarrow> v \<in> set allowed))"

definition CLASS_CATEGORY :: "(class_name, string) dict" where
  "CLASS_CATEGORY =
    [(''Substrate'', ''structure''), (''DieArea'', ''structure''), (''DAM1'', ''structure''),
     (''DAM2'', ''structure''), (''RingOuter'', ''structure''), (''RingInner'', ''structure''),
     (''LidOuter'', ''structure''), (''LidInner'', ''structure''), (''Lid(SideView)'', ''structure''),
     (''NovelLidOuter'', ''structure''), (''NovelLidFP'', ''structure''), (''Protrusion'', ''structure''),
     (''C4Ball'', ''balls''), (''BGABall'', ''balls''), (''SMD-2T'', ''smd''),
     (''SMD-3T'', ''smd''), (''SMD-8T'', ''smd''), (''SMD-14T'', ''smd''),
     (''FiducialCircle'', ''marks''), (''FiducialCross'', ''marks''), (''FiducialSquare'', ''marks''),
     (''Pin-1'', ''marks''), (''2DBarcode'', ''marks'')]"

definition CLASS_CATEGORY_ORDER :: "(string \<times> string) list" where
  "CLASS_CATEGORY_ORDER =
    [(''structure'', ''Structure''), (''balls'', ''Balls & Bumps''),
     (''smd'', ''SMD Pads''), (''marks'', ''Fiducials & Marks'')]"

text \<open>The import-time check: both difference sets empty, or a \<^verbatim>\<open>ValueError\<close>.\<close>

datatype taxonomy_error = Uncategorised "string list" | UnknownCategory "string list"

definition taxonomy_check ::
  "class_name list \<Rightarrow> (class_name, string) dict \<Rightarrow> (string \<times> string) list \<Rightarrow> taxonomy_error + unit"
where
  "taxonomy_check classes category order =
     (let uncategorised = filter (\<lambda>c. c \<notin> fst ` set category) classes;
          order_keys = map fst order;
          unknown = filter (\<lambda>k. k \<notin> set order_keys) (map snd category)
      in if uncategorised \<noteq> [] then Inl (Uncategorised (sort (remdups uncategorised)))
         else if unknown \<noteq> [] then Inl (UnknownCategory (sort (remdups unknown)))
         else Inr ())"

text \<open>\<^verbatim>\<open>CLASS_JSON_KEY.get(name, name)\<close>, as the serialisers use it.\<close>

definition class_json_key :: "class_name \<Rightarrow> string" where
  "class_json_key c = (case map_of CLASS_JSON_KEY c of Some k \<Rightarrow> k | None \<Rightarrow> c)"

lemmas taxonomy_defs =
  DEFAULT_CLASSES_def DEPRECATED_CLASSES_def CLASS_DEFAULT_MATCH_CONFIG_def CLASS_JSON_KEY_def
  LEGACY_CLASS_RENAME_def CLASS_VIEW_CONSTRAINTS_def CLASS_CATEGORY_def CLASS_CATEGORY_ORDER_def

lemma map_of_notin: "k \<notin> fst ` set d \<Longrightarrow> map_of d k = None"
  by (simp add: map_of_eq_None_iff)

lemma is_allowed_view_None:
  "is_allowed_view c None \<longleftrightarrow> c \<notin> fst ` set CLASS_VIEW_CONSTRAINTS"
  unfolding is_allowed_view_def map_of_eq_None_iff[symmetric] by (simp split: option.splits)

lemma is_allowed_view_unconstrained:
  "c \<notin> fst ` set CLASS_VIEW_CONSTRAINTS \<Longrightarrow> is_allowed_view c v"
  unfolding is_allowed_view_def map_of_eq_None_iff[symmetric] by simp

lemma class_json_key_distinct: "distinct (map class_json_key DEFAULT_CLASSES)"
  by code_simp

lemma class_json_key_no_dot:
  "c \<in> set DEFAULT_CLASSES \<Longrightarrow> CHR ''.'' \<notin> set (class_json_key c)"
proof -
  have "\<forall>c\<in>set DEFAULT_CLASSES. CHR ''.'' \<notin> set (class_json_key c)" by code_simp
  then show "c \<in> set DEFAULT_CLASSES \<Longrightarrow> CHR ''.'' \<notin> set (class_json_key c)" by blast
qed

text \<open>The check succeeds exactly when every class has a category and every category an order key.\<close>

lemma taxonomy_check_ok:
  "taxonomy_check classes category order = Inr () \<longleftrightarrow>
     set classes \<subseteq> fst ` set category \<and> snd ` set category \<subseteq> fst ` set order"
  by (auto simp: taxonomy_check_def Let_def filter_empty_conv)

end
