(* ===== verification/SideRegions.thy ===== *)
theory SideRegions
  imports Taxonomy
begin

text \<open>
  \<^verbatim>\<open>app/side_regions.py\<close>: the match-JSON keys, the grouping of a template's
  match instances by the painted view rectangles, and the suppression of
  instances contained in a larger instance of the same class.  A match-JSON dict
  is an association list from keys to instances, an instance the list of its
  DXF handles; a frozenset of handles is its sorted list without duplicates.
\<close>

type_synonym handle = string
type_synonym match_out = "(string, handle list list) dict"

subsection \<open>Keys\<close>

definition VIEW_PREFIXES :: "string list" where
  "VIEW_PREFIXES = [''top_view'', ''bottom_view'', ''side_view'']"

definition parse_match_key :: "string \<Rightarrow> (string option \<times> string \<times> int) option" where
  "parse_match_key key =
     (let parts = split_on CHR ''.'' key in
      if length parts < 2 then None
      else case py_int (last parts) of
             None \<Rightarrow> None
           | Some idx \<Rightarrow>
               (let head = butlast parts in
                if 2 \<le> length head \<and> hd head \<in> set VIEW_PREFIXES
                then Some (Some (hd head), join_on ''.'' (tl head), idx)
                else Some (None, join_on ''.'' head, idx)))"

text \<open>The keys the serialisers emit: \<^verbatim>\<open>f"{snake}.{idx}"\<close>, with the view in front.\<close>

definition base_match_key :: "string \<Rightarrow> nat \<Rightarrow> string" where
  "base_match_key snake idx = snake @ ''.'' @ str_of_nat idx"

definition prefixed_key :: "string option \<Rightarrow> string \<Rightarrow> string" where
  "prefixed_key prefix base = (case prefix of Some p \<Rightarrow> p @ ''.'' @ base | None \<Rightarrow> base)"

subsection \<open>Suppression of contained instances\<close>

record pool_item =
  it_key :: string
  it_pos :: nat
  it_idx :: int
  it_set :: "handle list"

definition frozen :: "handle list \<Rightarrow> handle list" where
  "frozen hs = sort (remdups hs)"

definition pool_key_items :: "string \<Rightarrow> int \<Rightarrow> handle list list \<Rightarrow> pool_item list" where
  "pool_key_items key idx instances =
     map (\<lambda>(pos, handles). \<lparr>it_key = key, it_pos = pos, it_idx = idx, it_set = frozen handles\<rparr>)
       (filter (\<lambda>(pos, handles). handles \<noteq> []) (enumerate 0 instances))"

definition pool_instances :: "match_out \<Rightarrow> (string, pool_item list) dict" where
  "pool_instances out =
     fold (\<lambda>(key, instances) pools.
             case parse_match_key key of
               None \<Rightarrow> pools
             | Some (_, snake, idx) \<Rightarrow>
                 fold (\<lambda>it pools. dict_push snake it pools) (pool_key_items key idx instances) pools)
       out []"

text \<open>The ordering of the duplicates of one handle set: (idx, key, position).\<close>

definition item_rank :: "pool_item \<Rightarrow> int \<times> string \<times> nat" where
  "item_rank it = (it_idx it, it_key it, it_pos it)"

definition item_ref :: "pool_item \<Rightarrow> string \<times> nat" where
  "item_ref it = (it_key it, it_pos it)"

definition dup_groups :: "pool_item list \<Rightarrow> pool_item list list" where
  "dup_groups items = map (sort_key item_rank \<circ> snd) (group_by it_set items)"

definition handle_index :: "pool_item list \<Rightarrow> (handle, nat list) dict" where
  "handle_index reps =
     fold (\<lambda>(ri, it) idx. fold (\<lambda>h idx. dict_push h ri idx) (it_set it) idx) (enumerate 0 reps) []"

definition contained_in_larger :: "pool_item list \<Rightarrow> nat \<Rightarrow> bool" where
  "contained_in_larger reps i =
     (let index = handle_index reps;
          set_i = it_set (reps ! i);
          rarest = min_by (\<lambda>h. length (dict_list index h)) set_i
      in list_ex (\<lambda>j. j \<noteq> i \<and> set set_i \<subset> set (it_set (reps ! j))) (dict_list index rarest))"

definition removed_of_pool :: "pool_item list \<Rightarrow> (string \<times> nat) list" where
  "removed_of_pool items =
     (let groups = dup_groups items;
          reps = map hd groups
      in map item_ref (concat (map tl groups)) @
         map (\<lambda>i. item_ref (reps ! i)) (filter (contained_in_larger reps) [0..<length reps]))"

definition drop_removed :: "(string \<times> nat) list \<Rightarrow> match_out \<Rightarrow> match_out" where
  "drop_removed removed out =
     filter (\<lambda>(key, kept). kept \<noteq> [])
       (map (\<lambda>(key, instances).
               (key, map snd (filter (\<lambda>(pos, handles). (key, pos) \<notin> set removed) (enumerate 0 instances))))
         out)"

definition suppress_contained_matches :: "bool \<Rightarrow> match_out \<Rightarrow> match_out" where
  "suppress_contained_matches enabled out =
     (if \<not> enabled then out
      else let removed = concat (map (removed_of_pool \<circ> snd) (pool_instances out)) in
           if removed = [] then out else drop_removed removed out)"

subsection \<open>View rectangles\<close>

record rect =
  x0 :: real
  y0 :: real
  x1 :: real
  y1 :: real

definition normalise_rect :: "rect \<Rightarrow> rect" where
  "normalise_rect r =
     (let (a, b) = (if x0 r > x1 r then (x1 r, x0 r) else (x0 r, x1 r));
          (c, d) = (if y0 r > y1 r then (y1 r, y0 r) else (y0 r, y1 r))
      in \<lparr>x0 = a, y0 = c, x1 = b, y1 = d\<rparr>)"

definition point_in_rect :: "real \<times> real \<Rightarrow> rect option \<Rightarrow> bool" where
  "point_in_rect p rc =
     (case rc of
        None \<Rightarrow> False
      | Some r \<Rightarrow> x0 r \<le> fst p \<and> fst p \<le> x1 r \<and> y0 r \<le> snd p \<and> snd p \<le> y1 r)"

type_synonym shape_points = "handle \<Rightarrow> (real \<times> real) list option"

text \<open>The running box; \<^verbatim>\<open>None\<close> is the initial one at infinity, with nothing found.\<close>

definition grow_bbox :: "rect option \<Rightarrow> real \<times> real \<Rightarrow> rect option" where
  "grow_bbox b p =
     (case b of
        None \<Rightarrow> Some \<lparr>x0 = fst p, y0 = snd p, x1 = fst p, y1 = snd p\<rparr>
      | Some r \<Rightarrow> Some \<lparr>x0 = min (x0 r) (fst p), y0 = min (y0 r) (snd p),
                       x1 = max (x1 r) (fst p), y1 = max (y1 r) (snd p)\<rparr>)"

definition bbox_center :: "handle list \<Rightarrow> shape_points \<Rightarrow> (real \<times> real) option" where
  "bbox_center handles shapes =
     map_option (\<lambda>r. ((x0 r + x1 r) * (1 / 2), (y0 r + y1 r) * (1 / 2)))
       (foldl (\<lambda>b h. case shapes h of
                       None \<Rightarrow> b
                     | Some pts \<Rightarrow> foldl grow_bbox b pts) None handles)"

definition side_prefix_for ::
  "handle list \<Rightarrow> shape_points \<Rightarrow> rect option \<Rightarrow> rect option \<Rightarrow> rect option \<Rightarrow> string option" where
  "side_prefix_for handles shapes top_view bottom_view side_view =
     (if top_view = None \<and> bottom_view = None \<and> side_view = None then None
      else case bbox_center handles shapes of
             None \<Rightarrow> None
           | Some center \<Rightarrow>
               if point_in_rect center top_view then Some ''top_view''
               else if point_in_rect center bottom_view then Some ''bottom_view''
               else if point_in_rect center side_view then Some ''side_view''
               else None)"

type_synonym view_counts = "(string, nat) dict"

definition no_counts :: view_counts where
  "no_counts = [(''top_view'', 0), (''bottom_view'', 0), (''side_view'', 0),
                (''unassigned'', 0), (''dropped'', 0)]"

definition count_up :: "string \<Rightarrow> view_counts \<Rightarrow> view_counts" where
  "count_up k counts = map (\<lambda>(k', n). (k', if k' = k then n + 1 else n)) counts"

definition split_step ::
  "string \<Rightarrow> shape_points \<Rightarrow> rect option \<Rightarrow> rect option \<Rightarrow> rect option \<Rightarrow> class_name
     \<Rightarrow> match_out \<times> view_counts \<Rightarrow> handle list \<Rightarrow> match_out \<times> view_counts" where
  "split_step base_key shapes top_view bottom_view side_view class_name = (\<lambda>(out, counts) handles.
     (let prefix = side_prefix_for handles shapes top_view bottom_view side_view in
      if \<not> is_allowed_view class_name prefix then (out, count_up ''dropped'' counts)
      else (dict_push (prefixed_key prefix base_key) handles out,
            count_up (case prefix of Some p \<Rightarrow> p | None \<Rightarrow> ''unassigned'') counts)))"

definition split_matches_by_side ::
  "string \<Rightarrow> handle list list \<Rightarrow> shape_points \<Rightarrow> rect option \<Rightarrow> rect option \<Rightarrow> rect option
     \<Rightarrow> class_name \<Rightarrow> match_out \<times> view_counts" where
  "split_matches_by_side base_key matches shapes top_view bottom_view side_view class_name =
     foldl (split_step base_key shapes top_view bottom_view side_view class_name) ([], no_counts) matches"

subsection \<open>Suppression is the naive proper-subset rule\<close>

lemma set_frozen [simp]: "set (frozen hs) = set hs"
  by (simp add: frozen_def)

lemma frozen_eq_iff: "frozen hs = frozen hs' \<longleftrightarrow> set hs = set hs'"
proof
  assume "set hs = set hs'"
  then show "frozen hs = frozen hs'"
    unfolding frozen_def by (intro sorted_distinct_set_unique) auto
qed (metis set_frozen)

text \<open>The reverse index: the positions filed under a handle are those of the
  representatives holding it.\<close>

lemma handle_index_push:
  "j \<in> set (dict_list (fold (\<lambda>h idx. dict_push h ri idx) hs d) h) \<longleftrightarrow>
     j \<in> set (dict_list d h) \<or> (j = ri \<and> h \<in> set hs)"
  by (induction hs arbitrary: d) auto

lemma handle_index_fold:
  "j \<in> set (dict_list (fold (\<lambda>(ri, it) idx. fold (\<lambda>h idx. dict_push h ri idx) (it_set it) idx) es d) h) \<longleftrightarrow>
     j \<in> set (dict_list d h) \<or> (\<exists>it. (j, it) \<in> set es \<and> h \<in> set (it_set it))"
  by (induction es arbitrary: d) (auto simp: handle_index_push)

lemma handle_index_iff:
  "j \<in> set (dict_list (handle_index reps) h) \<longleftrightarrow> j < length reps \<and> h \<in> set (it_set (reps ! j))"
  unfolding handle_index_def handle_index_fold by (auto simp: in_set_enumerate_eq)

text \<open>Whichever handle of the set is used as the pivot, the scan of its bucket
  finds exactly the proper supersets: a superset holds every handle.\<close>

lemma pivot_scan_any_handle:
  assumes "h \<in> set (it_set (reps ! i))"
  shows "list_ex (\<lambda>j. j \<noteq> i \<and> set (it_set (reps ! i)) \<subset> set (it_set (reps ! j)))
           (dict_list (handle_index reps) h) \<longleftrightarrow>
         (\<exists>it\<in>set reps. set (it_set (reps ! i)) \<subset> set (it_set it))"
  (is "?L \<longleftrightarrow> ?R")
proof
  assume ?L
  then obtain j where "j < length reps" "set (it_set (reps ! i)) \<subset> set (it_set (reps ! j))"
    unfolding list_ex_iff by (metis handle_index_iff)
  then show ?R by (intro bexI[OF _ nth_mem])
next
  assume ?R
  then obtain j where j: "j < length reps" "set (it_set (reps ! i)) \<subset> set (it_set (reps ! j))"
    by (metis in_set_conv_nth)
  then have "j \<noteq> i" "h \<in> set (it_set (reps ! j))" using assms by auto
  then have "j \<in> set (dict_list (handle_index reps) h)" using j by (simp add: handle_index_iff)
  then show ?L unfolding list_ex_iff by (rule bexI[rotated]) (simp add: j \<open>j \<noteq> i\<close>)
qed

lemma contained_in_larger_iff:
  assumes "it_set (reps ! i) \<noteq> []"
  shows "contained_in_larger reps i \<longleftrightarrow> (\<exists>it\<in>set reps. set (it_set (reps ! i)) \<subset> set (it_set it))"
  unfolding contained_in_larger_def Let_def
  by (rule pivot_scan_any_handle) (rule min_by_in[OF assms])

definition superseded_item :: "pool_item list \<Rightarrow> pool_item \<Rightarrow> bool" where
  "superseded_item items it \<longleftrightarrow>
     (\<exists>it'\<in>set items. set (it_set it) \<subset> set (it_set it') \<or>
        (it_set it' = it_set it \<and> item_rank it' < item_rank it))"

lemma dup_groups_iff:
  "g \<in> set (dup_groups items) \<longleftrightarrow>
     (\<exists>it\<in>set items. g = sort_key item_rank (filter (\<lambda>x. it_set x = it_set it) items))"
proof -
  have "set (dup_groups items) = sort_key item_rank ` snd ` set (group_by it_set items)"
    by (simp add: dup_groups_def image_comp)
  then show ?thesis unfolding group_by_groups by auto
qed

lemma item_rank_inj: "inj_on item_ref A \<Longrightarrow> inj_on item_rank A"
  by (auto simp: inj_on_def item_ref_def item_rank_def)

text \<open>In a group of equal handle sets the head has the least rank, and the tail
  are the items some other one precedes.\<close>

lemma group_hd_tl:
  fixes items :: "pool_item list"
  assumes inj: "inj_on item_rank (set items)" and d: "distinct items" and it: "it \<in> set items"
  defines "g \<equiv> sort_key item_rank (filter (\<lambda>x. it_set x = it_set it) items)"
  shows "it = hd g \<longleftrightarrow> (\<forall>it'\<in>set items. it_set it' = it_set it \<longrightarrow> item_rank it \<le> item_rank it')"
    and "it \<in> set (tl g) \<longleftrightarrow> (\<exists>it'\<in>set items. it_set it' = it_set it \<and> item_rank it' < item_rank it)"
    and "hd g \<in> set items" and "it_set (hd g) = it_set it" and "g \<noteq> []"
proof -
  have mem: "it \<in> set g" using it by (simp add: g_def)
  then show ne: "g \<noteq> []" by auto
  have dg: "distinct g" using d by (simp add: g_def)
  have hd: "hd g \<in> set g" using ne by simp
  then show hi: "hd g \<in> set items" and hs: "it_set (hd g) = it_set it" by (auto simp: g_def)
  have least: "item_rank (hd g) \<le> item_rank x" if "x \<in> set items" "it_set x = it_set it" for x
    unfolding g_def by (rule sort_key_hd_min) (use that in simp)
  show 1: "it = hd g \<longleftrightarrow> (\<forall>it'\<in>set items. it_set it' = it_set it \<longrightarrow> item_rank it \<le> item_rank it')"
    using least hi hs it inj by (metis inj_onD order_antisym)
  have "it \<in> set (tl g) \<longleftrightarrow> it \<noteq> hd g"
    using mem dg ne by (cases g) auto
  then show "it \<in> set (tl g) \<longleftrightarrow> (\<exists>it'\<in>set items. it_set it' = it_set it \<and> item_rank it' < item_rank it)"
    using 1 by (auto simp: not_le)
qed

text \<open>The heads of the groups are the first items of each handle set, the tails the others.\<close>

lemma group_of_mem: "it \<in> set items \<Longrightarrow> sort_key item_rank (filter (\<lambda>x. it_set x = it_set it) items) \<in> set (dup_groups items)"
  using dup_groups_iff by blast

lemma dup_heads_iff:
  assumes "inj_on item_rank (set items)" "distinct items"
  shows "x \<in> set (map hd (dup_groups items)) \<longleftrightarrow>
    x \<in> set items \<and> (\<forall>y\<in>set items. it_set y = it_set x \<longrightarrow> item_rank x \<le> item_rank y)"
proof
  assume "x \<in> set (map hd (dup_groups items))"
  then obtain y where y: "y \<in> set items"
      "x = hd (sort_key item_rank (filter (\<lambda>z. it_set z = it_set y) items))"
    by (auto simp: dup_groups_iff)
  have x: "x \<in> set items" "it_set x = it_set y" using group_hd_tl(3,4)[OF assms y(1)] y(2) by simp_all
  then show "x \<in> set items \<and> (\<forall>y\<in>set items. it_set y = it_set x \<longrightarrow> item_rank x \<le> item_rank y)"
    using group_hd_tl(1)[OF assms x(1)] y(2) by simp
next
  assume x: "x \<in> set items \<and> (\<forall>y\<in>set items. it_set y = it_set x \<longrightarrow> item_rank x \<le> item_rank y)"
  then have "x = hd (sort_key item_rank (filter (\<lambda>z. it_set z = it_set x) items))"
    using group_hd_tl(1)[OF assms] by blast
  then show "x \<in> set (map hd (dup_groups items))"
    unfolding set_map using x group_of_mem by (metis imageI)
qed

lemma dup_tails_iff:
  assumes "inj_on item_rank (set items)" "distinct items"
  shows "x \<in> set (concat (map tl (dup_groups items))) \<longleftrightarrow>
    x \<in> set items \<and> (\<exists>y\<in>set items. it_set y = it_set x \<and> item_rank y < item_rank x)"
proof
  assume "x \<in> set (concat (map tl (dup_groups items)))"
  then obtain y where y: "y \<in> set items"
      "x \<in> set (tl (sort_key item_rank (filter (\<lambda>z. it_set z = it_set y) items)))"
    by (auto simp: dup_groups_iff)
  have "x \<in> set (sort_key item_rank (filter (\<lambda>z. it_set z = it_set y) items))"
    using y(2) by (rule in_set_tlD)
  then have x: "x \<in> set items" "it_set x = it_set y" by auto
  then show "x \<in> set items \<and> (\<exists>y\<in>set items. it_set y = it_set x \<and> item_rank y < item_rank x)"
    using group_hd_tl(2)[OF assms x(1)] y(2) by simp
next
  assume x: "x \<in> set items \<and> (\<exists>y\<in>set items. it_set y = it_set x \<and> item_rank y < item_rank x)"
  then have "x \<in> set (tl (sort_key item_rank (filter (\<lambda>z. it_set z = it_set x) items)))"
    using group_hd_tl(2)[OF assms] by blast
  then show "x \<in> set (concat (map tl (dup_groups items)))"
    unfolding set_concat set_map using x group_of_mem by blast
qed

lemma dup_heads_cover:
  assumes "inj_on item_rank (set items)" "distinct items" "y \<in> set items"
  shows "\<exists>z\<in>set (map hd (dup_groups items)). it_set z = it_set y"
  using group_hd_tl(4)[OF assms] group_of_mem[OF assms(3)] by (metis imageI list.set_map)

lemma removed_of_pool_mem:
  "r \<in> set (removed_of_pool items) \<longleftrightarrow>
     (\<exists>x\<in>set (concat (map tl (dup_groups items))). r = item_ref x) \<or>
     (\<exists>i<length (map hd (dup_groups items)). contained_in_larger (map hd (dup_groups items)) i \<and>
        r = item_ref (map hd (dup_groups items) ! i))"
  unfolding removed_of_pool_def Let_def set_append set_map set_filter by auto

lemma removed_of_pool_iff:
  assumes inj: "inj_on item_ref (set items)" and d: "distinct items"
    and ne: "\<forall>it\<in>set items. it_set it \<noteq> []" and it: "it \<in> set items"
  shows "item_ref it \<in> set (removed_of_pool items) \<longleftrightarrow> superseded_item items it"
proof -
  note rk = item_rank_inj[OF inj]
  let ?reps = "map hd (dup_groups items)"
  note heads = dup_heads_iff[OF rk d] and tails = dup_tails_iff[OF rk d] and cover = dup_heads_cover[OF rk d]
  have sub: "contained_in_larger ?reps i \<longleftrightarrow> (\<exists>y\<in>set items. set (it_set (?reps ! i)) \<subset> set (it_set y))"
    if "i < length ?reps" for i
  proof -
    have "?reps ! i \<in> set items" using nth_mem[OF that] heads by blast
    then have "it_set (?reps ! i) \<noteq> []" using ne by blast
    then show ?thesis using contained_in_larger_iff[of ?reps i] cover heads by metis
  qed
  have same: "item_ref it = item_ref x \<Longrightarrow> x \<in> set items \<Longrightarrow> x = it" for x
    using inj it by (metis inj_onD)
  have "item_ref it \<in> set (removed_of_pool items) \<longleftrightarrow>
      it \<in> set (concat (map tl (dup_groups items))) \<or>
      (it \<in> set ?reps \<and> (\<exists>y\<in>set items. set (it_set it) \<subset> set (it_set y)))"
    unfolding removed_of_pool_mem using same sub heads tails by (metis in_set_conv_nth)
  also have "\<dots> \<longleftrightarrow> superseded_item items it"
    unfolding tails heads superseded_item_def using it by (meson not_le)
  finally show ?thesis .
qed

subsection \<open>The pools\<close>

definition keyed_items :: "match_out \<Rightarrow> (string \<times> pool_item) list" where
  "keyed_items out =
     concat (map (\<lambda>(key, instances).
                    case parse_match_key key of
                      None \<Rightarrow> []
                    | Some (_, snake, idx) \<Rightarrow> map (Pair snake) (pool_key_items key idx instances)) out)"

lemma pool_instances_keyed:
  "pool_instances out = fold (\<lambda>x. dict_push (fst x) (snd x)) (keyed_items out) []"
proof -
  have inner: "fold (\<lambda>it pools. dict_push snake it pools) its d =
      fold (\<lambda>x. dict_push (fst x) (snd x)) (map (Pair snake) its) d" for snake its and d :: "(string, pool_item list) dict"
    by (induction its arbitrary: d) auto
  have "fold (\<lambda>(key, instances) pools.
             case parse_match_key key of
               None \<Rightarrow> pools
             | Some (_, snake, idx) \<Rightarrow>
                 fold (\<lambda>it pools. dict_push snake it pools) (pool_key_items key idx instances) pools)
       out d = fold (\<lambda>x. dict_push (fst x) (snd x)) (keyed_items out) d" for d
    by (induction out arbitrary: d) (auto simp: keyed_items_def inner split: option.splits)
  then show ?thesis by (simp add: pool_instances_def)
qed

lemma pool_key_items_iff:
  "it \<in> set (pool_key_items key idx instances) \<longleftrightarrow>
     (\<exists>pos < length instances. instances ! pos \<noteq> [] \<and>
        it = \<lparr>it_key = key, it_pos = pos, it_idx = idx, it_set = frozen (instances ! pos)\<rparr>)"
  by (auto simp: pool_key_items_def image_iff in_set_enumerate_eq)

lemma keyed_items_iff:
  "(snake, it) \<in> set (keyed_items out) \<longleftrightarrow>
     (\<exists>instances prefix. (it_key it, instances) \<in> set out \<and>
        parse_match_key (it_key it) = Some (prefix, snake, it_idx it) \<and>
        it_pos it < length instances \<and> instances ! it_pos it \<noteq> [] \<and>
        it_set it = frozen (instances ! it_pos it))"
  by (auto simp: keyed_items_def pool_key_items_iff image_iff split: option.splits)
     (metis (mono_tags, lifting) pool_item.surjective old.unit.exhaust case_prodI option.sel)+

lemma keyed_items_inj:
  assumes "dict_ok out" "(s, a) \<in> set (keyed_items out)" "(t, b) \<in> set (keyed_items out)"
    "item_ref a = item_ref b"
  shows "s = t \<and> a = b"
  using assms unfolding keyed_items_iff item_ref_def
  by (auto simp: eq_key_imp_eq_value intro!: pool_item.equality dest!: map_of_is_SomeI[OF assms(1)])

lemma distinct_keyed_items: "dict_ok out \<Longrightarrow> distinct (keyed_items out)"
proof (induction out)
  case (Cons kv out)
  obtain key instances where kv: "kv = (key, instances)" by (cases kv)
  have "distinct (pool_key_items key idx instances)" for idx
    unfolding pool_key_items_def distinct_map
    by (intro conjI distinct_filter distinct_enumerate) (auto simp: inj_on_def in_set_enumerate_eq)
  then have h: "distinct (case parse_match_key key of None \<Rightarrow> []
      | Some (_, snake, idx) \<Rightarrow> map (Pair snake) (pool_key_items key idx instances))" (is "distinct ?b")
    by (auto simp: distinct_map inj_on_def split: option.splits)
  have b: "it_key (snd x) = key" if "x \<in> set ?b" for x
    using that by (auto simp: pool_key_items_iff split: option.splits)
  have o: "it_key (snd x) \<noteq> key" if "x \<in> set (keyed_items out)" for x
  proof -
    have "(it_key (snd x)) \<in> fst ` set out"
      using that keyed_items_iff[of "fst x" "snd x" out] by force
    then show ?thesis using Cons.prems kv by auto
  qed
  have e: "keyed_items (kv # out) = ?b @ keyed_items out" by (simp add: keyed_items_def kv)
  have "distinct (keyed_items out)" using Cons by simp
  then show ?case unfolding e distinct_append using h b o by blast
qed (simp add: keyed_items_def)

text \<open>The rule as the documentation states it, over instances: an instance is superseded
  by a same-class one whose handles properly include its own, or by an earlier one
  with the same handles.\<close>

definition supersedes :: "string \<times> nat \<times> handle list \<Rightarrow> string \<times> nat \<times> handle list \<Rightarrow> bool" where
  "supersedes b a \<longleftrightarrow>
     (case (a, b) of ((key, pos, hs), (key', pos', hs')) \<Rightarrow>
        hs \<noteq> [] \<and> hs' \<noteq> [] \<and>
        (case (parse_match_key key, parse_match_key key') of
           (Some (_, snake, idx), Some (_, snake', idx')) \<Rightarrow>
             snake = snake' \<and>
             (set hs \<subset> set hs' \<or> set hs = set hs' \<and> (idx', key', pos') < (idx, key, pos))
         | _ \<Rightarrow> False))"

definition instance_list :: "match_out \<Rightarrow> (string \<times> nat \<times> handle list) list" where
  "instance_list out =
     concat (map (\<lambda>(key, instances). map (\<lambda>(pos, hs). (key, pos, hs)) (enumerate 0 instances)) out)"

definition superseded :: "match_out \<Rightarrow> string \<times> nat \<times> handle list \<Rightarrow> bool" where
  "superseded out a \<longleftrightarrow> list_ex (\<lambda>b. supersedes b a) (instance_list out)"

definition drop_superseded :: "match_out \<Rightarrow> match_out" where
  "drop_superseded out =
     filter (\<lambda>(key, kept). kept \<noteq> [])
       (map (\<lambda>(key, instances).
               (key, map snd (filter (\<lambda>(pos, hs). \<not> superseded out (key, pos, hs)) (enumerate 0 instances))))
         out)"

lemma instance_list_iff:
  "(key, pos, hs) \<in> set (instance_list out) \<longleftrightarrow>
     (\<exists>instances. (key, instances) \<in> set out \<and> pos < length instances \<and> instances ! pos = hs)"
proof -
  have "(key, pos, hs) \<in> set (instance_list out) \<longleftrightarrow>
      (\<exists>instances. (key, instances) \<in> set out \<and> (pos, hs) \<in> set (enumerate 0 instances))"
    unfolding instance_list_def by force
  then show ?thesis by (simp add: in_set_enumerate_eq)
qed

lemma pool_entry:
  "(snake, items) \<in> set (pool_instances out) \<longleftrightarrow>
     snake \<in> fst ` set (keyed_items out) \<and>
     items = map snd (filter (\<lambda>x. fst x = snake) (keyed_items out))"
  unfolding pool_instances_keyed by (rule fold_push_entry)

lemma pool_member:
  "it \<in> set (map snd (filter (\<lambda>x. fst x = snake) xs)) \<longleftrightarrow> (snake, it) \<in> set xs"
  by force

text \<open>An instance of the dict as a pooled item.\<close>

lemma item_of_instance:
  assumes "(key, pos, hs) \<in> set (instance_list out)" "hs \<noteq> []"
    "parse_match_key key = Some (prefix, snake, idx)"
  shows "(snake, \<lparr>it_key = key, it_pos = pos, it_idx = idx, it_set = frozen hs\<rparr>) \<in> set (keyed_items out)"
  using assms by (auto simp: keyed_items_iff instance_list_iff)

lemma instance_of_item:
  assumes "(snake, it) \<in> set (keyed_items out)"
  obtains prefix hs where "(it_key it, it_pos it, hs) \<in> set (instance_list out)" "hs \<noteq> []"
    "parse_match_key (it_key it) = Some (prefix, snake, it_idx it)" "it_set it = frozen hs"
  using assms by (auto simp: keyed_items_iff instance_list_iff)

lemma superseded_iff_item:
  assumes "(key, pos, hs) \<in> set (instance_list out)" "hs \<noteq> []"
    "parse_match_key key = Some (prefix, snake, idx)"
  shows "superseded out (key, pos, hs) \<longleftrightarrow>
    superseded_item (map snd (filter (\<lambda>x. fst x = snake) (keyed_items out)))
      \<lparr>it_key = key, it_pos = pos, it_idx = idx, it_set = frozen hs\<rparr>"
    (is "?L \<longleftrightarrow> superseded_item ?items ?it")
proof
  assume ?L
  then obtain key' pos' hs' where b: "(key', pos', hs') \<in> set (instance_list out)"
      "supersedes (key', pos', hs') (key, pos, hs)"
    unfolding superseded_def list_ex_iff by (metis prod_cases3)
  then obtain prefix' idx' where k: "parse_match_key key' = Some (prefix', snake, idx')" "hs' \<noteq> []"
      "set hs \<subset> set hs' \<or> set hs = set hs' \<and> (idx', key', pos') < (idx, key, pos)"
    using assms(3) by (auto simp: supersedes_def split: option.splits)
  let ?b = "\<lparr>it_key = key', it_pos = pos', it_idx = idx', it_set = frozen hs'\<rparr>"
  have "?b \<in> set ?items" unfolding pool_member by (rule item_of_instance) (use b k in auto)
  then show "superseded_item ?items ?it"
    unfolding superseded_item_def using k(3) by (intro bexI[of _ ?b]) (auto simp: item_rank_def frozen_eq_iff)
next
  assume "superseded_item ?items ?it"
  then obtain b where b: "(snake, b) \<in> set (keyed_items out)"
     "set hs \<subset> set (it_set b) \<or> it_set b = frozen hs \<and> item_rank b < item_rank ?it"
    unfolding superseded_item_def pool_member Bex_def by auto
  from b(1) show ?L
  proof (rule instance_of_item)
    fix prefix' hs'
    assume h: "(it_key b, it_pos b, hs') \<in> set (instance_list out)" "hs' \<noteq> []"
      "parse_match_key (it_key b) = Some (prefix', snake, it_idx b)" "it_set b = frozen hs'"
    have "supersedes (it_key b, it_pos b, hs') (key, pos, hs)"
      using h b(2) assms by (auto simp: supersedes_def item_rank_def frozen_eq_iff)
    then show ?L unfolding superseded_def list_ex_iff using h(1) by blast
  qed
qed

lemma superseded_pooled:
  "superseded out (key, pos, hs) \<Longrightarrow> hs \<noteq> [] \<and> (\<exists>prefix snake idx. parse_match_key key = Some (prefix, snake, idx))"
  by (auto simp: superseded_def list_ex_iff supersedes_def split: option.splits)

definition removed_refs :: "match_out \<Rightarrow> (string \<times> nat) list" where
  "removed_refs out = concat (map (removed_of_pool \<circ> snd) (pool_instances out))"

lemma removed_of_pool_subset: "r \<in> set (removed_of_pool items) \<Longrightarrow> r \<in> item_ref ` set items"
proof -
  assume r: "r \<in> set (removed_of_pool items)"
  have g: "set x \<subseteq> set items" if "x \<in> set (dup_groups items)" for x
    using that by (auto simp: dup_groups_iff)
  have n: "x \<noteq> []" if m: "x \<in> set (dup_groups items)" for x
  proof -
    obtain y where "y \<in> set items" "x = sort_key item_rank (filter (\<lambda>z. it_set z = it_set y) items)"
      using m unfolding dup_groups_iff by blast
    then have "y \<in> set x" by simp
    then show ?thesis by auto
  qed
  have "set (map hd (dup_groups items)) \<subseteq> set items"
    using g n by (auto dest: hd_in_set)
  then have h: "map hd (dup_groups items) ! i \<in> set items" if "i < length (map hd (dup_groups items))" for i
    using nth_mem[OF that] by blast
  have t: "set (concat (map tl (dup_groups items))) \<subseteq> set items"
    using g by (auto dest: in_set_tlD)
  show ?thesis
    using r h t unfolding removed_of_pool_def Let_def set_append set_map set_filter by fastforce
qed

theorem removed_refs_iff:
  assumes ok: "dict_ok out" and i: "(key, pos, hs) \<in> set (instance_list out)"
  shows "(key, pos) \<in> set (removed_refs out) \<longleftrightarrow> superseded out (key, pos, hs)"
proof (cases "hs \<noteq> [] \<and> parse_match_key key \<noteq> None")
  case True
  then obtain prefix snake idx where k: "parse_match_key key = Some (prefix, snake, idx)" by auto
  let ?it = "\<lparr>it_key = key, it_pos = pos, it_idx = idx, it_set = frozen hs\<rparr>"
  let ?items = "\<lambda>s. map snd (filter (\<lambda>x. fst x = s) (keyed_items out))"
  have it: "(snake, ?it) \<in> set (keyed_items out)" using item_of_instance i True k by blast
  have inj: "inj_on item_ref (set (?items s))" for s
    by (rule inj_onI) (use keyed_items_inj[OF ok] in \<open>unfold pool_member, blast\<close>)
  have d: "distinct (?items s)" for s
    using distinct_keyed_items[OF ok] by (auto simp: distinct_map inj_on_def)
  have ne: "\<forall>x\<in>set (?items s). it_set x \<noteq> []" for s
  proof
    fix x assume "x \<in> set (?items s)"
    then have "(s, x) \<in> set (keyed_items out)" unfolding pool_member .
    then obtain hs' where "hs' \<noteq> []" "it_set x = frozen hs'" by (rule instance_of_item)
    then show "it_set x \<noteq> []" by (metis set_empty set_frozen)
  qed
  have "(key, pos) \<in> set (removed_refs out) \<longleftrightarrow> (key, pos) \<in> set (removed_of_pool (?items snake))" (is "?L \<longleftrightarrow> ?R")
  proof
    assume ?L
    then obtain s where s: "(key, pos) \<in> set (removed_of_pool (?items s))"
      unfolding removed_refs_def using pool_entry by fastforce
    then obtain x where x: "x \<in> set (?items s)" "item_ref x = (key, pos)"
      using removed_of_pool_subset by fastforce
    have "s = snake \<and> x = ?it"
      by (rule keyed_items_inj[OF ok x(1)[unfolded pool_member] it]) (unfold x(2), simp add: item_ref_def)
    then show ?R using s by simp
  next
    assume ?R
    moreover have "(snake, ?items snake) \<in> set (pool_instances out)"
      unfolding pool_entry using it by force
    ultimately show ?L unfolding removed_refs_def by force
  qed
  also have "\<dots> \<longleftrightarrow> superseded_item (?items snake) ?it"
    using removed_of_pool_iff[OF inj d ne, of ?it snake] it pool_member[of ?it snake] by (simp add: item_ref_def)
  also have "\<dots> \<longleftrightarrow> superseded out (key, pos, hs)"
    using superseded_iff_item[OF i _ k] True by simp
  finally show ?thesis .
next
  case False
  then have "\<not> superseded out (key, pos, hs)" using superseded_pooled by blast
  moreover have "(key, pos) \<notin> set (removed_refs out)"
  proof
    assume "(key, pos) \<in> set (removed_refs out)"
    then obtain s where "(key, pos) \<in> set (removed_of_pool (map snd (filter (\<lambda>x. fst x = s) (keyed_items out))))"
      unfolding removed_refs_def using pool_entry by fastforce
    then obtain x where "x \<in> set (map snd (filter (\<lambda>x. fst x = s) (keyed_items out)))" "item_ref x = (key, pos)"
      using removed_of_pool_subset by fastforce
    then obtain prefix hs' where "(key, pos, hs') \<in> set (instance_list out)" "hs' \<noteq> []"
        "parse_match_key key = Some (prefix, s, it_idx x)"
      unfolding pool_member item_ref_def by (elim instance_of_item) auto
    then show False
      using False i ok unfolding instance_list_iff by (metis eq_key_imp_eq_value option.distinct(1))
  qed
  ultimately show ?thesis by blast
qed

text \<open>With every reference filed, dropping the removed references is dropping the superseded instances.\<close>

lemma drop_removed_refs: "dict_ok out \<Longrightarrow> drop_removed (removed_refs out) out = drop_superseded out"
proof -
  assume ok: "dict_ok out"
  have "filter (\<lambda>(pos, handles). (key, pos) \<notin> set (removed_refs out)) (enumerate 0 instances) =
        filter (\<lambda>(pos, hs). \<not> superseded out (key, pos, hs)) (enumerate 0 instances)"
    if "(key, instances) \<in> set out" for key instances
  proof (rule filter_cong[OF refl], clarify)
    fix pos hs assume "(pos, hs) \<in> set (enumerate 0 instances)"
    then have "(key, pos, hs) \<in> set (instance_list out)"
      using that by (auto simp: instance_list_iff in_set_enumerate_eq)
    then show "(key, pos) \<notin> set (removed_refs out) \<longleftrightarrow> \<not> superseded out (key, pos, hs)"
      using removed_refs_iff[OF ok] by blast
  qed
  then show ?thesis
    unfolding drop_removed_def drop_superseded_def by (intro arg_cong[where f = "filter _"] map_cong) auto
qed

lemma removed_refs_empty:
  assumes "dict_ok out"
  shows "removed_refs out = [] \<longleftrightarrow> \<not> list_ex (superseded out) (instance_list out)"
proof -
  have "r \<in> set (removed_refs out) \<Longrightarrow> \<exists>hs. (fst r, snd r, hs) \<in> set (instance_list out)" for r
  proof -
    assume "r \<in> set (removed_refs out)"
    then obtain s where "r \<in> set (removed_of_pool (map snd (filter (\<lambda>x. fst x = s) (keyed_items out))))"
      unfolding removed_refs_def using pool_entry by fastforce
    then obtain x where "x \<in> set (map snd (filter (\<lambda>x. fst x = s) (keyed_items out)))" "item_ref x = r"
      using removed_of_pool_subset by fastforce
    then show ?thesis unfolding pool_member item_ref_def by (elim instance_of_item) auto
  qed
  then show ?thesis
    unfolding list_ex_iff using removed_refs_iff[OF assms]
    by (metis empty_iff last_in_set list.set(1) prod.collapse prod_cases3)
qed

lemma suppress_unfold:
  assumes "dict_ok out"
  shows "suppress_contained_matches True out =
    (if list_ex (superseded out) (instance_list out) then drop_superseded out else out)"
  using removed_refs_empty[OF assms] drop_removed_refs[OF assms]
  by (simp add: suppress_contained_matches_def flip: removed_refs_def)

lemma drop_superseded_entry:
  "(key, kept) \<in> set (drop_superseded out) \<longleftrightarrow> kept \<noteq> [] \<and>
     (\<exists>instances. (key, instances) \<in> set out \<and>
        kept = map snd (filter (\<lambda>(pos, hs). \<not> superseded out (key, pos, hs)) (enumerate 0 instances)))"
  by (auto simp: drop_superseded_def)

lemma dict_ok_drop_superseded: "dict_ok out \<Longrightarrow> dict_ok (drop_superseded out)"
  unfolding drop_superseded_def by (rule distinct_map_filter) (simp add: comp_def case_prod_beta)

text \<open>Supersession is a strict order.\<close>

lemma supersedes_iff:
  "supersedes (k', p', h') (k, p, h) \<longleftrightarrow> h \<noteq> [] \<and> h' \<noteq> [] \<and>
     (\<exists>v v' s i i'. parse_match_key k = Some (v, s, i) \<and> parse_match_key k' = Some (v', s, i') \<and>
        (set h \<subset> set h' \<or> set h = set h' \<and> (i', k', p') < (i, k, p)))"
  unfolding supersedes_def by (auto split: option.splits)

lemma supersedes_trans:
  assumes "supersedes c b" "supersedes b a"
  shows "supersedes c a"
proof -
  obtain k p h where a: "a = (k, p, h)" by (cases a)
  obtain k' p' h' where b: "b = (k', p', h')" by (cases b)
  obtain k'' p'' h'' where c: "c = (k'', p'', h'')" by (cases c)
  from assms(2)[unfolded a b supersedes_iff] obtain v v' s i i' where
    1: "h \<noteq> []" "parse_match_key k = Some (v, s, i)" "parse_match_key k' = Some (v', s, i')"
       "set h \<subset> set h' \<or> set h = set h' \<and> (i', k', p') < (i, k, p)" by blast
  from assms(1)[unfolded c b supersedes_iff] 1(3) obtain v'' i'' where
    2: "h'' \<noteq> []" "parse_match_key k'' = Some (v'', s, i'')"
       "set h' \<subset> set h'' \<or> set h' = set h'' \<and> (i'', k'', p'') < (i', k', p')" by auto
  have "set h \<subset> set h'' \<or> set h = set h'' \<and> (i'', k'', p'') < (i, k, p)"
    using 1(4) 2(3) by (metis psubset_trans less_trans)
  then show ?thesis unfolding a c supersedes_iff using 1 2 by blast
qed

lemma supersedes_asym: "supersedes b a \<Longrightarrow> \<not> supersedes a b"
  by (cases a; cases b) (auto simp: supersedes_def split: option.splits)

text \<open>Every pooled instance is superseded by a surviving one, or survives.\<close>

lemma superseding_survivor:
  assumes "a \<in> set (instance_list out)"
  shows "\<exists>b\<in>set (instance_list out). (b = a \<or> supersedes b a) \<and> \<not> superseded out b"
proof -
  let ?S = "{b \<in> set (instance_list out). b = a \<or> supersedes b a}"
  have "\<exists>m\<in>?S. \<forall>x\<in>?S. x \<noteq> m \<longrightarrow> \<not> supersedes x m"
  proof (rule Finite_Set.bex_max_element)
    show "finite ?S" by simp
    show "asymp_on ?S (\<lambda>x y. supersedes y x)" by (auto simp: asymp_on_def dest: supersedes_asym)
    show "transp_on ?S (\<lambda>x y. supersedes y x)" by (rule transp_onI) (rule supersedes_trans)
    show "?S \<noteq> {}" using assms by blast
  qed
  then obtain m where m: "m \<in> ?S" "\<And>x. x \<in> ?S \<Longrightarrow> x \<noteq> m \<Longrightarrow> \<not> supersedes x m" by blast
  have "\<not> superseded out m"
  proof
    assume "superseded out m"
    then obtain x where x: "x \<in> set (instance_list out)" "supersedes x m"
      by (auto simp: superseded_def list_ex_iff)
    then have "x \<in> ?S" "x \<noteq> m" using m(1) supersedes_trans supersedes_asym by blast+
    then show False using m(2) x(2) by blast
  qed
  then show ?thesis using m(1) by blast
qed

text \<open>C1. Suppression with the inverted index and the duplicate groups computes the documented
  rule: exactly the instances properly contained in, or equal to and later than, another
  instance of the same class are dropped, keys left empty go with them, and a dict with
  nothing to drop is returned as it is.\<close>

theorem suppress_is_naive_rule:
  assumes "dict_ok out"
  shows "suppress_contained_matches True out =
    (if list_ex (superseded out) (instance_list out) then drop_superseded out else out)"
  by (rule suppress_unfold[OF assms])

definition nested_out :: match_out where
  "nested_out =
     [(''top_view.smd_2t.0'', [[''A'', ''B''], [''D'']]),
      (''smd_2t.1'', [[''B'', ''C'', ''A'']]),
      (''top_view.c4_ball.0'', [[''A'']])]"

lemma suppress_is_naive_rule_witness:
  "suppress_contained_matches True nested_out =
     (if list_ex (superseded nested_out) (instance_list nested_out) then drop_superseded nested_out else nested_out)"
  by (rule suppress_is_naive_rule) (simp add: nested_out_def)

lemma suppressed_instance_kept:
  assumes ok: "dict_ok out" and i: "(key, pos, hs) \<in> set (instance_list out)" and n: "\<not> superseded out (key, pos, hs)"
  shows "\<exists>kept. (key, kept) \<in> set (suppress_contained_matches True out) \<and> hs \<in> set kept"
proof (cases "list_ex (superseded out) (instance_list out)")
  case True
  obtain instances where e: "(key, instances) \<in> set out" "pos < length instances" "instances ! pos = hs"
    using i by (auto simp: instance_list_iff)
  let ?kept = "map snd (filter (\<lambda>(pos, hs). \<not> superseded out (key, pos, hs)) (enumerate 0 instances))"
  have "hs \<in> set ?kept" using e n by (force simp: in_set_enumerate_eq)
  moreover from this have "(key, ?kept) \<in> set (drop_superseded out)"
    unfolding drop_superseded_entry using e(1) by (auto simp: filter_empty_conv)
  ultimately show ?thesis unfolding suppress_unfold[OF ok] using True by (auto simp del: set_map)
next
  case False
  then show ?thesis using i by (auto simp: suppress_unfold[OF ok] instance_list_iff)
qed

text \<open>Suppression loses no feature: every instance of a parseable key is still there, or
  an instance of the same class that holds all its handles is.\<close>

theorem suppress_covers:
  assumes "dict_ok out" "(key, instances) \<in> set out" "hs \<in> set instances"
    "parse_match_key key = Some (prefix, snake, idx)"
  shows "\<exists>key' kept hs' prefix' idx'. (key', kept) \<in> set (suppress_contained_matches True out) \<and>
    hs' \<in> set kept \<and> parse_match_key key' = Some (prefix', snake, idx') \<and> set hs \<subseteq> set hs'"
proof -
  obtain pos where a: "(key, pos, hs) \<in> set (instance_list out)"
    using assms(2,3) by (metis in_set_conv_nth instance_list_iff)
  obtain key' pos' hs' where b: "(key', pos', hs') \<in> set (instance_list out)"
    "(key', pos', hs') = (key, pos, hs) \<or> supersedes (key', pos', hs') (key, pos, hs)"
    "\<not> superseded out (key', pos', hs')"
    using superseding_survivor[OF a] by (metis prod_cases3)
  have "\<exists>prefix' idx'. parse_match_key key' = Some (prefix', snake, idx') \<and> set hs \<subseteq> set hs'"
    using b(2) assms(4) by (auto simp: supersedes_iff)
  then show ?thesis using suppressed_instance_kept[OF assms(1) b(1,3)] by metis
qed

lemma suppress_covers_witness:
  "\<exists>key' kept hs' prefix' idx'. (key', kept) \<in> set (suppress_contained_matches True nested_out) \<and>
    hs' \<in> set kept \<and> parse_match_key key' = Some (prefix', ''smd_2t'', idx') \<and> set [''A'', ''B''] \<subseteq> set hs'"
  by (rule suppress_covers[of nested_out "''top_view.smd_2t.0''" "[[''A'', ''B''], [''D'']]" "[''A'', ''B'']" "Some ''top_view''" "''smd_2t''" 0])
     (simp add: nested_out_def, simp add: nested_out_def, simp, code_simp)

text \<open>The instances that remain stand for different instances of the input, none superseding another.\<close>

lemma drop_superseded_origin:
  assumes "(key, i, hs) \<in> set (instance_list (drop_superseded out))"
  obtains pos instances where "(key, instances) \<in> set out" "(key, pos, hs) \<in> set (instance_list out)"
    "\<not> superseded out (key, pos, hs)"
    "fst (filter (\<lambda>(pos, hs). \<not> superseded out (key, pos, hs)) (enumerate 0 instances) ! i) = pos"
    "i < length (filter (\<lambda>(pos, hs). \<not> superseded out (key, pos, hs)) (enumerate 0 instances))"
proof -
  obtain kept where k: "(key, kept) \<in> set (drop_superseded out)" "i < length kept" "kept ! i = hs"
    using assms by (auto simp: instance_list_iff)
  then obtain instances where e: "(key, instances) \<in> set out"
    "kept = map snd (filter (\<lambda>(pos, hs). \<not> superseded out (key, pos, hs)) (enumerate 0 instances))" (is "_ = map snd ?f")
    by (auto simp: drop_superseded_entry)
  have i: "i < length ?f" "snd (?f ! i) = hs" using k e(2) by auto
  have "?f ! i \<in> set ?f" using i(1) by (rule nth_mem)
  then have "(fst (?f ! i), hs) \<in> set (enumerate 0 instances)" "\<not> superseded out (key, fst (?f ! i), hs)"
    using i(2) by (auto simp: case_prod_beta)
  then show thesis
    using that[of instances "fst (?f ! i)"] e(1) i(1) by (auto simp: instance_list_iff in_set_enumerate_eq)
qed

lemma drop_superseded_free:
  assumes ok: "dict_ok out" and i: "a \<in> set (instance_list (drop_superseded out))"
  shows "\<not> superseded (drop_superseded out) a"
proof
  assume "superseded (drop_superseded out) a"
  then obtain b where b: "b \<in> set (instance_list (drop_superseded out))" "supersedes b a"
    by (auto simp: superseded_def list_ex_iff)
  obtain k i h where a: "a = (k, i, h)" by (cases a)
  obtain k' i' h' where b': "b = (k', i', h')" by (cases b)
  obtain p I where o: "(k, I) \<in> set out" "(k, p, h) \<in> set (instance_list out)" "\<not> superseded out (k, p, h)"
      "fst (filter (\<lambda>(pos, hs). \<not> superseded out (k, pos, hs)) (enumerate 0 I) ! i) = p"
      "i < length (filter (\<lambda>(pos, hs). \<not> superseded out (k, pos, hs)) (enumerate 0 I))"
    using i unfolding a by (rule drop_superseded_origin)
  obtain p' I' where o': "(k', I') \<in> set out" "(k', p', h') \<in> set (instance_list out)" "\<not> superseded out (k', p', h')"
      "fst (filter (\<lambda>(pos, hs). \<not> superseded out (k', pos, hs)) (enumerate 0 I') ! i') = p'"
      "i' < length (filter (\<lambda>(pos, hs). \<not> superseded out (k', pos, hs)) (enumerate 0 I'))"
    using b(1) unfolding b' by (rule drop_superseded_origin)
  have "(k', p') \<noteq> (k, p)"
  proof
    assume e: "(k', p') = (k, p)"
    then have "I' = I" using o(1) o'(1) ok by (metis eq_key_imp_eq_value prod.inject)
    let ?f = "filter (\<lambda>(pos, hs). \<not> superseded out (k, pos, hs)) (enumerate 0 I)"
    have "distinct (map fst ?f)" by (rule distinct_map_filter) simp
    then have "i' = i"
      using o(4,5) o'(4,5) e \<open>I' = I\<close> nth_eq_iff_index_eq[of "map fst ?f" i' i] by auto
    moreover have "h' = h"
      using o(2) o'(2) e ok unfolding instance_list_iff by (metis eq_key_imp_eq_value prod.inject)
    ultimately have "b = a" using e by (simp add: a b')
    then show False using b(2) supersedes_asym by blast
  qed
  then have "supersedes (k', p', h') (k, p, h) \<or> supersedes (k, p, h) (k', p', h')"
  proof -
    from b(2)[unfolded a b' supersedes_iff] obtain v v' s x x' where s: "h \<noteq> []" "h' \<noteq> []"
      "parse_match_key k = Some (v, s, x)" "parse_match_key k' = Some (v', s, x')"
      "set h \<subset> set h' \<or> set h = set h'" by blast
    have "(x', k', p') < (x, k, p) \<or> (x, k, p) < (x', k', p')"
      using \<open>(k', p') \<noteq> (k, p)\<close> by (metis linorder_neqE prod.inject)
    then show ?thesis unfolding supersedes_iff using s by metis
  qed
  then show False using o o' by (auto simp: superseded_def list_ex_iff)
qed

text \<open>Suppression is idempotent: nothing that remains is contained in anything that remains.\<close>

theorem suppress_idempotent:
  assumes "dict_ok out"
  shows "suppress_contained_matches True (suppress_contained_matches True out) = suppress_contained_matches True out"
  using suppress_unfold[OF assms] suppress_unfold[OF dict_ok_drop_superseded[OF assms]]
    drop_superseded_free[OF assms] by (auto simp: list_ex_iff)

lemma suppress_idempotent_witness:
  "suppress_contained_matches True (suppress_contained_matches True nested_out) =
     suppress_contained_matches True nested_out"
  by (rule suppress_idempotent) (simp add: nested_out_def)

subsection \<open>Keys and views\<close>

lemma split_base_key:
  "split_on CHR ''.'' (base_match_key snake idx) = split_on CHR ''.'' snake @ [str_of_nat idx]"
  using split_on_append_sep_last[OF str_of_nat_no_dot, of snake idx] by (simp add: base_match_key_def)

lemma view_prefix_no_dot: "p \<in> set VIEW_PREFIXES \<Longrightarrow> CHR ''.'' \<notin> set p"
  by (auto simp: VIEW_PREFIXES_def)

text \<open>\<^verbatim>\<open>parse_match_key\<close> inverts the keys the serialisers emit: with a view in front for any
  class key, without one for a class key that has no dot.\<close>

theorem parse_prefixed_key:
  assumes "\<forall>p. prefix = Some p \<longrightarrow> p \<in> set VIEW_PREFIXES"
    and "prefix = None \<longrightarrow> CHR ''.'' \<notin> set snake"
  shows "parse_match_key (prefixed_key prefix (base_match_key snake idx)) = Some (prefix, snake, int idx)"
proof (cases prefix)
  case None
  then have "split_on CHR ''.'' snake = [snake]" using assms(2) by (simp add: split_on_no_sep)
  then show ?thesis
    using None by (simp add: parse_match_key_def prefixed_key_def split_base_key Let_def)
next
  case (Some p)
  then have p: "p \<in> set VIEW_PREFIXES" using assms(1) by blast
  have "split_on CHR ''.'' (p @ ''.'' @ base_match_key snake idx) = p # split_on CHR ''.'' snake @ [str_of_nat idx]"
    using split_on_append_sep[OF view_prefix_no_dot[OF p], of "base_match_key snake idx"] split_base_key by simp
  moreover have "2 \<le> length (p # split_on CHR ''.'' snake)"
    by (cases "split_on CHR ''.'' snake") auto
  ultimately show ?thesis
    using Some p by (simp add: parse_match_key_def prefixed_key_def Let_def butlast_append)
qed

lemma parse_prefixed_key_witness:
  "parse_match_key (prefixed_key (Some ''side_view'') (base_match_key ''a.b'' 12)) = Some (Some ''side_view'', ''a.b'', 12) \<and>
   parse_match_key (prefixed_key None (base_match_key ''smd_2t'' 0)) = Some (None, ''smd_2t'', 0)"
  using parse_prefixed_key[of "Some ''side_view''" "''a.b''" 12] parse_prefixed_key[of None "''smd_2t''" 0]
  by (simp add: VIEW_PREFIXES_def)

lemma side_prefix_view: "side_prefix_for hs shapes t b s = Some p \<Longrightarrow> p \<in> set VIEW_PREFIXES"
  by (auto simp: side_prefix_for_def VIEW_PREFIXES_def split: if_splits option.splits)

definition count_of :: "view_counts \<Rightarrow> string \<Rightarrow> nat" where
  "count_of c k = (case map_of c k of Some n \<Rightarrow> n | None \<Rightarrow> 0)"

lemma count_up_keys [simp]: "map fst (count_up k c) = map fst c"
  by (simp add: count_up_def case_prod_beta comp_def)

lemma count_of_up:
  "k \<in> fst ` set c \<Longrightarrow> count_of (count_up k c) k' = count_of c k' + (if k' = k then 1 else 0)"
proof -
  assume "k \<in> fst ` set c"
  then have "map_of c k \<noteq> None" by (simp add: map_of_eq_None_iff)
  moreover have "map_of (count_up k c) k' = map_option (\<lambda>n. if k' = k then n + 1 else n) (map_of c k')"
    by (induction c) (auto simp: count_up_def)
  ultimately show ?thesis by (cases "map_of c k'") (auto simp: count_of_def split: option.splits)
qed

lemma count_total_up:
  "dict_ok c \<Longrightarrow> k \<in> fst ` set c \<Longrightarrow> sum_list (map snd (count_up k c)) = sum_list (map snd c) + 1"
proof (induction c)
  case (Cons a c)
  obtain k' n where a: "a = (k', n)" by (cases a)
  have same: "count_up k c = c" if "k \<notin> fst ` set c"
    unfolding count_up_def by (rule map_idI) (use that in force)
  have e: "count_up k ((k', n) # c) = (k', if k' = k then n + 1 else n) # count_up k c"
    by (simp add: count_up_def)
  show ?case
    using Cons same unfolding a e by (cases "k' = k") auto
qed simp

text \<open>The bucket an instance is counted in, and the key it goes under if it is not dropped.\<close>

definition view_bucket :: "class_name \<Rightarrow> string option \<Rightarrow> string" where
  "view_bucket c prefix =
     (if \<not> is_allowed_view c prefix then ''dropped''
      else case prefix of Some p \<Rightarrow> p | None \<Rightarrow> ''unassigned'')"

lemma split_step_bucket:
  "split_step base sh t b s c (out, counts) hs =
     (if is_allowed_view c (side_prefix_for hs sh t b s)
      then dict_push (prefixed_key (side_prefix_for hs sh t b s) base) hs out else out,
      count_up (view_bucket c (side_prefix_for hs sh t b s)) counts)"
  by (simp add: split_step_def view_bucket_def Let_def)

lemma view_bucket_known: "view_bucket c (side_prefix_for hs sh t b s) \<in> fst ` set no_counts"
  using side_prefix_view[of hs sh t b s]
  by (auto simp: view_bucket_def no_counts_def VIEW_PREFIXES_def split: option.splits)

lemma split_fold:
  fixes matches :: "handle list list" and sh :: shape_points and t b s :: "rect option"
    and base :: string and c :: class_name
  assumes "map fst counts = map fst no_counts" "dict_ok out" "\<forall>v\<in>snd ` set out. v \<noteq> []"
  defines "pf \<equiv> \<lambda>hs. side_prefix_for hs sh t b s"
  defines "r \<equiv> foldl (split_step base sh t b s c) (out, counts) matches"
  shows "map fst (snd r) = map fst no_counts \<and> dict_ok (fst r) \<and> (\<forall>v\<in>snd ` set (fst r). v \<noteq> []) \<and>
    dict_list (fst r) k = dict_list out k @
      filter (\<lambda>hs. is_allowed_view c (pf hs) \<and> prefixed_key (pf hs) base = k) matches \<and>
    count_of (snd r) v = count_of counts v + length (filter (\<lambda>hs. view_bucket c (pf hs) = v) matches) \<and>
    sum_list (map snd (snd r)) = sum_list (map snd counts) + length matches"
  using assms(1-3) unfolding r_def
proof (induction matches arbitrary: out counts)
  case (Cons hs matches)
  let ?c = "count_up (view_bucket c (pf hs)) counts"
  let ?o = "if is_allowed_view c (pf hs) then dict_push (prefixed_key (pf hs) base) hs out else out"
  have keys: "fst ` set counts = fst ` set no_counts" using Cons.prems(1) by (metis list.set_map)
  have dc: "dict_ok counts" unfolding Cons.prems(1) by (simp add: no_counts_def)
  have kn: "view_bucket c (pf hs) \<in> fst ` set counts" unfolding keys pf_def by (rule view_bucket_known)
  have ne: "\<forall>v\<in>snd ` set ?o. v \<noteq> []"
    using Cons.prems(3) dict_push_nonempty[OF Cons.prems(3)] by (metis (full_types))
  have step: "foldl (split_step base sh t b s c) (out, counts) (hs # matches) =
      foldl (split_step base sh t b s c) (?o, ?c) matches"
    by (simp add: split_step_bucket pf_def)
  have ok: "map fst ?c = map fst no_counts" "dict_ok ?o" using Cons.prems by simp_all
  note IH = Cons.IH[OF ok ne]
  show ?case unfolding step
    using IH count_of_up[OF kn, of v] count_total_up[OF dc kn] by simp
qed simp

text \<open>Splitting a template's matches by view loses and invents nothing: each key holds,
  in order, exactly the allowed instances whose view gives that key, no key is empty, every
  bucket counts its instances (the dropped ones included) and the counts add up to the number
  of matches.\<close>

theorem split_matches_partition:
  assumes "split_matches_by_side base matches shapes t b s c = (out, counts)"
  shows "dict_ok out \<and> (\<forall>v\<in>snd ` set out. v \<noteq> []) \<and>
    dict_list out key = filter (\<lambda>hs. is_allowed_view c (side_prefix_for hs shapes t b s) \<and>
        prefixed_key (side_prefix_for hs shapes t b s) base = key) matches \<and>
    count_of counts bucket = length (filter (\<lambda>hs. view_bucket c (side_prefix_for hs shapes t b s) = bucket) matches) \<and>
    sum_list (map snd counts) = length matches"
proof -
  have "count_of no_counts bucket = 0" by (simp add: count_of_def no_counts_def)
  moreover have "sum_list (map snd no_counts) = 0" by (simp add: no_counts_def)
  ultimately show ?thesis
    using split_fold[of no_counts "[]" base shapes t b s c matches key bucket] assms
    by (simp add: split_matches_by_side_def)
qed

definition two_pads :: shape_points where
  "two_pads h = (if h = ''A'' then Some [(1, 1), (3, 3)] else if h = ''B'' then Some [(9, 9)] else None)"

definition left_half :: rect where
  "left_half = \<lparr>x0 = 0, y0 = 0, x1 = 5, y1 = 5\<rparr>"

lemma two_pads_split:
  "split_matches_by_side ''k.0'' [[''A''], [''B'']] two_pads (Some left_half) None None ''C4Ball'' =
     ([(''top_view.k.0'', [[''A'']])],
      [(''top_view'', 1), (''bottom_view'', 0), (''side_view'', 0), (''unassigned'', 0), (''dropped'', 1)])"
  by (simp add: split_matches_by_side_def split_step_def side_prefix_for_def bbox_center_def two_pads_def
      grow_bbox_def point_in_rect_def left_half_def is_allowed_view_def CLASS_VIEW_CONSTRAINTS_def
      prefixed_key_def dict_push_def no_counts_def count_up_def)

lemma split_matches_partition_witness:
  "dict_list [(''top_view.k.0'', [[''A'']])] ''top_view.k.0'' =
     filter (\<lambda>hs. is_allowed_view ''C4Ball'' (side_prefix_for hs two_pads (Some left_half) None None) \<and>
        prefixed_key (side_prefix_for hs two_pads (Some left_half) None None) ''k.0'' = ''top_view.k.0'')
       [[''A''], [''B'']]"
  using split_matches_partition[OF two_pads_split, of "''top_view.k.0''" "''dropped''"] by blast

text \<open>A class with view constraints only ever gets keys of its allowed views: an instance in
  another view, or in none, is dropped, and where rectangles overlap the top view wins over the
  bottom view and the bottom view over the side view.\<close>

theorem split_matches_allowed_views:
  assumes "split_matches_by_side base matches shapes t b s c = (out, counts)"
    and "map_of CLASS_VIEW_CONSTRAINTS c = Some allowed" and "k \<in> fst ` set out"
  shows "\<exists>v\<in>set allowed. k = v @ ''.'' @ base \<and>
    (\<exists>hs\<in>set matches. \<exists>p. bbox_center hs shapes = Some p \<and>
        (v = ''top_view'' \<longrightarrow> point_in_rect p t) \<and>
        (v = ''bottom_view'' \<longrightarrow> \<not> point_in_rect p t \<and> point_in_rect p b) \<and>
        (v = ''side_view'' \<longrightarrow> \<not> point_in_rect p t \<and> \<not> point_in_rect p b \<and> point_in_rect p s))"
proof -
  note P = split_fold[of no_counts "[]" base shapes t b s c matches k "''x''", simplified,
      folded split_matches_by_side_def, unfolded assms(1), simplified]
  obtain v where v: "(k, v) \<in> set out" using assms(3) by force
  then have "v \<noteq> []" "dict_list out k = v" using P v dict_list_eqI[of out k v] by fastforce+
  then have "filter (\<lambda>hs. is_allowed_view c (side_prefix_for hs shapes t b s) \<and>
      prefixed_key (side_prefix_for hs shapes t b s) base = k) matches \<noteq> []" using P by simp
  then obtain hs where hs: "hs \<in> set matches" "is_allowed_view c (side_prefix_for hs shapes t b s)"
      "prefixed_key (side_prefix_for hs shapes t b s) base = k"
    unfolding filter_empty_conv by blast
  then obtain p where p: "side_prefix_for hs shapes t b s = Some p" "p \<in> set allowed"
    using assms(2) by (auto simp: is_allowed_view_def split: option.splits)
  moreover from this have "k = p @ ''.'' @ base" using hs(3) by (simp add: prefixed_key_def)
  ultimately show ?thesis
    using hs(1) by (intro bexI[of _ p] conjI bexI[of _ hs])
      (auto simp: side_prefix_for_def split: if_splits option.splits)
qed

lemma split_matches_allowed_views_witness:
  "\<exists>v\<in>set [''top_view'']. ''top_view.k.0'' = v @ ''.'' @ ''k.0''"
  using split_matches_allowed_views[OF two_pads_split, of "[''top_view'']" "''top_view.k.0''"]
  by (auto simp: CLASS_VIEW_CONSTRAINTS_def)

end
