(* ===== verification/AuthStore.thy ===== *)
theory AuthStore
  imports Prelude
begin

text \<open>
  \<^verbatim>\<open>app/auth.py\<close>: the authorization store.  \<^verbatim>\<open>auth_db\<close> holds the six tables
  of \<^verbatim>\<open>AUTH_SCHEMA\<close>; each method of \<^verbatim>\<open>AuthStore\<close> is a definition that returns
  its value and the tables after its transaction (unchanged when it raises).  The clock, the
  uuids and the random tokens are arguments; SHA-256 is the parameter \<^verbatim>\<open>sha\<close>.  The
  edit lock is stated as an interface that the guards rely on and interpreted on the store.
\<close>

subsection \<open>Roles\<close>

datatype role = Viewer | Editor | Admin
datatype scope_type = Global | CustomerScope | ProductScope
datatype grantee_type = UserGrantee | DeptGrantee

definition ROLE_RANK :: "role \<Rightarrow> nat" where
  "ROLE_RANK r = (case r of Viewer \<Rightarrow> 1 | Editor \<Rightarrow> 2 | Admin \<Rightarrow> 3)"

instantiation role :: linorder
begin

definition less_eq_role :: "role \<Rightarrow> role \<Rightarrow> bool" where
  "less_eq_role a b \<longleftrightarrow> ROLE_RANK a \<le> ROLE_RANK b"

definition less_role :: "role \<Rightarrow> role \<Rightarrow> bool" where
  "less_role a b \<longleftrightarrow> ROLE_RANK a < ROLE_RANK b"

instance
  by standard (auto simp: less_eq_role_def less_role_def ROLE_RANK_def split: role.splits)

end

lemma role_order [simp]:
  "Viewer \<le> r" "r \<le> Admin" "\<not> Admin \<le> Editor" "\<not> Admin \<le> Viewer" "\<not> Editor \<le> Viewer"
  "Editor < Admin" "Viewer < Editor" "Viewer < Admin"
  by (cases r; simp add: less_eq_role_def less_role_def ROLE_RANK_def)+

definition parse_role :: "string \<Rightarrow> role option" where
  "parse_role s =
     (if s = ''admin'' then Some Admin else if s = ''editor'' then Some Editor
      else if s = ''viewer'' then Some Viewer else None)"

definition parse_scope_type :: "string \<Rightarrow> scope_type option" where
  "parse_scope_type s =
     (if s = ''global'' then Some Global else if s = ''customer'' then Some CustomerScope
      else if s = ''product'' then Some ProductScope else None)"

definition parse_grantee_type :: "string \<Rightarrow> grantee_type option" where
  "parse_grantee_type s =
     (if s = ''user'' then Some UserGrantee else if s = ''dept'' then Some DeptGrantee else None)"

definition LOCK_TTL_SECONDS :: real where "LOCK_TTL_SECONDS = 300"
definition SESSION_IDLE_SECONDS :: real where "SESSION_IDLE_SECONDS = 8 * 3600"
definition SESSION_ABS_SECONDS :: real where "SESSION_ABS_SECONDS = 24 * 3600"
definition SEED_CUSTOMER_ID :: string where "SEED_CUSTOMER_ID = ''uncategorized''"

subsection \<open>Tables\<close>

datatype identity_source = Session | Bypass | TestIdentity

record identity =
  i_userid :: string
  i_deptid :: string
  i_name :: string
  i_email :: string
  i_description :: string
  i_source :: identity_source

definition is_bypass :: "identity \<Rightarrow> bool" where
  "is_bypass i \<longleftrightarrow> i_source i = Bypass"

record user =
  u_userid :: string
  u_oidc_sub :: "string option"
  u_email :: "string option"
  u_name :: "string option"
  u_deptid :: "string option"
  u_deptname :: "string option"
  u_company :: "string option"
  u_twsitecode :: "string option"
  u_description :: "string option"
  u_created_at :: real
  u_last_login_at :: "real option"

record customer =
  c_id :: string
  c_name :: string
  c_created_at :: real

record grant =
  g_id :: string
  g_grantee_type :: grantee_type
  g_grantee_id :: string
  g_role :: role
  g_scope_type :: scope_type
  g_scope_id :: string
  g_granted_by :: string
  g_granted_at :: real

record audit_row =
  a_id :: nat
  a_at :: real
  a_actor :: string
  a_action :: string
  a_product_id :: "string option"
  a_version_id :: "string option"
  a_target_type :: string
  a_target_id :: string
  a_detail :: "json option"

record edit_lock =
  k_product_id :: string
  k_held_by :: string
  k_acquired_at :: real
  k_heartbeat_at :: real

record session =
  s_id :: string
  s_userid :: string
  s_created_at :: real
  s_last_seen_at :: real
  s_expires_at :: real
  s_csrf_token :: string

record auth_db =
  users :: "user list"
  customers :: "customer list"
  role_grants :: "grant list"
  audit_log :: "audit_row list"
  product_edit_locks :: "edit_lock list"
  sessions :: "session list"

record lock_status =
  ls_acquired :: bool
  ls_held_by :: string
  ls_heartbeat_at :: real

datatype auth_error = GrantError string | IntegrityError string

definition empty_auth_db :: auth_db where
  "empty_auth_db = \<lparr>users = [], customers = [], role_grants = [], audit_log = [],
                    product_edit_locks = [], sessions = []\<rparr>"

text \<open>The rows \<^verbatim>\<open>__init__\<close> makes sure of: the seed customer, \<^verbatim>\<open>INSERT OR IGNORE\<close>.\<close>

definition seed_customer :: "string \<Rightarrow> real \<Rightarrow> auth_db \<Rightarrow> auth_db" where
  "seed_customer label now db =
     (if SEED_CUSTOMER_ID \<in> c_id ` set (customers db) \<or> label \<in> c_name ` set (customers db) then db
      else db\<lparr>customers := customers db @ [\<lparr>c_id = SEED_CUSTOMER_ID, c_name = label, c_created_at = now\<rparr>]\<rparr>)"

subsection \<open>Audit\<close>

definition next_audit_id :: "audit_row list \<Rightarrow> nat" where
  "next_audit_id rows = Suc (foldl max 0 (map a_id rows))"

definition audit ::
  "real \<Rightarrow> string \<Rightarrow> string \<Rightarrow> string \<Rightarrow> string \<Rightarrow> string option \<Rightarrow> string option \<Rightarrow> json option \<Rightarrow> auth_db \<Rightarrow> auth_db" where
  "audit now actor action target_type target_id product_id version_id detail db =
     db\<lparr>audit_log := audit_log db @
         [\<lparr>a_id = next_audit_id (audit_log db), a_at = now, a_actor = actor, a_action = action,
           a_product_id = product_id, a_version_id = version_id,
           a_target_type = target_type, a_target_id = target_id, a_detail = detail\<rparr>]\<rparr>"

text \<open>A negative LIMIT means no limit in SQLite.\<close>

definition list_audit :: "int \<Rightarrow> auth_db \<Rightarrow> audit_row list" where
  "list_audit limit db =
     (let rows = rev (sort_key a_id (audit_log db)) in if limit < 0 then rows else take (nat limit) rows)"

lemma list_audit_unlimited: "limit < 0 \<Longrightarrow> set (list_audit limit db) = set (audit_log db)"
  by (simp add: list_audit_def)

subsection \<open>Users\<close>

type_synonym claims = "string \<Rightarrow> string option"

definition get_user :: "string \<Rightarrow> auth_db \<Rightarrow> user option" where
  "get_user userid db = row_by u_userid userid (users db)"

definition upsert_user_from_claims :: "real \<Rightarrow> claims \<Rightarrow> auth_db \<Rightarrow> (auth_error + user \<times> bool) \<times> auth_db" where
  "upsert_user_from_claims now claims db =
     (let userid = or_empty (claims ''preferred_username'') in
      if userid = [] then (Inl (GrantError ''JWT missing preferred_username''), db)
      else
        let first_login = (get_user userid db = None);
            db' = (if first_login then
                     audit now userid ''user.first_login'' ''user'' userid None None
                       (Some (JObj [(''deptid'', json_opt (claims ''deptid''))]))
                       (db\<lparr>users := users db @
                          [\<lparr>u_userid = userid, u_oidc_sub = claims ''sub'', u_email = claims ''email'',
                            u_name = claims ''name'', u_deptid = claims ''deptid'',
                            u_deptname = claims ''deptname'', u_company = claims ''company'',
                            u_twsitecode = claims ''twsitecode'', u_description = claims ''description'',
                            u_created_at = now, u_last_login_at = Some now\<rparr>]\<rparr>)
                   else db\<lparr>users := sql_update (\<lambda>u. u_userid u = userid)
                          (\<lambda>u. u\<lparr>u_oidc_sub := claims ''sub'', u_email := claims ''email'',
                            u_name := claims ''name'', u_deptid := claims ''deptid'',
                            u_deptname := claims ''deptname'', u_company := claims ''company'',
                            u_twsitecode := claims ''twsitecode'', u_description := claims ''description'',
                            u_last_login_at := Some now\<rparr>) (users db)\<rparr>)
        in (case get_user userid db' of
              Some u \<Rightarrow> (Inr (u, first_login), db')
            | None \<Rightarrow> (Inl (IntegrityError ''assert''), db')))"

definition known_deptids :: "auth_db \<Rightarrow> string list" where
  "known_deptids db =
     sort (remdups (filter (\<lambda>d. d \<noteq> []) (List.map_filter u_deptid (users db))))"

definition known_users :: "auth_db \<Rightarrow> (string \<times> string) list" where
  "known_users db = map (\<lambda>u. (u_userid u, or_empty (u_name u))) (sort_key u_userid (users db))"

subsection \<open>Customers\<close>

definition create_customer :: "string \<Rightarrow> real \<Rightarrow> string \<Rightarrow> string \<Rightarrow> auth_db \<Rightarrow> (auth_error + string) \<times> auth_db" where
  "create_customer cid now name actor db =
     (if cid \<in> c_id ` set (customers db) then (Inl (IntegrityError ''customers.id''), db)
      else if name \<in> c_name ` set (customers db) then (Inl (IntegrityError ''customers.name''), db)
      else (Inr cid,
            audit now actor ''customer.create'' ''customer'' cid None None
              (Some (JObj [(''name'', JStr name)]))
              (db\<lparr>customers := customers db @ [\<lparr>c_id = cid, c_name = name, c_created_at = now\<rparr>]\<rparr>)))"

definition get_customer :: "string \<Rightarrow> auth_db \<Rightarrow> customer option" where
  "get_customer cid db = row_by c_id cid (customers db)"

definition list_customers :: "auth_db \<Rightarrow> customer list" where
  "list_customers db = sort_key c_created_at (customers db)"

definition delete_customer :: "real \<Rightarrow> string \<Rightarrow> string \<Rightarrow> auth_db \<Rightarrow> (auth_error + bool) \<times> auth_db" where
  "delete_customer now customer_id actor db =
     (if customer_id = SEED_CUSTOMER_ID then (Inl (GrantError ''the seed customer cannot be deleted''), db)
      else let n = rowcount (\<lambda>c. c_id c = customer_id) (customers db);
               db1 = db\<lparr>customers := sql_delete (\<lambda>c. c_id c = customer_id) (customers db)\<rparr>
           in if n > 0
              then (Inr True, audit now actor ''customer.delete'' ''customer'' customer_id None None None db1)
              else (Inr False, db1))"

subsection \<open>Grants\<close>

definition grant_key :: "grant \<Rightarrow> grantee_type \<times> string \<times> role \<times> scope_type \<times> string" where
  "grant_key g = (g_grantee_type g, g_grantee_id g, g_role g, g_scope_type g, g_scope_id g)"

definition scope_name :: "scope_type \<Rightarrow> string" where
  "scope_name s = (case s of Global \<Rightarrow> ''global'' | CustomerScope \<Rightarrow> ''customer'' | ProductScope \<Rightarrow> ''product'')"

definition role_name :: "role \<Rightarrow> string" where
  "role_name r = (case r of Admin \<Rightarrow> ''admin'' | Editor \<Rightarrow> ''editor'' | Viewer \<Rightarrow> ''viewer'')"

definition grantee_name :: "grantee_type \<Rightarrow> string" where
  "grantee_name t = (case t of UserGrantee \<Rightarrow> ''user'' | DeptGrantee \<Rightarrow> ''dept'')"

definition grant_detail :: "grant \<Rightarrow> json" where
  "grant_detail g = JObj
     [(''grantee_type'', JStr (grantee_name (g_grantee_type g))), (''grantee_id'', JStr (g_grantee_id g)),
      (''role'', JStr (role_name (g_role g))), (''scope_type'', JStr (scope_name (g_scope_type g))),
      (''scope_id'', JStr (g_scope_id g))]"

definition add_grant ::
  "string \<Rightarrow> real \<Rightarrow> string \<Rightarrow> string \<Rightarrow> string \<Rightarrow> string \<Rightarrow> string \<Rightarrow> string \<Rightarrow> auth_db
     \<Rightarrow> (auth_error + grant) \<times> auth_db" where
  "add_grant gid now grantee_type grantee_id role scope_type scope_id granted_by db =
     (case parse_grantee_type grantee_type of
        None \<Rightarrow> (Inl (GrantError ''bad grantee_type''), db)
      | Some gt \<Rightarrow>
     (case parse_role role of
        None \<Rightarrow> (Inl (GrantError ''bad role''), db)
      | Some r \<Rightarrow>
     (case parse_scope_type scope_type of
        None \<Rightarrow> (Inl (GrantError ''bad scope_type''), db)
      | Some st \<Rightarrow>
        if (st = Global) \<noteq> (scope_id = []) then
          (Inl (GrantError ''scope_id must be empty for global and set otherwise''), db)
        else if r = Admin \<and> (st \<noteq> Global \<or> gt \<noteq> UserGrantee) then
          (Inl (GrantError ''admin grants are global + per-user only''), db)
        else if gt = DeptGrantee \<and> r \<noteq> Viewer then
          (Inl (GrantError ''dept grants are viewer-only (current policy)''), db)
        else
          let g = \<lparr>g_id = gid, g_grantee_type = gt, g_grantee_id = grantee_id, g_role = r,
                   g_scope_type = st, g_scope_id = scope_id, g_granted_by = granted_by, g_granted_at = now\<rparr>
          in if gid \<in> g_id ` set (role_grants db) \<or> grant_key g \<in> grant_key ` set (role_grants db)
             then (Inl (GrantError ''duplicate grant''), db)
             else (Inr g,
                   audit now granted_by ''grant.create'' ''grant'' gid None None (Some (grant_detail g))
                     (db\<lparr>role_grants := role_grants db @ [g]\<rparr>)))))"

definition revoke_grant :: "real \<Rightarrow> string \<Rightarrow> string \<Rightarrow> auth_db \<Rightarrow> bool \<times> auth_db" where
  "revoke_grant now grant_id actor db =
     (case row_by g_id grant_id (role_grants db) of
        None \<Rightarrow> (False, db)
      | Some row \<Rightarrow>
          (True, audit now actor ''grant.revoke'' ''grant'' grant_id None None (Some (grant_detail row))
                   (db\<lparr>role_grants := sql_delete (\<lambda>g. g_id g = grant_id) (role_grants db)\<rparr>)))"

definition list_grants :: "(grantee_type \<times> string) option \<Rightarrow> auth_db \<Rightarrow> grant list" where
  "list_grants who db =
     sort_key g_granted_at
       (case who of
          None \<Rightarrow> role_grants db
        | Some (gt, gid) \<Rightarrow> filter (\<lambda>g. g_grantee_type g = gt \<and> g_grantee_id g = gid) (role_grants db))"

text \<open>\<^verbatim>\<open>bootstrap_admins\<close>: one fresh uuid per stripped non-empty userid.\<close>

fun bootstrap_admins :: "real \<Rightarrow> (string \<times> string) list \<Rightarrow> auth_db \<Rightarrow> nat \<times> auth_db" where
  "bootstrap_admins now [] db = (0, db)"
| "bootstrap_admins now ((gid, raw) # rest) db =
     (let uid = py_strip raw in
      if uid = [] then bootstrap_admins now rest db
      else case add_grant gid now ''user'' uid ''admin'' ''global'' [] ''system'' db of
             (Inr _, db') \<Rightarrow> (let (n, db'') = bootstrap_admins now rest db' in (n + 1, db''))
           | (Inl _, db') \<Rightarrow> bootstrap_admins now rest db')"

definition grant_applies :: "identity \<Rightarrow> string option \<Rightarrow> string option \<Rightarrow> grant \<Rightarrow> bool" where
  "grant_applies ident product_id customer_id g \<longleftrightarrow>
     ((g_grantee_type g = UserGrantee \<and> g_grantee_id g = i_userid ident) \<or>
      (i_deptid ident \<noteq> [] \<and> g_grantee_type g = DeptGrantee \<and> g_grantee_id g = i_deptid ident)) \<and>
     (g_scope_type g = Global \<or>
      (case customer_id of None \<Rightarrow> False | Some c \<Rightarrow> g_scope_type g = CustomerScope \<and> g_scope_id g = c) \<or>
      (case product_id of None \<Rightarrow> False | Some p \<Rightarrow> g_scope_type g = ProductScope \<and> g_scope_id g = p))"

definition effective_role ::
  "bool \<Rightarrow> identity \<Rightarrow> string option \<Rightarrow> string option \<Rightarrow> auth_db \<Rightarrow> role option" where
  "effective_role dev_resolve_grants ident product_id customer_id db =
     (if is_bypass ident \<and> \<not> dev_resolve_grants then Some Admin
      else case map g_role (filter (grant_applies ident product_id customer_id) (role_grants db)) of
             [] \<Rightarrow> None
           | r # rs \<Rightarrow> Some (foldl (\<lambda>m x. if ROLE_RANK x > ROLE_RANK m then x else m) r rs))"

subsection \<open>Edit locks\<close>

definition acquire_lock :: "string \<Rightarrow> string \<Rightarrow> real \<Rightarrow> auth_db \<Rightarrow> lock_status \<times> auth_db" where
  "acquire_lock product_id userid now db =
     (let mine = (\<lambda>k. k_product_id k = product_id \<and>
                      (k_held_by k = userid \<or> k_heartbeat_at k < now - LOCK_TTL_SECONDS));
          n = rowcount mine (product_edit_locks db);
          db1 = db\<lparr>product_edit_locks :=
                    sql_update mine (\<lambda>k. k\<lparr>k_held_by := userid, k_acquired_at := now, k_heartbeat_at := now\<rparr>)
                      (product_edit_locks db)\<rparr>
      in if n > 0 then (\<lparr>ls_acquired = True, ls_held_by = userid, ls_heartbeat_at = now\<rparr>, db1)
         else case row_by k_product_id product_id (product_edit_locks db1) of
                None \<Rightarrow>
                  (\<lparr>ls_acquired = True, ls_held_by = userid, ls_heartbeat_at = now\<rparr>,
                   db1\<lparr>product_edit_locks := product_edit_locks db1 @
                         [\<lparr>k_product_id = product_id, k_held_by = userid,
                           k_acquired_at = now, k_heartbeat_at = now\<rparr>]\<rparr>)
              | Some row \<Rightarrow>
                  (\<lparr>ls_acquired = False, ls_held_by = k_held_by row, ls_heartbeat_at = k_heartbeat_at row\<rparr>, db1))"

definition heartbeat_lock :: "string \<Rightarrow> string \<Rightarrow> real \<Rightarrow> auth_db \<Rightarrow> bool \<times> auth_db" where
  "heartbeat_lock product_id userid now db =
     (let own = (\<lambda>k. k_product_id k = product_id \<and> k_held_by k = userid) in
      (rowcount own (product_edit_locks db) > 0,
       db\<lparr>product_edit_locks := sql_update own (\<lambda>k. k\<lparr>k_heartbeat_at := now\<rparr>) (product_edit_locks db)\<rparr>))"

definition lock_holder :: "string \<Rightarrow> real \<Rightarrow> auth_db \<Rightarrow> string option" where
  "lock_holder product_id now db =
     (case row_by k_product_id product_id (product_edit_locks db) of
        None \<Rightarrow> None
      | Some row \<Rightarrow> if k_heartbeat_at row < now - LOCK_TTL_SECONDS then None else Some (k_held_by row))"

definition release_lock :: "bool \<Rightarrow> real \<Rightarrow> string \<Rightarrow> string \<Rightarrow> auth_db \<Rightarrow> bool \<times> auth_db" where
  "release_lock force now product_id actor db =
     (if force then
        let row = row_by k_product_id product_id (product_edit_locks db);
            hit = (\<lambda>k. k_product_id k = product_id);
            n = rowcount hit (product_edit_locks db);
            db1 = db\<lparr>product_edit_locks := sql_delete hit (product_edit_locks db)\<rparr>
        in (n > 0,
            if n > 0
            then audit now actor ''lock.force_release'' ''product'' product_id (Some product_id) None
                   (Some (JObj [(''was_held_by'', json_opt (map_option k_held_by row))])) db1
            else db1)
      else
        let hit = (\<lambda>k. k_product_id k = product_id \<and> k_held_by k = actor)
        in (rowcount hit (product_edit_locks db) > 0,
            db\<lparr>product_edit_locks := sql_delete hit (product_edit_locks db)\<rparr>))"

subsection \<open>Sessions\<close>

definition create_session ::
  "(string \<Rightarrow> string) \<Rightarrow> string \<Rightarrow> string \<Rightarrow> string \<Rightarrow> real \<Rightarrow> auth_db \<Rightarrow> (auth_error + string \<times> string) \<times> auth_db" where
  "create_session sha token csrf userid now db =
     (if sha token \<in> s_id ` set (sessions db) then (Inl (IntegrityError ''sessions.id''), db)
      else (Inr (token, csrf),
            db\<lparr>sessions := sessions db @
                [\<lparr>s_id = sha token, s_userid = userid, s_created_at = now, s_last_seen_at = now,
                  s_expires_at = now + SESSION_ABS_SECONDS, s_csrf_token = csrf\<rparr>]\<rparr>))"

record session_info =
  si_userid :: string
  si_deptid :: string
  si_name :: string
  si_email :: string
  si_description :: string
  si_csrf_token :: string

definition user_field :: "(user \<Rightarrow> string option) \<Rightarrow> user option \<Rightarrow> string" where
  "user_field f u = (case u of None \<Rightarrow> [] | Some x \<Rightarrow> or_empty (f x))"

definition resolve_session :: "(string \<Rightarrow> string) \<Rightarrow> string \<Rightarrow> real \<Rightarrow> auth_db \<Rightarrow> session_info option \<times> auth_db" where
  "resolve_session sha token now db =
     (case row_by s_id (sha token) (sessions db) of
        None \<Rightarrow> (None, db)
      | Some row \<Rightarrow>
          if now > s_expires_at row \<or> now - s_last_seen_at row > SESSION_IDLE_SECONDS then (None, db)
          else
            let db1 = (if now - s_last_seen_at row > 60
                       then db\<lparr>sessions := sql_update (\<lambda>s. s_id s = sha token)
                                 (\<lambda>s. s\<lparr>s_last_seen_at := now\<rparr>) (sessions db)\<rparr>
                       else db);
                u = get_user (s_userid row) db1
            in (Some \<lparr>si_userid = s_userid row, si_deptid = user_field u_deptid u,
                      si_name = user_field u_name u, si_email = user_field u_email u,
                      si_description = user_field u_description u, si_csrf_token = s_csrf_token row\<rparr>, db1))"

definition delete_session :: "(string \<Rightarrow> string) \<Rightarrow> string \<Rightarrow> auth_db \<Rightarrow> bool \<times> auth_db" where
  "delete_session sha token db =
     (rowcount (\<lambda>s. s_id s = sha token) (sessions db) > 0,
      db\<lparr>sessions := sql_delete (\<lambda>s. s_id s = sha token) (sessions db)\<rparr>)"

definition prune_sessions :: "real \<Rightarrow> auth_db \<Rightarrow> nat \<times> auth_db" where
  "prune_sessions now db =
     (let stale = (\<lambda>s. s_expires_at s < now \<or> s_last_seen_at s < now - SESSION_IDLE_SECONDS) in
      (rowcount stale (sessions db), db\<lparr>sessions := sql_delete stale (sessions db)\<rparr>))"

subsection \<open>Resolving the caller\<close>

datatype auth_mode = BypassMode | OidcMode

record request =
  rq_cookie :: "string option"        \<comment> \<open>the session cookie\<close>
  rq_method :: string
  rq_csrf :: "string option"          \<comment> \<open>the X-CSRF-Token header\<close>

datatype http_error = HTTPException nat string

definition safe_method :: "string \<Rightarrow> bool" where
  "safe_method m \<longleftrightarrow> m \<in> set [''GET'', ''HEAD'', ''OPTIONS'']"

definition get_identity ::
  "(string \<Rightarrow> string) \<Rightarrow> auth_mode \<Rightarrow> bool \<Rightarrow> string \<Rightarrow> request option \<Rightarrow> real \<Rightarrow> auth_db
     \<Rightarrow> (http_error + identity) \<times> auth_db" where
  "get_identity sha mode dev_resolve_grants dev_user request now db =
     (case mode of
        BypassMode \<Rightarrow>
          (Inr (if dev_resolve_grants then
                  let u = get_user dev_user db in
                  \<lparr>i_userid = dev_user, i_deptid = user_field u_deptid u, i_name = user_field u_name u,
                    i_email = [], i_description = [], i_source = Bypass\<rparr>
                else \<lparr>i_userid = dev_user, i_deptid = [], i_name = [], i_email = [],
                       i_description = [], i_source = Bypass\<rparr>), db)
      | OidcMode \<Rightarrow>
          let token = (case request of None \<Rightarrow> [] | Some rq \<Rightarrow> or_empty (rq_cookie rq)) in
          if token = [] then (Inl (HTTPException 401 ''not authenticated''), db)
          else case resolve_session sha token now db of
                 (None, db1) \<Rightarrow> (Inl (HTTPException 401 ''session expired''), db1)
               | (Some sess, db1) \<Rightarrow>
                   (case request of
                      Some rq \<Rightarrow>
                        if \<not> safe_method (rq_method rq) \<and> rq_csrf rq \<noteq> Some (si_csrf_token sess)
                        then (Inl (HTTPException 403 ''CSRF token mismatch''), db1)
                        else (Inr \<lparr>i_userid = si_userid sess, i_deptid = si_deptid sess, i_name = si_name sess,
                                   i_email = si_email sess, i_description = si_description sess,
                                   i_source = Session\<rparr>, db1)
                    | None \<Rightarrow>
                        (Inr \<lparr>i_userid = si_userid sess, i_deptid = si_deptid sess, i_name = si_name sess,
                              i_email = si_email sess, i_description = si_description sess,
                              i_source = Session\<rparr>, db1)))"

subsection \<open>The store's invariant\<close>

definition grant_ok :: "grant \<Rightarrow> bool" where
  "grant_ok g \<longleftrightarrow> ((g_scope_type g = Global) = (g_scope_id g = [])) \<and>
     (g_role g = Admin \<longrightarrow> g_scope_type g = Global \<and> g_grantee_type g = UserGrantee) \<and>
     (g_grantee_type g = DeptGrantee \<longrightarrow> g_role g = Viewer)"

definition auth_inv :: "auth_db \<Rightarrow> bool" where
  "auth_inv db \<longleftrightarrow>
     distinct (map u_userid (users db)) \<and> distinct (map c_id (customers db)) \<and>
     distinct (map c_name (customers db)) \<and> distinct (map g_id (role_grants db)) \<and>
     distinct (map grant_key (role_grants db)) \<and> distinct (map k_product_id (product_edit_locks db)) \<and>
     distinct (map s_id (sessions db)) \<and> (\<forall>g\<in>set (role_grants db). grant_ok g) \<and>
     (\<forall>s\<in>set (sessions db). s_expires_at s = s_created_at s + SESSION_ABS_SECONDS)"

lemma audit_tables [simp]:
  "users (audit n a b c d e f g db) = users db"
  "customers (audit n a b c d e f g db) = customers db"
  "role_grants (audit n a b c d e f g db) = role_grants db"
  "product_edit_locks (audit n a b c d e f g db) = product_edit_locks db"
  "sessions (audit n a b c d e f g db) = sessions db"
  by (simp_all add: audit_def)

lemma auth_inv_audit [simp]: "auth_inv (audit n a b c d e f g db) \<longleftrightarrow> auth_inv db"
  by (simp add: auth_inv_def)

lemma distinct_snoc: "distinct (map f xs) \<Longrightarrow> f x \<notin> f ` set xs \<Longrightarrow> distinct (map f (xs @ [x]))"
  by auto

lemma auth_inv_upsert: "auth_inv db \<Longrightarrow> auth_inv (snd (upsert_user_from_claims now claims db))"
proof -
  assume a: "auth_inv db"
  let ?id = "or_empty (claims ''preferred_username'')"
  have "distinct (map u_userid (sql_update (\<lambda>u. u_userid u = ?id) f (users db)))"
    if "\<And>u. u_userid (f u) = u_userid u" for f
    using a by (subst map_sql_update) (auto simp: auth_inv_def that)
  then show ?thesis
    using a unfolding upsert_user_from_claims_def Let_def
    by (auto simp: auth_inv_def get_user_def row_by_None split: option.splits)
qed

lemma auth_inv_create_customer: "auth_inv db \<Longrightarrow> auth_inv (snd (create_customer cid now name actor db))"
  by (simp add: create_customer_def auth_inv_def)

lemma auth_inv_delete_customer: "auth_inv db \<Longrightarrow> auth_inv (snd (delete_customer now cid actor db))"
  by (simp add: delete_customer_def Let_def) (simp add: auth_inv_def distinct_sql_delete)

lemma auth_inv_add_grant: "auth_inv db \<Longrightarrow> auth_inv (snd (add_grant gid now gt gi r st si by db))"
  unfolding add_grant_def Let_def
  by (auto simp: auth_inv_def grant_ok_def split: option.splits)

lemma auth_inv_revoke_grant: "auth_inv db \<Longrightarrow> auth_inv (snd (revoke_grant now gid actor db))"
  by (auto simp: revoke_grant_def auth_inv_def distinct_sql_delete split: option.splits)

lemma auth_inv_acquire_lock: "auth_inv db \<Longrightarrow> auth_inv (snd (acquire_lock p u now db))"
proof -
  assume a: "auth_inv db"
  have d: "distinct (map k_product_id (sql_update P
      (\<lambda>k. k\<lparr>k_held_by := u, k_acquired_at := now, k_heartbeat_at := now\<rparr>) (product_edit_locks db)))" for P
    using a by (subst map_sql_update) (auto simp: auth_inv_def)
  then show ?thesis
    using a unfolding acquire_lock_def Let_def by (auto simp: auth_inv_def row_by_None split: option.splits)
qed

lemma auth_inv_heartbeat_lock: "auth_inv db \<Longrightarrow> auth_inv (snd (heartbeat_lock p u now db))"
  by (simp add: heartbeat_lock_def Let_def auth_inv_def map_sql_update)

lemma auth_inv_release_lock: "auth_inv db \<Longrightarrow> auth_inv (snd (release_lock force now p actor db))"
  by (simp add: release_lock_def Let_def) (simp add: auth_inv_def distinct_sql_delete)

lemma auth_inv_create_session: "auth_inv db \<Longrightarrow> auth_inv (snd (create_session sha token csrf uid now db))"
  by (simp add: create_session_def auth_inv_def)

lemma auth_inv_resolve_session: "auth_inv db \<Longrightarrow> auth_inv (snd (resolve_session sha token now db))"
  by (simp add: resolve_session_def Let_def split: option.split) (simp add: auth_inv_def map_sql_update ball_sql_update)

lemma auth_inv_delete_session: "auth_inv db \<Longrightarrow> auth_inv (snd (delete_session sha token db))"
  by (simp add: delete_session_def auth_inv_def distinct_sql_delete)

lemma auth_inv_prune_sessions: "auth_inv db \<Longrightarrow> auth_inv (snd (prune_sessions now db))"
  by (simp add: prune_sessions_def Let_def auth_inv_def distinct_sql_delete)

lemma auth_inv_bootstrap: "auth_inv db \<Longrightarrow> auth_inv (snd (bootstrap_admins now ids db))"
proof (induction now ids db rule: bootstrap_admins.induct)
  case (2 now gid raw rest db)
  show ?case
  proof (cases "add_grant gid now ''user'' (py_strip raw) ''admin'' ''global'' [] ''system'' db")
    case (Pair r db')
    have "auth_inv db'"
      using auth_inv_add_grant[OF "2.prems", of gid now "''user''" "py_strip raw" "''admin''" "''global''" "[]" "''system''"]
      by (simp add: Pair)
    then show ?thesis
      using 2 Pair by (cases r) (auto simp: Let_def split: prod.splits)
  qed
qed simp

lemmas auth_inv_ops =
  auth_inv_upsert auth_inv_create_customer auth_inv_delete_customer auth_inv_add_grant auth_inv_revoke_grant
  auth_inv_acquire_lock auth_inv_heartbeat_lock auth_inv_release_lock auth_inv_create_session
  auth_inv_resolve_session auth_inv_delete_session auth_inv_prune_sessions auth_inv_bootstrap

text \<open>What any run of the store's operations can reach, from the empty tables.\<close>

inductive auth_reachable :: "auth_db \<Rightarrow> bool" where
  init: "auth_reachable (seed_customer label now empty_auth_db)"
| upsert: "auth_reachable db \<Longrightarrow> auth_reachable (snd (upsert_user_from_claims now claims db))"
| create_customer: "auth_reachable db \<Longrightarrow> auth_reachable (snd (create_customer cid now name actor db))"
| delete_customer: "auth_reachable db \<Longrightarrow> auth_reachable (snd (delete_customer now cid actor db))"
| add_grant: "auth_reachable db \<Longrightarrow> auth_reachable (snd (add_grant gid now gt gi r st si by db))"
| revoke_grant: "auth_reachable db \<Longrightarrow> auth_reachable (snd (revoke_grant now gid actor db))"
| bootstrap: "auth_reachable db \<Longrightarrow> auth_reachable (snd (bootstrap_admins now ids db))"
| acquire: "auth_reachable db \<Longrightarrow> auth_reachable (snd (acquire_lock p u now db))"
| heartbeat: "auth_reachable db \<Longrightarrow> auth_reachable (snd (heartbeat_lock p u now db))"
| release: "auth_reachable db \<Longrightarrow> auth_reachable (snd (release_lock force now p actor db))"
| create_session: "auth_reachable db \<Longrightarrow> auth_reachable (snd (create_session sha token csrf uid now db))"
| resolve_session: "auth_reachable db \<Longrightarrow> auth_reachable (snd (resolve_session sha token now db))"
| delete_session: "auth_reachable db \<Longrightarrow> auth_reachable (snd (delete_session sha token db))"
| prune_sessions: "auth_reachable db \<Longrightarrow> auth_reachable (snd (prune_sessions now db))"
| audited: "auth_reachable db \<Longrightarrow> auth_reachable (audit now a b c d e f g db)"

lemma seed_inv: "auth_inv (seed_customer label now empty_auth_db)"
  by (simp add: seed_customer_def empty_auth_db_def auth_inv_def)

lemma reachable_inv: "auth_reachable db \<Longrightarrow> auth_inv db"
  by (induction rule: auth_reachable.induct) (simp_all only: auth_inv_ops seed_inv auth_inv_audit)

text \<open>C22. Whatever sequence of store operations runs, the tables keep their keys unique, every
  stored grant obeys the semantic rules (global scope exactly when the scope id is empty, admin
  grants global and per user, department grants viewer only) and every session expires 24 hours
  after its creation.\<close>

theorem auth_invariant:
  assumes "auth_reachable db"
  shows "auth_inv db"
  using assms by (rule reachable_inv)

lemma auth_invariant_witness:
  "auth_inv (snd (add_grant ''g1'' 5 ''dept'' ''d7'' ''viewer'' ''product'' ''p1'' ''root''
     (snd (acquire_lock ''p1'' ''ann'' 4 (seed_customer ''none'' 0 empty_auth_db)))))"
  by (rule auth_invariant) (intro auth_reachable.intros)

subsection \<open>Effective roles\<close>

lemma best_role:
  "ROLE_RANK (foldl (\<lambda>m x. if ROLE_RANK x > ROLE_RANK m then x else m) r rs) = ROLE_RANK (Max (set (r # rs)))"
proof (induction rs arbitrary: r)
  case (Cons x rs)
  have m: "(if ROLE_RANK x > ROLE_RANK r then x else r) = max r x"
    by (auto simp: max_def less_eq_role_def ROLE_RANK_def split: role.splits)
  have "Max (set (max r x # rs)) = Max (set (r # x # rs))"
    by (cases rs) (simp_all add: max.assoc)
  then show ?case using Cons m by simp
qed simp

lemma role_rank_inject: "ROLE_RANK a = ROLE_RANK b \<longleftrightarrow> a = b"
  by (auto simp: ROLE_RANK_def split: role.splits)

lemma effective_role_Max:
  "effective_role resolve ident product_id customer_id db =
     (if is_bypass ident \<and> \<not> resolve then Some Admin
      else let roles = g_role ` {g \<in> set (role_grants db). grant_applies ident product_id customer_id g}
           in if roles = {} then None else Some (Max roles))"
proof -
  let ?rs = "map g_role (filter (grant_applies ident product_id customer_id) (role_grants db))"
  have s: "set ?rs = g_role ` {g \<in> set (role_grants db). grant_applies ident product_id customer_id g}" by auto
  have "effective_role resolve ident product_id customer_id db =
      (if set ?rs = {} then None else Some (Max (set ?rs)))" if "\<not> (is_bypass ident \<and> \<not> resolve)"
  proof (cases ?rs)
    case (Cons r rs)
    have "foldl (\<lambda>m x. if ROLE_RANK x > ROLE_RANK m then x else m) r rs = Max (set (r # rs))"
      using best_role[of r rs] role_rank_inject by blast
    then show ?thesis using that unfolding effective_role_def Cons by auto
  qed (use that in \<open>simp add: effective_role_def\<close>)
  then show ?thesis unfolding Let_def s[symmetric] by (simp add: effective_role_def)
qed

text \<open>The effective role is the highest role of the grants that apply (to the user or the
  department, in a global scope or one of the two ids passed), none if no grant applies, and admin
  for a bypass identity that does not resolve grants.\<close>

theorem effective_role_is_max:
  "effective_role resolve ident product_id customer_id db =
     (if is_bypass ident \<and> \<not> resolve then Some Admin
      else let roles = g_role ` {g \<in> set (role_grants db). grant_applies ident product_id customer_id g}
           in if roles = {} then None else Some (Max roles))"
  by (rule effective_role_Max)

text \<open>Only a global grant to the user makes anyone admin, and a department alone never
  confers more than viewer.\<close>

theorem admin_needs_user_grant:
  assumes "auth_inv db" "\<not> (is_bypass ident \<and> \<not> resolve)"
    and "effective_role resolve ident product_id customer_id db = Some r"
  shows "(r = Admin \<longrightarrow> (\<exists>g\<in>set (role_grants db). g_grantee_type g = UserGrantee \<and>
            g_grantee_id g = i_userid ident \<and> g_role g = Admin \<and> g_scope_type g = Global)) \<and>
         (r \<noteq> Viewer \<longrightarrow> (\<exists>g\<in>set (role_grants db). g_grantee_type g = UserGrantee \<and> g_grantee_id g = i_userid ident))"
proof -
  let ?G = "{g \<in> set (role_grants db). grant_applies ident product_id customer_id g}"
  have "(if g_role ` ?G = {} then None else Some (Max (g_role ` ?G))) = Some r"
    using assms(2,3) effective_role_Max[of resolve ident product_id customer_id db] by (simp only: Let_def if_False)
  then have "g_role ` ?G \<noteq> {}" "r = Max (g_role ` ?G)" by (metis option.distinct(1) option.inject)+
  then have "r \<in> g_role ` ?G" using Max_in[of "g_role ` ?G"] by simp
  then obtain g where g: "g \<in> set (role_grants db)" "grant_applies ident product_id customer_id g" "r = g_role g"
    by blast
  then have ok: "grant_ok g" using assms(1) by (simp add: auth_inv_def)
  have who: "g_grantee_type g = UserGrantee \<longrightarrow> g_grantee_id g = i_userid ident"
    using g(2) by (auto simp: grant_applies_def)
  have dept: "g_grantee_type g = DeptGrantee \<longrightarrow> r = Viewer" using ok g(3) by (simp add: grant_ok_def)
  have "r = Admin \<longrightarrow> g_grantee_type g = UserGrantee \<and> g_scope_type g = Global"
    using ok g(3) by (simp add: grant_ok_def)
  moreover have "r \<noteq> Viewer \<longrightarrow> g_grantee_type g = UserGrantee"
    using dept by (cases "g_grantee_type g") auto
  ultimately show ?thesis using g(1,3) who by auto
qed

definition ann :: identity where
  "ann = \<lparr>i_userid = ''ann'', i_deptid = ''d7'', i_name = [], i_email = [], i_description = [], i_source = Session\<rparr>"

definition ann_db :: auth_db where
  "ann_db = empty_auth_db\<lparr>role_grants :=
     [\<lparr>g_id = ''g0'', g_grantee_type = DeptGrantee, g_grantee_id = ''d7'', g_role = Viewer,
       g_scope_type = CustomerScope, g_scope_id = ''c1'', g_granted_by = ''root'', g_granted_at = 1\<rparr>,
      \<lparr>g_id = ''g1'', g_grantee_type = UserGrantee, g_grantee_id = ''ann'', g_role = Editor,
       g_scope_type = ProductScope, g_scope_id = ''p1'', g_granted_by = ''root'', g_granted_at = 2\<rparr>]\<rparr>"

lemma admin_needs_user_grant_witness:
  "effective_role False ann (Some ''p1'') (Some ''c1'') ann_db = Some Editor \<and>
   (\<exists>g\<in>set (role_grants ann_db). g_grantee_type g = UserGrantee \<and> g_grantee_id g = i_userid ann)"
proof -
  have e: "effective_role False ann (Some ''p1'') (Some ''c1'') ann_db = Some Editor"
    by (simp add: effective_role_def ann_def ann_db_def empty_auth_db_def is_bypass_def grant_applies_def ROLE_RANK_def)
  have i: "auth_inv ann_db"
    by (simp add: auth_inv_def ann_db_def empty_auth_db_def grant_key_def grant_ok_def)
  have b: "\<not> (is_bypass ann \<and> \<not> False)" by (simp add: is_bypass_def ann_def)
  show ?thesis using admin_needs_user_grant[OF i b e] e by simp
qed

subsection \<open>Sessions\<close>

text \<open>A token resolves only to its own session, within 24 hours of its creation and 8 hours of
  its last use, and then to the userid and CSRF token it was created with.\<close>

theorem session_lifetimes:
  assumes "auth_inv db" "resolve_session sha token now db = (Some info, db')"
  shows "\<exists>s\<in>set (sessions db). s_id s = sha token \<and> now \<le> s_created_at s + 24 * 3600 \<and>
     now \<le> s_last_seen_at s + 8 * 3600 \<and> si_userid info = s_userid s \<and> si_csrf_token info = s_csrf_token s \<and>
     (\<exists>s'\<in>set (sessions db'). s_id s' = sha token \<and> now - 60 \<le> s_last_seen_at s')"
proof -
  obtain row where row: "row_by s_id (sha token) (sessions db) = Some row"
    using assms(2) by (auto simp: resolve_session_def split: option.splits)
  then have r: "row \<in> set (sessions db)" "s_id row = sha token" by (auto dest: row_by_SomeD)
  then have x: "s_expires_at row = s_created_at row + SESSION_ABS_SECONDS"
    using assms(1) by (simp add: auth_inv_def)
  have live: "now \<le> s_expires_at row" "now - s_last_seen_at row \<le> SESSION_IDLE_SECONDS"
    and info: "si_userid info = s_userid row" "si_csrf_token info = s_csrf_token row"
    and db': "db' = (if now - s_last_seen_at row > 60
        then db\<lparr>sessions := sql_update (\<lambda>s. s_id s = sha token) (\<lambda>s. s\<lparr>s_last_seen_at := now\<rparr>) (sessions db)\<rparr>
        else db)"
    using assms(2) row by (auto simp: resolve_session_def Let_def split: if_splits)
  have "\<exists>s'\<in>set (sessions db'). s_id s' = sha token \<and> now - 60 \<le> s_last_seen_at s'"
  proof (cases "now - s_last_seen_at row > 60")
    case True
    have "row\<lparr>s_last_seen_at := now\<rparr> \<in> set (sessions db')"
      unfolding db' using r True by (force simp: sql_update_def)
    then show ?thesis using r by (intro bexI[of _ "row\<lparr>s_last_seen_at := now\<rparr>"]) simp_all
  next
    case False
    then show ?thesis unfolding db' using r by (intro bexI[of _ row]) auto
  qed
  then show ?thesis
    using r live info x by (intro bexI[of _ row]) (auto simp: SESSION_ABS_SECONDS_def SESSION_IDLE_SECONDS_def)
qed

definition one_session :: auth_db where
  "one_session = empty_auth_db\<lparr>sessions :=
     [\<lparr>s_id = ''t1'', s_userid = ''ann'', s_created_at = 0, s_last_seen_at = 100,
       s_expires_at = 86400, s_csrf_token = ''x''\<rparr>]\<rparr>"

lemma session_lifetimes_witness:
  "\<exists>s\<in>set (sessions one_session). s_id s = id ''t1'' \<and> (200 :: real) \<le> s_created_at s + 24 * 3600"
proof -
  have i: "auth_inv one_session"
    by (simp add: auth_inv_def one_session_def empty_auth_db_def SESSION_ABS_SECONDS_def)
  have "fst (resolve_session id ''t1'' 200 one_session) \<noteq> None"
    by (simp add: resolve_session_def one_session_def empty_auth_db_def SESSION_IDLE_SECONDS_def Let_def)
  then obtain info db' where "resolve_session id ''t1'' 200 one_session = (Some info, db')"
    by (cases "resolve_session id ''t1'' 200 one_session") auto
  from session_lifetimes[OF i this] show ?thesis by blast
qed

text \<open>Pruning drops only dead sessions: it changes the answer of no later lookup.\<close>

theorem prune_keeps_live_sessions:
  assumes "auth_inv db" "now \<le> later"
  shows "fst (resolve_session sha token later (snd (prune_sessions now db))) = fst (resolve_session sha token later db)"
proof -
  have d: "distinct (map s_id (sessions db))" using assms(1) by (simp add: auth_inv_def)
  show ?thesis
    using assms(2) unfolding prune_sessions_def resolve_session_def Let_def
    by (auto simp: row_by_delete[OF d] get_user_def split: option.splits)
qed

lemma prune_keeps_live_sessions_witness:
  "fst (resolve_session id ''t1'' 300 (snd (prune_sessions 200 one_session))) = fst (resolve_session id ''t1'' 300 one_session)"
  by (rule prune_keeps_live_sessions)
     (simp_all add: auth_inv_def one_session_def empty_auth_db_def SESSION_ABS_SECONDS_def)

subsection \<open>The edit lock as a lease\<close>

datatype ('p, 'u) lease_action =
    Acquire (action_user: 'u) 'p (action_time: real)
  | Heartbeat (action_user: 'u) 'p (action_time: real)
  | Release (action_user: 'u) 'p (action_time: real)
  | Force (action_user: 'u) 'p (action_time: real)

text \<open>The state after an action, for a provider of the four operations.\<close>

fun lease_do ::
  "('p \<Rightarrow> 'u \<Rightarrow> real \<Rightarrow> 's \<Rightarrow> bool \<times> 's) \<Rightarrow> ('p \<Rightarrow> 'u \<Rightarrow> real \<Rightarrow> 's \<Rightarrow> bool \<times> 's)
     \<Rightarrow> ('p \<Rightarrow> 'u \<Rightarrow> real \<Rightarrow> 's \<Rightarrow> bool \<times> 's) \<Rightarrow> ('p \<Rightarrow> 'u \<Rightarrow> real \<Rightarrow> 's \<Rightarrow> bool \<times> 's)
     \<Rightarrow> ('p, 'u) lease_action \<Rightarrow> 's \<Rightarrow> 's" where
  "lease_do acq beat rel force (Acquire u p t) s = snd (acq p u t s)"
| "lease_do acq beat rel force (Heartbeat u p t) s = snd (beat p u t s)"
| "lease_do acq beat rel force (Release u p t) s = snd (rel p u t s)"
| "lease_do acq beat rel force (Force u p t) s = snd (force p u t s)"

text \<open>A lease ends by its time to live, by its holder's release or by force; the provider counts how
  often a holder lost it by force.\<close>

locale lease =
  fixes acq :: "'p \<Rightarrow> 'u \<Rightarrow> real \<Rightarrow> 's \<Rightarrow> bool \<times> 's"
    and beat :: "'p \<Rightarrow> 'u \<Rightarrow> real \<Rightarrow> 's \<Rightarrow> bool \<times> 's"
    and rel :: "'p \<Rightarrow> 'u \<Rightarrow> real \<Rightarrow> 's \<Rightarrow> bool \<times> 's"
    and force :: "'p \<Rightarrow> 'u \<Rightarrow> real \<Rightarrow> 's \<Rightarrow> bool \<times> 's"
    and holder :: "'p \<Rightarrow> real \<Rightarrow> 's \<Rightarrow> 'u option"
    and revoked :: "'p \<Rightarrow> 'u \<Rightarrow> 's \<Rightarrow> nat"
    and inv :: "'s \<Rightarrow> bool"
    and ttl :: real
  assumes inv_acq: "inv s \<Longrightarrow> inv (snd (acq p u t s))"
    and inv_beat: "inv s \<Longrightarrow> inv (snd (beat p u t s))"
    and inv_rel: "inv s \<Longrightarrow> inv (snd (rel p u t s))"
    and inv_force: "inv s \<Longrightarrow> inv (snd (force p u t s))"
    and acq_free: "inv s \<Longrightarrow> holder p t s = None \<or> holder p t s = Some u \<Longrightarrow>
      fst (acq p u t s) \<and> (t' \<le> t + ttl \<longrightarrow> holder p t' (snd (acq p u t s)) = Some u)"
    and acq_held: "inv s \<Longrightarrow> holder p t s = Some v \<Longrightarrow> v \<noteq> u \<Longrightarrow> \<not> fst (acq p u t s) \<and> snd (acq p u t s) = s"
    and acq_other: "inv s \<Longrightarrow> q \<noteq> p \<Longrightarrow> holder q t' (snd (acq p u t s)) = holder q t' s"
    and beat_other: "inv s \<Longrightarrow> holder q t' s = Some v \<Longrightarrow> (q, v) \<noteq> (p, u) \<Longrightarrow> holder q t' (snd (beat p u t s)) = Some v"
    and beat_own: "inv s \<Longrightarrow> fst (beat p u t s) \<Longrightarrow> t' \<le> t + ttl \<Longrightarrow> holder p t' (snd (beat p u t s)) = Some u"
    and rel_other: "inv s \<Longrightarrow> holder q t' s = Some v \<Longrightarrow> (q, v) \<noteq> (p, u) \<Longrightarrow> holder q t' (snd (rel p u t s)) = Some v"
    and force_other: "inv s \<Longrightarrow> q \<noteq> p \<Longrightarrow> holder q t' (snd (force p u t s)) = holder q t' s"
    and force_counts: "inv s \<Longrightarrow> holder p t' s = Some v \<Longrightarrow> revoked p v s < revoked p v (snd (force p u t s))"
    and revoked_mono: "revoked q v s \<le> revoked q v (snd (acq p u t s))" "revoked q v s \<le> revoked q v (snd (beat p u t s))"
      "revoked q v s \<le> revoked q v (snd (rel p u t s))" "revoked q v s \<le> revoked q v (snd (force p u t s))"
begin

lemma inv_do: "inv s \<Longrightarrow> inv (lease_do acq beat rel force a s)"
  by (cases a) (simp_all add: inv_acq inv_beat inv_rel inv_force)

lemma revoked_do: "revoked p u s \<le> revoked p u (lease_do acq beat rel force a s)"
  by (cases a) (simp_all add: revoked_mono)

lemma revoked_fold: "revoked p u s \<le> revoked p u (fold (lease_do acq beat rel force) as s)"
  by (induction as arbitrary: s) (auto intro: order_trans[OF revoked_do])

lemma acquired_iff:
  assumes "inv s"
  shows "fst (acq p u t s) \<longleftrightarrow> holder p t s = None \<or> holder p t s = Some u"
  using acq_free[OF assms, of p t u t] acq_held[OF assms, of p t _ u] by (cases "holder p t s") auto

text \<open>No action of another user ends a lease, except a forced release of the leased product.\<close>

lemma do_keeps:
  assumes "inv s" "\<forall>t'\<le>deadline. holder p t' s = Some u" "action_user a \<noteq> u" "action_time a \<le> deadline"
    "\<forall>v t. a \<noteq> Force v p t"
  shows "\<forall>t'\<le>deadline. holder p t' (lease_do acq beat rel force a s) = Some u"
proof (cases a)
  case (Acquire v q t)
  show ?thesis
  proof (cases "q = p")
    case True
    then have "snd (acq q v t s) = s" using assms acq_held[OF assms(1), of p t u v] Acquire by auto
    then show ?thesis using assms(2) Acquire by simp
  next
    case False
    then show ?thesis using assms acq_other[OF assms(1)] Acquire by auto
  qed
next
  case (Heartbeat v q t)
  then show ?thesis using assms beat_other[OF assms(1)] by auto
next
  case (Release v q t)
  then show ?thesis using assms rel_other[OF assms(1)] by auto
next
  case (Force v q t)
  then show ?thesis using assms force_other[OF assms(1), of p q] by auto
qed

lemma kept_or_revoked:
  assumes "inv s" "\<forall>t'\<le>deadline. holder p t' s = Some u" "\<forall>a\<in>set as. action_user a \<noteq> u \<and> action_time a \<le> deadline"
  shows "(\<forall>t'\<le>deadline. holder p t' (fold (lease_do acq beat rel force) as s) = Some u) \<or>
    (\<exists>v t. Force v p t \<in> set as) \<and> revoked p u s < revoked p u (fold (lease_do acq beat rel force) as s)"
  using assms
proof (induction as arbitrary: s)
  case (Cons a as)
  let ?s = "lease_do acq beat rel force a s"
  show ?case
  proof (cases "\<exists>v t. a = Force v p t")
    case True
    then obtain v t where a: "a = Force v p t" by blast
    have "revoked p u s < revoked p u ?s" using force_counts[OF Cons.prems(1), of p deadline u] Cons.prems(2) by (simp add: a)
    also have "\<dots> \<le> revoked p u (fold (lease_do acq beat rel force) as ?s)" by (rule revoked_fold)
    finally show ?thesis using a by auto
  next
    case False
    then have "\<forall>t'\<le>deadline. holder p t' ?s = Some u"
      using do_keeps[OF Cons.prems(1,2), of a] Cons.prems(3) by simp
    from Cons.IH[OF inv_do[OF Cons.prems(1)] this] Cons.prems(3) revoked_do[of p u s a] show ?thesis
      by (auto intro: order.strict_trans1)
  qed
qed simp

text \<open>Whoever acquires a lease or has a heartbeat confirmed holds it for the time to live.\<close>

lemma granted:
  assumes "inv s" "fst (acq p u t s) \<and> s' = snd (acq p u t s) \<or> fst (beat p u t s) \<and> s' = snd (beat p u t s)"
  shows "inv s' \<and> (\<forall>t'\<le>t + ttl. holder p t' s' = Some u)"
  using assms(2) acq_free[OF assms(1), of p t u] acquired_iff[OF assms(1), of p u t] beat_own[OF assms(1), of p u t]
    inv_acq[OF assms(1)] inv_beat[OF assms(1)] by auto

lemma exclusive:
  assumes "inv s" "fst (acq p u t s) \<and> s' = snd (acq p u t s) \<or> fst (beat p u t s) \<and> s' = snd (beat p u t s)"
    "\<forall>a\<in>set as. action_user a \<noteq> u \<and> action_time a \<le> t + ttl" "t' \<le> t + ttl"
  shows "holder p t' (fold (lease_do acq beat rel force) as s') = Some u \<or>
    (\<exists>v t. Force v p t \<in> set as) \<and> revoked p u s' < revoked p u (fold (lease_do acq beat rel force) as s')"
  using kept_or_revoked[of s' "t + ttl" p u as] granted[OF assms(1,2)] assms(3,4) by blast

end

text \<open>The store provides the lease: \<^verbatim>\<open>lock_holder\<close> reads it, the owner's release ends it and so does the
  admin's, which leaves a row in the audit log.\<close>

definition edit_acquire :: "string \<Rightarrow> string \<Rightarrow> real \<Rightarrow> auth_db \<Rightarrow> bool \<times> auth_db" where
  "edit_acquire p u t db = (ls_acquired (fst (acquire_lock p u t db)), snd (acquire_lock p u t db))"

definition edit_release :: "string \<Rightarrow> string \<Rightarrow> real \<Rightarrow> auth_db \<Rightarrow> bool \<times> auth_db" where
  "edit_release p u t db = release_lock False t p u db"

definition edit_force :: "string \<Rightarrow> string \<Rightarrow> real \<Rightarrow> auth_db \<Rightarrow> bool \<times> auth_db" where
  "edit_force p u t db = release_lock True t p u db"

text \<open>One lock action on the store, and the audited forced releases of a product that took it from a user.\<close>

definition lock_do :: "(string, string) lease_action \<Rightarrow> auth_db \<Rightarrow> auth_db" where
  "lock_do = lease_do edit_acquire heartbeat_lock edit_release edit_force"

definition forced_releases :: "string \<Rightarrow> string \<Rightarrow> auth_db \<Rightarrow> nat" where
  "forced_releases p u db =
     rowcount (\<lambda>e. a_action e = ''lock.force_release'' \<and> a_product_id e = Some p \<and>
        a_detail e = Some (JObj [(''was_held_by'', JStr u)])) (audit_log db)"

definition lock_row :: "string \<Rightarrow> auth_db \<Rightarrow> edit_lock option" where
  "lock_row p db = row_by k_product_id p (product_edit_locks db)"

lemma lock_holder_row:
  "lock_holder p t db = (case lock_row p db of None \<Rightarrow> None
     | Some k \<Rightarrow> if k_heartbeat_at k < t - LOCK_TTL_SECONDS then None else Some (k_held_by k))"
  by (simp add: lock_holder_def lock_row_def)

lemma lock_row_product: "lock_row p db = Some k \<Longrightarrow> k_product_id k = p"
  by (auto simp: lock_row_def dest: row_by_SomeD)

lemma locks_distinct: "auth_inv db \<Longrightarrow> distinct (map k_product_id (product_edit_locks db))"
  by (simp add: auth_inv_def)

lemma rowcount_lock:
  assumes "auth_inv db"
  shows "0 < rowcount (\<lambda>k. k_product_id k = p \<and> P k) (product_edit_locks db) \<longleftrightarrow>
    (\<exists>k. lock_row p db = Some k \<and> P k)"
  unfolding rowcount_pos lock_row_def
  using row_by_unique[OF locks_distinct[OF assms]] by (auto dest: row_by_SomeD)

lemma acquire_lock_rows:
  assumes "auth_inv db"
  shows "acquire_lock p u t db =
    (case lock_row p db of
       None \<Rightarrow> (\<lparr>ls_acquired = True, ls_held_by = u, ls_heartbeat_at = t\<rparr>,
                db\<lparr>product_edit_locks := product_edit_locks db @
                   [\<lparr>k_product_id = p, k_held_by = u, k_acquired_at = t, k_heartbeat_at = t\<rparr>]\<rparr>)
     | Some k \<Rightarrow>
         if k_held_by k = u \<or> k_heartbeat_at k < t - LOCK_TTL_SECONDS
         then (\<lparr>ls_acquired = True, ls_held_by = u, ls_heartbeat_at = t\<rparr>,
               db\<lparr>product_edit_locks := sql_update (\<lambda>k. k_product_id k = p \<and>
                    (k_held_by k = u \<or> k_heartbeat_at k < t - LOCK_TTL_SECONDS))
                  (\<lambda>k. k\<lparr>k_held_by := u, k_acquired_at := t, k_heartbeat_at := t\<rparr>) (product_edit_locks db)\<rparr>)
         else (\<lparr>ls_acquired = False, ls_held_by = k_held_by k, ls_heartbeat_at = k_heartbeat_at k\<rparr>, db))"
    (is "_ = ?R")
proof -
  let ?P = "\<lambda>k. k_held_by k = u \<or> k_heartbeat_at k < t - LOCK_TTL_SECONDS"
  note c = rowcount_lock[OF assms, of p ?P]
  show ?thesis
  proof (cases "\<exists>k. lock_row p db = Some k \<and> ?P k")
    case True
    then show ?thesis using c by (auto simp: acquire_lock_def Let_def)
  next
    case False
    then have z: "rowcount (\<lambda>k. k_product_id k = p \<and> ?P k) (product_edit_locks db) = 0"
      using c by (simp only: not_gr_zero[symmetric]) (simp only: not_False_eq_True)
    then have same: "sql_update (\<lambda>k. k_product_id k = p \<and> ?P k) f (product_edit_locks db) = product_edit_locks db" for f
      unfolding rowcount_zero by (rule sql_update_none)
    have "acquire_lock p u t db =
        (case lock_row p db of
           None \<Rightarrow> (\<lparr>ls_acquired = True, ls_held_by = u, ls_heartbeat_at = t\<rparr>,
                db\<lparr>product_edit_locks := product_edit_locks db @
                   [\<lparr>k_product_id = p, k_held_by = u, k_acquired_at = t, k_heartbeat_at = t\<rparr>]\<rparr>)
         | Some row \<Rightarrow> (\<lparr>ls_acquired = False, ls_held_by = k_held_by row, ls_heartbeat_at = k_heartbeat_at row\<rparr>, db))"
      using z by (simp add: acquire_lock_def Let_def lock_row_def same split: option.split)
    then show ?thesis using False by (auto split: option.splits)
  qed
qed

definition lock_free_for :: "string \<Rightarrow> real \<Rightarrow> edit_lock option \<Rightarrow> bool" where
  "lock_free_for u t row = (case row of None \<Rightarrow> True
     | Some k \<Rightarrow> k_held_by k = u \<or> k_heartbeat_at k < t - LOCK_TTL_SECONDS)"

lemma acquired_row:
  "auth_inv db \<Longrightarrow> ls_acquired (fst (acquire_lock p u t db)) = lock_free_for u t (lock_row p db)"
  by (simp add: acquire_lock_rows lock_free_for_def split: option.splits)

lemma acquire_refused:
  assumes "auth_inv db" "\<not> lock_free_for u t (lock_row p db)"
  shows "snd (acquire_lock p u t db) = db"
    "lock_row p db = Some k \<Longrightarrow> ls_held_by (fst (acquire_lock p u t db)) = k_held_by k"
  using assms by (auto simp: acquire_lock_rows lock_free_for_def split: option.splits if_splits)

lemma lock_free_iff: "lock_free_for u t (lock_row p db) \<longleftrightarrow> lock_holder p t db = None \<or> lock_holder p t db = Some u"
  by (auto simp: lock_holder_row lock_free_for_def split: option.splits)

text \<open>The row of a product after each operation.\<close>

lemma lock_row_acquire:
  assumes "auth_inv db"
  shows "lock_row q (snd (acquire_lock p u t db)) =
    (if q = p \<and> lock_free_for u t (lock_row p db)
     then Some \<lparr>k_product_id = p, k_held_by = u, k_acquired_at = t, k_heartbeat_at = t\<rparr>
     else lock_row q db)"
  unfolding acquire_lock_rows[OF assms]
  by (auto simp: lock_free_for_def lock_row_def row_by_snoc row_by_update_same intro!: option.map_ident_strong edit_lock.equality
      split: option.splits dest: row_by_SomeD)

lemma lock_row_heartbeat:
  "lock_row q (snd (heartbeat_lock p u t db)) =
     map_option (\<lambda>k. if q = p \<and> k_held_by k = u then k\<lparr>k_heartbeat_at := t\<rparr> else k) (lock_row q db)"
  unfolding heartbeat_lock_def Let_def lock_row_def snd_conv
  by (simp add: row_by_update_same) (auto simp: map_option_case split: option.splits dest: row_by_SomeD)

lemma heartbeat_row: "fst (heartbeat_lock p u t db) \<Longrightarrow> auth_inv db \<Longrightarrow> \<exists>k. lock_row p db = Some k \<and> k_held_by k = u"
proof -
  assume b: "fst (heartbeat_lock p u t db)" and i: "auth_inv db"
  then obtain k where k: "k \<in> set (product_edit_locks db)" "k_product_id k = p" "k_held_by k = u"
    by (auto simp: heartbeat_lock_def rowcount_def Let_def filter_empty_conv)
  then show ?thesis using row_by_unique[OF locks_distinct[OF i] k(1)] by (auto simp: lock_row_def)
qed

lemma lock_row_release:
  assumes "auth_inv db"
  shows "lock_row q (snd (release_lock False t p u db)) =
     (case lock_row q db of None \<Rightarrow> None | Some k \<Rightarrow> if q = p \<and> k_held_by k = u then None else Some k)"
  unfolding release_lock_def Let_def lock_row_def
  by (auto simp: row_by_delete[OF locks_distinct[OF assms]] split: option.splits dest: row_by_SomeD)

lemma lock_row_force:
  assumes "auth_inv db"
  shows "lock_row q (snd (release_lock True t p u db)) = (if q = p then None else lock_row q db)"
  unfolding release_lock_def Let_def lock_row_def
  by (auto simp: audit_def row_by_delete[OF locks_distinct[OF assms]] split: option.splits dest: row_by_SomeD)

lemma lock_ops_log [simp]:
  "audit_log (snd (edit_acquire p u t db)) = audit_log db" "audit_log (snd (heartbeat_lock p u t db)) = audit_log db"
  "audit_log (snd (edit_release p u t db)) = audit_log db"
  by (simp_all add: edit_acquire_def acquire_lock_def heartbeat_lock_def edit_release_def release_lock_def Let_def split: option.split)

lemma forced_releases_force:
  "forced_releases q v (snd (edit_force p u t db)) = forced_releases q v db + (if q = p \<and> lock_row p db \<noteq> None \<and>
     k_held_by (the (lock_row p db)) = v then 1 else 0)"
proof -
  have "rowcount (\<lambda>k. k_product_id k = p) (product_edit_locks db) > 0 \<longleftrightarrow> lock_row p db \<noteq> None"
    by (auto simp: rowcount_def lock_row_def row_by_def filter_empty_conv find_None_iff)
  then show ?thesis
    by (auto simp: forced_releases_def edit_force_def release_lock_def audit_def lock_row_def json_opt_def rowcount_def Let_def)
qed

interpretation edit: lease edit_acquire heartbeat_lock edit_release edit_force lock_holder forced_releases auth_inv LOCK_TTL_SECONDS
proof
  fix s :: auth_db and p u q v :: string and t t' :: real
  show "auth_inv s \<Longrightarrow> auth_inv (snd (edit_acquire p u t s))"
    by (simp add: edit_acquire_def auth_inv_acquire_lock)
  show "auth_inv s \<Longrightarrow> auth_inv (snd (heartbeat_lock p u t s))"
    by (rule auth_inv_heartbeat_lock)
  show "auth_inv s \<Longrightarrow> auth_inv (snd (edit_release p u t s))" "auth_inv s \<Longrightarrow> auth_inv (snd (edit_force p u t s))"
    by (simp_all add: edit_release_def edit_force_def auth_inv_release_lock)
  show "auth_inv s \<Longrightarrow> lock_holder p t s = None \<or> lock_holder p t s = Some u \<Longrightarrow>
      fst (edit_acquire p u t s) \<and>
      (t' \<le> t + LOCK_TTL_SECONDS \<longrightarrow> lock_holder p t' (snd (edit_acquire p u t s)) = Some u)"
    unfolding lock_free_iff[symmetric] edit_acquire_def
    by (auto simp: acquired_row lock_row_acquire lock_holder_row)
  show "auth_inv s \<Longrightarrow> lock_holder p t s = Some v \<Longrightarrow> v \<noteq> u \<Longrightarrow>
      \<not> fst (edit_acquire p u t s) \<and> snd (edit_acquire p u t s) = s"
    using lock_free_iff[of u t p s] by (simp add: edit_acquire_def acquired_row acquire_refused)
  show "auth_inv s \<Longrightarrow> q \<noteq> p \<Longrightarrow> lock_holder q t' (snd (edit_acquire p u t s)) = lock_holder q t' s"
    unfolding lock_holder_row edit_acquire_def by (simp add: lock_row_acquire)
  show "auth_inv s \<Longrightarrow> lock_holder q t' s = Some v \<Longrightarrow> (q, v) \<noteq> (p, u) \<Longrightarrow>
      lock_holder q t' (snd (heartbeat_lock p u t s)) = Some v"
    unfolding lock_holder_row by (auto simp: lock_row_heartbeat split: option.splits if_splits)
  show "auth_inv s \<Longrightarrow> fst (heartbeat_lock p u t s) \<Longrightarrow> t' \<le> t + LOCK_TTL_SECONDS \<Longrightarrow>
      lock_holder p t' (snd (heartbeat_lock p u t s)) = Some u"
    using heartbeat_row[of p u t s] unfolding lock_holder_row by (auto simp: lock_row_heartbeat split: option.splits if_splits)
  show "auth_inv s \<Longrightarrow> lock_holder q t' s = Some v \<Longrightarrow> (q, v) \<noteq> (p, u) \<Longrightarrow>
      lock_holder q t' (snd (edit_release p u t s)) = Some v"
    unfolding lock_holder_row edit_release_def by (auto simp: lock_row_release split: option.splits if_splits)
  show "auth_inv s \<Longrightarrow> q \<noteq> p \<Longrightarrow> lock_holder q t' (snd (edit_force p u t s)) = lock_holder q t' s"
    unfolding lock_holder_row edit_force_def by (simp add: lock_row_force)
  show "auth_inv s \<Longrightarrow> lock_holder p t' s = Some v \<Longrightarrow> forced_releases p v s < forced_releases p v (snd (edit_force p u t s))"
    unfolding forced_releases_force by (auto simp: lock_holder_row split: option.splits if_splits)
  show "forced_releases q v s \<le> forced_releases q v (snd (edit_acquire p u t s))"
    "forced_releases q v s \<le> forced_releases q v (snd (heartbeat_lock p u t s))"
    "forced_releases q v s \<le> forced_releases q v (snd (edit_release p u t s))"
    by (simp_all add: forced_releases_def)
  show "forced_releases q v s \<le> forced_releases q v (snd (edit_force p u t s))"
    by (simp add: forced_releases_force)
qed

text \<open>What the store grants: a successful acquisition or a confirmed heartbeat at a moment.\<close>

definition lock_granted :: "string \<Rightarrow> string \<Rightarrow> real \<Rightarrow> auth_db \<Rightarrow> auth_db \<Rightarrow> bool" where
  "lock_granted p u t db db' \<longleftrightarrow>
     ls_acquired (fst (acquire_lock p u t db)) \<and> db' = snd (acquire_lock p u t db) \<or>
     fst (heartbeat_lock p u t db) \<and> db' = snd (heartbeat_lock p u t db)"

lemma lock_kept_or_forced:
  assumes "auth_inv db" "lock_granted p u t db db'"
    and "\<forall>a\<in>set as. action_user a \<noteq> u \<and> action_time a \<le> t + 300" "t' \<le> t + 300"
  shows "lock_holder p t' (fold lock_do as db') = Some u \<or>
    (\<exists>v t. Force v p t \<in> set as) \<and> forced_releases p u db' < forced_releases p u (fold lock_do as db')"
  using edit.exclusive[of db p u t db' as t'] assms
  by (simp add: lock_granted_def lock_do_def edit_acquire_def LOCK_TTL_SECONDS_def)

text \<open>C7. The edit lock is exclusive: a user whose acquisition or heartbeat of a product's lock succeeds is
  its live holder at every moment of the next 300 seconds, whatever acquisitions, heartbeats and releases
  other users attempt meanwhile, in any order.  The one exception is a forced release of that product, the
  admin's, and it is never silent: the audit log has gained an entry that names the holder who lost the lock.\<close>

theorem edit_lock_exclusive:
  assumes "auth_inv db" "lock_granted p u t db db'"
    and "\<forall>a\<in>set as. action_user a \<noteq> u \<and> action_time a \<le> t + 300" "t' \<le> t + 300"
  shows "lock_holder p t' (fold lock_do as db') = Some u \<or>
    (\<exists>v t. Force v p t \<in> set as) \<and> forced_releases p u db' < forced_releases p u (fold lock_do as db')"
  by (rule lock_kept_or_forced[OF assms])

text \<open>Without a forced release of the product Ann keeps her lock; with one, the log says who lost it.\<close>

lemma edit_lock_exclusive_witness:
  "lock_holder ''p1'' 250 (fold lock_do
     [Acquire ''bob'' ''p1'' 200, Force ''root'' ''p2'' 205, Release ''bob'' ''p1'' 210, Acquire ''bob'' ''p1'' 300]
     (snd (acquire_lock ''p1'' ''ann'' 0 empty_auth_db))) = Some ''ann'' \<and>
   forced_releases ''p1'' ''ann'' (snd (acquire_lock ''p1'' ''ann'' 0 empty_auth_db)) <
   forced_releases ''p1'' ''ann'' (fold lock_do [Force ''root'' ''p1'' 200, Acquire ''bob'' ''p1'' 210]
     (snd (acquire_lock ''p1'' ''ann'' 0 empty_auth_db)))"
proof -
  let ?db = "snd (acquire_lock ''p1'' ''ann'' 0 empty_auth_db)"
  have g: "auth_inv empty_auth_db" "lock_granted ''p1'' ''ann'' 0 empty_auth_db ?db"
    by (simp_all add: auth_inv_def empty_auth_db_def lock_granted_def acquire_lock_def rowcount_def Let_def)
  have "lock_holder ''p1'' 250 (fold lock_do [Force ''root'' ''p1'' 200, Acquire ''bob'' ''p1'' 210] ?db) \<noteq> Some ''ann''"
    by (simp add: empty_auth_db_def acquire_lock_def rowcount_def Let_def lock_do_def edit_force_def edit_acquire_def
        release_lock_def sql_delete_def row_by_def audit_def lock_holder_def)
  then show ?thesis
    using edit_lock_exclusive[OF g, of "[Acquire ''bob'' ''p1'' 200, Force ''root'' ''p2'' 205, Release ''bob'' ''p1'' 210,
        Acquire ''bob'' ''p1'' 300]" 250]
      edit_lock_exclusive[OF g, of "[Force ''root'' ''p1'' 200, Acquire ''bob'' ''p1'' 210]" 250]
    by simp
qed

text \<open>Acquiring succeeds exactly when nobody else is the live holder (a free product, the
  caller's own lock, or a lock whose heartbeat is older than the time to live); a refused attempt
  names the holder and changes nothing.\<close>

theorem acquire_lock_outcome:
  assumes "auth_inv db"
  shows "case lock_holder p t db of
      Some v \<Rightarrow> if v = u then ls_acquired (fst (acquire_lock p u t db))
              else \<not> ls_acquired (fst (acquire_lock p u t db)) \<and>
                   ls_held_by (fst (acquire_lock p u t db)) = v \<and> snd (acquire_lock p u t db) = db
    | None \<Rightarrow> ls_acquired (fst (acquire_lock p u t db))"
proof (cases "lock_holder p t db")
  case None
  then show ?thesis using lock_free_iff[of u t p db] by (simp add: acquired_row[OF assms])
next
  case (Some v)
  then obtain k where k: "lock_row p db = Some k" "k_held_by k = v"
    by (auto simp: lock_holder_row split: option.splits if_splits)
  then show ?thesis
    using Some lock_free_iff[of u t p db] acquire_refused[OF assms, of u t p] by (simp add: acquired_row[OF assms])
qed

lemma acquire_lock_outcome_witness:
  "ls_acquired (fst (acquire_lock ''p1'' ''bob'' 9 empty_auth_db))"
  using acquire_lock_outcome[of empty_auth_db "''p1''" "''bob''" 9]
  by (simp add: auth_inv_def empty_auth_db_def lock_holder_def)

end
