(* ===== verification/JobStore.thy ===== *)
theory JobStore
  imports Prelude
begin

text \<open>
  \<^verbatim>\<open>app/jobstore.py\<close>: the queue of background jobs.  The state is the table of
  job rows in rowid order.  A worker claims in two steps that other workers may interleave with
  (\<^verbatim>\<open>claim_candidate\<close>, then the conditional \<^verbatim>\<open>claim_row\<close>). The invariant, the exclusiveness
  of claims and the progress of the claim loop are proved over all interleavings of the operations.
\<close>

definition STALE_AFTER_SECONDS :: real where "STALE_AFTER_SECONDS = 120"
definition MAX_ATTEMPTS :: nat where "MAX_ATTEMPTS = 3"
definition RETENTION_SECONDS :: real where "RETENTION_SECONDS = 7 * 24 * 3600"

datatype job_status = Queued | Running | JobDone | JobError

record job =
  j_id :: string
  j_kind :: string
  j_status :: job_status
  j_version_id :: "string option"
  j_file_id :: "string option"
  j_product_id :: "string option"
  j_parent_id :: "string option"
  j_payload :: "(string \<times> json) list"
  j_result :: "json option"
  j_error :: "string option"
  j_total :: "nat option"
  j_done :: "nat option"
  j_attempts :: nat
  j_submitted_by :: "string option"
  j_submitted_at :: real
  j_started_at :: "real option"
  j_completed_at :: "real option"
  j_claimed_by :: "string option"
  j_heartbeat_at :: "real option"

type_synonym jobs = "job list"

text \<open>\<^verbatim>\<open>column < bound\<close> on a nullable column: unknown, so not selected, on NULL.\<close>

definition null_less :: "real option \<Rightarrow> real \<Rightarrow> bool" where
  "null_less c b = (case c of None \<Rightarrow> False | Some x \<Rightarrow> x < b)"

lemma null_less_simps [simp]: "null_less None b = False" "null_less (Some x) b = (x < b)"
  by (simp_all add: null_less_def)

subsection \<open>Submission and reads\<close>

record job_request =
  jr_kind :: string
  jr_payload :: "(string \<times> json) list"
  jr_version_id :: "string option"
  jr_file_id :: "string option"
  jr_product_id :: "string option"
  jr_parent_id :: "string option"
  jr_total :: "nat option"
  jr_done :: "nat option"
  jr_status :: job_status
  jr_submitted_by :: "string option"

definition job_of_request :: "string \<Rightarrow> real \<Rightarrow> job_request \<Rightarrow> job" where
  "job_of_request job_id now rq =
     \<lparr>j_id = job_id, j_kind = jr_kind rq, j_status = jr_status rq, j_version_id = jr_version_id rq,
      j_file_id = jr_file_id rq, j_product_id = jr_product_id rq, j_parent_id = jr_parent_id rq,
      j_payload = jr_payload rq, j_result = None, j_error = None, j_total = jr_total rq,
      j_done = jr_done rq, j_attempts = 0, j_submitted_by = jr_submitted_by rq, j_submitted_at = now,
      j_started_at = None, j_completed_at = None, j_claimed_by = None, j_heartbeat_at = None\<rparr>"

definition insert_job :: "string \<Rightarrow> real \<Rightarrow> job_request \<Rightarrow> jobs \<Rightarrow> (unit + string) \<times> jobs" where
  "insert_job job_id now rq js =
     (if job_id \<in> j_id ` set js then (Inl (), js)
      else (Inr job_id, js @ [job_of_request job_id now rq]))"

definition get_job :: "string \<Rightarrow> jobs \<Rightarrow> job option" where
  "get_job job_id js = row_by j_id job_id js"

definition list_all_jobs :: "jobs \<Rightarrow> job list" where
  "list_all_jobs js = sort_key j_submitted_at js"

definition in_flight :: "job \<Rightarrow> bool" where
  "in_flight j \<longleftrightarrow> j_status j \<in> {Queued, Running}"

definition find_inflight :: "string \<Rightarrow> string \<Rightarrow> string \<Rightarrow> jobs \<Rightarrow> string option" where
  "find_inflight kind version_id file_id js =
     map_option j_id (find (\<lambda>j. j_kind j = kind \<and> j_version_id j = Some version_id \<and>
       j_file_id j = Some file_id \<and> in_flight j) js)"

definition latest_for_version :: "string \<Rightarrow> string \<Rightarrow> jobs \<Rightarrow> job option" where
  "latest_for_version kind version_id js =
     (case sort_key (\<lambda>j. - j_submitted_at j)
             (filter (\<lambda>j. j_kind j = kind \<and> j_version_id j = Some version_id) js) of
        [] \<Rightarrow> None | j # _ \<Rightarrow> Some j)"

subsection \<open>The claim protocol\<close>

definition claim_candidate :: "jobs \<Rightarrow> string option" where
  "claim_candidate js =
     (case sort_key j_submitted_at (filter (\<lambda>j. j_status j = Queued) js) of
        [] \<Rightarrow> None | j # _ \<Rightarrow> Some (j_id j))"

definition claim_row :: "string \<Rightarrow> real \<Rightarrow> string \<Rightarrow> jobs \<Rightarrow> bool \<times> jobs" where
  "claim_row worker now job_id js =
     (let hit = (\<lambda>j. j_id j = job_id \<and> j_status j = Queued) in
      (rowcount hit js > 0,
       sql_update hit (\<lambda>j. j\<lparr>j_status := Running, j_claimed_by := Some worker, j_started_at := Some now,
                            j_heartbeat_at := Some now, j_attempts := j_attempts j + 1\<rparr>) js))"

text \<open>\<^verbatim>\<open>claim_next\<close> with the interference of other workers: before the n-th conditional
  update the rest of the system has turned the table \<^verbatim>\<open>js\<close> into \<^verbatim>\<open>env n js\<close>.  The loop
  is unbounded in the code; \<^verbatim>\<open>fuel\<close> bounds the lost races.\<close>

fun claim_loop :: "(nat \<Rightarrow> jobs \<Rightarrow> jobs) \<Rightarrow> string \<Rightarrow> real \<Rightarrow> nat \<Rightarrow> jobs \<Rightarrow> job option option \<times> jobs" where
  "claim_loop env worker now 0 js = (None, js)"
| "claim_loop env worker now (Suc n) js =
     (case claim_candidate js of
        None \<Rightarrow> (Some None, js)
      | Some job_id \<Rightarrow>
          (case claim_row worker now job_id (env n js) of
             (True, js') \<Rightarrow> (Some (get_job job_id js'), js')
           | (False, js') \<Rightarrow> claim_loop env worker now n js'))"

definition claim_next :: "string \<Rightarrow> real \<Rightarrow> jobs \<Rightarrow> job option \<times> jobs" where
  "claim_next worker now js =
     (case claim_loop (\<lambda>_ js. js) worker now 1 js of
        (Some r, js') \<Rightarrow> (r, js') | (None, js') \<Rightarrow> (None, js'))"

definition heartbeat_jobs :: "string \<Rightarrow> real \<Rightarrow> jobs \<Rightarrow> nat \<times> jobs" where
  "heartbeat_jobs worker now js =
     (let hit = (\<lambda>j. j_claimed_by j = Some worker \<and> j_status j = Running) in
      (rowcount hit js, sql_update hit (\<lambda>j. j\<lparr>j_heartbeat_at := Some now\<rparr>) js))"

subsection \<open>Completion\<close>

definition complete_job :: "string \<Rightarrow> real \<Rightarrow> json option \<Rightarrow> jobs \<Rightarrow> jobs" where
  "complete_job job_id now result js =
     sql_update (\<lambda>j. j_id j = job_id)
       (\<lambda>j. j\<lparr>j_status := JobDone, j_completed_at := Some now, j_result := result\<rparr>) js"

definition fail_job :: "string \<Rightarrow> real \<Rightarrow> string \<Rightarrow> jobs \<Rightarrow> jobs" where
  "fail_job job_id now error js =
     sql_update (\<lambda>j. j_id j = job_id)
       (\<lambda>j. j\<lparr>j_status := JobError, j_completed_at := Some now, j_error := Some error\<rparr>) js"

definition update_payload :: "string \<Rightarrow> (string \<times> json) list \<Rightarrow> jobs \<Rightarrow> jobs" where
  "update_payload job_id payload js =
     sql_update (\<lambda>j. j_id j = job_id) (\<lambda>j. j\<lparr>j_payload := payload\<rparr>) js"

definition or_zero :: "nat option \<Rightarrow> nat" where
  "or_zero n = (case n of None \<Rightarrow> 0 | Some k \<Rightarrow> k)"

definition bump_parent_done :: "string \<Rightarrow> real \<Rightarrow> jobs \<Rightarrow> job option \<times> jobs" where
  "bump_parent_done parent_id now js =
     (let js1 = sql_update (\<lambda>j. j_id j = parent_id) (\<lambda>j. j\<lparr>j_done := Some (or_zero (j_done j) + 1)\<rparr>) js
      in case get_job parent_id js1 of
           None \<Rightarrow> (None, js1)
         | Some parent \<Rightarrow>
             (case j_total parent of
                None \<Rightarrow> (Some parent, js1)
              | Some tot \<Rightarrow>
                  if j_status parent = Running \<and> or_zero (j_done parent) \<ge> tot then
                    let js2 = sql_update (\<lambda>j. j_id j = parent_id \<and> j_status j = Running)
                                (\<lambda>j. j\<lparr>j_status := JobDone, j_completed_at := Some now\<rparr>) js1
                    in (get_job parent_id js2, js2)
                  else (Some parent, js1)))"

text \<open>\<^verbatim>\<open>payload.setdefault("errors", []).append(entry)\<close>; \<^verbatim>\<open>errors\<close> is only ever a list.\<close>

definition push_error :: "json \<Rightarrow> (string \<times> json) list \<Rightarrow> (string \<times> json) list" where
  "push_error entry payload =
     AList.map_default ''errors'' (JList [entry])
       (\<lambda>v. case v of JList es \<Rightarrow> JList (es @ [entry]) | _ \<Rightarrow> v) payload"

definition append_parent_error :: "string \<Rightarrow> json \<Rightarrow> jobs \<Rightarrow> jobs" where
  "append_parent_error parent_id entry js =
     (case get_job parent_id js of
        None \<Rightarrow> js
      | Some row \<Rightarrow> update_payload parent_id (push_error entry (j_payload row)) js)"

subsection \<open>Maintenance\<close>

definition heartbeat_stale :: "real \<Rightarrow> job \<Rightarrow> bool" where
  "heartbeat_stale now j \<longleftrightarrow> j_status j = Running \<and> null_less (j_heartbeat_at j) (now - STALE_AFTER_SECONDS)"

definition requeue_stale :: "real \<Rightarrow> jobs \<Rightarrow> nat \<times> jobs" where
  "requeue_stale now js =
     (let hit = (\<lambda>j. heartbeat_stale now j \<and> j_attempts j < MAX_ATTEMPTS) in
      (rowcount hit js,
       sql_update hit (\<lambda>j. j\<lparr>j_status := Queued, j_claimed_by := None, j_heartbeat_at := None\<rparr>) js))"

definition stale_exhausted :: "real \<Rightarrow> jobs \<Rightarrow> job list" where
  "stale_exhausted now js = filter (\<lambda>j. heartbeat_stale now j \<and> j_attempts j \<ge> MAX_ATTEMPTS) js"

definition prune_jobs :: "real \<Rightarrow> jobs \<Rightarrow> nat \<times> jobs" where
  "prune_jobs now js =
     (let old = (\<lambda>j. j_status j \<in> {JobDone, JobError} \<and> null_less (j_completed_at j) (now - RETENTION_SECONDS)) in
      (rowcount old js, sql_delete old js))"

subsection \<open>Invariant\<close>

definition job_ok :: "job \<Rightarrow> bool" where
  "job_ok j \<longleftrightarrow>
     j_attempts j \<le> MAX_ATTEMPTS \<and>
     (j_status j = Queued \<longrightarrow> j_attempts j < MAX_ATTEMPTS \<and> j_claimed_by j = None \<and> j_heartbeat_at j = None) \<and>
     (j_claimed_by j = None \<longleftrightarrow> j_heartbeat_at j = None) \<and>
     (j_status j = JobError \<longrightarrow> j_completed_at j \<noteq> None) \<and>
     (j_status j = JobDone \<longrightarrow> j_completed_at j \<noteq> None \<or> j_total j = Some 0)"

definition jobs_inv :: "jobs \<Rightarrow> bool" where
  "jobs_inv js \<longleftrightarrow> distinct (map j_id js) \<and> list_all job_ok js"

lemma jobs_inv_update:
  assumes "jobs_inv js" "\<And>j. P j \<Longrightarrow> job_ok j \<Longrightarrow> job_ok (f j)" "\<And>j. P j \<Longrightarrow> j_id (f j) = j_id j"
  shows "jobs_inv (sql_update P f js)"
  using assms by (auto simp: jobs_inv_def map_sql_update list_all_iff ball_sql_update)

text \<open>Callers submit jobs queued, and fan-out parents running or, with no children, already done.\<close>

definition request_ok :: "job_request \<Rightarrow> bool" where
  "request_ok rq \<longleftrightarrow> jr_status rq \<in> {Queued, Running} \<or> (jr_status rq = JobDone \<and> jr_total rq = Some 0)"

lemma jobs_inv_insert:
  "jobs_inv js \<Longrightarrow> request_ok rq \<Longrightarrow> jobs_inv (snd (insert_job jid now rq js))"
  by (auto simp: insert_job_def jobs_inv_def job_of_request_def job_ok_def request_ok_def MAX_ATTEMPTS_def)

lemma jobs_inv_claim_row: "jobs_inv js \<Longrightarrow> jobs_inv (snd (claim_row w now jid js))"
  unfolding claim_row_def Let_def snd_conv by (rule jobs_inv_update) (auto simp: job_ok_def)

lemma jobs_inv_heartbeat: "jobs_inv js \<Longrightarrow> jobs_inv (snd (heartbeat_jobs w now js))"
  unfolding heartbeat_jobs_def Let_def snd_conv by (rule jobs_inv_update) (auto simp: job_ok_def)

lemma jobs_inv_complete: "jobs_inv js \<Longrightarrow> jobs_inv (complete_job jid now result js)"
  unfolding complete_job_def by (rule jobs_inv_update) (auto simp: job_ok_def)

lemma jobs_inv_fail: "jobs_inv js \<Longrightarrow> jobs_inv (fail_job jid now err js)"
  unfolding fail_job_def by (rule jobs_inv_update) (auto simp: job_ok_def)

lemma jobs_inv_payload: "jobs_inv js \<Longrightarrow> jobs_inv (update_payload jid p js)"
  unfolding update_payload_def by (rule jobs_inv_update) (auto simp: job_ok_def)

lemma jobs_inv_bump: "jobs_inv js \<Longrightarrow> jobs_inv (snd (bump_parent_done pid now js))"
proof -
  assume "jobs_inv js"
  then have 1: "jobs_inv (sql_update (\<lambda>j. j_id j = pid) (\<lambda>j. j\<lparr>j_done := Some (or_zero (j_done j) + 1)\<rparr>) js)"
    by (rule jobs_inv_update) (auto simp: job_ok_def)
  then have "jobs_inv (sql_update (\<lambda>j. j_id j = pid \<and> j_status j = Running)
      (\<lambda>j. j\<lparr>j_status := JobDone, j_completed_at := Some now\<rparr>)
      (sql_update (\<lambda>j. j_id j = pid) (\<lambda>j. j\<lparr>j_done := Some (or_zero (j_done j) + 1)\<rparr>) js))"
    by (rule jobs_inv_update) (auto simp: job_ok_def)
  with 1 show ?thesis unfolding bump_parent_done_def Let_def by (simp split: option.split)
qed

lemma jobs_inv_append_error: "jobs_inv js \<Longrightarrow> jobs_inv (append_parent_error pid e js)"
  unfolding append_parent_error_def by (auto simp: jobs_inv_payload split: option.splits)

lemma jobs_inv_requeue: "jobs_inv js \<Longrightarrow> jobs_inv (snd (requeue_stale now js))"
  unfolding requeue_stale_def Let_def snd_conv by (rule jobs_inv_update) (auto simp: job_ok_def)

lemma jobs_inv_prune: "jobs_inv js \<Longrightarrow> jobs_inv (snd (prune_jobs now js))"
  by (auto simp: prune_jobs_def Let_def jobs_inv_def distinct_sql_delete list_all_iff)

lemmas jobs_inv_ops = jobs_inv_insert jobs_inv_claim_row jobs_inv_heartbeat jobs_inv_complete jobs_inv_fail
  jobs_inv_payload jobs_inv_bump jobs_inv_append_error jobs_inv_requeue jobs_inv_prune

subsection \<open>Runs of the store\<close>

datatype job_op =
    OpInsert string real job_request
  | OpClaim string real string
  | OpHeartbeat string real
  | OpComplete string real "json option"
  | OpFail string real string
  | OpPayload string "(string \<times> json) list"
  | OpBump string real
  | OpParentError string json
  | OpRequeue real
  | OpPrune real

fun job_do :: "job_op \<Rightarrow> jobs \<Rightarrow> jobs" where
  "job_do (OpInsert jid t rq) js = snd (insert_job jid t rq js)"
| "job_do (OpClaim w t jid) js = snd (claim_row w t jid js)"
| "job_do (OpHeartbeat w t) js = snd (heartbeat_jobs w t js)"
| "job_do (OpComplete jid t r) js = complete_job jid t r js"
| "job_do (OpFail jid t e) js = fail_job jid t e js"
| "job_do (OpPayload jid p) js = update_payload jid p js"
| "job_do (OpBump pid t) js = snd (bump_parent_done pid t js)"
| "job_do (OpParentError pid e) js = append_parent_error pid e js"
| "job_do (OpRequeue t) js = snd (requeue_stale t js)"
| "job_do (OpPrune t) js = snd (prune_jobs t js)"

fun op_ok :: "job_op \<Rightarrow> bool" where
  "op_ok (OpInsert _ _ rq) \<longleftrightarrow> request_ok rq"
| "op_ok _ \<longleftrightarrow> True"

inductive jobs_reachable :: "jobs \<Rightarrow> bool" where
  empty: "jobs_reachable []"
| step: "jobs_reachable js \<Longrightarrow> op_ok op \<Longrightarrow> jobs_reachable (job_do op js)"

lemma jobs_inv_do: "jobs_inv js \<Longrightarrow> op_ok op \<Longrightarrow> jobs_inv (job_do op js)"
  by (cases op) (simp_all add: jobs_inv_ops)

lemma jobs_reachable_inv: "jobs_reachable js \<Longrightarrow> jobs_inv js"
proof (induction rule: jobs_reachable.induct)
  case empty
  show ?case by (simp add: jobs_inv_def)
next
  case (step js op)
  then show ?case by (blast intro: jobs_inv_do)
qed

text \<open>C21. In every reachable queue the ids are unique, no job was claimed more than three times,
  a queued job is unclaimed with an attempt left, exactly the claimed jobs have a heartbeat, and
  a finished job has its completion time unless it is a fan-out parent without children.\<close>

theorem jobs_invariant:
  assumes "jobs_reachable js"
  shows "distinct (map j_id js) \<and> list_all job_ok js"
  using jobs_reachable_inv[OF assms] by (simp add: jobs_inv_def)

definition plain_request :: job_request where
  "plain_request = \<lparr>jr_kind = ''preprocess'', jr_payload = [], jr_version_id = Some ''v'', jr_file_id = Some ''f'',
     jr_product_id = None, jr_parent_id = None, jr_total = None, jr_done = None, jr_status = Queued,
     jr_submitted_by = None\<rparr>"

lemma jobs_invariant_witness:
  "list_all job_ok (job_do (OpClaim ''w'' 2 ''j'') (job_do (OpInsert ''j'' 1 plain_request) []))"
  using jobs_invariant[OF jobs_reachable.step[OF jobs_reachable.step[OF jobs_reachable.empty,
        of "OpInsert ''j'' 1 plain_request"], of "OpClaim ''w'' 2 ''j''"]]
  by (simp add: plain_request_def request_ok_def)

subsection \<open>A claimed job is one worker's\<close>

lemma claim_row_wins: "fst (claim_row w t jid js) \<longleftrightarrow> (\<exists>j\<in>set js. j_id j = jid \<and> j_status j = Queued)"
  by (simp add: claim_row_def Let_def rowcount_pos)

definition held_since :: "string \<Rightarrow> real \<Rightarrow> jobs \<Rightarrow> bool" where
  "held_since jid t0 js \<longleftrightarrow> (\<forall>j\<in>set js. j_id j = jid \<longrightarrow> j_status j \<noteq> Queued \<and>
     (case j_heartbeat_at j of None \<Rightarrow> True | Some h \<Rightarrow> t0 \<le> h))"

lemma held_since_update:
  assumes "held_since jid t0 js" "\<And>j. P j \<Longrightarrow> j_id (f j) = j_id j"
    "\<And>j. P j \<Longrightarrow> j_id j = jid \<Longrightarrow> held_since jid t0 [j] \<Longrightarrow> held_since jid t0 [f j]"
  shows "held_since jid t0 (sql_update P f js)"
  using assms by (auto simp: held_since_def ball_sql_update)

lemma held_since_update_keep:
  assumes "held_since jid t0 js" "\<And>j. j_id (f j) = j_id j" "\<And>j. j_heartbeat_at (f j) = j_heartbeat_at j"
    "\<And>j. j_status (f j) = Queued \<Longrightarrow> j_status j = Queued"
  shows "held_since jid t0 (sql_update P f js)"
  by (rule held_since_update[OF assms(1)]) (use assms in \<open>auto simp: held_since_def\<close>)

text \<open>The operations that leave a claim alone: no requeue before the claim can be stale, no
  clock going back behind the claim, no row created under the job's own id.\<close>

fun respects_claim :: "string \<Rightarrow> real \<Rightarrow> job_op \<Rightarrow> bool" where
  "respects_claim jid t0 (OpInsert i _ _) \<longleftrightarrow> i \<noteq> jid"
| "respects_claim jid t0 (OpHeartbeat _ t) \<longleftrightarrow> t0 \<le> t"
| "respects_claim jid t0 (OpRequeue t) \<longleftrightarrow> t \<le> t0 + STALE_AFTER_SECONDS"
| "respects_claim jid t0 _ \<longleftrightarrow> True"

lemma held_since_do:
  assumes "held_since jid t0 js" "respects_claim jid t0 op"
  shows "held_since jid t0 (job_do op js)"
proof (cases op)
  case (OpInsert i t rq)
  then show ?thesis using assms by (auto simp: held_since_def insert_job_def job_of_request_def)
next
  case (OpClaim w t i)
  then show ?thesis using assms
    by (auto simp: claim_row_def Let_def intro!: held_since_update) (auto simp: held_since_def)
next
  case (OpHeartbeat w t)
  then show ?thesis using assms
    by (auto simp: heartbeat_jobs_def Let_def intro!: held_since_update) (auto simp: held_since_def)
next
  case (OpComplete i t r)
  then show ?thesis using assms by (auto simp: complete_job_def intro!: held_since_update_keep)
next
  case (OpFail i t e)
  then show ?thesis using assms by (auto simp: fail_job_def intro!: held_since_update_keep)
next
  case (OpPayload i p)
  then show ?thesis using assms by (auto simp: update_payload_def intro!: held_since_update_keep)
next
  case (OpBump p t)
  then show ?thesis using assms
    by (auto simp: bump_parent_done_def Let_def intro!: held_since_update_keep split: option.split)
next
  case (OpParentError p e)
  then show ?thesis using assms
    by (auto simp: append_parent_error_def update_payload_def intro!: held_since_update_keep split: option.split)
next
  case (OpRequeue t)
  have "held_since jid t0 (snd (requeue_stale t js))"
    unfolding requeue_stale_def Let_def snd_conv
    by (rule held_since_update[OF assms(1)])
       (use assms(2) OpRequeue in \<open>auto simp: held_since_def heartbeat_stale_def null_less_def split: option.splits\<close>)
  then show ?thesis using OpRequeue by simp
next
  case (OpPrune t)
  then show ?thesis using assms by (auto simp: held_since_def prune_jobs_def Let_def)
qed

lemma claim_row_held: "fst (claim_row w t jid js) \<Longrightarrow> jobs_inv js \<Longrightarrow> held_since jid t (snd (claim_row w t jid js))"
proof -
  assume "fst (claim_row w t jid js)" "jobs_inv js"
  then obtain j where "j \<in> set js" "j_id j = jid" "j_status j = Queued" "distinct (map j_id js)"
    by (auto simp: claim_row_wins jobs_inv_def)
  then have "\<forall>i\<in>set js. j_id i = jid \<longrightarrow> j_status i = Queued"
    by (metis row_by_unique option.inject)
  then show ?thesis by (auto simp: held_since_def claim_row_def Let_def ball_sql_update)
qed

text \<open>C6. A claim is exclusive: after one worker's conditional update won a job, no other claim of
  it can win for 120 seconds (nor later, until a requeue), however the other operations of all
  workers interleave.\<close>

theorem claim_exclusive:
  assumes "jobs_inv js" "fst (claim_row w t0 jid js)" "list_all (respects_claim jid t0) ops"
  shows "\<not> fst (claim_row w' t' jid (fold job_do ops (snd (claim_row w t0 jid js))))"
proof -
  have "held_since jid t0 (fold job_do ops s)" if "held_since jid t0 s" for s
    using that assms(3) by (induction ops arbitrary: s) (simp_all add: held_since_do)
  from this[OF claim_row_held[OF assms(2,1)]] show ?thesis
    by (auto simp: claim_row_wins held_since_def)
qed

lemma claim_exclusive_witness:
  "\<not> fst (claim_row ''w2'' 3 ''j'' (fold job_do [OpRequeue 100, OpHeartbeat ''w1'' 30]
      (snd (claim_row ''w1'' 2 ''j'' (job_do (OpInsert ''j'' 1 plain_request) [])))))"
  by (rule claim_exclusive)
     (simp_all add: jobs_inv_def job_ok_def insert_job_def job_of_request_def plain_request_def MAX_ATTEMPTS_def
       claim_row_wins STALE_AFTER_SECONDS_def)

subsection \<open>Claiming makes progress\<close>

definition queued_ids :: "jobs \<Rightarrow> string set" where
  "queued_ids js = j_id ` {j \<in> set js. j_status j = Queued}"

lemma finite_queued_ids [simp]: "finite (queued_ids js)"
  by (simp add: queued_ids_def)

lemma claim_candidate_Some:
  assumes "claim_candidate js = Some jid"
  shows "\<exists>j\<in>set js. j_id j = jid \<and> j_status j = Queued \<and>
    (\<forall>i\<in>set js. j_status i = Queued \<longrightarrow> j_submitted_at j \<le> j_submitted_at i)"
proof -
  let ?q = "filter (\<lambda>j. j_status j = Queued) js"
  obtain j rest where s: "sort_key j_submitted_at ?q = j # rest" "jid = j_id j"
    using assms by (auto simp: claim_candidate_def split: list.splits)
  then have "j \<in> set ?q" by (metis list.set_intros(1) set_sort)
  moreover have "j_submitted_at j \<le> j_submitted_at i" if "i \<in> set ?q" for i
    using sort_key_hd_min[OF that, of j_submitted_at] s by simp
  ultimately show ?thesis using s(2) by auto
qed

lemma claim_candidate_None: "claim_candidate js = None \<longleftrightarrow> queued_ids js = {}"
proof -
  let ?q = "filter (\<lambda>j. j_status j = Queued) js"
  have "claim_candidate js = None \<longleftrightarrow> sort_key j_submitted_at ?q = []"
    by (simp add: claim_candidate_def split: list.split)
  also have "\<dots> \<longleftrightarrow> set ?q = {}" by (metis set_empty set_sort)
  also have "\<dots> \<longleftrightarrow> queued_ids js = {}" by (simp add: queued_ids_def)
  finally show ?thesis .
qed

lemma queued_ids_claim_lost: "\<not> fst (claim_row w t jid js) \<Longrightarrow> snd (claim_row w t jid js) = js"
  unfolding claim_row_def Let_def snd_conv fst_conv by (intro sql_update_none) (auto simp: rowcount_pos)

definition claimed_by :: "string \<Rightarrow> real \<Rightarrow> job \<Rightarrow> job" where
  "claimed_by w now j = j\<lparr>j_status := Running, j_claimed_by := Some w, j_started_at := Some now,
                          j_heartbeat_at := Some now, j_attempts := j_attempts j + 1\<rparr>"

lemma claim_row_get:
  assumes "jobs_inv js" "j \<in> set js" "j_id j = jid" "j_status j = Queued"
  shows "get_job jid (snd (claim_row w now jid js)) = Some (claimed_by w now j)"
proof -
  have "row_by j_id jid js = Some j" using assms row_by_unique by (metis jobs_inv_def)
  then show ?thesis
    unfolding claim_row_def Let_def get_job_def snd_conv claimed_by_def[abs_def, symmetric]
    using assms by (subst row_by_update_same) (auto simp: claimed_by_def)
qed

text \<open>C24. The claim loop returns: if meanwhile the other workers queue nothing, it ends after at most
  as many lost races as there are queued jobs, with a job that it claimed or with an empty queue.\<close>

theorem claim_loop_returns:
  assumes "\<And>n js. queued_ids (env n js) \<subseteq> queued_ids js" "\<And>n js. jobs_inv js \<Longrightarrow> jobs_inv (env n js)"
    and "jobs_inv js" "card (queued_ids js) < fuel"
  shows "\<exists>r js'. claim_loop env w now fuel js = (Some r, js') \<and>
    (case r of None \<Rightarrow> queued_ids js' = {}
     | Some j \<Rightarrow> j_status j = Running \<and> j_claimed_by j = Some w \<and> j_heartbeat_at j = Some now \<and> j \<in> set js')"
  using assms(3,4)
proof (induction fuel arbitrary: js)
  case (Suc n)
  show ?case
  proof (cases "claim_candidate js")
    case None
    then have "queued_ids js = {}" by (simp add: claim_candidate_None)
    then show ?thesis using None by simp
  next
    case (Some jid)
    then have q: "jid \<in> queued_ids js" using claim_candidate_Some by (fastforce simp: queued_ids_def)
    let ?e = "env n js"
    have inv: "jobs_inv ?e" using assms(2) Suc.prems by blast
    show ?thesis
    proof (cases "fst (claim_row w now jid ?e)")
      case True
      then obtain j where j: "j \<in> set ?e" "j_id j = jid" "j_status j = Queued"
        by (auto simp: claim_row_wins)
      note g = claim_row_get[OF inv j, of w now]
      then have "claimed_by w now j \<in> set (snd (claim_row w now jid ?e))"
        by (auto simp: get_job_def dest: row_by_SomeD)
      then show ?thesis using True Some g by (cases "claim_row w now jid ?e") (auto simp: claimed_by_def)
    next
      case False
      then have "snd (claim_row w now jid ?e) = ?e" "jid \<notin> queued_ids ?e"
        by (auto simp: queued_ids_claim_lost claim_row_wins queued_ids_def)
      moreover from this have "queued_ids ?e \<subset> queued_ids js" using assms(1) q by blast
      then have "card (queued_ids ?e) < card (queued_ids js)" by (rule psubset_card_mono[rotated]) simp
      ultimately show ?thesis
        using Suc.IH[of ?e] Suc.prems inv Some False by (cases "claim_row w now jid ?e") auto
    qed
  qed
qed simp

definition one_queued :: jobs where
  "one_queued = [job_of_request ''j'' 1 plain_request]"

lemma one_queued_inv: "jobs_inv one_queued"
  by (simp add: one_queued_def jobs_inv_def job_of_request_def job_ok_def plain_request_def MAX_ATTEMPTS_def)

lemma claim_loop_returns_witness:
  "\<exists>r js'. claim_loop (\<lambda>_. snd \<circ> claim_row ''w2'' 5 ''j'') ''w1'' 6 2 one_queued = (Some r, js')"
proof -
  have "queued_ids ((snd \<circ> claim_row ''w2'' 5 ''j'') js) \<subseteq> queued_ids js" for js
    by (auto simp: queued_ids_def claim_row_def Let_def set_sql_update)
  moreover have "jobs_inv js \<Longrightarrow> jobs_inv ((snd \<circ> claim_row ''w2'' 5 ''j'') js)" for js
    by (simp add: jobs_inv_claim_row)
  moreover have "card (queued_ids one_queued) < 2"
  proof -
    have "queued_ids one_queued \<subseteq> {''j''}" by (auto simp: queued_ids_def one_queued_def job_of_request_def)
    then have "card (queued_ids one_queued) \<le> card {''j''}" by (intro card_mono) auto
    then show ?thesis by simp
  qed
  ultimately show ?thesis
    using claim_loop_returns[of "\<lambda>_. snd \<circ> claim_row ''w2'' 5 ''j''" one_queued 2 "''w1''" 6] one_queued_inv
    by blast
qed

text \<open>Without interference one round is enough: \<^verbatim>\<open>claim_next\<close> takes the queued job submitted
  first, marks it running for the worker with one more attempt, and touches no other job; with
  nothing queued it returns nothing and leaves the table alone.\<close>

theorem claim_next_spec:
  assumes "jobs_inv js"
  shows "case claim_next w now js of
      (None, js') \<Rightarrow> queued_ids js = {} \<and> js' = js
    | (Some j', js') \<Rightarrow> (\<exists>j\<in>set js. j_status j = Queued \<and> j' = claimed_by w now j \<and>
        (\<forall>i\<in>set js. j_status i = Queued \<longrightarrow> j_submitted_at j \<le> j_submitted_at i) \<and>
        js' = map (\<lambda>i. if j_id i = j_id j then claimed_by w now i else i) js)"
proof (cases "claim_candidate js")
  case None
  then show ?thesis by (simp add: claim_next_def claim_candidate_None[symmetric])
next
  case (Some jid)
  then obtain j where j: "j \<in> set js" "j_id j = jid" "j_status j = Queued"
      "\<forall>i\<in>set js. j_status i = Queued \<longrightarrow> j_submitted_at j \<le> j_submitted_at i"
    using claim_candidate_Some by blast
  have w: "fst (claim_row w now jid js)" using j by (auto simp: claim_row_wins)
  have q: "\<forall>i\<in>set js. j_id i = jid \<longrightarrow> j_status i = Queued"
    using j row_by_unique[of j_id js] assms by (metis jobs_inv_def option.inject)
  have "snd (claim_row w now jid js) = map (\<lambda>i. if j_id i = jid then claimed_by w now i else i) js"
    unfolding claim_row_def Let_def snd_conv sql_update_def claimed_by_def using q by auto
  moreover have "claim_next w now js = (get_job jid (snd (claim_row w now jid js)), snd (claim_row w now jid js))"
    using Some w by (cases "claim_row w now jid js") (auto simp: claim_next_def)
  ultimately show ?thesis using j claim_row_get[OF assms j(1-3), of w now] by auto
qed

lemma claim_next_spec_witness:
  "case claim_next ''w1'' 6 one_queued of (None, js') \<Rightarrow> False | (Some j', js') \<Rightarrow> j_claimed_by j' = Some ''w1''"
  using claim_next_spec[OF one_queued_inv, of "''w1''" 6]
  by (auto simp: claimed_by_def queued_ids_def one_queued_def job_of_request_def plain_request_def split: prod.splits option.splits)

subsection \<open>Maintenance and fan-out\<close>

text \<open>A job whose worker went silent is never forgotten: requeueing takes exactly the stale jobs
  with an attempt left, the stale jobs that remain are exactly those \<^verbatim>\<open>stale_exhausted\<close>
  hands to the failure path, and a job no worker has claimed (a fan-out parent) is never touched.\<close>

theorem stale_jobs_partition:
  assumes "jobs_inv js"
  shows "filter (heartbeat_stale now) (snd (requeue_stale now js)) = stale_exhausted now js \<and>
    (\<forall>j\<in>set js. heartbeat_stale now j \<longrightarrow> j_claimed_by j \<noteq> None \<and>
       (if j_attempts j < MAX_ATTEMPTS
        then j\<lparr>j_status := Queued, j_claimed_by := None, j_heartbeat_at := None\<rparr> \<in> set (snd (requeue_stale now js))
        else j \<in> set (stale_exhausted now js)))"
proof
  let ?f = "\<lambda>j. j\<lparr>j_status := Queued, j_claimed_by := None, j_heartbeat_at := None\<rparr>"
  have "filter (heartbeat_stale now) (snd (requeue_stale now xs)) = stale_exhausted now xs" for xs
    by (induction xs) (auto simp: requeue_stale_def Let_def stale_exhausted_def heartbeat_stale_def not_less)
  then show "filter (heartbeat_stale now) (snd (requeue_stale now js)) = stale_exhausted now js" .
  have "j_claimed_by j \<noteq> None" if "j \<in> set js" "heartbeat_stale now j" for j
    using assms that by (auto simp: jobs_inv_def list_all_iff job_ok_def heartbeat_stale_def)
  then show "\<forall>j\<in>set js. heartbeat_stale now j \<longrightarrow> j_claimed_by j \<noteq> None \<and>
       (if j_attempts j < MAX_ATTEMPTS then ?f j \<in> set (snd (requeue_stale now js))
        else j \<in> set (stale_exhausted now js))"
    by (auto simp: requeue_stale_def Let_def sql_update_def stale_exhausted_def image_iff)
qed

lemma stale_jobs_partition_witness:
  "filter (heartbeat_stale 500) (snd (requeue_stale 500 (snd (claim_next ''w1'' 6 one_queued)))) = []"
proof -
  have i: "jobs_inv (snd (claim_row ''w1'' 6 ''j'' one_queued))" by (rule jobs_inv_claim_row[OF one_queued_inv])
  have e: "snd (claim_next ''w1'' 6 one_queued) = snd (claim_row ''w1'' 6 ''j'' one_queued)"
    by (simp add: claim_next_def claim_candidate_def claim_row_def Let_def rowcount_def one_queued_def
        job_of_request_def plain_request_def)
  show ?thesis
    using stale_jobs_partition[OF i, of 500, folded e]
    by (simp add: e) (simp add: stale_exhausted_def claim_row_def one_queued_def job_of_request_def plain_request_def
        Let_def MAX_ATTEMPTS_def)
qed

definition is_parent :: "string \<Rightarrow> nat \<Rightarrow> nat \<Rightarrow> jobs \<Rightarrow> bool" where
  "is_parent pid tot d js \<longleftrightarrow>
     (\<exists>j. get_job pid js = Some j \<and> j_total j = Some tot \<and> or_zero (j_done j) = d \<and>
        j_status j = (if d < tot then Running else JobDone))"

text \<open>A running fan-out parent of \<^verbatim>\<open>tot\<close> children counts its children's completions one by one
  and becomes done with the last, not before.\<close>

theorem parent_counts_children:
  assumes "is_parent pid tot d js" "d < tot"
  shows "is_parent pid tot (d + 1) (snd (bump_parent_done pid now js))"
proof -
  obtain j where j: "get_job pid js = Some j" "j_total j = Some tot" "or_zero (j_done j) = d" "j_status j = Running"
    using assms by (auto simp: is_parent_def)
  let ?j1 = "j\<lparr>j_done := Some (d + 1)\<rparr>"
  have id: "j_id j = pid" using j(1) by (auto simp: get_job_def dest: row_by_SomeD)
  have 1: "get_job pid (sql_update (\<lambda>j. j_id j = pid) (\<lambda>j. j\<lparr>j_done := Some (or_zero (j_done j) + 1)\<rparr>) js) = Some ?j1"
    unfolding get_job_def using j id by (subst row_by_update_same) (auto simp: get_job_def)
  then have 2: "get_job pid (sql_update (\<lambda>j. j_id j = pid \<and> j_status j = Running)
        (\<lambda>j. j\<lparr>j_status := JobDone, j_completed_at := Some now\<rparr>)
        (sql_update (\<lambda>j. j_id j = pid) (\<lambda>j. j\<lparr>j_done := Some (or_zero (j_done j) + 1)\<rparr>) js)) =
      Some (?j1\<lparr>j_status := JobDone, j_completed_at := Some now\<rparr>)"
    unfolding get_job_def using j id by (subst row_by_update_same) auto
  have d: "or_zero (Some (d + 1)) = d + 1" by (simp add: or_zero_def)
  show ?thesis
    unfolding bump_parent_done_def Let_def is_parent_def
    using 1 2 j d assms(2) by (auto simp: or_zero_def)
qed

definition parent_of_two :: jobs where
  "parent_of_two = [job_of_request ''p'' 1 (plain_request\<lparr>jr_kind := ''reprocess_all'', jr_status := Running,
     jr_total := Some 2, jr_done := Some 0\<rparr>)]"

lemma parent_counts_children_witness:
  "is_parent ''p'' 2 (1 + 1) (snd (bump_parent_done ''p'' 9 (snd (bump_parent_done ''p'' 8 parent_of_two))))"
proof -
  have 0: "is_parent ''p'' 2 0 parent_of_two"
    by (simp add: is_parent_def parent_of_two_def get_job_def job_of_request_def plain_request_def or_zero_def)
  have "is_parent ''p'' 2 1 (snd (bump_parent_done ''p'' 8 parent_of_two))"
    by (simp add: is_parent_def parent_of_two_def get_job_def job_of_request_def plain_request_def or_zero_def
        bump_parent_done_def Let_def)
  then show ?thesis by (rule parent_counts_children) simp
qed

end
