(* ===== verification/LibraryStore.thy ===== *)
theory LibraryStore
  imports Taxonomy "HOL-Library.Multiset"
begin

text \<open>
  \<^verbatim>\<open>app/library.py\<close>: the template libraries.  \<^verbatim>\<open>lib_db\<close> is the three tables of
  \<^verbatim>\<open>SCHEMA\<close>; the methods of \<^verbatim>\<open>Store\<close> act on it.  \<^verbatim>\<open>library\<close> is a
  \<^verbatim>\<open>Library\<close> instance, the per-request cache of one library: its methods return the
  instance and the tables.  The JSON text columns hold their decoded values.
\<close>

type_synonym point = "real \<times> real"
type_synonym point_sets = "point list list"
type_synonym signature = "(int \<times> int) list list"

subsection \<open>The dedup signature\<close>

definition TEMPLATE_DEDUP_BUCKET :: nat where
  "TEMPLATE_DEDUP_BUCKET = 10 ^ 4"

definition bucket :: "real \<Rightarrow> real \<Rightarrow> point \<Rightarrow> int \<times> int" where
  "bucket gx gy p =
     (py_round ((fst p - gx) * real TEMPLATE_DEDUP_BUCKET), py_round ((snd p - gy) * real TEMPLATE_DEDUP_BUCKET))"

definition template_signature :: "point_sets \<Rightarrow> signature" where
  "template_signature entity_point_sets =
     (let all_pts = concat entity_point_sets in
      if all_pts = [] then []
      else let gx = sum_list (map fst all_pts) / real (length all_pts);
               gy = sum_list (map snd all_pts) / real (length all_pts)
           in sort (map (\<lambda>pts. sort (map (bucket gx gy) pts)) entity_point_sets))"

record template =
  t_id :: string
  t_class_name :: class_name
  t_point_sets :: point_sets
  t_centroid :: point
  t_bbox :: "real \<times> real \<times> real \<times> real"
  t_kinds :: "string option list"

text \<open>\<^verbatim>\<open>Template.__post_init__\<close>: kinds default to one \<^verbatim>\<open>None\<close> per entity.\<close>

definition post_init :: "point_sets \<Rightarrow> string option list option \<Rightarrow> string option list option" where
  "post_init sets kinds =
     (case kinds of
        None \<Rightarrow> Some (replicate (length sets) None)
      | Some ks \<Rightarrow> if length ks = length sets then Some ks else None)"

definition list_min :: "real list \<Rightarrow> real" where
  "list_min xs = foldl min (hd xs) (tl xs)"

definition list_max :: "real list \<Rightarrow> real" where
  "list_max xs = foldl max (hd xs) (tl xs)"

datatype library_error = ValueError string | KeyError string | LibIntegrityError

definition template_from_entities ::
  "string \<Rightarrow> class_name \<Rightarrow> point_sets \<Rightarrow> string option list option \<Rightarrow> library_error + template" where
  "template_from_entities tid class_name entity_point_sets entity_kinds =
     (if entity_point_sets = [] \<or> list_all (\<lambda>e. e = []) entity_point_sets
      then Inl (ValueError ''template must have at least one point'')
      else
        let all_pts = concat entity_point_sets; xs = map fst all_pts; ys = map snd all_pts in
        case post_init entity_point_sets entity_kinds of
          None \<Rightarrow> Inl (ValueError ''entity_kinds length must equal entity_point_sets length'')
        | Some ks \<Rightarrow>
            Inr \<lparr>t_id = tid, t_class_name = class_name, t_point_sets = entity_point_sets,
                 t_centroid = (sum_list xs / real (length xs), sum_list ys / real (length ys)),
                 t_bbox = (list_min xs, list_min ys, list_max xs, list_max ys), t_kinds = ks\<rparr>)"

subsection \<open>Tables\<close>

record library_row =
  lb_id :: string
  lb_name :: string
  lb_created_at :: real
  lb_revision :: nat

record class_row =
  cl_library_id :: string
  cl_name :: class_name
  cl_rank :: nat
  cl_created_at :: real
  cl_strategy :: string
  cl_bbox_ratio :: "real option"

record template_row =
  tr_id :: string
  tr_library_id :: string
  tr_class_name :: class_name
  tr_point_sets :: point_sets
  tr_centroid :: point
  tr_bbox :: "real \<times> real \<times> real \<times> real"
  tr_created_at :: real
  tr_kinds :: "string option list option"

record lib_db =
  libraries :: "library_row list"
  classes :: "class_row list"
  templates :: "template_row list"

definition class_key :: "class_row \<Rightarrow> string \<times> class_name" where
  "class_key c = (cl_library_id c, cl_name c)"

subsection \<open>Boot maintenance\<close>

definition rename_legacy :: "class_name \<times> class_name \<Rightarrow> lib_db \<Rightarrow> lib_db" where
  "rename_legacy on db =
     (case on of (old, new) \<Rightarrow>
        let ts = sql_update (\<lambda>t. tr_class_name t = old) (\<lambda>t. t\<lparr>tr_class_name := new\<rparr>) (templates db);
            taken = class_key ` set (classes db);
            cs = sql_update (\<lambda>c. cl_name c = old \<and> (cl_library_id c, new) \<notin> taken)
                   (\<lambda>c. c\<lparr>cl_name := new\<rparr>) (classes db)
        in db\<lparr>templates := ts, classes := sql_delete (\<lambda>c. cl_name c = old) cs\<rparr>)"

definition drop_deprecated :: "class_name \<Rightarrow> lib_db \<Rightarrow> lib_db" where
  "drop_deprecated dead db =
     db\<lparr>templates := sql_delete (\<lambda>t. tr_class_name t = dead) (templates db),
        classes := sql_delete (\<lambda>c. cl_name c = dead) (classes db)\<rparr>"

definition insert_or_ignore_class :: "class_row \<Rightarrow> lib_db \<Rightarrow> lib_db" where
  "insert_or_ignore_class c db =
     (if class_key c \<in> class_key ` set (classes db) then db else db\<lparr>classes := classes db @ [c]\<rparr>)"

definition seed_defaults :: "real \<Rightarrow> string \<Rightarrow> lib_db \<Rightarrow> lib_db" where
  "seed_defaults now lib_id db =
     fold (\<lambda>c. insert_or_ignore_class
             \<lparr>cl_library_id = lib_id, cl_name = c, cl_rank = 0, cl_created_at = now,
              cl_strategy = ''chamfer'', cl_bbox_ratio = None\<rparr>) DEFAULT_CLASSES db"

definition apply_default_config :: "class_name \<times> match_config \<Rightarrow> lib_db \<Rightarrow> lib_db" where
  "apply_default_config nc db =
     (case nc of (cls_name, (strat, ratio)) \<Rightarrow>
        db\<lparr>classes := sql_update
             (\<lambda>c. cl_name c = cls_name \<and> cl_strategy c = ''chamfer'' \<and> cl_bbox_ratio c = None)
             (\<lambda>c. c\<lparr>cl_strategy := strat, cl_bbox_ratio := ratio\<rparr>) (classes db)\<rparr>)"

fun index_of :: "'a \<Rightarrow> 'a list \<Rightarrow> nat" where
  "index_of x [] = 0"
| "index_of x (y # ys) = (if x = y then 0 else Suc (index_of x ys))"

text \<open>\<^verbatim>\<open>rank_priority.get(name, len(DEFAULT_CLASSES))\<close>\<close>

definition rank_priority :: "class_name \<Rightarrow> nat" where
  "rank_priority c = index_of c DEFAULT_CLASSES"

definition rerank_library :: "class_row list \<Rightarrow> lib_db \<Rightarrow> lib_db" where
  "rerank_library lib_rows db =
     fold (\<lambda>(new_rank, r) db. db\<lparr>classes := sql_update (\<lambda>c. class_key c = class_key r)
                                   (\<lambda>c. c\<lparr>cl_rank := new_rank\<rparr>) (classes db)\<rparr>)
       (enumerate 0 (sort_key (\<lambda>r. (rank_priority (cl_name r), cl_rank r, cl_created_at r)) lib_rows)) db"

definition migrate :: "real \<Rightarrow> lib_db \<Rightarrow> lib_db" where
  "migrate now db =
     (let db1 = fold rename_legacy LEGACY_CLASS_RENAME db;
          db2 = fold drop_deprecated DEPRECATED_CLASSES db1;
          db3 = fold (seed_defaults now) (map lb_id (libraries db2)) db2;
          db4 = fold apply_default_config CLASS_DEFAULT_MATCH_CONFIG db3;
          per_lib = group_by cl_library_id (classes db4)
      in fold (\<lambda>(_, rows). rerank_library rows) per_lib db4)"

subsection \<open>The store\<close>

definition create_library :: "string \<Rightarrow> real \<Rightarrow> string \<Rightarrow> lib_db \<Rightarrow> (library_error + unit) \<times> lib_db" where
  "create_library library_id now name db =
     (if library_id \<in> lb_id ` set (libraries db) then (Inl LibIntegrityError, db)
      else (Inr (), db\<lparr>libraries := libraries db @
              [\<lparr>lb_id = library_id, lb_name = name, lb_created_at = now, lb_revision = 0\<rparr>]\<rparr>))"

text \<open>Foreign keys cascade: deleting a library deletes its classes and templates.\<close>

definition delete_library :: "string \<Rightarrow> lib_db \<Rightarrow> lib_db" where
  "delete_library library_id db =
     (if library_id \<in> lb_id ` set (libraries db) then
        db\<lparr>libraries := sql_delete (\<lambda>l. lb_id l = library_id) (libraries db),
           classes := sql_delete (\<lambda>c. cl_library_id c = library_id) (classes db),
           templates := sql_delete (\<lambda>t. tr_library_id t = library_id) (templates db)\<rparr>
      else db)"

definition list_libraries :: "lib_db \<Rightarrow> library_row list" where
  "list_libraries db = sort_key lb_created_at (libraries db)"

definition get_library :: "string \<Rightarrow> lib_db \<Rightarrow> library_row option" where
  "get_library library_id db = row_by lb_id library_id (libraries db)"

definition bump_revision :: "string \<Rightarrow> lib_db \<Rightarrow> lib_db" where
  "bump_revision library_id db =
     db\<lparr>libraries := sql_update (\<lambda>l. lb_id l = library_id)
          (\<lambda>l. l\<lparr>lb_revision := lb_revision l + 1\<rparr>) (libraries db)\<rparr>"

definition current_revision :: "string \<Rightarrow> lib_db \<Rightarrow> nat" where
  "current_revision library_id db =
     (case get_library library_id db of None \<Rightarrow> 0 | Some l \<Rightarrow> lb_revision l)"

definition next_rank :: "string \<Rightarrow> lib_db \<Rightarrow> nat" where
  "next_rank library_id db =
     (case map cl_rank (filter (\<lambda>c. cl_library_id c = library_id) (classes db)) of
        [] \<Rightarrow> 0 | r # rs \<Rightarrow> foldl max r rs + 1)"

definition upsert_class :: "string \<Rightarrow> class_name \<Rightarrow> real \<Rightarrow> lib_db \<Rightarrow> lib_db" where
  "upsert_class library_id name now db =
     insert_or_ignore_class
       \<lparr>cl_library_id = library_id, cl_name = name, cl_rank = next_rank library_id db,
        cl_created_at = now, cl_strategy = ''chamfer'', cl_bbox_ratio = None\<rparr> db"

definition update_class_strategy ::
  "string \<Rightarrow> class_name \<Rightarrow> string \<Rightarrow> real option \<Rightarrow> lib_db \<Rightarrow> bool \<times> lib_db" where
  "update_class_strategy library_id name strategy bbox_ratio db =
     (let hit = (\<lambda>c. cl_library_id c = library_id \<and> cl_name c = name);
          n = rowcount hit (classes db);
          db1 = db\<lparr>classes := sql_update hit (\<lambda>c. c\<lparr>cl_strategy := strategy, cl_bbox_ratio := bbox_ratio\<rparr>) (classes db)\<rparr>
      in (n > 0, if n > 0 then bump_revision library_id db1 else db1))"

definition insert_template :: "string \<Rightarrow> template \<Rightarrow> real \<Rightarrow> lib_db \<Rightarrow> lib_db" where
  "insert_template library_id t now db =
     bump_revision library_id
       (db\<lparr>templates := templates db @
            [\<lparr>tr_id = t_id t, tr_library_id = library_id, tr_class_name = t_class_name t,
              tr_point_sets = t_point_sets t, tr_centroid = t_centroid t, tr_bbox = t_bbox t,
              tr_created_at = now, tr_kinds = Some (t_kinds t)\<rparr>]\<rparr>)"

definition store_delete_template :: "string \<Rightarrow> lib_db \<Rightarrow> bool \<times> lib_db" where
  "store_delete_template template_id db =
     (let row = row_by tr_id template_id (templates db);
          n = rowcount (\<lambda>t. tr_id t = template_id) (templates db);
          db1 = db\<lparr>templates := sql_delete (\<lambda>t. tr_id t = template_id) (templates db)\<rparr>
      in (n > 0, case row of Some r \<Rightarrow> if n > 0 then bump_revision (tr_library_id r) db1 else db1 | None \<Rightarrow> db1))"

definition update_template_class :: "string \<Rightarrow> class_name \<Rightarrow> lib_db \<Rightarrow> bool \<times> lib_db" where
  "update_template_class template_id new_class db =
     (let row = row_by tr_id template_id (templates db);
          n = rowcount (\<lambda>t. tr_id t = template_id) (templates db);
          db1 = db\<lparr>templates := sql_update (\<lambda>t. tr_id t = template_id)
                     (\<lambda>t. t\<lparr>tr_class_name := new_class\<rparr>) (templates db)\<rparr>
      in (n > 0, case row of Some r \<Rightarrow> if n > 0 then bump_revision (tr_library_id r) db1 else db1 | None \<Rightarrow> db1))"

definition template_of_row :: "template_row \<Rightarrow> template" where
  "template_of_row r =
     \<lparr>t_id = tr_id r, t_class_name = tr_class_name r, t_point_sets = tr_point_sets r,
      t_centroid = tr_centroid r, t_bbox = tr_bbox r,
      t_kinds = (case tr_kinds r of None \<Rightarrow> replicate (length (tr_point_sets r)) None | Some ks \<Rightarrow> ks)\<rparr>"

definition library_class_rows :: "string \<Rightarrow> lib_db \<Rightarrow> class_row list" where
  "library_class_rows library_id db =
     sort_key (\<lambda>c. (cl_rank c, cl_created_at c)) (filter (\<lambda>c. cl_library_id c = library_id) (classes db))"

definition library_template_rows :: "string \<Rightarrow> lib_db \<Rightarrow> template_row list" where
  "library_template_rows library_id db =
     sort_key tr_created_at (filter (\<lambda>t. tr_library_id t = library_id) (templates db))"

definition load_library ::
  "string \<Rightarrow> lib_db \<Rightarrow> class_name list \<times> (class_name, match_config) dict \<times> (class_name, template list) dict" where
  "load_library library_id db =
     (let class_rows = library_class_rows library_id db;
          names = map cl_name class_rows
      in (names,
          map (\<lambda>c. (cl_name c, (if cl_strategy c = [] then ''chamfer'' else cl_strategy c, cl_bbox_ratio c))) class_rows,
          fold (\<lambda>r. dict_push (tr_class_name r) (template_of_row r)) (library_template_rows library_id db)
            (map (\<lambda>c. (c, [])) names)))"

subsection \<open>A library instance\<close>

record library =
  l_id :: string
  l_classes :: "class_name list"
  l_configs :: "(class_name, match_config) dict"
  l_templates :: "(class_name, template list) dict"

definition lib_add_class :: "real \<Rightarrow> class_name \<Rightarrow> library \<times> lib_db \<Rightarrow> library \<times> lib_db" where
  "lib_add_class now name = (\<lambda>(lib, db).
     if name \<in> fst ` set (l_templates lib) then (lib, db)
     else
       let (strategy, bbox_ratio) =
             (case map_of CLASS_DEFAULT_MATCH_CONFIG name of Some c \<Rightarrow> c | None \<Rightarrow> (''chamfer'', None));
           lib1 = lib\<lparr>l_classes := l_classes lib @ [name],
                      l_templates := AList.update name [] (l_templates lib),
                      l_configs := AList.update name (strategy, bbox_ratio) (l_configs lib)\<rparr>;
           db1 = upsert_class (l_id lib) name now db;
           db2 = (if strategy \<noteq> ''chamfer'' \<or> bbox_ratio \<noteq> None
                  then snd (update_class_strategy (l_id lib) name strategy bbox_ratio db1) else db1)
       in (lib1, db2))"

definition open_library :: "string \<Rightarrow> real \<Rightarrow> lib_db \<Rightarrow> library \<times> lib_db" where
  "open_library library_id now db =
     (case load_library library_id db of (cs, cfgs, ts) \<Rightarrow>
        fold (\<lambda>c s. if c \<in> fst ` set (l_templates (fst s)) then s else lib_add_class now c s) DEFAULT_CLASSES
          (\<lparr>l_id = library_id, l_classes = cs, l_configs = cfgs, l_templates = ts\<rparr>, db))"

text \<open>The groups \<^verbatim>\<open>_warn_on_duplicate_signatures\<close> logs: class, signature, count above one.\<close>

definition duplicate_signatures :: "library \<Rightarrow> (class_name \<times> signature \<times> nat) list" where
  "duplicate_signatures lib =
     concat (map (\<lambda>(c, ts).
        map (\<lambda>(sig, g). (c, sig, length g))
          (filter (\<lambda>(sig, g). 1 < length g) (group_by (\<lambda>t. template_signature (t_point_sets t)) ts)))
       (l_templates lib))"

definition strategy_of :: "class_name \<Rightarrow> library \<Rightarrow> match_config" where
  "strategy_of name lib =
     (case map_of (l_configs lib) name of
        None \<Rightarrow> (''chamfer'', None)
      | Some (s, r) \<Rightarrow> (if s = [] then ''chamfer'' else s, r))"

definition set_strategy ::
  "class_name \<Rightarrow> string \<Rightarrow> real option \<Rightarrow> library \<times> lib_db \<Rightarrow> bool \<times> library \<times> lib_db" where
  "set_strategy name strategy bbox_ratio = (\<lambda>(lib, db).
     if name \<notin> fst ` set (l_templates lib) then (False, lib, db)
     else (True, lib\<lparr>l_configs := AList.update name (strategy, bbox_ratio) (l_configs lib)\<rparr>,
           snd (update_class_strategy (l_id lib) name strategy bbox_ratio db)))"

definition template_sig :: "template \<Rightarrow> signature" where
  "template_sig t = template_signature (t_point_sets t)"

definition add_template_for_file :: "real \<Rightarrow> template \<Rightarrow> library \<times> lib_db \<Rightarrow> (template \<times> bool) \<times> library \<times> lib_db" where
  "add_template_for_file now template s0 =
     (let (lib, db) = (if t_class_name template \<notin> fst ` set (l_templates (fst s0))
                       then lib_add_class now (t_class_name template) s0 else s0);
          new_sig = template_sig template
      in case find (\<lambda>t. template_sig t = new_sig) (dict_list (l_templates lib) (t_class_name template)) of
           Some existing \<Rightarrow> ((existing, True), lib, db)
         | None \<Rightarrow>
             ((template, False),
              lib\<lparr>l_templates := AList.map_entry (t_class_name template) (\<lambda>ts. ts @ [template]) (l_templates lib)\<rparr>,
              insert_template (l_id lib) template now db))"

definition templates_of :: "class_name \<Rightarrow> library \<Rightarrow> template list" where
  "templates_of c lib = dict_list (l_templates lib) c"

definition lib_count :: "class_name \<Rightarrow> library \<Rightarrow> nat" where
  "lib_count c lib = length (dict_list (l_templates lib) c)"

record class_summary =
  cs_name :: class_name
  cs_count :: nat
  cs_config :: match_config

definition lib_summary :: "library \<Rightarrow> class_summary list" where
  "lib_summary lib =
     map (\<lambda>c. \<lparr>cs_name = c, cs_count = lib_count c lib, cs_config = strategy_of c lib\<rparr>) (l_classes lib)"

definition find_template :: "string \<Rightarrow> library \<Rightarrow> template option" where
  "find_template template_id lib = find (\<lambda>t. t_id t = template_id) (concat (map snd (l_templates lib)))"

fun remove_first :: "('a \<Rightarrow> bool) \<Rightarrow> 'a list \<Rightarrow> ('a \<times> 'a list) option" where
  "remove_first P [] = None"
| "remove_first P (x # xs) =
     (if P x then Some (x, xs) else map_option (\<lambda>(y, ys). (y, x # ys)) (remove_first P xs))"

text \<open>Pop the first template with the id from the first class that has one.\<close>

fun pop_template :: "string \<Rightarrow> (class_name, template list) dict \<Rightarrow> (template \<times> (class_name, template list) dict) option" where
  "pop_template tid [] = None"
| "pop_template tid ((c, ts) # d) =
     (case remove_first (\<lambda>t. t_id t = tid) ts of
        Some (t, ts') \<Rightarrow> Some (t, (c, ts') # d)
      | None \<Rightarrow> map_option (\<lambda>(t, d'). (t, (c, ts) # d')) (pop_template tid d))"

definition lib_delete_template :: "string \<Rightarrow> library \<times> lib_db \<Rightarrow> bool \<times> library \<times> lib_db" where
  "lib_delete_template template_id = (\<lambda>(lib, db).
     case pop_template template_id (l_templates lib) of
       None \<Rightarrow> (False, lib, db)
     | Some (_, d) \<Rightarrow> (True, lib\<lparr>l_templates := d\<rparr>, snd (store_delete_template template_id db)))"

definition move_template :: "real \<Rightarrow> string \<Rightarrow> class_name \<Rightarrow> library \<times> lib_db \<Rightarrow> bool \<times> library \<times> lib_db" where
  "move_template now template_id new_class = (\<lambda>(lib, db).
     case pop_template template_id (l_templates lib) of
       None \<Rightarrow> (False, lib, db)
     | Some (found, d) \<Rightarrow>
         let (lib1, db1) = (if new_class \<notin> fst ` set d then lib_add_class now new_class (lib\<lparr>l_templates := d\<rparr>, db)
                            else (lib\<lparr>l_templates := d\<rparr>, db));
             lib2 = lib1\<lparr>l_templates := AList.map_entry new_class (\<lambda>ts. ts @ [found\<lparr>t_class_name := new_class\<rparr>])
                                        (l_templates lib1)\<rparr>
         in (True, lib2, snd (update_template_class template_id new_class db1)))"

definition all_templates :: "library \<Rightarrow> (class_name \<times> nat \<times> template) list" where
  "all_templates lib =
     concat (map (\<lambda>c. map (\<lambda>(i, t). (c, i, t)) (enumerate 0 (dict_list (l_templates lib) c))) (l_classes lib))"

subsection \<open>The registry\<close>

definition registry_get :: "string \<Rightarrow> real \<Rightarrow> lib_db \<Rightarrow> (library_error + library) \<times> lib_db" where
  "registry_get library_id now db =
     (case get_library library_id db of
        None \<Rightarrow> (Inl (KeyError library_id), db)
      | Some _ \<Rightarrow> (case open_library library_id now db of (lib, db') \<Rightarrow> (Inr lib, db')))"

definition registry_create :: "string \<Rightarrow> string \<Rightarrow> real \<Rightarrow> lib_db \<Rightarrow> (library_error + library) \<times> lib_db" where
  "registry_create library_id name now db =
     (case create_library library_id now name db of
        (Inl e, db1) \<Rightarrow> (Inl e, db1)
      | (Inr _, db1) \<Rightarrow> registry_get library_id now db1)"

record library_summary =
  lsu_id :: string
  lsu_name :: string
  lsu_created_at :: real
  lsu_template_count :: nat
  lsu_class_count :: nat

text \<open>\<^verbatim>\<open>list_summaries\<close> opens every library, which seeds missing default classes.\<close>

definition list_summaries :: "real \<Rightarrow> lib_db \<Rightarrow> library_summary list \<times> lib_db" where
  "list_summaries now db =
     foldl (\<lambda>(out, db) r.
        case open_library (lb_id r) now db of
          (lib, db') \<Rightarrow>
            (out @ [\<lparr>lsu_id = lb_id r, lsu_name = lb_name r, lsu_created_at = lb_created_at r,
                     lsu_template_count = sum_list (map (\<lambda>c. lib_count c lib) (l_classes lib)),
                     lsu_class_count = length (l_classes lib)\<rparr>], db'))
       ([], db) (list_libraries db)"

definition library_exists :: "string \<Rightarrow> lib_db \<Rightarrow> bool" where
  "library_exists library_id db \<longleftrightarrow> get_library library_id db \<noteq> None"

subsection \<open>The signature is geometric\<close>

lemma sum_list_mset_cong: "mset xs = mset ys \<Longrightarrow> sum_list (map f xs) = sum_list (map f ys)"
  for f :: "'a \<Rightarrow> real"
  by (metis mset_map sum_mset_sum_list)

lemma sort_mset_cong: "mset xs = mset ys \<Longrightarrow> sort xs = sort ys"
  for xs :: "'a::linorder list"
  by (rule properties_for_sort) simp_all

lemma mset_concat: "mset (concat xss) = sum_list (map mset xss)"
  by (induction xss) simp_all

lemma mset_concat_cong: "mset (map mset xss) = mset (map mset yss) \<Longrightarrow> mset (concat xss) = mset (concat yss)"
  unfolding mset_concat by (metis sum_mset_sum_list)

text \<open>Reordering vertices within entities and the entities themselves.\<close>

lemma signature_reorder:
  assumes "mset (map mset es) = mset (map mset es')"
  shows "template_signature es = template_signature es'"
proof -
  have c: "mset (concat es) = mset (concat es')" by (rule mset_concat_cong[OF assms])
  then have l: "length (concat es) = length (concat es')" by (metis size_mset)
  have e: "concat es = [] \<longleftrightarrow> concat es' = []" using c by (metis mset.simps(1) mset_zero_iff)
  have x: "sum_list (map fst (concat es)) = sum_list (map fst (concat es'))"
    and y: "sum_list (map snd (concat es)) = sum_list (map snd (concat es'))"
    by (rule sum_list_mset_cong[OF c])+
  have "mset (map (\<lambda>pts. sort (map b pts)) es) = mset (map (\<lambda>pts. sort (map b pts)) es')" for b :: "point \<Rightarrow> int \<times> int"
  proof -
    have s: "sort (map b pts) = sorted_list_of_multiset (image_mset b (mset pts))" for pts
      by (metis mset_map sorted_list_of_multiset_mset)
    have "mset (map (\<lambda>pts. sort (map b pts)) es) =
        image_mset (\<lambda>m. sorted_list_of_multiset (image_mset b m)) (mset (map mset es))" for es
      by (simp add: s image_mset.compositionality comp_def)
    then show ?thesis using assms by presburger
  qed
  then show ?thesis
    unfolding template_signature_def Let_def x y l using e by (auto intro: sort_mset_cong)
qed

definition translate :: "point \<Rightarrow> point_sets \<Rightarrow> point_sets" where
  "translate v es = map (map (\<lambda>p. (fst p + fst v, snd p + snd v))) es"

lemma concat_translate: "concat (translate v es) = map (\<lambda>p. (fst p + fst v, snd p + snd v)) (concat es)"
  by (induction es) (simp_all add: translate_def)

lemma sum_list_shift: "sum_list (map (\<lambda>p. f p + c) xs) = sum_list (map f xs) + real (length xs) * c"
  for f :: "'a \<Rightarrow> real"
  by (induction xs) (simp_all add: algebra_simps)

lemma signature_translate: "template_signature (translate v es) = template_signature es"
proof (cases "concat es = []")
  case True
  then show ?thesis using concat_translate[of v es] by (simp add: template_signature_def Let_def)
next
  case False
  let ?n = "real (length (concat es))"
  have n: "?n \<noteq> 0" using False by (metis length_0_conv of_nat_eq_0_iff)
  have x: "sum_list (map fst (concat (translate v es))) / ?n = sum_list (map fst (concat es)) / ?n + fst v"
    and y: "sum_list (map snd (concat (translate v es))) / ?n = sum_list (map snd (concat es)) / ?n + snd v"
    unfolding concat_translate map_map comp_def fst_conv snd_conv sum_list_shift using n by (simp_all add: field_simps)
  have b: "bucket (gx + fst v) (gy + snd v) (fst p + fst v, snd p + snd v) = bucket gx gy p" for gx gy p
    by (simp add: bucket_def)
  have l: "length (concat (translate v es)) = length (concat es)" by (simp only: concat_translate length_map)
  have e: "concat (translate v es) \<noteq> []" unfolding concat_translate using False by (metis map_is_Nil_conv)
  show ?thesis
    unfolding template_signature_def Let_def l x y if_not_P[OF False] if_not_P[OF e]
    by (simp add: translate_def comp_def b)
qed

text \<open>The dedup signature ignores position and order: two templates whose point sets agree up to
  a translation, a reordering of the vertices within the entities and a reordering of the
  entities have the same signature.\<close>

theorem signature_invariant:
  assumes "mset (map mset es') = mset (map mset (translate v es))"
  shows "template_signature es' = template_signature es"
  using signature_reorder[OF assms] signature_translate by simp

lemma signature_invariant_witness:
  "template_signature [[(7, 5)], [(6, 4), (5, 5)]] = template_signature [[(0, 1), (1, 0)], [(2, 1)]]"
  by (rule signature_invariant[where v = "(5, 4)"]) (simp add: translate_def add_mset_commute)

text \<open>The signature separates what the comment promises: scaling a two-point template by two gives
  another signature, so the key is not scale invariant, and rotating an oblong one by 90 degrees
  gives another as well.\<close>

theorem signature_not_scale_or_rotation:
  "template_signature [[(0, 0), (1, 0)]] \<noteq> template_signature [[(0, 0), (2, 0)]] \<and>
   template_signature [[(0, 0), (1, 0)]] \<noteq> template_signature [[(0, 0), (0, 1)]]"
  by (simp add: template_signature_def bucket_def py_round_def TEMPLATE_DEDUP_BUCKET_def Let_def)

subsection \<open>Deduplication\<close>

definition sig_distinct :: "library \<Rightarrow> bool" where
  "sig_distinct lib \<longleftrightarrow> dict_ok (l_templates lib) \<and>
     (\<forall>(c, ts)\<in>set (l_templates lib). distinct (map template_sig ts))"

lemma lib_add_class_templates:
  "l_templates (fst (lib_add_class now c (lib, db))) =
     (if c \<in> fst ` set (l_templates lib) then l_templates lib else AList.update c [] (l_templates lib))"
  by (simp add: lib_add_class_def Let_def case_prod_beta)

lemma update_fresh: "k \<notin> fst ` set d \<Longrightarrow> AList.update k v d = d @ [(k, v)]"
  by (induction d) auto

lemma sig_distinct_add_class: "sig_distinct lib \<Longrightarrow> sig_distinct (fst (lib_add_class now c (lib, db)))"
  by (auto simp: sig_distinct_def lib_add_class_templates update_fresh)

lemma map_entry_keys [simp]: "map fst (AList.map_entry k f d) = map fst d"
  by (induction d) auto

lemma map_entry_mem:
  "dict_ok d \<Longrightarrow> (c, v) \<in> set (AList.map_entry k f d) \<Longrightarrow> (c \<noteq> k \<and> (c, v) \<in> set d) \<or> (c = k \<and> (\<exists>w. (c, w) \<in> set d \<and> v = f w))"
proof -
  assume ok: "dict_ok d" and m: "(c, v) \<in> set (AList.map_entry k f d)"
  have "dict_ok (AList.map_entry k f d)" using ok by simp
  then have "map_of (AList.map_entry k f d) c = Some v" using m by simp
  then show ?thesis by (auto simp: map_of_map_entry split: if_splits option.splits dest: map_of_SomeD)
qed

lemma dict_list_map_entry:
  "k \<in> fst ` set d \<Longrightarrow> dict_list (AList.map_entry k f d) c = (if c = k then f (dict_list d k) else dict_list d c)"
proof -
  assume "k \<in> fst ` set d"
  then obtain v where "map_of d k = Some v" by (metis map_of_eq_None_iff option.exhaust)
  then show ?thesis by (simp add: dict_list_def map_of_map_entry)
qed

definition with_class :: "real \<Rightarrow> class_name \<Rightarrow> library \<times> lib_db \<Rightarrow> library \<times> lib_db" where
  "with_class now c s = (if c \<notin> fst ` set (l_templates (fst s)) then lib_add_class now c s else s)"

lemma with_class_known: "c \<in> fst ` set (l_templates (fst (with_class now c s)))"
  by (cases s) (simp add: with_class_def lib_add_class_templates update_fresh)

lemma with_class_list: "dict_list (l_templates (fst (with_class now c s))) c' = dict_list (l_templates (fst s)) c'"
  by (cases s) (auto simp: with_class_def lib_add_class_templates dict_list_def update_conv' map_of_notin)

lemma sig_distinct_with_class: "sig_distinct (fst s) \<Longrightarrow> sig_distinct (fst (with_class now c s))"
  by (cases s) (simp add: with_class_def sig_distinct_add_class)

lemma add_template_unfold:
  "add_template_for_file now t s =
     (case find (\<lambda>x. template_sig x = template_sig t) (dict_list (l_templates (fst s)) (t_class_name t)) of
        Some existing \<Rightarrow> ((existing, True), with_class now (t_class_name t) s)
      | None \<Rightarrow> ((t, False),
          (fst (with_class now (t_class_name t) s))\<lparr>l_templates := AList.map_entry (t_class_name t) (\<lambda>ts. ts @ [t])
             (l_templates (fst (with_class now (t_class_name t) s)))\<rparr>,
          insert_template (l_id (fst (with_class now (t_class_name t) s))) t now (snd (with_class now (t_class_name t) s))))"
  by (simp add: add_template_for_file_def with_class_def[symmetric] case_prod_beta Let_def with_class_list
      split: option.splits)

lemma find_snoc_hit: "find P xs = None \<Longrightarrow> P x \<Longrightarrow> find P (xs @ [x]) = Some x"
  by (induction xs) (auto split: if_splits)

text \<open>Adding a template keeps every class free of duplicate signatures; a template whose
  signature the class already has is not added: the existing one is returned and, when the class
  exists, nothing changes.  Adding the same template again is therefore a no-op.\<close>

theorem add_template_dedups:
  assumes "sig_distinct (fst s)" "add_template_for_file now t s = ((t', existed), s')"
  shows "sig_distinct (fst s') \<and> template_sig t' = template_sig t \<and>
    t' \<in> set (templates_of (t_class_name t) (fst s')) \<and>
    (existed \<longleftrightarrow> template_sig t \<in> template_sig ` set (templates_of (t_class_name t) (fst s))) \<and>
    (existed \<and> t_class_name t \<in> fst ` set (l_templates (fst s)) \<longrightarrow> s' = s) \<and>
    (\<forall>c. c \<noteq> t_class_name t \<longrightarrow> templates_of c (fst s') = templates_of c (fst s)) \<and>
    add_template_for_file later t s' = ((t', True), s')"
proof -
  let ?c = "t_class_name t"
  let ?w = "with_class now ?c s"
  let ?ts = "dict_list (l_templates (fst s)) ?c"
  have sd: "sig_distinct (fst ?w)" by (rule sig_distinct_with_class[OF assms(1)])
  have known: "?c \<in> fst ` set (l_templates (fst ?w))" by (rule with_class_known)
  have same: "with_class later ?c s' = s'" if "?c \<in> fst ` set (l_templates (fst s'))"
    using that by (simp add: with_class_def)
  show ?thesis
  proof (cases "find (\<lambda>x. template_sig x = template_sig t) ?ts")
    case (Some x)
    then have x: "x \<in> set ?ts" "template_sig x = template_sig t" by (auto simp: find_Some_iff)
    have r: "t' = x" "existed" "s' = ?w" using assms(2) Some by (simp_all add: add_template_unfold)
    have l: "dict_list (l_templates (fst s')) c = dict_list (l_templates (fst s)) c" for c
      by (simp add: r with_class_list)
    have "add_template_for_file later t s' = ((t', True), s')"
      using Some same known r by (simp add: add_template_unfold with_class_list)
    moreover have "?c \<in> fst ` set (l_templates (fst s)) \<longrightarrow> s' = s" by (simp add: r with_class_def)
    ultimately show ?thesis using sd x r by (auto simp: templates_of_def l with_class_list image_iff intro!: bexI[of _ x])
  next
    case None
    then have n: "template_sig t \<notin> template_sig ` set ?ts" by (auto simp: find_None_iff)
    have r: "t' = t" "\<not> existed"
      "l_templates (fst s') = AList.map_entry ?c (\<lambda>ts. ts @ [t]) (l_templates (fst ?w))"
      using assms(2) None by (auto simp: add_template_unfold)
    have ok: "dict_ok (l_templates (fst ?w))" using sd by (simp add: sig_distinct_def)
    have l: "dict_list (l_templates (fst s')) c = (if c = ?c then ?ts @ [t] else dict_list (l_templates (fst s)) c)" for c
      using known by (simp add: r dict_list_map_entry with_class_list)
    have "distinct (map template_sig v)" if "(c, v) \<in> set (l_templates (fst s'))" for c v
    proof -
      from map_entry_mem[OF ok that[unfolded r]] consider
          "c \<noteq> ?c" "(c, v) \<in> set (l_templates (fst ?w))"
        | w where "(?c, w) \<in> set (l_templates (fst ?w))" "v = w @ [t]" by blast
      then show ?thesis
      proof cases
        case (2 w)
        then have "w = ?ts" using dict_list_eqI[OF ok] by (simp add: with_class_list)
        then show ?thesis using 2 sd n by (auto simp: sig_distinct_def)
      qed (use sd in \<open>auto simp: sig_distinct_def\<close>)
    qed
    then have "sig_distinct (fst s')" using ok by (auto simp: sig_distinct_def r)
    moreover have "?c \<in> fst ` set (l_templates (fst s'))"
      using known unfolding r by (metis list.set_map map_entry_keys)
    moreover from this have "add_template_for_file later t s' = ((t, True), s')"
      using find_snoc_hit[OF None, of t] by (simp add: add_template_unfold[of later t s'] l same)
    ultimately show ?thesis using n r(1,2) by (simp add: templates_of_def l)
  qed
qed

definition pad :: "string \<Rightarrow> template" where
  "pad i = \<lparr>t_id = i, t_class_name = ''Pad'', t_point_sets = [[(0, 0)]], t_centroid = (0, 0),
            t_bbox = (0, 0, 0, 0), t_kinds = [None]\<rparr>"

definition empty_library :: library where
  "empty_library = \<lparr>l_id = ''L'', l_classes = [''Pad''], l_configs = [], l_templates = [(''Pad'', [])]\<rparr>"

definition empty_lib_db :: lib_db where
  "empty_lib_db = \<lparr>libraries = [], classes = [], templates = []\<rparr>"

lemma add_template_dedups_witness:
  "add_template_for_file 7 (pad ''b'') (snd (add_template_for_file 5 (pad ''b'') (empty_library, empty_lib_db))) =
     ((pad ''b'', True), snd (add_template_for_file 5 (pad ''b'') (empty_library, empty_lib_db)))"
proof -
  let ?s = "snd (add_template_for_file 5 (pad ''b'') (empty_library, empty_lib_db))"
  have "add_template_for_file 5 (pad ''b'') (empty_library, empty_lib_db) = ((pad ''b'', False), ?s)"
    by (simp add: add_template_for_file_def empty_library_def pad_def dict_list_def Let_def)
  from add_template_dedups[OF _ this, of 7] show ?thesis
    by (simp add: sig_distinct_def empty_library_def pad_def)
qed

subsection \<open>The cache is the table\<close>

text \<open>A well-formed table: unique keys, every template filed under a class of its library.\<close>

definition lib_wf :: "lib_db \<Rightarrow> bool" where
  "lib_wf db \<longleftrightarrow> distinct (map lb_id (libraries db)) \<and> distinct (map class_key (classes db)) \<and>
     distinct (map tr_id (templates db)) \<and>
     (\<forall>t\<in>set (templates db). (tr_library_id t, tr_class_name t) \<in> class_key ` set (classes db)) \<and>
     (\<forall>c\<in>set (classes db). cl_strategy c \<noteq> [])"

text \<open>The instance holds what a fresh load of its library would.\<close>

definition in_sync :: "library \<times> lib_db \<Rightarrow> bool" where
  "in_sync s \<longleftrightarrow> load_library (l_id (fst s)) (snd s) =
     (l_classes (fst s), l_configs (fst s), l_templates (fst s))"

text \<open>No row of the library is younger than \<^verbatim>\<open>now\<close>.\<close>

definition clock_ok :: "string \<Rightarrow> real \<Rightarrow> lib_db \<Rightarrow> bool" where
  "clock_ok lid now db \<longleftrightarrow> (\<forall>t\<in>set (templates db). tr_library_id t = lid \<longrightarrow> tr_created_at t \<le> now)"

lemma bump_tables [simp]:
  "classes (bump_revision l db) = classes db" "templates (bump_revision l db) = templates db"
  by (simp_all add: bump_revision_def)

lemma lib_wf_bump [simp]: "lib_wf (bump_revision l db) = lib_wf db"
  by (simp add: lib_wf_def) (simp add: bump_revision_def map_sql_update)

lemma load_bump [simp]: "load_library lid (bump_revision l db) = load_library lid db"
  by (simp add: load_library_def library_class_rows_def library_template_rows_def)

lemma distinct_class_names: "lib_wf db \<Longrightarrow> distinct (map cl_name (library_class_rows lid db))"
proof -
  assume "lib_wf db"
  then have "distinct (map class_key (filter (\<lambda>c. cl_library_id c = lid) (classes db)))"
    by (auto simp: lib_wf_def intro: distinct_map_filter)
  then have "distinct (map cl_name (filter (\<lambda>c. cl_library_id c = lid) (classes db)))"
    by (auto simp: distinct_map inj_on_def class_key_def)
  then show ?thesis unfolding library_class_rows_def by (simp add: distinct_map)
qed

lemma load_templates:
  assumes "lib_wf db"
  shows "snd (snd (load_library lid db)) =
    map (\<lambda>c. (cl_name c, map template_of_row (filter (\<lambda>t. tr_class_name t = cl_name c) (library_template_rows lid db))))
      (library_class_rows lid db)"
proof -
  let ?init = "map (\<lambda>c. (c, [])) (map cl_name (library_class_rows lid db)) :: (class_name, template list) dict"
  have ok: "dict_ok ?init" using distinct_class_names[OF assms] by (simp add: comp_def)
  have "tr_class_name ` set (library_template_rows lid db) \<subseteq> cl_name ` set (library_class_rows lid db)"
    using assms by (force simp: library_template_rows_def library_class_rows_def lib_wf_def class_key_def)
  then have sub: "tr_class_name ` set (library_template_rows lid db) \<subseteq> fst ` set ?init" by force
  show ?thesis
    unfolding load_library_def Let_def snd_conv fold_push_filter[OF ok sub] by simp
qed

text \<open>Adding a class row that sorts last.\<close>

lemma next_rank_above:
  "c \<in> set (classes db) \<Longrightarrow> cl_library_id c = lid \<Longrightarrow> cl_rank c < next_rank lid db"
proof -
  have fm: "\<forall>x\<in>set (r # rs). x \<le> foldl max r rs" for r and rs :: "nat list"
  proof (induction rs arbitrary: r)
    case (Cons a rs)
    from Cons[of "max r a"] show ?case by auto
  qed simp
  assume c: "c \<in> set (classes db)" "cl_library_id c = lid"
  then have "cl_rank c \<in> set (map cl_rank (filter (\<lambda>c. cl_library_id c = lid) (classes db)))" by auto
  then obtain r rs where rs: "map cl_rank (filter (\<lambda>c. cl_library_id c = lid) (classes db)) = r # rs"
      "cl_rank c \<in> set (r # rs)"
    by (cases "map cl_rank (filter (\<lambda>c. cl_library_id c = lid) (classes db))") auto
  have "cl_rank c \<le> foldl max r rs" using fm rs(2) by blast
  then show ?thesis by (simp add: next_rank_def rs(1))
qed

lemma class_rows_snoc:
  assumes "cl_library_id r = lid" "cl_rank r = next_rank lid db"
  shows "library_class_rows lid (db\<lparr>classes := classes db @ [r]\<rparr>) = library_class_rows lid db @ [r]"
  unfolding library_class_rows_def
  using assms next_rank_above[of _ db lid] by (auto intro!: sort_key_snoc simp: less_eq_prod_def intro: less_imp_le)

lemma class_rows_update:
  assumes "\<And>c. P c \<Longrightarrow> cl_library_id (f c) = cl_library_id c \<and> cl_rank (f c) = cl_rank c \<and> cl_created_at (f c) = cl_created_at c"
  shows "library_class_rows lid (db\<lparr>classes := sql_update P f (classes db)\<rparr>) = sql_update P f (library_class_rows lid db)"
  unfolding library_class_rows_def using assms by (simp add: filter_sql_update sort_key_sql_update)

text \<open>A template row that sorts last, and rows deleted by id.\<close>

lemma template_rows_snoc:
  assumes "tr_library_id r = lid" "clock_ok lid (tr_created_at r) db"
  shows "library_template_rows lid (db\<lparr>templates := templates db @ [r]\<rparr>) = library_template_rows lid db @ [r]"
  unfolding library_template_rows_def using assms by (auto intro!: sort_key_snoc simp: clock_ok_def)

lemma template_rows_delete:
  "library_template_rows lid (db\<lparr>templates := sql_delete P (templates db)\<rparr>) =
     filter (\<lambda>r. \<not> P r) (library_template_rows lid db)"
  unfolding library_template_rows_def sql_delete_def by (simp add: filter_sort conj_commute)

lemma in_sync_names: "in_sync s \<Longrightarrow> l_classes (fst s) = map cl_name (library_class_rows (l_id (fst s)) (snd s))"
  by (simp add: in_sync_def load_library_def Let_def)

lemma in_sync_templates:
  "lib_wf (snd s) \<Longrightarrow> in_sync s \<Longrightarrow> l_templates (fst s) =
    map (\<lambda>c. (cl_name c, map template_of_row (filter (\<lambda>t. tr_class_name t = cl_name c)
        (library_template_rows (l_id (fst s)) (snd s))))) (library_class_rows (l_id (fst s)) (snd s))"
  using load_templates[of "snd s" "l_id (fst s)"] by (simp add: in_sync_def)

lemma in_sync_configs: "in_sync s \<Longrightarrow> l_configs (fst s) =
    map (\<lambda>c. (cl_name c, (if cl_strategy c = [] then ''chamfer'' else cl_strategy c, cl_bbox_ratio c)))
      (library_class_rows (l_id (fst s)) (snd s))"
  by (simp add: in_sync_def load_library_def Let_def)

lemma in_syncI:
  assumes "lib_wf (snd s)"
    "l_classes (fst s) = map cl_name (library_class_rows (l_id (fst s)) (snd s))"
    "l_configs (fst s) = map (\<lambda>c. (cl_name c, (if cl_strategy c = [] then ''chamfer'' else cl_strategy c, cl_bbox_ratio c)))
      (library_class_rows (l_id (fst s)) (snd s))"
    "l_templates (fst s) =
      map (\<lambda>c. (cl_name c, map template_of_row (filter (\<lambda>t. tr_class_name t = cl_name c)
        (library_template_rows (l_id (fst s)) (snd s))))) (library_class_rows (l_id (fst s)) (snd s))"
  shows "in_sync s"
  unfolding in_sync_def using load_templates[OF assms(1), of "l_id (fst s)"] assms(2-)
  by (simp add: load_library_def Let_def)

lemma template_rows_classes [simp]: "library_template_rows lid (db\<lparr>classes := cs\<rparr>) = library_template_rows lid db"
  by (simp add: library_template_rows_def)

lemma class_rows_templates [simp]: "library_class_rows lid (db\<lparr>templates := ts\<rparr>) = library_class_rows lid db"
  by (simp add: library_class_rows_def)

lemma rows_bump [simp]:
  "library_class_rows lid (bump_revision l db) = library_class_rows lid db"
  "library_template_rows lid (bump_revision l db) = library_template_rows lid db"
  by (simp_all add: library_class_rows_def library_template_rows_def)

lemma bump_update_classes: "library_class_rows lid (bump_revision l db\<lparr>classes := cs\<rparr>) = library_class_rows lid (db\<lparr>classes := cs\<rparr>)"
  by (simp add: library_class_rows_def)

text \<open>Setting a strategy: the row and the cache entry change alike.\<close>

lemma update_strategy_sync:
  fixes lid :: string and name :: class_name and ratio :: "real option" and t :: real
  assumes "lib_wf db" "strategy \<noteq> []"
  defines "hit \<equiv> \<lambda>c :: class_row. cl_library_id c = lid \<and> cl_name c = name"
  defines "db' \<equiv> snd (update_class_strategy lid name strategy ratio db)"
  shows "lib_wf db'" and "templates db' = templates db"
    and "library_class_rows lid db' = sql_update (\<lambda>c. cl_name c = name) (\<lambda>c. c\<lparr>cl_strategy := strategy, cl_bbox_ratio := ratio\<rparr>)
           (library_class_rows lid db)"
    and "clock_ok lid t db' = clock_ok lid t db"
proof -
  let ?f = "\<lambda>c :: class_row. c\<lparr>cl_strategy := strategy, cl_bbox_ratio := ratio\<rparr>"
  let ?db1 = "db\<lparr>classes := sql_update hit ?f (classes db)\<rparr>"
  have d: "db' = (if 0 < rowcount hit (classes db) then bump_revision lid ?db1 else ?db1)"
    by (simp add: db'_def update_class_strategy_def Let_def hit_def)
  have ks: "map class_key (sql_update hit ?f (classes db)) = map class_key (classes db)"
    by (rule map_sql_update) (simp add: class_key_def)
  then have "class_key ` set (sql_update hit ?f (classes db)) = class_key ` set (classes db)" by (metis list.set_map)
  then have "lib_wf ?db1"
    using assms(1,2) ks by (simp add: lib_wf_def ball_sql_update)
  then show "lib_wf db'" by (simp add: d)
  show t: "templates db' = templates db" by (simp add: d)
  show "clock_ok lid t db' = clock_ok lid t db" by (simp add: clock_ok_def t)
  have "library_class_rows lid ?db1 = sql_update hit ?f (library_class_rows lid db)"
    by (rule class_rows_update) simp
  also have "\<dots> = sql_update (\<lambda>c. cl_name c = name) ?f (library_class_rows lid db)"
    unfolding sql_update_def by (rule map_cong) (auto simp: hit_def library_class_rows_def)
  finally show "library_class_rows lid db' = sql_update (\<lambda>c. cl_name c = name) ?f (library_class_rows lid db)"
    by (simp add: d)
qed

lemma update_known_entry:
  assumes "dict_ok d" "k \<in> fst ` set d"
  shows "AList.update k v d = map (\<lambda>(c, x). (c, if c = k then v else x)) d"
  using assms
proof (induction d)
  case (Cons a d)
  have "map (\<lambda>(c, x). (c, if c = k then v else x)) d = d" if "k \<notin> fst ` set d"
    using that by (intro map_idI) force
  then show ?case using Cons by (cases a) auto
qed simp

lemma set_strategy_sync:
  assumes "lib_wf (snd s)" "in_sync s" "strategy \<noteq> []"
  shows "lib_wf (snd (snd (set_strategy name strategy ratio s))) \<and> in_sync (snd (set_strategy name strategy ratio s))"
proof (cases "name \<in> fst ` set (l_templates (fst s))")
  case True
  obtain lib db where s: "s = (lib, db)" by (cases s)
  let ?rows = "library_class_rows (l_id lib) db"
  let ?f = "\<lambda>c :: class_row. c\<lparr>cl_strategy := strategy, cl_bbox_ratio := ratio\<rparr>"
  let ?s' = "snd (set_strategy name strategy ratio s)"
  have wf: "lib_wf db" using assms(1) s by simp
  note U = update_strategy_sync[OF wf assms(3), where lid = "l_id lib" and name = name and ratio = ratio]
  have t: "l_templates lib = map (\<lambda>c. (cl_name c, map template_of_row (filter (\<lambda>t. tr_class_name t = cl_name c)
      (library_template_rows (l_id lib) db)))) ?rows"
    using in_sync_templates[OF assms(1,2)] s by simp
  have cf: "l_configs lib = map (\<lambda>c. (cl_name c, (if cl_strategy c = [] then ''chamfer'' else cl_strategy c, cl_bbox_ratio c))) ?rows"
    using in_sync_configs[OF assms(2)] s by simp
  have nm: "l_classes lib = map cl_name ?rows" using in_sync_names[OF assms(2)] s by simp
  have ok: "dict_ok (l_configs lib)" using distinct_class_names[OF wf, of "l_id lib"] by (simp add: cf comp_def)
  have k: "name \<in> fst ` set (l_configs lib)" using True unfolding s fst_conv t cf by force
  have s': "?s' = (lib\<lparr>l_configs := AList.update name (strategy, ratio) (l_configs lib)\<rparr>,
      snd (update_class_strategy (l_id lib) name strategy ratio db))"
    using True by (simp add: set_strategy_def s)
  have rt: "library_template_rows (l_id lib) (snd (update_class_strategy (l_id lib) name strategy ratio db)) =
      library_template_rows (l_id lib) db" by (simp add: library_template_rows_def U(2))
  have "in_sync ?s'"
  proof (rule in_syncI)
    show "lib_wf (snd ?s')" by (simp add: s' U(1))
    show "l_classes (fst ?s') = map cl_name (library_class_rows (l_id (fst ?s')) (snd ?s'))"
      by (simp add: s' U(3) nm map_sql_update)
    show "l_templates (fst ?s') = map (\<lambda>c. (cl_name c, map template_of_row (filter (\<lambda>t. tr_class_name t = cl_name c)
        (library_template_rows (l_id (fst ?s')) (snd ?s'))))) (library_class_rows (l_id (fst ?s')) (snd ?s'))"
      by (simp add: s' U(3) t rt map_sql_update)
    show "l_configs (fst ?s') = map (\<lambda>c. (cl_name c, (if cl_strategy c = [] then ''chamfer'' else cl_strategy c, cl_bbox_ratio c)))
        (library_class_rows (l_id (fst ?s')) (snd ?s'))"
      unfolding s' fst_conv snd_conv
      using assms(3) by (simp add: update_known_entry[OF ok k] U(3)) (simp add: cf sql_update_def)
  qed
  then show ?thesis by (simp add: s' U(1))
next
  case False
  then show ?thesis using assms by (cases s) (simp add: set_strategy_def)
qed

text \<open>Adding a class first puts the plain chamfer row in both places, then sets its default strategy.\<close>

definition add_plain_class :: "real \<Rightarrow> class_name \<Rightarrow> library \<times> lib_db \<Rightarrow> library \<times> lib_db" where
  "add_plain_class now name s =
     ((fst s)\<lparr>l_classes := l_classes (fst s) @ [name], l_templates := AList.update name [] (l_templates (fst s)),
             l_configs := AList.update name (''chamfer'', None) (l_configs (fst s))\<rparr>,
      upsert_class (l_id (fst s)) name now (snd s))"

lemma default_strategies: "\<forall>(c, (strat, r))\<in>set CLASS_DEFAULT_MATCH_CONFIG. strat \<noteq> []"
  by (simp add: CLASS_DEFAULT_MATCH_CONFIG_def)

lemma lib_add_class_plain:
  assumes "name \<notin> fst ` set (l_templates (fst s))"
  shows "lib_add_class now name s =
    (case map_of CLASS_DEFAULT_MATCH_CONFIG name of
       None \<Rightarrow> add_plain_class now name s
     | Some (strategy, ratio) \<Rightarrow>
         if strategy \<noteq> ''chamfer'' \<or> ratio \<noteq> None
         then snd (set_strategy name strategy ratio (add_plain_class now name s)) else add_plain_class now name s)"
  using assms
  by (cases s) (auto simp: lib_add_class_def add_plain_class_def set_strategy_def update_fresh Let_def split: option.splits)

lemma add_plain_class_sync:
  assumes wf: "lib_wf (snd s)" and sync: "in_sync s" and new: "name \<notin> fst ` set (l_templates (fst s))"
  shows "lib_wf (snd (add_plain_class now name s)) \<and> in_sync (add_plain_class now name s) \<and>
    templates (snd (add_plain_class now name s)) = templates (snd s)"
proof -
  obtain lib db where s: "s = (lib, db)" by (cases s)
  let ?lid = "l_id lib"
  let ?rows = "library_class_rows ?lid db"
  let ?r = "\<lparr>cl_library_id = ?lid, cl_name = name, cl_rank = next_rank ?lid db, cl_created_at = now,
      cl_strategy = ''chamfer'', cl_bbox_ratio = None\<rparr>"
  have t: "l_templates lib = map (\<lambda>c. (cl_name c, map template_of_row (filter (\<lambda>t. tr_class_name t = cl_name c)
      (library_template_rows ?lid db)))) ?rows"
    using in_sync_templates[OF wf sync] s by simp
  have cf: "l_configs lib = map (\<lambda>c. (cl_name c, (if cl_strategy c = [] then ''chamfer'' else cl_strategy c, cl_bbox_ratio c))) ?rows"
    using in_sync_configs[OF sync] s by simp
  have nm: "l_classes lib = map cl_name ?rows" using in_sync_names[OF sync] s by simp
  have n: "name \<notin> cl_name ` set ?rows" using new unfolding s fst_conv t by force
  then have fresh: "class_key ?r \<notin> class_key ` set (classes db)"
    by (auto simp: class_key_def library_class_rows_def)
  then have db': "upsert_class ?lid name now db = db\<lparr>classes := classes db @ [?r]\<rparr>"
    by (simp add: upsert_class_def insert_or_ignore_class_def)
  have wf': "lib_wf (db\<lparr>classes := classes db @ [?r]\<rparr>)"
    using wf fresh by (auto simp: s lib_wf_def)
  have rows': "library_class_rows ?lid (db\<lparr>classes := classes db @ [?r]\<rparr>) = ?rows @ [?r]"
    by (rule class_rows_snoc) simp_all
  have noT: "filter (\<lambda>t. tr_class_name t = name) (library_template_rows ?lid db) = []"
  proof -
    have "tr_class_name t \<in> cl_name ` set ?rows" if "t \<in> set (library_template_rows ?lid db)" for t
      using that wf by (force simp: s library_template_rows_def library_class_rows_def lib_wf_def class_key_def)
    then show ?thesis using n by (force simp: filter_empty_conv)
  qed
  have nc: "name \<notin> fst ` set (l_configs lib)" using n unfolding cf by force
  have "in_sync (add_plain_class now name s)"
    unfolding add_plain_class_def s fst_conv snd_conv db'
    using new n nc
    by (intro in_syncI) (simp_all add: s wf' rows' nm t cf update_fresh noT image_image)
  then show ?thesis using wf' by (simp add: add_plain_class_def s db')
qed

lemma set_strategy_templates [simp]: "templates (snd (snd (set_strategy n st r s))) = templates (snd s)"
  by (cases s) (simp add: set_strategy_def update_class_strategy_def Let_def)

lemma with_class_sync:
  assumes "lib_wf (snd s)" "in_sync s"
  shows "lib_wf (snd (with_class now name s)) \<and> in_sync (with_class now name s) \<and>
    templates (snd (with_class now name s)) = templates (snd s)"
proof (cases "name \<in> fst ` set (l_templates (fst s))")
  case True
  then show ?thesis using assms by (simp add: with_class_def)
next
  case False
  note P = add_plain_class_sync[OF assms False, of now]
  show ?thesis
  proof (cases "map_of CLASS_DEFAULT_MATCH_CONFIG name")
    case None
    then show ?thesis using P False by (simp add: with_class_def lib_add_class_plain)
  next
    case (Some cfg)
    obtain strat ratio where c: "cfg = (strat, ratio)" by (cases cfg)
    have "strat \<noteq> []" using default_strategies map_of_SomeD[OF Some] c by fastforce
    then show ?thesis
      using P False Some c set_strategy_sync[of "add_plain_class now name s" strat name ratio]
      by (simp add: with_class_def lib_add_class_plain)
  qed
qed

lemma with_class_id [simp]: "l_id (fst (with_class now c s)) = l_id (fst s)"
  by (cases s) (simp add: with_class_def lib_add_class_def Let_def case_prod_beta)

lemma add_template_sync:
  assumes wf: "lib_wf (snd s)" and sync: "in_sync s" and clock: "clock_ok (l_id (fst s)) now (snd s)"
    and fresh: "t_id t \<notin> tr_id ` set (templates (snd s))"
  shows "lib_wf (snd (snd (add_template_for_file now t s))) \<and> in_sync (snd (add_template_for_file now t s))"
proof (cases "find (\<lambda>x. template_sig x = template_sig t) (dict_list (l_templates (fst s)) (t_class_name t))")
  case (Some x)
  then show ?thesis using with_class_sync[OF wf sync] by (simp add: add_template_unfold)
next
  case None
  let ?w = "with_class now (t_class_name t) s"
  note W = with_class_sync[OF wf sync, of now "t_class_name t"]
  obtain lib db where w: "?w = (lib, db)" by (cases ?w)
  have lid: "l_id lib = l_id (fst s)" using with_class_id[of now "t_class_name t" s] by (simp add: w)
  have wfw: "lib_wf db" and syncw: "in_sync (lib, db)" and tw: "templates db = templates (snd s)" using W by (simp_all add: w)
  let ?r = "\<lparr>tr_id = t_id t, tr_library_id = l_id lib, tr_class_name = t_class_name t, tr_point_sets = t_point_sets t,
      tr_centroid = t_centroid t, tr_bbox = t_bbox t, tr_created_at = now, tr_kinds = Some (t_kinds t)\<rparr>"
  let ?db' = "db\<lparr>templates := templates db @ [?r]\<rparr>"
  let ?lib' = "lib\<lparr>l_templates := AList.map_entry (t_class_name t) (\<lambda>ts. ts @ [t]) (l_templates lib)\<rparr>"
  have e: "snd (add_template_for_file now t s) = (?lib', bump_revision (l_id lib) ?db')"
    using None by (simp add: add_template_unfold w insert_template_def)
  have known: "t_class_name t \<in> fst ` set (l_templates lib)" using with_class_known[of "t_class_name t" now s] by (simp add: w)
  have T: "l_templates lib = map (\<lambda>c. (cl_name c, map template_of_row (filter (\<lambda>t. tr_class_name t = cl_name c)
      (library_template_rows (l_id lib) db)))) (library_class_rows (l_id lib) db)"
    using in_sync_templates[of "(lib, db)"] wfw syncw by simp
  have "t_class_name t \<in> cl_name ` set (library_class_rows (l_id lib) db)" using known unfolding T by force
  then have "(l_id lib, t_class_name t) \<in> class_key ` set (classes db)"
    by (force simp: class_key_def library_class_rows_def)
  then have wf': "lib_wf ?db'" using wfw fresh tw by (auto simp: lib_wf_def)
  have rows': "library_template_rows (l_id lib) ?db' = library_template_rows (l_id lib) db @ [?r]"
    by (rule template_rows_snoc) (use clock tw lid in \<open>simp_all add: clock_ok_def\<close>)
  have r: "template_of_row ?r = t" by (simp add: template_of_row_def)
  have ok: "dict_ok (l_templates lib)" using distinct_class_names[OF wfw] by (simp add: T comp_def)
  have "in_sync (?lib', bump_revision (l_id lib) ?db')"
  proof (rule in_syncI)
    show "lib_wf (snd (?lib', bump_revision (l_id lib) ?db'))" by (simp add: wf')
    show "l_classes (fst (?lib', bump_revision (l_id lib) ?db')) =
        map cl_name (library_class_rows (l_id (fst (?lib', bump_revision (l_id lib) ?db'))) (snd (?lib', bump_revision (l_id lib) ?db')))"
      using in_sync_names[OF syncw] by simp
    show "l_configs (fst (?lib', bump_revision (l_id lib) ?db')) =
        map (\<lambda>c. (cl_name c, (if cl_strategy c = [] then ''chamfer'' else cl_strategy c, cl_bbox_ratio c)))
         (library_class_rows (l_id (fst (?lib', bump_revision (l_id lib) ?db'))) (snd (?lib', bump_revision (l_id lib) ?db')))"
      using in_sync_configs[OF syncw] by simp
    show "l_templates (fst (?lib', bump_revision (l_id lib) ?db')) =
        map (\<lambda>c. (cl_name c, map template_of_row (filter (\<lambda>t. tr_class_name t = cl_name c)
          (library_template_rows (l_id (fst (?lib', bump_revision (l_id lib) ?db'))) (snd (?lib', bump_revision (l_id lib) ?db'))))))
         (library_class_rows (l_id (fst (?lib', bump_revision (l_id lib) ?db'))) (snd (?lib', bump_revision (l_id lib) ?db')))"
      by (simp add: map_entry_as_map[OF ok] rows') (simp add: T r)
  qed
  then show ?thesis using e wf' by simp
qed

text \<open>Deleting: the cache pops the one template with the id.\<close>

lemma remove_first_None: "remove_first P xs = None \<longleftrightarrow> filter P xs = []"
  by (induction xs) auto

lemma remove_first_unique:
  "distinct (map k xs) \<Longrightarrow> remove_first (\<lambda>x. k x = i) xs = Some (x, ys) \<Longrightarrow>
     x \<in> set xs \<and> k x = i \<and> ys = filter (\<lambda>x. k x \<noteq> i) xs"
proof (induction xs arbitrary: x ys)
  case (Cons a xs)
  show ?case
  proof (cases "k a = i")
    case True
    then have "\<forall>x\<in>set xs. k x \<noteq> i" using Cons.prems(1) by (force simp: image_iff)
    then have "filter (\<lambda>x. k x \<noteq> i) xs = xs" by (simp add: filter_id_conv)
    then show ?thesis using Cons.prems(2) True by simp
  next
    case False
    then obtain ys' where y: "remove_first (\<lambda>x. k x = i) xs = Some (x, ys')" "ys = a # ys'"
      using Cons.prems(2) by auto
    have "distinct (map k xs)" using Cons.prems(1) by simp
    from Cons.IH[OF this y(1)] show ?thesis using False y(2) by simp
  qed
qed simp

lemma remove_first_Some: "remove_first P xs = Some (x, ys) \<Longrightarrow> x \<in> set xs \<and> P x"
  by (induction xs arbitrary: x ys) (auto split: if_splits)

lemma pop_template_None:
  "pop_template i d = None \<longleftrightarrow> (\<forall>(c, ts)\<in>set d. \<forall>t\<in>set ts. t_id t \<noteq> i)"
  by (induction i d rule: pop_template.induct)
     (auto simp: remove_first_None filter_empty_conv split: option.splits dest: remove_first_Some)

lemma pop_template_Some:
  "distinct (map t_id (concat (map snd d))) \<Longrightarrow> pop_template i d = Some (t, d') \<Longrightarrow>
     t_id t = i \<and> (\<exists>(c, ts)\<in>set d. t \<in> set ts) \<and> d' = map (\<lambda>(c, ts). (c, filter (\<lambda>t. t_id t \<noteq> i) ts)) d"
proof (induction i d arbitrary: t d' rule: pop_template.induct)
  case (2 i c ts d)
  show ?case
  proof (cases "remove_first (\<lambda>t. t_id t = i) ts")
    case None
    then have same: "filter (\<lambda>t. t_id t \<noteq> i) ts = ts" by (simp add: remove_first_None filter_empty_conv filter_id_conv)
    from None 2(3) obtain d1 where d1: "pop_template i d = Some (t, d1)" "d' = (c, ts) # d1" by auto
    have "distinct (map t_id (concat (map snd d)))" using 2(2) by simp
    then show ?thesis using 2(1)[OF None _ d1(1)] d1(2) same by auto
  next
    case (Some r)
    obtain x ys where r: "r = (x, ys)" by (cases r)
    have "distinct (map t_id ts)" using 2(2) by simp
    from remove_first_unique[OF this, of i x ys] have x: "x \<in> set ts" "t_id x = i" "ys = filter (\<lambda>t. t_id t \<noteq> i) ts"
      using Some r by auto
    have "t_id y \<noteq> i" if "(c', ts') \<in> set d" "y \<in> set ts'" for c' ts' y
      using 2(2) x(1,2) that by force
    then have "map (\<lambda>(c, ts). (c, filter (\<lambda>t. t_id t \<noteq> i) ts)) d = d"
      by (intro map_idI) (auto simp: filter_id_conv)
    then show ?thesis using 2(3) Some r x by auto
  qed
qed simp

lemma concat_filter_partition:
  assumes "distinct cs" "f ` set xs \<subseteq> set cs" "distinct xs"
  shows "distinct (concat (map (\<lambda>c. filter (\<lambda>x. f x = c) xs) cs)) \<and>
    set (concat (map (\<lambda>c. filter (\<lambda>x. f x = c) xs) cs)) = set xs"
proof
  show "set (concat (map (\<lambda>c. filter (\<lambda>x. f x = c) xs) cs)) = set xs" using assms(2) by auto
  show "distinct (concat (map (\<lambda>c. filter (\<lambda>x. f x = c) xs) cs))"
    using assms(1) by (induction cs) (auto simp: assms(3))
qed

lemma in_sync_ids:
  assumes "lib_wf (snd s)" "in_sync s"
  shows "distinct (map t_id (concat (map snd (l_templates (fst s)))))"
    and "(\<exists>(c, ts)\<in>set (l_templates (fst s)). t \<in> set ts) \<longleftrightarrow>
      (\<exists>r\<in>set (library_template_rows (l_id (fst s)) (snd s)). t = template_of_row r)"
proof -
  let ?rows = "library_template_rows (l_id (fst s)) (snd s)"
  let ?cs = "map cl_name (library_class_rows (l_id (fst s)) (snd s))"
  have T: "l_templates (fst s) = map (\<lambda>c. (c, map template_of_row (filter (\<lambda>t. tr_class_name t = c) ?rows))) ?cs"
    using in_sync_templates[OF assms] by simp
  have sub: "tr_class_name ` set ?rows \<subseteq> set ?cs"
    using assms(1) by (force simp: library_template_rows_def library_class_rows_def lib_wf_def class_key_def)
  have di: "distinct (map tr_id ?rows)"
  proof -
    have "distinct (map tr_id (filter (\<lambda>t. tr_library_id t = l_id (fst s)) (templates (snd s))))"
      using assms(1) by (auto simp: lib_wf_def intro: distinct_map_filter)
    then show ?thesis unfolding library_template_rows_def by (simp add: distinct_map)
  qed
  have P: "distinct (concat (map (\<lambda>c. filter (\<lambda>x. tr_class_name x = c) ?rows) ?cs)) \<and>
      set (concat (map (\<lambda>c. filter (\<lambda>x. tr_class_name x = c) ?rows) ?cs)) = set ?rows"
    by (rule concat_filter_partition) (use distinct_class_names[OF assms(1)] sub di in \<open>auto simp: distinct_map\<close>)
  have C: "concat (map snd (l_templates (fst s))) =
      map template_of_row (concat (map (\<lambda>c. filter (\<lambda>x. tr_class_name x = c) ?rows) ?cs))"
    unfolding T by (simp add: map_concat comp_def)
  have i: "t_id \<circ> template_of_row = tr_id" by (simp add: template_of_row_def fun_eq_iff)
  show "distinct (map t_id (concat (map snd (l_templates (fst s)))))"
    unfolding C map_map i using P di by (auto simp: distinct_map)
  have "(\<exists>(c, ts)\<in>set (l_templates (fst s)). t \<in> set ts) \<longleftrightarrow> t \<in> set (concat (map snd (l_templates (fst s))))"
    by force
  also have "\<dots> \<longleftrightarrow> t \<in> template_of_row ` set ?rows" unfolding C set_map using P by simp
  finally show "(\<exists>(c, ts)\<in>set (l_templates (fst s)). t \<in> set ts) \<longleftrightarrow> (\<exists>r\<in>set ?rows. t = template_of_row r)"
    by blast
qed

lemma popped_sync:
  assumes wf: "lib_wf db" and sync: "in_sync (lib, db)" and p: "pop_template i (l_templates lib) = Some (t, d)"
  shows "lib_wf (db\<lparr>templates := sql_delete (\<lambda>t. tr_id t = i) (templates db)\<rparr>)"
    "in_sync (lib\<lparr>l_templates := d\<rparr>, db\<lparr>templates := sql_delete (\<lambda>t. tr_id t = i) (templates db)\<rparr>)"
proof -
  let ?db = "db\<lparr>templates := sql_delete (\<lambda>t. tr_id t = i) (templates db)\<rparr>"
  have wf': "lib_wf (snd (lib, db))" using wf by simp
  have d: "d = map (\<lambda>(c, ts). (c, filter (\<lambda>t. t_id t \<noteq> i) ts)) (l_templates lib)"
    using pop_template_Some[OF in_sync_ids(1)[OF wf' sync], unfolded fst_conv, OF p] by simp
  show w: "lib_wf ?db" using wf by (auto simp: lib_wf_def distinct_sql_delete)
  have r: "library_template_rows (l_id lib) ?db = filter (\<lambda>t. tr_id t \<noteq> i) (library_template_rows (l_id lib) db)"
    by (rule template_rows_delete)
  show "in_sync (lib\<lparr>l_templates := d\<rparr>, ?db)"
    by (rule in_syncI)
       (use in_sync_templates[OF wf' sync] in_sync_names[OF sync] in_sync_configs[OF sync] in
         \<open>simp_all add: w r d filter_map comp_def template_of_row_def conj_commute\<close>)
qed

lemma delete_template_sync:
  assumes wf: "lib_wf (snd s)" and sync: "in_sync s"
  shows "lib_wf (snd (snd (lib_delete_template i s))) \<and> in_sync (snd (lib_delete_template i s))"
proof (cases "pop_template i (l_templates (fst s))")
  case None
  then show ?thesis using assms by (cases s) (simp add: lib_delete_template_def)
next
  case (Some p)
  obtain t d where p: "p = (t, d)" by (cases p)
  obtain lib db where s: "s = (lib, db)" by (cases s)
  let ?db1 = "db\<lparr>templates := sql_delete (\<lambda>t. tr_id t = i) (templates db)\<rparr>"
  note P = popped_sync[of db lib i t d]
  have e: "snd (lib_delete_template i s) = (lib\<lparr>l_templates := d\<rparr>, snd (store_delete_template i db))"
    using Some p s by (simp add: lib_delete_template_def)
  have "\<exists>l. snd (store_delete_template i db) = bump_revision l ?db1 \<or> snd (store_delete_template i db) = ?db1"
    by (auto simp: store_delete_template_def Let_def split: option.splits)
  then show ?thesis using P assms Some unfolding e by (auto simp: in_sync_def s p)
qed

text \<open>The revision counter of a library, and the templates and strategies a scan depends on.\<close>

definition scan_inputs :: "string \<Rightarrow> lib_db \<Rightarrow> template_row list \<times> (class_name \<times> string \<times> real option) list" where
  "scan_inputs lid db =
     (filter (\<lambda>t. tr_library_id t = lid) (templates db),
      map (\<lambda>c. (cl_name c, cl_strategy c, cl_bbox_ratio c)) (filter (\<lambda>c. cl_library_id c = lid) (classes db)))"

lemma revision_bump:
  "current_revision lid (bump_revision l db) =
     (if lid = l \<and> get_library lid db \<noteq> None then current_revision lid db + 1 else current_revision lid db)"
proof -
  have "get_library lid (bump_revision l db) =
      map_option (\<lambda>x. if lb_id x = l then x\<lparr>lb_revision := Suc (lb_revision x)\<rparr> else x) (get_library lid db)"
    unfolding get_library_def bump_revision_def
    by (simp add: row_by_update_same)
  moreover have "\<And>x. get_library lid db = Some x \<Longrightarrow> lb_id x = lid"
    unfolding get_library_def by (auto dest: row_by_SomeD)
  ultimately show ?thesis by (auto simp: current_revision_def split: option.splits)
qed

lemma revision_tables [simp]:
  "current_revision lid (db\<lparr>templates := ts\<rparr>) = current_revision lid db"
  "current_revision lid (db\<lparr>classes := cs\<rparr>) = current_revision lid db"
  "get_library lid (db\<lparr>templates := ts\<rparr>) = get_library lid db"
  "get_library lid (db\<lparr>classes := cs\<rparr>) = get_library lid db"
  by (simp_all add: current_revision_def get_library_def)

datatype store_op =
    StoreInsert string template real
  | StoreDelete string
  | StoreMove string class_name
  | StoreStrategy string class_name string "real option"

fun store_do :: "store_op \<Rightarrow> lib_db \<Rightarrow> lib_db" where
  "store_do (StoreInsert lid t now) db = insert_template lid t now db"
| "store_do (StoreDelete i) db = snd (store_delete_template i db)"
| "store_do (StoreMove i c) db = snd (update_template_class i c db)"
| "store_do (StoreStrategy lid c st r) db = snd (update_class_strategy lid c st r db)"

definition scan_rows :: "string \<Rightarrow> lib_db \<Rightarrow> template_row list \<times> class_row list" where
  "scan_rows lid db =
     (filter (\<lambda>t. tr_library_id t = lid) (templates db), filter (\<lambda>c. cl_library_id c = lid) (classes db))"

lemma revision_same_rows:
  assumes "distinct (map tr_id (templates db))" "get_library lid db \<noteq> None"
    and "current_revision lid (store_do op db) = current_revision lid db"
  shows "scan_rows lid (store_do op db) = scan_rows lid db"
proof (cases op)
  case (StoreInsert l t now)
  then show ?thesis
    using assms(2,3) by (auto simp: insert_template_def revision_bump scan_rows_def split: if_splits)
next
  case (StoreDelete i)
  show ?thesis
  proof (cases "row_by tr_id i (templates db)")
    case None
    then have "\<forall>t\<in>set (templates db). tr_id t \<noteq> i" by (auto simp: row_by_None)
    then show ?thesis using StoreDelete None by (simp add: store_delete_template_def Let_def sql_delete_none)
  next
    case (Some r)
    then have r: "r \<in> set (templates db)" "tr_id r = i" by (auto dest: row_by_SomeD)
    then have n: "0 < rowcount (\<lambda>t. tr_id t = i) (templates db)" by (auto simp: rowcount_pos)
    then have "tr_library_id r \<noteq> lid"
      using assms(2,3) StoreDelete Some by (auto simp: store_delete_template_def Let_def revision_bump split: if_splits)
    then have "filter (\<lambda>t. tr_library_id t = lid) (sql_delete (\<lambda>t. tr_id t = i) (templates db)) =
        filter (\<lambda>t. tr_library_id t = lid) (templates db)"
      unfolding sql_delete_def filter_filter
      by (intro filter_cong[OF refl]) (use row_by_unique[OF assms(1)] Some in fastforce)
    then show ?thesis using StoreDelete Some n by (simp add: store_delete_template_def Let_def scan_rows_def)
  qed
next
  case (StoreMove i c)
  show ?thesis
  proof (cases "row_by tr_id i (templates db)")
    case None
    then have "\<forall>t\<in>set (templates db). tr_id t \<noteq> i" by (auto simp: row_by_None)
    then show ?thesis using StoreMove None by (simp add: update_template_class_def Let_def sql_update_none)
  next
    case (Some r)
    then have r: "r \<in> set (templates db)" "tr_id r = i" by (auto dest: row_by_SomeD)
    then have n: "0 < rowcount (\<lambda>t. tr_id t = i) (templates db)" by (auto simp: rowcount_pos)
    then have "tr_library_id r \<noteq> lid"
      using assms(2,3) StoreMove Some by (auto simp: update_template_class_def Let_def revision_bump split: if_splits)
    then have "\<forall>t\<in>set (filter (\<lambda>t. tr_library_id t = lid) (templates db)). tr_id t \<noteq> i"
      using row_by_unique[OF assms(1)] Some by fastforce
    then have "filter (\<lambda>t. tr_library_id t = lid)
        (sql_update (\<lambda>t. tr_id t = i) (\<lambda>t. t\<lparr>tr_class_name := c\<rparr>) (templates db)) =
        filter (\<lambda>t. tr_library_id t = lid) (templates db)"
      by (simp add: filter_sql_update sql_update_none)
    then show ?thesis using StoreMove Some n by (simp add: update_template_class_def Let_def scan_rows_def)
  qed
next
  case (StoreStrategy l c st r)
  let ?hit = "\<lambda>x. cl_library_id x = l \<and> cl_name x = c"
  show ?thesis
  proof (cases "0 < rowcount ?hit (classes db) \<and> l = lid")
    case True
    then show ?thesis using assms(2,3) StoreStrategy
      by (auto simp: update_class_strategy_def Let_def revision_bump split: if_splits)
  next
    case False
    have "\<forall>x\<in>set (filter (\<lambda>x. cl_library_id x = lid) (classes db)). \<not> ?hit x"
      using False by (auto simp: rowcount_pos)
    then have "filter (\<lambda>x. cl_library_id x = lid) (sql_update ?hit
        (\<lambda>x. x\<lparr>cl_strategy := st, cl_bbox_ratio := r\<rparr>) (classes db)) = filter (\<lambda>x. cl_library_id x = lid) (classes db)"
      by (simp add: filter_sql_update sql_update_none)
    then show ?thesis using StoreStrategy by (simp add: update_class_strategy_def Let_def scan_rows_def)
  qed
qed

text \<open>The staleness signal is sound: no template insertion, deletion or move and no strategy
  change leaves a library's revision as it was while changing its templates or the strategies of
  its classes, so a snapshot stamped with the current revision is never silently stale.\<close>

theorem revision_detects_changes:
  assumes "distinct (map tr_id (templates db))" "get_library lid db \<noteq> None"
    and "current_revision lid (store_do op db) = current_revision lid db"
  shows "scan_inputs lid (store_do op db) = scan_inputs lid db"
proof -
  have "scan_inputs lid x = (case scan_rows lid x of (ts, cs) \<Rightarrow>
      (ts, map (\<lambda>c. (cl_name c, cl_strategy c, cl_bbox_ratio c)) cs))" for x
    by (simp add: scan_inputs_def scan_rows_def)
  then show ?thesis using revision_same_rows[OF assms] by simp
qed

lemma revision_detects_changes_witness:
  "scan_inputs ''M'' (store_do (StoreInsert ''L'' (pad ''a'') 3) (empty_lib_db\<lparr>libraries :=
      [\<lparr>lb_id = ''L'', lb_name = [], lb_created_at = 0, lb_revision = 0\<rparr>,
       \<lparr>lb_id = ''M'', lb_name = [], lb_created_at = 0, lb_revision = 4\<rparr>]\<rparr>)) = ([], [])"
proof -
  let ?db = "empty_lib_db\<lparr>libraries := [\<lparr>lb_id = ''L'', lb_name = [], lb_created_at = 0, lb_revision = 0\<rparr>,
       \<lparr>lb_id = ''M'', lb_name = [], lb_created_at = 0, lb_revision = 4\<rparr>]\<rparr>"
  have "scan_inputs ''M'' (store_do (StoreInsert ''L'' (pad ''a'') 3) ?db) = scan_inputs ''M'' ?db"
    by (rule revision_detects_changes)
       (simp_all add: empty_lib_db_def get_library_def current_revision_def insert_template_def bump_revision_def)
  then show ?thesis by (simp add: scan_inputs_def empty_lib_db_def)
qed

text \<open>Moving does not deduplicate: moving a template into a class that already holds one with
  the same signature leaves two templates with one signature there.\<close>

theorem move_template_keeps_duplicates:
  "let s0 = (\<lparr>l_id = ''L'', l_classes = [''Pad'', ''Via''], l_configs = [],
              l_templates = [(''Pad'', [pad ''a'']), (''Via'', [(pad ''b'')\<lparr>t_class_name := ''Via''\<rparr>])]\<rparr>, empty_lib_db)
   in sig_distinct (fst s0) \<and> fst (move_template 1 ''b'' ''Pad'' s0) \<and>
      map t_id (templates_of ''Pad'' (fst (snd (move_template 1 ''b'' ''Pad'' s0)))) = [''a'', ''b''] \<and>
      \<not> sig_distinct (fst (snd (move_template 1 ''b'' ''Pad'' s0)))"
  by (simp add: sig_distinct_def move_template_def pad_def template_sig_def templates_of_def dict_list_def Let_def)

end
