(* ===== verification/LibrarySync.thy ===== *)
theory LibrarySync
  imports LibraryStore
begin

text \<open>
  The write-through cache of \<^verbatim>\<open>app/library.py\<close>: a request opens an instance of a library, runs methods on it
  and drops it.  Each method changes the instance and the tables; the histories here run all methods that
  change state, in any order, and compare the instance with what a fresh load of the new tables gives.
\<close>

section \<open>Operations\<close>

datatype library_op =
    AddTemplate real template
  | DeleteTemplate string
  | MoveTemplate real string class_name
  | SetStrategy class_name string "real option"
  | AddClass real class_name

fun library_do :: "library_op \<Rightarrow> library \<times> lib_db \<Rightarrow> library \<times> lib_db" where
  "library_do (AddTemplate now t) s = snd (add_template_for_file now t s)"
| "library_do (DeleteTemplate i) s = snd (lib_delete_template i s)"
| "library_do (MoveTemplate now i c) s = snd (move_template now i c s)"
| "library_do (SetStrategy c st r) s = snd (set_strategy c st r s)"
| "library_do (AddClass now c) s = lib_add_class now c s"

text \<open>The clock does not run backwards, a new template's uuid is new, a strategy is a name.\<close>

fun library_op_ok :: "library_op \<Rightarrow> library \<times> lib_db \<Rightarrow> bool" where
  "library_op_ok (AddTemplate now t) s \<longleftrightarrow>
     (\<forall>x\<in>set (templates (snd s)). tr_created_at x \<le> now \<and> tr_id x \<noteq> t_id t)"
| "library_op_ok (SetStrategy c st r) s \<longleftrightarrow> st \<noteq> []"
| "library_op_ok _ s \<longleftrightarrow> True"

fun library_ops_ok :: "library_op list \<Rightarrow> library \<times> lib_db \<Rightarrow> bool" where
  "library_ops_ok [] s \<longleftrightarrow> True"
| "library_ops_ok (op # ops) s \<longleftrightarrow> library_op_ok op s \<and> library_ops_ok ops (library_do op s)"

text \<open>The class a template moved into: the instance appends it, a load orders by commit time.\<close>

fun moved_into :: "library_op \<Rightarrow> class_name set" where
  "moved_into (MoveTemplate now i c) = {c}"
| "moved_into _ = {}"

section \<open>Instances that agree up to order\<close>

definition same_templates ::
  "class_name set \<Rightarrow> (class_name, template list) dict \<Rightarrow> (class_name, template list) dict \<Rightarrow> bool" where
  "same_templates M d d' \<longleftrightarrow>
     list_all2 (\<lambda>(c, ts) (c', ts'). c' = c \<and> mset ts' = mset ts \<and> (c \<notin> M \<longrightarrow> ts' = ts)) d d'"

text \<open>The instance holds the classes, the configurations and the templates of a fresh load, in the same
  order except within the classes of M.\<close>

definition in_step :: "class_name set \<Rightarrow> library \<times> lib_db \<Rightarrow> bool" where
  "in_step M s \<longleftrightarrow>
     (case load_library (l_id (fst s)) (snd s) of (cs, cfgs, ts) \<Rightarrow>
        l_classes (fst s) = cs \<and> l_configs (fst s) = cfgs \<and> same_templates M ts (l_templates (fst s)))"

lemma same_templates_refl [simp]: "same_templates M d d"
  unfolding same_templates_def by (rule list.rel_refl) auto

lemma same_templates_empty [simp]: "same_templates {} d d' \<longleftrightarrow> d' = d"
proof
  assume "same_templates {} d d'"
  then have "list_all2 (=) d d'" unfolding same_templates_def by (rule list_all2_mono) auto
  then show "d' = d" by (simp add: list.rel_eq)
qed simp

lemma same_templates_trans:
  "same_templates M d d' \<Longrightarrow> same_templates N d' d'' \<Longrightarrow> same_templates (M \<union> N) d d''"
  unfolding same_templates_def
  by (rule list_all2_trans[where ?P1.0 = "\<lambda>(c, ts) (c', ts'). c' = c \<and> mset ts' = mset ts \<and> (c \<notin> M \<longrightarrow> ts' = ts)"]) auto

lemma in_step_sync: "in_step {} s \<longleftrightarrow> in_sync s"
  by (auto simp: in_step_def in_sync_def split: prod.split)

lemma in_sync_step: "in_sync s \<Longrightarrow> in_step M s"
  by (simp add: in_step_def in_sync_def)

lemma same_templates_keys: "same_templates M d d' \<Longrightarrow> map fst d' = map fst d"
  unfolding same_templates_def by (induction rule: list_all2_induct) auto

lemma same_templates_key_set: "same_templates M d d' \<Longrightarrow> fst ` set d' = fst ` set d"
  by (drule same_templates_keys) (metis list.set_map)

lemma same_templates_list: "same_templates M d d' \<Longrightarrow> mset (dict_list d' c) = mset (dict_list d c)"
  unfolding same_templates_def by (induction rule: list_all2_induct) (auto simp: dict_list_def)

lemma same_templates_concat: "same_templates M d d' \<Longrightarrow> mset (concat (map snd d')) = mset (concat (map snd d))"
  unfolding same_templates_def by (induction rule: list_all2_induct) auto

lemma same_templates_append: "same_templates M d d' \<Longrightarrow> same_templates M (d @ [x]) (d' @ [x])"
  unfolding same_templates_def by (auto intro!: list_all2_appendI)

lemma same_templates_entry:
  "same_templates M d d' \<Longrightarrow>
     same_templates M (AList.map_entry c (\<lambda>ts. ts @ [t]) d) (AList.map_entry c (\<lambda>ts. ts @ [t]) d')"
  unfolding same_templates_def by (induction rule: list_all2_induct) auto

lemma same_templates_filter:
  "same_templates M d d' \<Longrightarrow> same_templates M (map (\<lambda>(c, ts). (c, filter P ts)) d) (map (\<lambda>(c, ts). (c, filter P ts)) d')"
  unfolding same_templates_def by (induction rule: list_all2_induct) auto

section \<open>Opening a library\<close>

lemma lib_add_class_sync:
  assumes "lib_wf (snd s)" "in_sync s"
  shows "lib_wf (snd (lib_add_class now c s)) \<and> in_sync (lib_add_class now c s)"
proof -
  have "lib_add_class now c s = with_class now c s"
    by (cases s) (simp add: with_class_def lib_add_class_def)
  then show ?thesis using with_class_sync[OF assms, of now c] by simp
qed

lemma open_library_sync:
  assumes "lib_wf db"
  shows "lib_wf (snd (open_library lid now db)) \<and> in_sync (open_library lid now db)"
proof -
  have seed: "lib_wf (snd s') \<and> in_sync s'"
    if "lib_wf (snd s)" "in_sync s"
      "s' = fold (\<lambda>c s. if c \<in> fst ` set (l_templates (fst s)) then s else lib_add_class now c s) cs s" for s s' cs
    using that by (induction cs arbitrary: s) (auto simp: lib_add_class_sync)
  obtain cs cfgs ts where l: "load_library lid db = (cs, cfgs, ts)" by (cases "load_library lid db") auto
  then have "in_sync (\<lparr>l_id = lid, l_classes = cs, l_configs = cfgs, l_templates = ts\<rparr>, db)" by (simp add: in_sync_def)
  then show ?thesis using seed[of "(\<lparr>l_id = lid, l_classes = cs, l_configs = cfgs, l_templates = ts\<rparr>, db)"] assms l
    by (simp add: open_library_def)
qed

lemma open_library_templates: "templates (snd (open_library lid now db)) = templates db"
proof -
  have one: "templates (snd (lib_add_class now c s)) = templates (snd s)" for c s
    by (cases s) (simp add: lib_add_class_def upsert_class_def insert_or_ignore_class_def update_class_strategy_def
        Let_def case_prod_beta split: option.split)
  have "templates (snd (fold (\<lambda>c s. if c \<in> fst ` set (l_templates (fst s)) then s else lib_add_class now c s) cs s)) = templates (snd s)"
    for cs s by (induction cs arbitrary: s) (simp_all add: one)
  then show ?thesis by (simp add: open_library_def split: prod.split)
qed

section \<open>Moving a template\<close>

lemma filter_moved:
  "k \<noteq> c \<Longrightarrow> filter (\<lambda>r. tr_class_name r = k) (sql_update (\<lambda>r. tr_id r = i) (\<lambda>r. r\<lparr>tr_class_name := c\<rparr>) rows) =
     filter (\<lambda>r. tr_class_name r = k) (filter (\<lambda>r. tr_id r \<noteq> i) rows)"
  by (induction rows) (auto simp: sql_update_def)

lemma mset_moved:
  "distinct (map tr_id rows) \<Longrightarrow> r \<in> set rows \<Longrightarrow> tr_id r = i \<Longrightarrow>
     mset (filter (\<lambda>r. tr_class_name r = c) (sql_update (\<lambda>r. tr_id r = i) (\<lambda>r. r\<lparr>tr_class_name := c\<rparr>) rows)) =
     add_mset (r\<lparr>tr_class_name := c\<rparr>) (mset (filter (\<lambda>r. tr_class_name r = c) (filter (\<lambda>r. tr_id r \<noteq> i) rows)))"
proof (induction rows)
  case (Cons x rows)
  have rest: "sql_update (\<lambda>r. tr_id r = i) (\<lambda>r. r\<lparr>tr_class_name := c\<rparr>) rows = rows \<and> filter (\<lambda>r. tr_id r \<noteq> i) rows = rows"
    if "tr_id x = i"
    using that Cons.prems(1) by (auto simp: sql_update_def filter_id_conv image_iff intro!: map_idI)
  show ?case
  proof (cases "tr_id x = i")
    case True
    then have "r = x" using Cons.prems by (auto simp: image_iff)
    then show ?thesis using rest[OF True] True by (simp add: sql_update_def)
  next
    case False
    then show ?thesis using Cons by (auto simp: sql_update_def)
  qed
qed simp

lemma map_entry_map:
  "dict_ok d \<Longrightarrow> AList.map_entry c f d = map (\<lambda>(k, v). (k, if k = c then f v else v)) d"
proof (induction d)
  case (Cons p d)
  have "map (\<lambda>(k, v). (k, if k = c then f v else v)) d = d" if "c \<notin> fst ` set d"
    using that by (intro map_idI) force
  then show ?case using Cons by (cases p) auto
qed simp

text \<open>The class tables and the templates table do not meet when a class is added.\<close>

lemma with_class_templates_table:
  "with_class now c (lib, db\<lparr>templates := T\<rparr>) =
     (fst (with_class now c (lib, db)), (snd (with_class now c (lib, db)))\<lparr>templates := T\<rparr>)"
  by (simp add: with_class_def lib_add_class_def upsert_class_def insert_or_ignore_class_def next_rank_def
      update_class_strategy_def bump_revision_def Let_def split: option.split)

lemma template_rows_distinct: "lib_wf db \<Longrightarrow> distinct (map tr_id (library_template_rows lid db))"
proof -
  assume "lib_wf db"
  then have "distinct (map tr_id (filter (\<lambda>t. tr_library_id t = lid) (templates db)))"
    by (auto simp: lib_wf_def intro: distinct_map_filter)
  then show ?thesis unfolding library_template_rows_def by (simp add: distinct_map)
qed

text \<open>The tables after the move: the row of the template is filed under the new class.\<close>

lemma moved_tables:
  fixes db :: lib_db
  assumes wf: "lib_wf db" and c: "c \<in> cl_name ` set (library_class_rows lid db)"
    and row: "r \<in> set (library_template_rows lid db)" "tr_id r = i"
  defines "db' \<equiv> snd (update_template_class i c db)"
  shows "lib_wf db'" "library_class_rows lid db' = library_class_rows lid db"
    "library_template_rows lid db' =
       sql_update (\<lambda>r. tr_id r = i) (\<lambda>r. r\<lparr>tr_class_name := c\<rparr>) (library_template_rows lid db)"
proof -
  let ?db1 = "db\<lparr>templates := sql_update (\<lambda>t. tr_id t = i) (\<lambda>t. t\<lparr>tr_class_name := c\<rparr>) (templates db)\<rparr>"
  have e: "\<exists>l. db' = bump_revision l ?db1 \<or> db' = ?db1"
    by (auto simp: db'_def update_template_class_def Let_def split: option.splits)
  have r: "r \<in> set (templates db)" "tr_library_id r = lid" using row(1) by (simp_all add: library_template_rows_def)
  have own: "t = r" if "t \<in> set (templates db)" "tr_id t = i" for t
    using wf r(1) row(2) that by (auto simp: lib_wf_def distinct_map dest: inj_onD)
  have k: "(lid, c) \<in> class_key ` set (classes db)" using c by (force simp: library_class_rows_def class_key_def)
  have "lib_wf ?db1"
    using wf k own r(2) by (auto simp: lib_wf_def map_sql_update ball_sql_update)
  then show "lib_wf db'" using e by auto
  show "library_class_rows lid db' = library_class_rows lid db" using e by auto
  have "library_template_rows lid ?db1 =
      sql_update (\<lambda>r. tr_id r = i) (\<lambda>r. r\<lparr>tr_class_name := c\<rparr>) (library_template_rows lid db)"
    unfolding library_template_rows_def by (simp add: filter_sql_update sort_key_sql_update)
  then show "library_template_rows lid db' =
       sql_update (\<lambda>r. tr_id r = i) (\<lambda>r. r\<lparr>tr_class_name := c\<rparr>) (library_template_rows lid db)"
    using e by auto
qed

lemma with_class_tables:
  "fst ` set d = fst ` set (l_templates lib) \<Longrightarrow>
     snd (with_class now c (lib\<lparr>l_templates := d\<rparr>, db)) = snd (with_class now c (lib, db))"
  by (simp add: with_class_def lib_add_class_def Let_def case_prod_beta)

lemma template_of_moved: "template_of_row (r\<lparr>tr_class_name := c\<rparr>) = (template_of_row r)\<lparr>t_class_name := c\<rparr>"
  by (simp add: template_of_row_def split: option.split)

text \<open>Appending the moved template to the templates the tables keep for the other rows.\<close>

lemma appended_class:
  fixes c :: class_name and crows :: "class_row list" and rows :: "template_row list"
  assumes "distinct (map tr_id rows)" "r \<in> set rows" "distinct (map cl_name crows)"
  defines "moved \<equiv> sql_update (\<lambda>x. tr_id x = tr_id r) (\<lambda>x. x\<lparr>tr_class_name := c\<rparr>) rows"
  shows "same_templates {c}
    (map (\<lambda>k. (cl_name k, map template_of_row (filter (\<lambda>t. tr_class_name t = cl_name k) moved))) crows)
    (AList.map_entry c (\<lambda>ts. ts @ [(template_of_row r)\<lparr>t_class_name := c\<rparr>])
      (map (\<lambda>k. (cl_name k, map template_of_row (filter (\<lambda>t. tr_class_name t = cl_name k)
         (filter (\<lambda>t. tr_id t \<noteq> tr_id r) rows)))) crows))"
proof -
  have ok: "dict_ok (map (\<lambda>k. (cl_name k, f k)) crows)" for f :: "class_row \<Rightarrow> template list"
    using assms(3) by (simp add: comp_def)
  have "mset (map template_of_row (filter (\<lambda>t. tr_class_name t = c) moved)) =
      add_mset ((template_of_row r)\<lparr>t_class_name := c\<rparr>)
        (mset (map template_of_row (filter (\<lambda>t. tr_class_name t = c) (filter (\<lambda>t. tr_id t \<noteq> tr_id r) rows))))"
    using mset_moved[OF assms(1,2) refl, of c] by (simp add: moved_def template_of_moved del: filter_filter)
  moreover have "filter (\<lambda>t. tr_class_name t = cl_name k) moved =
      filter (\<lambda>t. tr_class_name t = cl_name k) (filter (\<lambda>t. tr_id t \<noteq> tr_id r) rows)" if "cl_name k \<noteq> c" for k :: class_row
    unfolding moved_def by (rule filter_moved[OF that])
  ultimately show ?thesis
    unfolding map_entry_map[OF ok] map_map same_templates_def list_all2_map1 list_all2_map2
    by (intro list.rel_refl) (simp del: filter_filter mset_map mset_filter)
qed

lemma move_template_unfold:
  "move_template now i c s =
     (case pop_template i (l_templates (fst s)) of
        None \<Rightarrow> (False, s)
      | Some (found, d) \<Rightarrow>
          (case with_class now c ((fst s)\<lparr>l_templates := d\<rparr>, snd s) of
             (lib1, db1) \<Rightarrow>
               (True, lib1\<lparr>l_templates := AList.map_entry c (\<lambda>ts. ts @ [found\<lparr>t_class_name := c\<rparr>]) (l_templates lib1)\<rparr>,
                snd (update_template_class i c db1))))"
  by (cases s) (simp add: move_template_def with_class_def Let_def case_prod_beta split: option.split)

lemma move_template_sync:
  assumes wf: "lib_wf (snd s)" and sync: "in_sync s"
  shows "lib_wf (snd (snd (move_template now i c s))) \<and> in_step {c} (snd (move_template now i c s))"
proof (cases "pop_template i (l_templates (fst s))")
  case None
  then show ?thesis using assms by (cases s) (simp add: move_template_def in_sync_step)
next
  case (Some p)
  obtain found d where p: "p = (found, d)" by (cases p)
  obtain lib db where s: "s = (lib, db)" by (cases s)
  let ?T = "sql_delete (\<lambda>t. tr_id t = i) (templates db)" and ?lid = "l_id lib"
  note P = popped_sync[of db lib i found d]
  note F = pop_template_Some[OF in_sync_ids(1)[OF assms] Some[unfolded p]]
  obtain r where r: "r \<in> set (library_template_rows ?lid db)" "found = template_of_row r" "tr_id r = i"
    using F in_sync_ids(2)[OF assms, of found] by (auto simp: s template_of_row_def)
  obtain lib1 db1 where w: "with_class now c (lib\<lparr>l_templates := d\<rparr>, db) = (lib1, db1)" by force
  have W: "with_class now c (lib\<lparr>l_templates := d\<rparr>, db\<lparr>templates := ?T\<rparr>) = (lib1, db1\<lparr>templates := ?T\<rparr>)"
    using with_class_templates_table[of now c "lib\<lparr>l_templates := d\<rparr>" ?T db] by (simp add: w)
  have W': "lib_wf (db1\<lparr>templates := ?T\<rparr>)" "in_sync (lib1, db1\<lparr>templates := ?T\<rparr>)"
    using with_class_sync[of "(lib\<lparr>l_templates := d\<rparr>, db\<lparr>templates := ?T\<rparr>)" now c] P assms Some by (simp_all add: s p W)
  have lid: "l_id lib1 = ?lid" using with_class_id[of now c "(lib\<lparr>l_templates := d\<rparr>, db)"] by (simp add: w)
  have keys: "fst ` set d = fst ` set (l_templates lib)" using F by (force simp: s)
  have db1: "lib_wf db1" "templates db1 = templates db"
    using with_class_sync[OF assms, of now c] with_class_tables[OF keys, of now c db] by (simp_all add: s w)
  have rows: "library_template_rows ?lid db1 = library_template_rows ?lid db"
    "library_template_rows ?lid (db1\<lparr>templates := ?T\<rparr>) = filter (\<lambda>r. tr_id r \<noteq> i) (library_template_rows ?lid db)"
    using template_rows_delete[of ?lid "\<lambda>r. tr_id r = i" db1] by (simp_all add: library_template_rows_def db1(2))
  have T: "l_templates lib1 = map (\<lambda>k. (cl_name k, map template_of_row (filter (\<lambda>t. tr_class_name t = cl_name k)
      (filter (\<lambda>r. tr_id r \<noteq> i) (library_template_rows ?lid db))))) (library_class_rows ?lid db1)"
    using in_sync_templates[OF _ W'(2)] W'(1) by (simp add: lid rows del: filter_filter)
  have "c \<in> fst ` set (l_templates lib1)"
    using with_class_known[of c now "(lib\<lparr>l_templates := d\<rparr>, db)"] by (simp add: w)
  then have c: "c \<in> cl_name ` set (library_class_rows ?lid db1)" by (force simp: T)
  note M = moved_tables[OF db1(1) c r(1)[folded rows(1)] r(3)]
  let ?lib2 = "lib1\<lparr>l_templates := AList.map_entry c (\<lambda>ts. ts @ [found\<lparr>t_class_name := c\<rparr>]) (l_templates lib1)\<rparr>"
  have e: "snd (move_template now i c s) = (?lib2, snd (update_template_class i c db1))"
    using Some w by (simp add: s p move_template_unfold)
  have "same_templates {c} (snd (snd (load_library ?lid (snd (update_template_class i c db1))))) (l_templates ?lib2)"
    unfolding load_templates[OF M(1)] M(2,3) T rows(1) r(2)
    using appended_class[OF template_rows_distinct[OF db1(1), unfolded rows] r(1)[folded rows(1)] distinct_class_names[OF db1(1)], of c] r(3)
    by (simp add: rows(1) T r(2))
  then show ?thesis
    using M(1,2) in_sync_names[OF W'(2)] in_sync_configs[OF W'(2)]
    unfolding e by (simp add: in_step_def lid load_library_def Let_def)
qed

section \<open>Histories\<close>

text \<open>One operation on an instance that is in sync.\<close>

lemma library_do_sync:
  assumes "lib_wf (snd s)" "in_sync s" "library_op_ok op s"
  shows "lib_wf (snd (library_do op s)) \<and> in_step (moved_into op) (library_do op s)"
proof (cases op)
  case (AddTemplate now t)
  then have "clock_ok (l_id (fst s)) now (snd s)" "t_id t \<notin> tr_id ` set (templates (snd s))"
    using assms(3) by (auto simp: clock_ok_def)
  from add_template_sync[OF assms(1,2) this] show ?thesis using AddTemplate by (simp add: in_step_sync)
next
  case (DeleteTemplate i)
  then show ?thesis using delete_template_sync[OF assms(1,2)] by (simp add: in_step_sync)
next
  case (MoveTemplate now i c)
  then show ?thesis using move_template_sync[OF assms(1,2)] by simp
next
  case (SetStrategy c st r)
  then show ?thesis using set_strategy_sync[OF assms(1,2)] assms(3) by (simp add: in_step_sync)
next
  case (AddClass now c)
  then show ?thesis using lib_add_class_sync[OF assms(1,2), of now c] by (simp add: in_step_sync)
qed

text \<open>Instances that differ only in the order within classes behave alike: the same tables, and again the
  same up to order.\<close>

definition same_instance :: "class_name set \<Rightarrow> library \<times> lib_db \<Rightarrow> library \<times> lib_db \<Rightarrow> bool" where
  "same_instance M s s' \<longleftrightarrow> snd s' = snd s \<and> (\<exists>d. fst s' = (fst s)\<lparr>l_templates := d\<rparr> \<and> same_templates M (l_templates (fst s)) d)"

lemma same_instanceI: "same_templates M (l_templates lib) d \<Longrightarrow> same_instance M (lib, db) (lib\<lparr>l_templates := d\<rparr>, db)"
  by (auto simp: same_instance_def)

lemma with_class_same:
  assumes "same_templates M (l_templates lib) d"
  shows "same_instance M (with_class now c (lib, db)) (with_class now c (lib\<lparr>l_templates := d\<rparr>, db))"
  using assms same_templates_key_set[OF assms] same_templates_append[OF assms, of "(c, [])"]
  by (auto simp: same_instance_def with_class_def lib_add_class_def update_fresh Let_def case_prod_beta)

lemma appended_same:
  assumes "same_instance M (lib, db) (lib', db')"
  shows "same_instance M (lib\<lparr>l_templates := AList.map_entry c (\<lambda>ts. ts @ [t]) (l_templates lib)\<rparr>, f db)
    (lib'\<lparr>l_templates := AList.map_entry c (\<lambda>ts. ts @ [t]) (l_templates lib')\<rparr>, f db')"
  using assms same_templates_entry[of M "l_templates lib" _ c t] by (auto simp: same_instance_def)

lemma popped_same:
  assumes "same_templates M d d'" "distinct (map t_id (concat (map snd d)))"
  shows "case pop_template i d of
      None \<Rightarrow> pop_template i d' = None
    | Some (t, e) \<Rightarrow> \<exists>e'. pop_template i d' = Some (t, e') \<and> same_templates M e e'"
proof -
  let ?c = "concat (map snd d)" and ?c' = "concat (map snd d')"
  have m: "mset ?c' = mset ?c" by (rule same_templates_concat[OF assms(1)])
  then have d': "distinct (map t_id ?c')" using assms(2) by (metis mset_eq_imp_distinct_iff mset_map)
  have s: "set ?c' = set ?c" by (rule mset_eq_setD[OF m])
  have mem: "(\<exists>(c, ts)\<in>set x. t \<in> set ts) \<longleftrightarrow> t \<in> set (concat (map snd x))" for x :: "(class_name, template list) dict" and t
    by force
  show ?thesis
  proof (cases "pop_template i d")
    case None
    then have "\<forall>t\<in>set ?c. t_id t \<noteq> i" unfolding pop_template_None by fastforce
    then have "pop_template i d' = None" using s unfolding pop_template_None by fastforce
    then show ?thesis using None by simp
  next
    case (Some p)
    obtain t e where p: "p = (t, e)" by (cases p)
    note F = pop_template_Some[OF assms(2) Some[unfolded p]]
    then have t: "t \<in> set ?c'" "t_id t = i" using s unfolding mem by auto
    then have "pop_template i d' \<noteq> None" unfolding pop_template_None by force
    then obtain t' e' where p': "pop_template i d' = Some (t', e')" by force
    note F' = pop_template_Some[OF d' p']
    have "t' = t" using d' t F' unfolding mem by (auto simp: distinct_map dest: inj_onD)
    then show ?thesis using Some p p' F F' same_templates_filter[OF assms(1), of "\<lambda>t. t_id t \<noteq> i"] by simp
  qed
qed

lemma same_instance_split:
  "same_instance M s s' \<Longrightarrow> \<exists>lib db d. s = (lib, db) \<and> s' = (lib\<lparr>l_templates := d\<rparr>, db) \<and> same_templates M (l_templates lib) d"
  by (cases s; cases s') (auto simp: same_instance_def)

lemma found_same:
  assumes "same_templates M d d'"
  shows "(find P (dict_list d' c) = None) = (find P (dict_list d c) = None)"
proof -
  have "set (dict_list d' c) = set (dict_list d c)" by (rule mset_eq_setD[OF same_templates_list[OF assms]])
  then show ?thesis by (simp add: find_None_iff)
qed

lemma library_do_same:
  assumes same: "same_instance M s s'" and ids: "distinct (map t_id (concat (map snd (l_templates (fst s)))))"
  shows "same_instance M (library_do op s) (library_do op s')"
proof -
  obtain lib db d where s: "s = (lib, db)" "s' = (lib\<lparr>l_templates := d\<rparr>, db)" and t: "same_templates M (l_templates lib) d"
    using same_instance_split[OF same] by blast
  note w = with_class_same[OF t, of _ _ db]
  note popped = popped_same[OF t ids[unfolded s fst_conv]]
  show ?thesis
  proof (cases op)
    case (AddTemplate now x)
    let ?w = "with_class now (t_class_name x) (lib, db)" and ?w' = "with_class now (t_class_name x) (lib\<lparr>l_templates := d\<rparr>, db)"
    note f = found_same[OF t, of "\<lambda>y. template_sig y = template_sig x" "t_class_name x"]
    have ids': "l_id (fst ?w') = l_id (fst ?w)" by simp
    show ?thesis
    proof (cases "find (\<lambda>y. template_sig y = template_sig x) (dict_list (l_templates lib) (t_class_name x))")
      case None
      then show ?thesis
        using appended_same[of M "fst ?w" "snd ?w" "fst ?w'" "snd ?w'" "t_class_name x" x "insert_template (l_id lib) x now"] w f
        by (simp add: AddTemplate s add_template_unfold)
    next
      case (Some y)
      then obtain y' where "find (\<lambda>y. template_sig y = template_sig x) (dict_list d (t_class_name x)) = Some y'" using f by auto
      then show ?thesis using Some w by (simp add: AddTemplate s add_template_unfold)
    qed
  next
    case (DeleteTemplate i)
    then show ?thesis using popped[of i] t
      by (cases "pop_template i (l_templates lib)") (auto simp: s lib_delete_template_def same_instance_def)
  next
    case (MoveTemplate now i c)
    show ?thesis
    proof (cases "pop_template i (l_templates lib)")
      case None
      then show ?thesis using popped[of i] t by (auto simp: MoveTemplate s move_template_unfold same_instance_def)
    next
      case (Some p)
      obtain found e where p: "p = (found, e)" by (cases p)
      obtain e' where e': "pop_template i d = Some (found, e')" "same_templates M e e'" using popped[of i] Some p by auto
      let ?w = "with_class now c (lib\<lparr>l_templates := e\<rparr>, db)" and ?w' = "with_class now c (lib\<lparr>l_templates := e'\<rparr>, db)"
      have "same_instance M ?w ?w'" using with_class_same[of M "lib\<lparr>l_templates := e\<rparr>" e' now c db] e'(2) by simp
      then show ?thesis
        using appended_same[of M "fst ?w" "snd ?w" "fst ?w'" "snd ?w'" c "found\<lparr>t_class_name := c\<rparr>"
            "\<lambda>db. snd (update_template_class i c db)"] Some e'(1)
        by (simp add: MoveTemplate s p move_template_unfold case_prod_beta)
    qed
  next
    case (SetStrategy c st r)
    then show ?thesis using same_templates_key_set[OF t] t
      by (auto simp: s set_strategy_def same_instance_def intro!: exI[of _ d])
  next
    case (AddClass now c)
    have "lib_add_class now c x = with_class now c x" for x
      by (cases x) (simp add: with_class_def lib_add_class_def)
    then show ?thesis using w by (simp add: AddClass s)
  qed
qed

lemma library_do_step:
  assumes "lib_wf (snd s)" "in_step M s" "library_op_ok op s"
  shows "lib_wf (snd (library_do op s)) \<and> in_step (M \<union> moved_into op) (library_do op s)"
proof -
  obtain lib db where s: "s = (lib, db)" by (cases s)
  obtain cs cfgs ts where l: "load_library (l_id lib) db = (cs, cfgs, ts)" by (cases "load_library (l_id lib) db") auto
  let ?s = "(lib\<lparr>l_templates := ts\<rparr>, db)"
  have sync: "lib_wf (snd ?s)" "in_sync ?s" using assms(1,2) by (simp_all add: s l in_sync_def in_step_def)
  have ok: "library_op_ok op ?s" using assms(3) by (cases op) (simp_all add: s)
  have "same_instance M ?s s" using assms(2) by (auto simp: s l in_step_def same_instance_def intro!: exI[of _ "l_templates lib"])
  from library_do_same[OF this in_sync_ids(1)[OF sync], of op] obtain lib' db' d
    where r: "library_do op ?s = (lib', db')" "library_do op s = (lib'\<lparr>l_templates := d\<rparr>, db')" "same_templates M (l_templates lib') d"
    using same_instance_split by blast
  have "lib_wf db'" "in_step (moved_into op) (lib', db')" using library_do_sync[OF sync ok] by (simp_all add: r(1))
  then show ?thesis
    using same_templates_trans[of "moved_into op" _ "l_templates lib'" M d] r(3)
    by (auto simp: r(2) in_step_def Un_commute split: prod.splits)
qed

lemma library_run_step:
  assumes "lib_wf (snd s)" "in_step M s" "library_ops_ok ops s"
  shows "lib_wf (snd (fold library_do ops s)) \<and> in_step (M \<union> (\<Union>op\<in>set ops. moved_into op)) (fold library_do ops s)"
  using assms
proof (induction ops arbitrary: s M)
  case (Cons op ops)
  note S = library_do_step[OF Cons.prems(1,2), of op]
  from Cons.IH[of "library_do op s" "M \<union> moved_into op"] S Cons.prems(3) show ?case by (simp add: Un_assoc)
qed simp

text \<open>C10. The in-memory library never drifts from its tables: after a fresh instance ran any sequence of its
  operations (committing, deleting and moving templates, changing strategies, adding classes), what it
  holds is what a fresh load of the new tables returns: the classes in rank order, their configurations,
  and the templates of every class, in commit order.  Only within a class that a template was moved into
  may the order differ: the move appends it, while a load sorts it by its time of commit.\<close>

theorem cache_write_through:
  assumes "lib_wf db" "library_ops_ok ops (open_library lid now db)"
  shows "lib_wf (snd (fold library_do ops (open_library lid now db))) \<and>
    in_step (\<Union>op\<in>set ops. moved_into op) (fold library_do ops (open_library lid now db))"
  using library_run_step[of "open_library lid now db" "{}" ops] open_library_sync[OF assms(1), of lid now] assms(2)
  by (simp add: in_step_sync)

lemma cache_write_through_witness:
  "in_step {''Lid''} (fold library_do [AddTemplate 5 (pad ''a''), MoveTemplate 6 ''a'' ''Lid'', AddClass 7 ''New'']
     (open_library ''L'' 1 empty_lib_db))"
proof -
  let ?ops = "[AddTemplate 5 (pad ''a''), MoveTemplate 6 ''a'' ''Lid'', AddClass 7 ''New'']"
  have "library_ops_ok ?ops (open_library ''L'' 1 empty_lib_db)" by (simp add: open_library_templates empty_lib_db_def)
  moreover have "lib_wf empty_lib_db" by (simp add: lib_wf_def empty_lib_db_def)
  ultimately show ?thesis
    using cache_write_through[of empty_lib_db ?ops "''L''" 1] by (simp only: list.set UN_insert moved_into.simps) simp
qed

section \<open>The foreign keys\<close>

text \<open>Every class and template row names an existing library.\<close>

definition lib_filed :: "lib_db \<Rightarrow> bool" where
  "lib_filed db \<longleftrightarrow> cl_library_id ` set (classes db) \<subseteq> lb_id ` set (libraries db) \<and>
     tr_library_id ` set (templates db) \<subseteq> lb_id ` set (libraries db)"

lemma sql_update_field: "(\<And>r. P r \<Longrightarrow> g (f r) = g r) \<Longrightarrow> g ` set (sql_update P f t) = g ` set t"
  by (metis map_sql_update list.set_map)

lemma bump_revision_tables [simp]:
  "lb_id ` set (libraries (bump_revision l db)) = lb_id ` set (libraries db)"
  "classes (bump_revision l db) = classes db" "templates (bump_revision l db) = templates db"
  by (simp_all add: bump_revision_def sql_update_field)

lemma strategy_filed:
  "lb_id ` set (libraries (snd (update_class_strategy l c st r db))) = lb_id ` set (libraries db)"
  "cl_library_id ` set (classes (snd (update_class_strategy l c st r db))) = cl_library_id ` set (classes db)"
  "templates (snd (update_class_strategy l c st r db)) = templates db"
  by (simp_all add: update_class_strategy_def Let_def sql_update_field)

lemma upsert_filed:
  "libraries (upsert_class l c now db) = libraries db" "templates (upsert_class l c now db) = templates db"
  "cl_library_id ` set (classes (upsert_class l c now db)) \<subseteq> insert l (cl_library_id ` set (classes db))"
  by (auto simp: upsert_class_def insert_or_ignore_class_def)

lemma lib_add_class_tables:
  "lb_id ` set (libraries (snd (lib_add_class now c (lib, db)))) = lb_id ` set (libraries db)"
  "cl_library_id ` set (classes (snd (lib_add_class now c (lib, db)))) \<subseteq> insert (l_id lib) (cl_library_id ` set (classes db))"
  "templates (snd (lib_add_class now c (lib, db))) = templates db"
  "l_id (fst (lib_add_class now c (lib, db))) = l_id lib"
proof -
  note u = upsert_filed(3)[of "l_id lib" c now db]
  show "cl_library_id ` set (classes (snd (lib_add_class now c (lib, db)))) \<subseteq> insert (l_id lib) (cl_library_id ` set (classes db))"
    using u subset_insertI[of "cl_library_id ` set (classes db)" "l_id lib"]
    by (simp add: lib_add_class_def Let_def case_prod_beta strategy_filed)
qed (simp_all add: lib_add_class_def Let_def case_prod_beta strategy_filed upsert_filed)

lemma lib_add_class_filed:
  assumes "lib_filed (snd s)" "l_id (fst s) \<in> lb_id ` set (libraries (snd s))"
  shows "lib_filed (snd (lib_add_class now c s))" "l_id (fst (lib_add_class now c s)) = l_id (fst s)"
    "lb_id ` set (libraries (snd (lib_add_class now c s))) = lb_id ` set (libraries (snd s))"
proof -
  obtain lib db where s: "s = (lib, db)" by (cases s)
  have a: "cl_library_id ` set (classes db) \<subseteq> lb_id ` set (libraries db)" "l_id lib \<in> lb_id ` set (libraries db)"
    "tr_library_id ` set (templates db) \<subseteq> lb_id ` set (libraries db)"
    using assms by (simp_all add: s lib_filed_def)
  then have "insert (l_id lib) (cl_library_id ` set (classes db)) \<subseteq> lb_id ` set (libraries db)" by simp
  with lib_add_class_tables(2)[of now c lib db] a(3) show "lib_filed (snd (lib_add_class now c s))"
    unfolding s lib_filed_def lib_add_class_tables(1,3) by (meson subset_trans)
qed (cases s; simp add: lib_add_class_tables)+

lemma open_library_filed:
  assumes "lib_filed db" "lid \<in> lb_id ` set (libraries db)"
  shows "lib_filed (snd (open_library lid now db)) \<and> l_id (fst (open_library lid now db)) = lid \<and>
    lb_id ` set (libraries (snd (open_library lid now db))) = lb_id ` set (libraries db)"
proof -
  have seed: "lib_filed (snd s') \<and> l_id (fst s') = l_id (fst s) \<and> lb_id ` set (libraries (snd s')) = lb_id ` set (libraries (snd s))"
    if "lib_filed (snd s)" "l_id (fst s) \<in> lb_id ` set (libraries (snd s))"
      "s' = fold (\<lambda>c s. if c \<in> fst ` set (l_templates (fst s)) then s else lib_add_class now c s) cs s" for s s' cs
    using that by (induction cs arbitrary: s) (auto simp: lib_add_class_filed)
  obtain cs cfgs ts where l: "load_library lid db = (cs, cfgs, ts)" by (cases "load_library lid db") auto
  then show ?thesis using seed[of "(\<lparr>l_id = lid, l_classes = cs, l_configs = cfgs, l_templates = ts\<rparr>, db)"] assms
    by (simp add: open_library_def)
qed

lemma template_rows_filed:
  "lb_id ` set (libraries (snd (store_delete_template i db))) = lb_id ` set (libraries db)"
  "classes (snd (store_delete_template i db)) = classes db"
  "tr_library_id ` set (templates (snd (store_delete_template i db))) \<subseteq> tr_library_id ` set (templates db)"
  "lb_id ` set (libraries (snd (update_template_class i c db))) = lb_id ` set (libraries db)"
  "classes (snd (update_template_class i c db)) = classes db"
  "tr_library_id ` set (templates (snd (update_template_class i c db))) = tr_library_id ` set (templates db)"
proof -
  have "set (templates (snd (store_delete_template i db))) \<subseteq> set (templates db)"
    by (simp add: store_delete_template_def Let_def sql_delete_def filter_is_subset split: option.split)
  then show "tr_library_id ` set (templates (snd (store_delete_template i db))) \<subseteq> tr_library_id ` set (templates db)"
    by (rule image_mono)
qed (simp_all add: store_delete_template_def update_template_class_def Let_def sql_update_field split: option.split)

lemma library_do_filed:
  assumes "lib_filed (snd s)" "l_id (fst s) \<in> lb_id ` set (libraries (snd s))"
  shows "lib_filed (snd (library_do op s)) \<and> l_id (fst (library_do op s)) = l_id (fst s) \<and>
    lb_id ` set (libraries (snd (library_do op s))) = lb_id ` set (libraries (snd s))"
proof -
  obtain lib db where s: "s = (lib, db)" by (cases s)
  have w: "lib_filed (snd (with_class now c (lib', db)))" "l_id (fst (with_class now c (lib', db))) = l_id lib"
    "lb_id ` set (libraries (snd (with_class now c (lib', db)))) = lb_id ` set (libraries db)"
    if "l_id lib' = l_id lib" for now c lib'
    using assms that lib_add_class_filed[of "(lib', db)"] by (auto simp: with_class_def s)
  note rows = template_rows_filed(3)[of _ "db"]
  show ?thesis
  proof (cases op)
    case (AddTemplate now t)
    have "lib_filed (insert_template (l_id lib) t now (snd (with_class now (t_class_name t) (lib, db))))"
      using w(1,3)[of lib now "t_class_name t"] assms(2) by (simp add: insert_template_def lib_filed_def s)
    then show ?thesis using w[of lib] unfolding AddTemplate s library_do.simps add_template_unfold
      by (auto simp: insert_template_def Let_def split: option.split)
  next
    case (DeleteTemplate i)
    then show ?thesis using assms subset_trans[OF rows[of i]]
      by (simp add: s lib_delete_template_def lib_filed_def template_rows_filed split: option.split)
  next
    case (MoveTemplate now i c)
    show ?thesis
    proof (cases "pop_template i (l_templates lib)")
      case (Some p)
      then show ?thesis using w[of "lib\<lparr>l_templates := snd p\<rparr>" now c]
        by (simp add: MoveTemplate s move_template_unfold case_prod_beta lib_filed_def template_rows_filed)
    qed (use assms in \<open>simp add: MoveTemplate s move_template_unfold\<close>)
  next
    case (SetStrategy c st r)
    then show ?thesis using assms
      by (auto simp: s set_strategy_def lib_filed_def strategy_filed split: if_splits)
  next
    case (AddClass now c)
    then show ?thesis using lib_add_class_filed[OF assms, of now c] by simp
  qed
qed

lemma library_run_filed:
  assumes "lib_filed (snd s)" "l_id (fst s) \<in> lb_id ` set (libraries (snd s))"
  shows "lib_filed (snd (fold library_do ops s)) \<and>
    lb_id ` set (libraries (snd (fold library_do ops s))) = lb_id ` set (libraries (snd s))"
  using assms by (induction ops arbitrary: s) (simp_all add: library_do_filed)

end
