(* ===== verification/FileStore.thy ===== *)
theory FileStore
  imports SideRegions
begin

text \<open>
  \<^verbatim>\<open>app/files.py\<close>: content rows keyed by the hash of the uploaded bytes, and the
  bindings of contents into the versions.  The JSON text columns (layers, rectangles, notes) hold
  their decoded values.  Table updates go through one interface of rows kept by a key, interpreted
  on the bindings.
\<close>

datatype file_status =
    DiscoveringLayers
  | AwaitingLayout
  | AwaitingLayers
  | Preprocessing
  | ReadyToMatch
  | CheckingRules
  | Report
  | FileError

definition ALL_STATUSES :: "file_status list" where
  "ALL_STATUSES = [DiscoveringLayers, AwaitingLayout, AwaitingLayers, Preprocessing, ReadyToMatch,
     CheckingRules, Report, FileError]"

type_synonym bounds = "real \<times> real \<times> real \<times> real"  \<comment> \<open>(xmin, ymin, xmax, ymax)\<close>

record content_row =
  f_id :: string
  f_name :: string
  f_size :: nat
  f_uploaded_at :: real
  f_insunits :: "int option"
  f_recover_notes :: "json option"

record binding =
  b_version_id :: string
  b_role :: string
  b_file_id :: string
  b_dxf_view :: "string option"
  b_status :: file_status
  b_error :: "string option"
  b_match_saved :: bool
  b_selected_layers :: "string list option"
  b_top_view_rect :: "rect option"
  b_bottom_view_rect :: "rect option"
  b_side_view_rect :: "rect option"
  b_applied_scale :: real
  b_user_unit_override :: "string option"
  b_chosen_layout :: "string option"
  b_parsed_at :: "real option"
  b_primitive_count :: "nat option"
  b_bbox :: "bounds option"
  b_background :: "string option"
  b_created_at :: real

record file_db =
  files :: "content_row list"
  version_files :: "binding list"

definition binding_key :: "binding \<Rightarrow> string \<times> string" where
  "binding_key b = (b_version_id b, b_file_id b)"

subsection \<open>Units\<close>

text \<open>The UTF-8 bytes of the label for an unspecified unit.\<close>

definition UNSPECIFIED_UNIT :: string where
  "UNSPECIFIED_UNIT = map (\<lambda>n. char_of (n :: nat)) [230, 156, 170, 230, 140, 135, 229, 174, 154]"

definition INSUNITS_LABELS :: "(int, string) dict" where
  "INSUNITS_LABELS = [(0, ''unitless''), (1, ''inch''), (2, ''foot''), (4, ''mm''), (5, ''cm''), (6, ''m'')]"

definition unit_display :: "int option \<Rightarrow> string option \<Rightarrow> string \<times> bool" where
  "unit_display insunits user_unit_override =
     (let label = (if or_empty user_unit_override \<noteq> [] then or_empty user_unit_override
                   else case insunits of
                          None \<Rightarrow> UNSPECIFIED_UNIT
                        | Some u \<Rightarrow> (case map_of INSUNITS_LABELS u of Some l \<Rightarrow> l | None \<Rightarrow> UNSPECIFIED_UNIT))
      in (label, label = ''mm''))"

definition compute_unit_scale_warning :: "int option \<Rightarrow> bounds option \<Rightarrow> string option \<times> string" where
  "compute_unit_scale_warning insunits bbox = (None, [])"

subsection \<open>Content rows\<close>

definition register_content :: "string \<Rightarrow> string \<Rightarrow> nat \<Rightarrow> real \<Rightarrow> file_db \<Rightarrow> file_db" where
  "register_content file_id name sz now db =
     (if file_id \<in> f_id ` set (files db) then db
      else db\<lparr>files := files db @ [\<lparr>f_id = file_id, f_name = name, f_size = sz, f_uploaded_at = now,
                                    f_insunits = None, f_recover_notes = None\<rparr>]\<rparr>)"

definition content_exists :: "string \<Rightarrow> file_db \<Rightarrow> bool" where
  "content_exists file_id db \<longleftrightarrow> row_by f_id file_id (files db) \<noteq> None"

definition set_insunits :: "string \<Rightarrow> int option \<Rightarrow> file_db \<Rightarrow> file_db" where
  "set_insunits file_id insunits db =
     db\<lparr>files := sql_update (\<lambda>f. f_id f = file_id) (\<lambda>f. f\<lparr>f_insunits := insunits\<rparr>) (files db)\<rparr>"

definition set_dxf_recover_notes :: "string \<Rightarrow> json option \<Rightarrow> file_db \<Rightarrow> file_db" where
  "set_dxf_recover_notes file_id notes db =
     db\<lparr>files := sql_update (\<lambda>f. f_id f = file_id) (\<lambda>f. f\<lparr>f_recover_notes := notes\<rparr>) (files db)\<rparr>"

definition binding_count :: "string \<Rightarrow> file_db \<Rightarrow> nat" where
  "binding_count file_id db = rowcount (\<lambda>b. b_file_id b = file_id) (version_files db)"

subsection \<open>Records: a binding joined with its content\<close>

record file_record =
  r_id :: string
  r_version_id :: string
  r_name :: string
  r_size :: nat
  r_uploaded_at :: real
  r_insunits :: "int option"
  r_recover_notes :: "json option"
  r_binding :: binding

text \<open>\<^verbatim>\<open>float(applied_scale or 1.0)\<close>: a stored zero reads as one.\<close>

definition row_to_record :: "binding \<Rightarrow> content_row \<Rightarrow> file_record" where
  "row_to_record b f =
     \<lparr>r_id = b_file_id b, r_version_id = b_version_id b, r_name = f_name f, r_size = f_size f,
      r_uploaded_at = f_uploaded_at f, r_insunits = f_insunits f, r_recover_notes = f_recover_notes f,
      r_binding = b\<lparr>b_applied_scale := (if b_applied_scale b = 0 then 1 else b_applied_scale b)\<rparr>\<rparr>"

definition binding_select :: "file_db \<Rightarrow> file_record list" where
  "binding_select db =
     List.map_filter (\<lambda>b. map_option (row_to_record b) (row_by f_id (b_file_id b) (files db))) (version_files db)"

definition get_file :: "string \<Rightarrow> string \<Rightarrow> file_db \<Rightarrow> file_record option" where
  "get_file version_id file_id db =
     find (\<lambda>r. r_version_id r = version_id \<and> r_id r = file_id) (binding_select db)"

definition list_by_version :: "string \<Rightarrow> file_db \<Rightarrow> file_record list" where
  "list_by_version version_id db =
     sort_key (\<lambda>r. b_role (r_binding r)) (filter (\<lambda>r. r_version_id r = version_id) (binding_select db))"

definition list_bindings_of_file :: "string \<Rightarrow> file_db \<Rightarrow> file_record list" where
  "list_bindings_of_file file_id db =
     sort_key (\<lambda>r. b_created_at (r_binding r)) (filter (\<lambda>r. r_id r = file_id) (binding_select db))"

definition list_all_files :: "file_db \<Rightarrow> file_record list" where
  "list_all_files db = sort_key (\<lambda>r. - r_uploaded_at r) (binding_select db)"

subsection \<open>Bindings\<close>

definition new_binding :: "string \<Rightarrow> string \<Rightarrow> string \<Rightarrow> string option \<Rightarrow> file_status \<Rightarrow> real \<Rightarrow> binding" where
  "new_binding version_id role file_id dxf_view status now =
     \<lparr>b_version_id = version_id, b_role = role, b_file_id = file_id, b_dxf_view = dxf_view,
      b_status = status, b_error = None, b_match_saved = False, b_selected_layers = None,
      b_top_view_rect = None, b_bottom_view_rect = None, b_side_view_rect = None,
      b_applied_scale = 1, b_user_unit_override = None, b_chosen_layout = None, b_parsed_at = None,
      b_primitive_count = None, b_bbox = None, b_background = None, b_created_at = now\<rparr>"

text \<open>\<^verbatim>\<open>INSERT OR REPLACE\<close>: the row with the same primary key goes, the new one is appended.\<close>

definition bind_file ::
  "string \<Rightarrow> string \<Rightarrow> string \<Rightarrow> string option \<Rightarrow> file_status \<Rightarrow> real \<Rightarrow> file_db \<Rightarrow> file_db" where
  "bind_file version_id role file_id dxf_view initial_status now db =
     db\<lparr>version_files := sql_delete (\<lambda>b. binding_key b = (version_id, file_id)) (version_files db) @
          [new_binding version_id role file_id dxf_view initial_status now]\<rparr>"

definition unbind_file :: "string \<Rightarrow> string \<Rightarrow> file_db \<Rightarrow> bool \<times> file_db" where
  "unbind_file version_id file_id db =
     (let hit = (\<lambda>b. binding_key b = (version_id, file_id)) in
      (rowcount hit (version_files db) > 0, db\<lparr>version_files := sql_delete hit (version_files db)\<rparr>))"

definition unbind_role :: "string \<Rightarrow> string \<Rightarrow> file_db \<Rightarrow> nat \<times> file_db" where
  "unbind_role version_id role db =
     (let hit = (\<lambda>b. b_version_id b = version_id \<and> b_role b = role) in
      (rowcount hit (version_files db), db\<lparr>version_files := sql_delete hit (version_files db)\<rparr>))"

definition update_binding :: "string \<Rightarrow> string \<Rightarrow> (binding \<Rightarrow> binding) \<Rightarrow> file_db \<Rightarrow> file_db" where
  "update_binding version_id file_id f db =
     db\<lparr>version_files := sql_update (\<lambda>b. binding_key b = (version_id, file_id)) f (version_files db)\<rparr>"

definition update_selected_layers :: "string \<Rightarrow> string \<Rightarrow> string list \<Rightarrow> file_db \<Rightarrow> file_db" where
  "update_selected_layers v i layers = update_binding v i (\<lambda>b. b\<lparr>b_selected_layers := Some layers\<rparr>)"

definition clear_selected_layers :: "string \<Rightarrow> string \<Rightarrow> file_db \<Rightarrow> file_db" where
  "clear_selected_layers v i = update_binding v i (\<lambda>b. b\<lparr>b_selected_layers := None\<rparr>)"

definition update_side_regions ::
  "string \<Rightarrow> string \<Rightarrow> rect option \<Rightarrow> rect option \<Rightarrow> rect option \<Rightarrow> file_db \<Rightarrow> file_db" where
  "update_side_regions v i tv bv sv =
     update_binding v i (\<lambda>b. b\<lparr>b_top_view_rect := tv, b_bottom_view_rect := bv, b_side_view_rect := sv\<rparr>)"

definition clear_side_regions :: "string \<Rightarrow> string \<Rightarrow> file_db \<Rightarrow> file_db" where
  "clear_side_regions v i =
     update_binding v i (\<lambda>b. b\<lparr>b_top_view_rect := None, b_bottom_view_rect := None, b_side_view_rect := None\<rparr>)"

definition set_user_unit_override :: "string \<Rightarrow> string \<Rightarrow> string option \<Rightarrow> file_db \<Rightarrow> file_db" where
  "set_user_unit_override v i unit = update_binding v i (\<lambda>b. b\<lparr>b_user_unit_override := unit\<rparr>)"

definition set_chosen_layout :: "string \<Rightarrow> string \<Rightarrow> string option \<Rightarrow> file_db \<Rightarrow> file_db" where
  "set_chosen_layout v i layout = update_binding v i (\<lambda>b. b\<lparr>b_chosen_layout := layout\<rparr>)"

definition set_match_saved :: "string \<Rightarrow> string \<Rightarrow> bool \<Rightarrow> file_db \<Rightarrow> file_db" where
  "set_match_saved v i saved = update_binding v i (\<lambda>b. b\<lparr>b_match_saved := saved\<rparr>)"

definition update_status :: "string \<Rightarrow> string \<Rightarrow> file_status \<Rightarrow> string option \<Rightarrow> file_db \<Rightarrow> file_db" where
  "update_status v i status error = update_binding v i (\<lambda>b. b\<lparr>b_status := status, b_error := error\<rparr>)"

definition update_parsed ::
  "string \<Rightarrow> string \<Rightarrow> nat \<Rightarrow> bounds \<Rightarrow> string \<Rightarrow> int option \<Rightarrow> real \<Rightarrow> real \<Rightarrow> file_db \<Rightarrow> bool \<times> file_db" where
  "update_parsed v i primitive_count bbox background insunits applied_scale now db =
     (let prior = (case row_by binding_key (v, i) (version_files db) of Some b \<Rightarrow> b_applied_scale b | None \<Rightarrow> 1);
          db1 = update_binding v i (\<lambda>b. b\<lparr>b_status := ReadyToMatch, b_parsed_at := Some now,
                  b_primitive_count := Some primitive_count, b_bbox := Some bbox,
                  b_background := Some background, b_applied_scale := applied_scale, b_error := None\<rparr>) db
      in (prior \<noteq> applied_scale, set_insunits i insunits db1))"

subsection \<open>Rows kept by a key\<close>

text \<open>What the callers of a store rely on: an update touches the row of its key only, and a row
  put under a key is the one found there.\<close>

locale keyed_rows =
  fixes get :: "'k \<Rightarrow> 's \<Rightarrow> 'r option"
    and upd :: "'k \<Rightarrow> ('r \<Rightarrow> 'r) \<Rightarrow> 's \<Rightarrow> 's"
    and put :: "'k \<Rightarrow> 'r \<Rightarrow> 's \<Rightarrow> 's"
    and del :: "'k \<Rightarrow> 's \<Rightarrow> 's"
    and key :: "'r \<Rightarrow> 'k"
    and inv :: "'s \<Rightarrow> bool"
  assumes get_upd: "(\<And>r. key (f r) = key r) \<Longrightarrow>
      get k (upd k' f s) = (if k' = k then map_option f (get k s) else get k s)"
    and get_put: "key r = k' \<Longrightarrow> get k (put k' r s) = (if k' = k then Some r else get k s)"
    and get_del: "inv s \<Longrightarrow> get k (del k' s) = (if k' = k then None else get k s)"
    and inv_upd: "(\<And>r. key (f r) = key r) \<Longrightarrow> inv s \<Longrightarrow> inv (upd k f s)"
    and inv_put: "inv s \<Longrightarrow> key r = k \<Longrightarrow> inv (put k r s)"
    and inv_del: "inv s \<Longrightarrow> inv (del k s)"
begin

lemma put_get_same: "key r = k \<Longrightarrow> get k (put k r s) = Some r"
  by (simp add: get_put)

lemma upd_upd:
  assumes "\<And>r. key (f r) = key r" "\<And>r. key (g r) = key r"
  shows "get k (upd k g (upd k f s)) = map_option (g \<circ> f) (get k s)"
  using assms by (simp add: get_upd option.map_comp)

lemma del_put: "inv s \<Longrightarrow> key r = k \<Longrightarrow> get k' (del k (put k r s)) = get k' (del k s)"
  by (simp add: get_del get_put inv_put)

end

definition get_binding :: "string \<times> string \<Rightarrow> file_db \<Rightarrow> binding option" where
  "get_binding k db = row_by binding_key k (version_files db)"

definition put_binding :: "string \<times> string \<Rightarrow> binding \<Rightarrow> file_db \<Rightarrow> file_db" where
  "put_binding k b db = db\<lparr>version_files := sql_delete (\<lambda>b. binding_key b = k) (version_files db) @ [b]\<rparr>"

definition files_inv :: "file_db \<Rightarrow> bool" where
  "files_inv db \<longleftrightarrow> distinct (map f_id (files db)) \<and> distinct (map binding_key (version_files db)) \<and>
     (\<forall>b\<in>set (version_files db). b_file_id b \<in> f_id ` set (files db))"

abbreviation bindings_inv :: "file_db \<Rightarrow> bool" where
  "bindings_inv db \<equiv> distinct (map binding_key (version_files db))"

lemma row_by_delete_key:
  "row_by key k (sql_delete (\<lambda>r. key r = k') t) = (if k = k' then None else row_by key k t)"
  by (induction t) (auto simp: sql_delete_def row_by_def)

interpretation bindings: keyed_rows get_binding "\<lambda>k f. update_binding (fst k) (snd k) f" put_binding
    "\<lambda>k db. snd (unbind_file (fst k) (snd k) db)" binding_key bindings_inv
proof
  fix f :: "binding \<Rightarrow> binding" and k k' :: "string \<times> string" and s :: file_db and r :: binding
  show "get_binding k (update_binding (fst k') (snd k') f s) =
      (if k' = k then map_option f (get_binding k s) else get_binding k s)"
    if "\<And>r. binding_key (f r) = binding_key r"
  proof -
    have "row_by binding_key k (sql_update (\<lambda>b. binding_key b = k') f (version_files s)) =
        map_option (\<lambda>r. if binding_key r = k' then f r else r) (row_by binding_key k (version_files s))"
      by (rule row_by_update_same) (rule that)
    then show ?thesis
      by (auto simp: get_binding_def update_binding_def map_option_case split: option.splits dest: row_by_SomeD)
  qed
  show "binding_key r = k' \<Longrightarrow> get_binding k (put_binding k' r s) = (if k' = k then Some r else get_binding k s)"
    by (simp add: get_binding_def put_binding_def row_by_snoc row_by_delete_key split: option.splits)
  show "get_binding k (snd (unbind_file (fst k') (snd k') s)) = (if k' = k then None else get_binding k s)"
    by (simp add: get_binding_def unbind_file_def Let_def row_by_delete_key)
  show "bindings_inv (update_binding (fst k) (snd k) f s)"
    if "\<And>r. binding_key (f r) = binding_key r" "bindings_inv s"
    using that by (simp add: update_binding_def map_sql_update)
  show "bindings_inv s \<Longrightarrow> binding_key r = k \<Longrightarrow> bindings_inv (put_binding k r s)"
    by (auto simp: put_binding_def distinct_sql_delete)
  show "bindings_inv s \<Longrightarrow> bindings_inv (snd (unbind_file (fst k) (snd k) s))"
    by (simp add: unbind_file_def Let_def distinct_sql_delete)
qed

subsection \<open>The store's operations on one binding\<close>

datatype binding_op =
    BindFile string "string option" file_status real
  | Unbind
  | SelectLayers "string list"
  | ClearLayers
  | SideRegionsOp "rect option" "rect option" "rect option"
  | ClearSideRegions
  | UnitOverride "string option"
  | ChosenLayout "string option"
  | MatchSaved bool
  | SetStatus file_status "string option"
  | Parsed nat bounds string "int option" real real

fun binding_do :: "string \<Rightarrow> string \<Rightarrow> binding_op \<Rightarrow> file_db \<Rightarrow> file_db" where
  "binding_do v i (BindFile role dv st now) db = bind_file v role i dv st now db"
| "binding_do v i Unbind db = snd (unbind_file v i db)"
| "binding_do v i (SelectLayers ls) db = update_selected_layers v i ls db"
| "binding_do v i ClearLayers db = clear_selected_layers v i db"
| "binding_do v i (SideRegionsOp t b s) db = update_side_regions v i t b s db"
| "binding_do v i ClearSideRegions db = clear_side_regions v i db"
| "binding_do v i (UnitOverride u) db = set_user_unit_override v i u db"
| "binding_do v i (ChosenLayout l) db = set_chosen_layout v i l db"
| "binding_do v i (MatchSaved m) db = set_match_saved v i m db"
| "binding_do v i (SetStatus st e) db = update_status v i st e db"
| "binding_do v i (Parsed n b bg iu sc now) db = snd (update_parsed v i n b bg iu sc now db)"

lemmas binding_updates =
  update_selected_layers_def clear_selected_layers_def update_side_regions_def clear_side_regions_def
  set_user_unit_override_def set_chosen_layout_def set_match_saved_def update_status_def

lemma get_binding_files [simp]: "get_binding k (db\<lparr>files := fs\<rparr>) = get_binding k db"
  by (simp add: get_binding_def)

lemma get_binding_insunits [simp]: "get_binding k (set_insunits i u db) = get_binding k db"
  by (simp add: set_insunits_def)

lemma get_binding_update:
  "(\<And>r. binding_key (f r) = binding_key r) \<Longrightarrow>
   get_binding k (update_binding v i f db) = (if (v, i) = k then map_option f (get_binding k db) else get_binding k db)"
  using bindings.get_upd[of f k "(v, i)" db] by simp

lemma bind_file_put: "bind_file v role i dv st now db = put_binding (v, i) (new_binding v role i dv st now) db"
  by (simp add: bind_file_def put_binding_def)

lemma new_binding_key [simp]: "binding_key (new_binding v role i dv st now) = (v, i)"
  by (simp add: binding_key_def new_binding_def)

text \<open>Bindings are isolated: an operation on the binding of one file in one version never
  changes the state of any other binding, of the same file in another version or of another file.\<close>

theorem bindings_isolated:
  assumes "(v, i) \<noteq> (v', i')"
  shows "get_binding (v', i') (binding_do v i op db) = get_binding (v', i') db"
proof (cases op)
  case (BindFile role dv st now)
  then show ?thesis using assms by (auto simp: bind_file_put bindings.get_put)
next
  case Unbind
  then show ?thesis using assms by (auto simp: get_binding_def unbind_file_def Let_def row_by_delete_key)
next
  case (Parsed n b bg iu sc now)
  then show ?thesis using assms by (auto simp: update_parsed_def Let_def get_binding_update binding_key_def)
qed (use assms in \<open>auto simp: binding_updates get_binding_update binding_key_def\<close>)

lemma bindings_isolated_witness:
  "get_binding (''v2'', ''f'') (binding_do ''v1'' ''f'' (MatchSaved True)
     \<lparr>files = [], version_files = [new_binding ''v2'' ''SBT'' ''f'' None Preprocessing 1]\<rparr>) =
   get_binding (''v2'', ''f'') \<lparr>files = [], version_files = [new_binding ''v2'' ''SBT'' ''f'' None Preprocessing 1]\<rparr>"
  by (rule bindings_isolated) simp

text \<open>A parse leaves the binding ready with its outputs and no error, keeps every choice the
  operator made for it, and reports exactly whether the applied scale changed.\<close>

theorem update_parsed_spec:
  assumes "get_binding (v, i) db = Some b"
  shows "case update_parsed v i n bb bg iu sc now db of (changed, db') \<Rightarrow>
    changed = (b_applied_scale b \<noteq> sc) \<and>
    get_binding (v, i) db' = Some (b\<lparr>b_status := ReadyToMatch, b_parsed_at := Some now,
       b_primitive_count := Some n, b_bbox := Some bb, b_background := Some bg,
       b_applied_scale := sc, b_error := None\<rparr>) \<and>
    (\<forall>f\<in>set (files db'). f_id f = i \<longrightarrow> f_insunits f = iu)"
proof -
  have p: "row_by binding_key (v, i) (version_files db) = Some b" using assms by (simp add: get_binding_def)
  then show ?thesis
    using assms
    by (simp add: update_parsed_def Let_def get_binding_update binding_key_def)
       (simp add: set_insunits_def ball_sql_update)
qed

lemma update_parsed_spec_witness:
  "fst (update_parsed ''v'' ''f'' 3 (0, 0, 1, 1) ''#fff'' (Some 4) 10 9
     \<lparr>files = [], version_files = [new_binding ''v'' ''SBT'' ''f'' None Preprocessing 1]\<rparr>)"
proof -
  let ?db = "\<lparr>files = [], version_files = [new_binding ''v'' ''SBT'' ''f'' None Preprocessing 1]\<rparr>"
  have "get_binding (''v'', ''f'') ?db = Some (new_binding ''v'' ''SBT'' ''f'' None Preprocessing 1)"
    by (simp add: get_binding_def)
  from update_parsed_spec[OF this, where n = 3 and bb = "(0, 0, 1, 1)" and bg = "''#fff''" and iu = "Some 4" and sc = 10 and now = 9] show ?thesis
    by (simp add: new_binding_def case_prod_beta)
qed

end
