(* ===== verification/VersionStore.thy ===== *)
theory VersionStore
  imports LibrarySync FileStore
begin

text \<open>
  \<^verbatim>\<open>app/versions.py\<close> and \<^verbatim>\<open>app/products.py\<close>: products, their versions, the
  clone transaction and the sign-off freeze.  \<^verbatim>\<open>core_db\<close> is the product and version tables
  with the library and file tables the transactions also write.  A raised exception rolls the
  transaction back: the error value comes with the tables unchanged.  Reachable databases include edits of
  libraries and both steps of a product's deletion, between which its row has no version.
\<close>

record product =
  p_id :: string
  p_name :: string
  p_created_at :: real
  p_customer_id :: string

record version =
  v_id :: string
  v_product_id :: string
  v_label :: string
  v_library_id :: string
  v_signed_off_by :: "string option"
  v_signed_off_at :: "real option"
  v_evidence_name :: "string option"
  v_evidence_type :: "string option"
  v_check_dam :: bool
  v_created_at :: real

record core_db =
  products :: "product list"
  versions :: "version list"
  lib :: lib_db
  fdb :: file_db

datatype version_error =
    VersionValueError string
  | DuplicateLabel
  | SignedOff string "real option"
  | VersionKeyError string
  | VersionIntegrityError

definition VALID_ROLES :: "string list" where
  "VALID_ROLES = [''SBT'', ''BD'', ''POD'', ''RING'', ''LID'', ''NovelLID'']"

definition is_signed_off :: "version \<Rightarrow> bool" where
  "is_signed_off v \<longleftrightarrow> v_signed_off_by v \<noteq> None"

subsection \<open>Reads\<close>

definition get_version :: "string \<Rightarrow> core_db \<Rightarrow> version option" where
  "get_version version_id db = row_by v_id version_id (versions db)"

definition get_by_library :: "string \<Rightarrow> core_db \<Rightarrow> version option" where
  "get_by_library library_id db = row_by v_library_id library_id (versions db)"

definition list_by_product :: "string \<Rightarrow> core_db \<Rightarrow> version list" where
  "list_by_product product_id db =
     sort_key v_created_at (filter (\<lambda>v. v_product_id v = product_id) (versions db))"

definition latest_for_product :: "string \<Rightarrow> core_db \<Rightarrow> version option" where
  "latest_for_product product_id db =
     (case sort_key (\<lambda>v. - v_created_at v) (filter (\<lambda>v. v_product_id v = product_id) (versions db)) of
        [] \<Rightarrow> None | v # _ \<Rightarrow> Some v)"

definition get_product :: "string \<Rightarrow> core_db \<Rightarrow> product option" where
  "get_product product_id db = row_by p_id product_id (products db)"

definition list_products :: "core_db \<Rightarrow> product list" where
  "list_products db = sort_key (\<lambda>p. - p_created_at p) (products db)"

definition set_customer :: "string \<Rightarrow> string \<Rightarrow> core_db \<Rightarrow> bool \<times> core_db" where
  "set_customer product_id customer_id db =
     (rowcount (\<lambda>p. p_id p = product_id) (products db) > 0,
      db\<lparr>products := sql_update (\<lambda>p. p_id p = product_id) (\<lambda>p. p\<lparr>p_customer_id := customer_id\<rparr>) (products db)\<rparr>)"

definition delete_product_row :: "string \<Rightarrow> core_db \<Rightarrow> bool \<times> core_db" where
  "delete_product_row product_id db =
     (rowcount (\<lambda>p. p_id p = product_id) (products db) > 0,
      db\<lparr>products := sql_delete (\<lambda>p. p_id p = product_id) (products db)\<rparr>)"

subsection \<open>Creation\<close>

definition insert_version_locked ::
  "string \<Rightarrow> string \<Rightarrow> real \<Rightarrow> string \<Rightarrow> string \<Rightarrow> core_db \<Rightarrow> version_error + (version \<times> core_db)" where
  "insert_version_locked vid library_id now product_id label db =
     (if label = [] then Inl (VersionValueError ''version label must be non-empty'')
      else case create_library library_id now (''version:'' @ vid) (lib db) of
             (Inl _, _) \<Rightarrow> Inl VersionIntegrityError
           | (Inr _, lib1) \<Rightarrow>
               if vid \<in> v_id ` set (versions db) \<or> library_id \<in> v_library_id ` set (versions db) \<or>
                  (\<exists>v\<in>set (versions db). v_product_id v = product_id \<and> v_label v = label)
               then Inl DuplicateLabel
               else
                 let v = \<lparr>v_id = vid, v_product_id = product_id, v_label = label, v_library_id = library_id,
                          v_signed_off_by = None, v_signed_off_at = None, v_evidence_name = None,
                          v_evidence_type = None, v_check_dam = False, v_created_at = now\<rparr>
                 in Inr (v, db\<lparr>lib := lib1, versions := versions db @ [v]\<rparr>))"

text \<open>The transaction: commit, or leave the tables alone.\<close>

definition in_transaction :: "(core_db \<Rightarrow> version_error + ('a \<times> core_db)) \<Rightarrow> core_db \<Rightarrow> (version_error + 'a) \<times> core_db" where
  "in_transaction body db = (case body db of Inl e \<Rightarrow> (Inl e, db) | Inr (x, db') \<Rightarrow> (Inr x, db'))"

record fresh_ids =
  fi_product :: string
  fi_version :: string
  fi_library :: string
  fi_template :: "nat \<Rightarrow> string"

definition create_product ::
  "fresh_ids \<Rightarrow> real \<Rightarrow> string \<Rightarrow> string \<Rightarrow> string \<Rightarrow> core_db \<Rightarrow> (version_error + product \<times> version) \<times> core_db" where
  "create_product ids now name version_label customer_id =
     in_transaction (\<lambda>db.
       let label = py_strip version_label in
       if label = [] then Inl (VersionValueError ''version label must be non-empty'')
       else
         let p = \<lparr>p_id = fi_product ids, p_name = name, p_created_at = now,
                  p_customer_id = (if customer_id = [] then ''uncategorized'' else customer_id)\<rparr>
         in if p_id p \<in> p_id ` set (products db) then Inl VersionIntegrityError
            else case insert_version_locked (fi_version ids) (fi_library ids) now (p_id p) label
                        (db\<lparr>products := products db @ [p]\<rparr>) of
                   Inl e \<Rightarrow> Inl e
                 | Inr (v, db') \<Rightarrow> Inr ((p, v), db'))"

definition create_first ::
  "fresh_ids \<Rightarrow> real \<Rightarrow> string \<Rightarrow> string \<Rightarrow> core_db \<Rightarrow> (version_error + version) \<times> core_db" where
  "create_first ids now product_id label =
     in_transaction (insert_version_locked (fi_version ids) (fi_library ids) now product_id (py_strip label))"

text \<open>The three copies of the clone: class rows, templates under new ids, bindings with their
  lifecycle reset.\<close>

definition copy_classes :: "string \<Rightarrow> string \<Rightarrow> lib_db \<Rightarrow> lib_db" where
  "copy_classes src dst db =
     db\<lparr>classes := classes db @ map (\<lambda>c. c\<lparr>cl_library_id := dst\<rparr>) (filter (\<lambda>c. cl_library_id c = src) (classes db))\<rparr>"

definition copy_templates :: "(nat \<Rightarrow> string) \<Rightarrow> string \<Rightarrow> string \<Rightarrow> lib_db \<Rightarrow> lib_db" where
  "copy_templates tid src dst db =
     db\<lparr>templates := templates db @
          map (\<lambda>(n, t). t\<lparr>tr_id := tid n, tr_library_id := dst\<rparr>)
            (enumerate 0 (filter (\<lambda>t. tr_library_id t = src) (templates db)))\<rparr>"

definition cloned_binding :: "string \<Rightarrow> real \<Rightarrow> binding \<Rightarrow> binding" where
  "cloned_binding vid now b =
     b\<lparr>b_version_id := vid, b_status := Preprocessing, b_error := None, b_match_saved := False,
       b_parsed_at := None, b_primitive_count := None, b_bbox := None, b_background := None, b_created_at := now\<rparr>"

definition copy_bindings :: "string \<Rightarrow> string \<Rightarrow> real \<Rightarrow> file_db \<Rightarrow> file_db" where
  "copy_bindings src vid now db =
     db\<lparr>version_files := version_files db @
          map (cloned_binding vid now) (filter (\<lambda>b. b_version_id b = src) (version_files db))\<rparr>"

definition create_clone ::
  "fresh_ids \<Rightarrow> real \<Rightarrow> string \<Rightarrow> string \<Rightarrow> version \<Rightarrow> core_db \<Rightarrow> (version_error + version) \<times> core_db" where
  "create_clone ids now product_id label source =
     in_transaction (\<lambda>db.
       case insert_version_locked (fi_version ids) (fi_library ids) now product_id (py_strip label) db of
         Inl e \<Rightarrow> Inl e
       | Inr (ver, db1) \<Rightarrow>
           Inr (ver, db1\<lparr>lib := copy_templates (fi_template ids) (v_library_id source) (v_library_id ver)
                           (copy_classes (v_library_id source) (v_library_id ver) (lib db1)),
                         fdb := copy_bindings (v_id source) (v_id ver) now (fdb db1)\<rparr>))"

subsection \<open>Sign-off\<close>

definition update_version :: "string \<Rightarrow> (version \<Rightarrow> version) \<Rightarrow> core_db \<Rightarrow> core_db" where
  "update_version version_id f db = db\<lparr>versions := sql_update (\<lambda>v. v_id v = version_id) f (versions db)\<rparr>"

definition read_back :: "string \<Rightarrow> core_db \<Rightarrow> version_error + (version \<times> core_db)" where
  "read_back version_id db =
     (case get_version version_id db of Some v \<Rightarrow> Inr (v, db) | None \<Rightarrow> Inl (VersionKeyError version_id))"

definition sign_off ::
  "string \<Rightarrow> string \<Rightarrow> string option \<Rightarrow> string option \<Rightarrow> real \<Rightarrow> core_db \<Rightarrow> (version_error + version) \<times> core_db" where
  "sign_off version_id signer evidence_name evidence_type now =
     in_transaction (\<lambda>db.
       case get_version version_id db of
         None \<Rightarrow> Inl (VersionKeyError version_id)
       | Some row \<Rightarrow>
           (case v_signed_off_by row of
              Some who \<Rightarrow> Inl (SignedOff who (v_signed_off_at row))
            | None \<Rightarrow> read_back version_id
                (update_version version_id
                   (\<lambda>v. v\<lparr>v_signed_off_by := Some signer, v_signed_off_at := Some now,
                         v_evidence_name := evidence_name, v_evidence_type := evidence_type\<rparr>) db)))"

definition unsign :: "string \<Rightarrow> core_db \<Rightarrow> (version_error + version) \<times> core_db" where
  "unsign version_id =
     in_transaction (\<lambda>db.
       if rowcount (\<lambda>v. v_id v = version_id) (versions db) = 0 then Inl (VersionKeyError version_id)
       else read_back version_id
              (update_version version_id
                 (\<lambda>v. v\<lparr>v_signed_off_by := None, v_signed_off_at := None,
                       v_evidence_name := None, v_evidence_type := None\<rparr>) db))"

definition set_check_dam :: "string \<Rightarrow> bool \<Rightarrow> core_db \<Rightarrow> (version_error + version) \<times> core_db" where
  "set_check_dam version_id value =
     in_transaction (\<lambda>db.
       case get_version version_id db of
         None \<Rightarrow> Inl (VersionKeyError version_id)
       | Some row \<Rightarrow>
           (case v_signed_off_by row of
              Some who \<Rightarrow> Inl (SignedOff who (v_signed_off_at row))
            | None \<Rightarrow> read_back version_id (update_version version_id (\<lambda>v. v\<lparr>v_check_dam := value\<rparr>) db)))"

subsection \<open>Deletion with the product\<close>

definition delete_version_rows :: "version \<Rightarrow> core_db \<Rightarrow> core_db" where
  "delete_version_rows v db =
     db\<lparr>fdb := (fdb db)\<lparr>version_files := sql_delete (\<lambda>b. b_version_id b = v_id v) (version_files (fdb db))\<rparr>,
        versions := sql_delete (\<lambda>x. v_id x = v_id v) (versions db),
        lib := delete_library (v_library_id v) (lib db)\<rparr>"

definition delete_for_product :: "string \<Rightarrow> core_db \<Rightarrow> version list \<times> core_db" where
  "delete_for_product product_id db =
     (let vs = list_by_product product_id db in (vs, fold delete_version_rows vs db))"

subsection \<open>The invariant\<close>

text \<open>The deletion of a product takes several steps, and the row of the product goes last: D holds the
  products whose deletion has begun.  All others have a row exactly when they have a version.\<close>

definition core_wf :: "core_db \<Rightarrow> bool" where
  "core_wf db \<longleftrightarrow>
     distinct (map p_id (products db)) \<and> distinct (map v_id (versions db)) \<and>
     distinct (map v_library_id (versions db)) \<and>
     distinct (map (\<lambda>v. (v_product_id v, v_label v)) (versions db)) \<and>
     v_library_id ` set (versions db) \<subseteq> lb_id ` set (libraries (lib db)) \<and>
     cl_library_id ` set (classes (lib db)) \<subseteq> lb_id ` set (libraries (lib db)) \<and>
     tr_library_id ` set (templates (lib db)) \<subseteq> lb_id ` set (libraries (lib db)) \<and>
     b_version_id ` set (version_files (fdb db)) \<subseteq> v_id ` set (versions db) \<and>
     lib_wf (lib db)"

definition core_ok :: "string set \<Rightarrow> core_db \<Rightarrow> bool" where
  "core_ok D db \<longleftrightarrow> core_wf db \<and> p_id ` set (products db) \<subseteq> v_product_id ` set (versions db) \<union> D \<and>
     v_product_id ` set (versions db) \<subseteq> p_id ` set (products db) \<union> D"

abbreviation core_inv :: "core_db \<Rightarrow> bool" where
  "core_inv \<equiv> core_ok {}"

lemma core_inv_wf: "core_inv db \<longleftrightarrow> core_wf db \<and> v_product_id ` set (versions db) = p_id ` set (products db)"
  by (auto simp: core_ok_def)

lemma core_inv_def: "core_inv db \<longleftrightarrow>
     distinct (map p_id (products db)) \<and> distinct (map v_id (versions db)) \<and>
     distinct (map v_library_id (versions db)) \<and>
     distinct (map (\<lambda>v. (v_product_id v, v_label v)) (versions db)) \<and>
     v_product_id ` set (versions db) = p_id ` set (products db) \<and>
     v_library_id ` set (versions db) \<subseteq> lb_id ` set (libraries (lib db)) \<and>
     cl_library_id ` set (classes (lib db)) \<subseteq> lb_id ` set (libraries (lib db)) \<and>
     tr_library_id ` set (templates (lib db)) \<subseteq> lb_id ` set (libraries (lib db)) \<and>
     b_version_id ` set (version_files (fdb db)) \<subseteq> v_id ` set (versions db) \<and>
     lib_wf (lib db)"
  by (auto simp: core_inv_wf core_wf_def)

lemma core_ok_wf: "core_ok D db \<Longrightarrow> core_wf db"
  by (simp add: core_ok_def)

lemma in_transaction_Inl: "fst (in_transaction body db) = Inl e \<Longrightarrow> snd (in_transaction body db) = db"
  by (auto simp: in_transaction_def split: sum.splits prod.splits)

lemma in_transaction_Inr: "in_transaction body db = (Inr x, db') \<longleftrightarrow> body db = Inr (x, db')"
  by (auto simp: in_transaction_def split: sum.splits prod.splits)

lemma insert_version_Inr:
  assumes "insert_version_locked vid lid now pid label db = Inr (v, db')"
  shows "label \<noteq> [] \<and> lid \<notin> lb_id ` set (libraries (lib db)) \<and> vid \<notin> v_id ` set (versions db) \<and>
    lid \<notin> v_library_id ` set (versions db) \<and>
    (pid, label) \<notin> (\<lambda>v. (v_product_id v, v_label v)) ` set (versions db) \<and>
    v_id v = vid \<and> v_product_id v = pid \<and> v_label v = label \<and> v_library_id v = lid \<and> v_signed_off_by v = None \<and>
    db' = db\<lparr>lib := (lib db)\<lparr>libraries := libraries (lib db) @
        [\<lparr>lb_id = lid, lb_name = ''version:'' @ vid, lb_created_at = now, lb_revision = 0\<rparr>]\<rparr>,
       versions := versions db @ [v]\<rparr>"
  using assms by (auto simp: insert_version_locked_def create_library_def Let_def split: if_splits)

lemma lib_wf_new_library: "lib_wf db \<Longrightarrow> lb_id l \<notin> lb_id ` set (libraries db) \<Longrightarrow>
    lib_wf (db\<lparr>libraries := libraries db @ [l]\<rparr>)"
  by (simp add: lib_wf_def)

lemma core_wf_insert_version:
  assumes wf: "core_wf db" and "insert_version_locked vid lid now pid label db = Inr (v, db')"
  shows "core_wf db'"
proof -
  note I = insert_version_Inr[OF assms(2)]
  have "lib_wf (lib db')" using I wf by (auto simp: core_wf_def lib_wf_new_library)
  then show ?thesis using I wf by (auto simp: core_wf_def)
qed

lemma core_inv_insert_version:
  assumes "core_ok D db" "insert_version_locked vid lid now pid label db = Inr (v, db')"
    "pid \<in> p_id ` set (products db) \<union> D"
  shows "core_ok D db'"
  using core_wf_insert_version[OF core_ok_wf[OF assms(1)] assms(2)] insert_version_Inr[OF assms(2)] assms(1,3)
  by (auto simp: core_ok_def)

lemma create_product_inv: "core_ok D db \<Longrightarrow> core_ok D (snd (create_product ids now name label cust db))"
proof -
  assume inv: "core_ok D db"
  show ?thesis
  proof (cases "create_product ids now name label cust db")
    case (Pair r db')
    show ?thesis
    proof (cases r)
      case (Inl e)
      then have "fst (create_product ids now name label cust db) = Inl e" using Pair by simp
      then have "snd (create_product ids now name label cust db) = db"
        unfolding create_product_def by (rule in_transaction_Inl)
      then show ?thesis using inv by simp
    next
      case (Inr pv)
      obtain p v where pv: "pv = (p, v)" by (cases pv)
      have b: "p_id p \<notin> p_id ` set (products db)"
        "insert_version_locked (fi_version ids) (fi_library ids) now (p_id p) (py_strip label)
           (db\<lparr>products := products db @ [p]\<rparr>) = Inr (v, db')"
        using Pair[unfolded Inr pv create_product_def in_transaction_Inr]
        by (auto simp: Let_def split: if_splits sum.splits prod.splits)
      have "core_wf (db\<lparr>products := products db @ [p]\<rparr>)" using inv b(1) by (auto simp: core_ok_def core_wf_def)
      from core_wf_insert_version[OF this b(2)] insert_version_Inr[OF b(2)] inv have "core_ok D db'"
        by (auto simp: core_ok_def)
      then show ?thesis using Pair by simp
    qed
  qed
qed

lemma core_inv_update_version:
  assumes "core_ok D db" "\<And>v. v_id (f v) = v_id v \<and> v_product_id (f v) = v_product_id v \<and>
     v_label (f v) = v_label v \<and> v_library_id (f v) = v_library_id v"
  shows "core_ok D (update_version vid f db)"
proof -
  have m: "map g (versions (update_version vid f db)) = map g (versions db)" if "\<And>v. g (f v) = g v"
    for g :: "version \<Rightarrow> 'b"
    using that by (simp add: update_version_def map_sql_update)
  have s: "g ` set (versions (update_version vid f db)) = g ` set (versions db)" if "\<And>v. g (f v) = g v"
    for g :: "version \<Rightarrow> 'b"
    using m[of g, OF that] by (metis list.set_map)
  have o: "products (update_version vid f db) = products db" "lib (update_version vid f db) = lib db"
    "fdb (update_version vid f db) = fdb db" by (simp_all add: update_version_def)
  show ?thesis
    using assms(1) unfolding core_ok_def core_wf_def o
    by (simp add: m s assms(2))
qed

lemma read_back_Inr: "read_back vid db = Inr (v, db') \<Longrightarrow> db' = db \<and> get_version vid db = Some v"
  by (auto simp: read_back_def split: option.splits)

lemma sign_off_Inr:
  "sign_off vid who en et now db = (Inr v, db') \<Longrightarrow>
     (\<exists>row. get_version vid db = Some row \<and> v_signed_off_by row = None) \<and>
     db' = update_version vid (\<lambda>v. v\<lparr>v_signed_off_by := Some who, v_signed_off_at := Some now,
             v_evidence_name := en, v_evidence_type := et\<rparr>) db \<and> get_version vid db' = Some v"
  unfolding sign_off_def in_transaction_Inr by (auto dest: read_back_Inr split: option.splits)

lemma unsign_Inr:
  "unsign vid db = (Inr v, db') \<Longrightarrow>
     db' = update_version vid (\<lambda>v. v\<lparr>v_signed_off_by := None, v_signed_off_at := None,
             v_evidence_name := None, v_evidence_type := None\<rparr>) db \<and> get_version vid db' = Some v"
  unfolding unsign_def in_transaction_Inr by (auto dest: read_back_Inr split: if_splits)

lemma set_check_dam_Inr:
  "set_check_dam vid val db = (Inr v, db') \<Longrightarrow>
     (\<exists>row. get_version vid db = Some row \<and> v_signed_off_by row = None) \<and>
     db' = update_version vid (\<lambda>v. v\<lparr>v_check_dam := val\<rparr>) db \<and> get_version vid db' = Some v"
  unfolding set_check_dam_def in_transaction_Inr by (auto dest: read_back_Inr split: option.splits)

text \<open>Whatever a transaction returns, the error leaves the tables and the success is one of the above.\<close>

lemma transaction_cases:
  assumes "\<And>e. fst (op db) = Inl e \<Longrightarrow> snd (op db) = db" "P db" "\<And>v db'. op db = (Inr v, db') \<Longrightarrow> P db'"
  shows "P (snd (op db))"
  using assms by (cases "op db"; cases "fst (op db)") auto

lemma sign_off_inv: "core_ok D db \<Longrightarrow> core_ok D (snd (sign_off vid who en et now db))"
  by (rule transaction_cases[where op = "sign_off vid who en et now"])
     (auto simp: sign_off_def[abs_def] intro: in_transaction_Inl dest: sign_off_Inr[unfolded sign_off_def]
       intro!: core_inv_update_version)

lemma unsign_inv: "core_ok D db \<Longrightarrow> core_ok D (snd (unsign vid db))"
  by (rule transaction_cases[where op = "unsign vid"])
     (auto simp: unsign_def[abs_def] intro: in_transaction_Inl dest: unsign_Inr[unfolded unsign_def]
       intro!: core_inv_update_version)

lemma set_check_dam_inv: "core_ok D db \<Longrightarrow> core_ok D (snd (set_check_dam vid val db))"
  by (rule transaction_cases[where op = "set_check_dam vid val"])
     (auto simp: set_check_dam_def[abs_def] intro: in_transaction_Inl dest: set_check_dam_Inr[unfolded set_check_dam_def]
       intro!: core_inv_update_version)

lemma set_customer_inv: "core_ok D db \<Longrightarrow> core_ok D (snd (set_customer pid cid db))"
proof -
  assume inv: "core_ok D db"
  let ?ps = "sql_update (\<lambda>p. p_id p = pid) (\<lambda>p. p\<lparr>p_customer_id := cid\<rparr>) (products db)"
  have "map p_id ?ps = map p_id (products db)" by (rule map_sql_update) simp
  then have "distinct (map p_id ?ps)" "p_id ` set ?ps = p_id ` set (products db)"
    using inv by (simp_all add: core_ok_def core_wf_def) (metis list.set_map)
  then show ?thesis using inv by (simp add: core_ok_def core_wf_def set_customer_def)
qed

subsection \<open>The clone\<close>

text \<open>The ids the clone draws for its template rows are new.\<close>

definition fresh_templates :: "(nat \<Rightarrow> string) \<Rightarrow> core_db \<Rightarrow> bool" where
  "fresh_templates tid db \<longleftrightarrow> inj tid \<and> range tid \<inter> tr_id ` set (templates (lib db)) = {}"

lemma lib_wf_extend:
  assumes "lib_wf db" "distinct (map class_key nc)" "class_key ` set nc \<inter> class_key ` set (classes db) = {}"
    "distinct (map tr_id nt)" "tr_id ` set nt \<inter> tr_id ` set (templates db) = {}"
    "\<forall>t\<in>set nt. (tr_library_id t, tr_class_name t) \<in> class_key ` set nc" "\<forall>c\<in>set nc. cl_strategy c \<noteq> []"
  shows "lib_wf (db\<lparr>classes := classes db @ nc, templates := templates db @ nt\<rparr>)"
proof -
  have "distinct (map class_key (classes db @ nc))" using assms(1-3) by (simp add: lib_wf_def Int_commute)
  moreover have "distinct (map tr_id (templates db @ nt))" using assms(1,4,5) by (simp add: lib_wf_def Int_commute)
  moreover have "\<forall>t\<in>set (templates db @ nt). (tr_library_id t, tr_class_name t) \<in> class_key ` set (classes db @ nc)"
    using assms(1,6) by (auto simp: lib_wf_def image_Un)
  ultimately show ?thesis using assms(1,7) by (auto simp: lib_wf_def)
qed

lemma lib_wf_clone:
  assumes wf: "lib_wf db" and inj: "inj tid" "range tid \<inter> tr_id ` set (templates db) = {}"
    and new: "dst \<notin> cl_library_id ` set (classes db)"
  shows "lib_wf (copy_templates tid src dst (copy_classes src dst db))"
proof -
  let ?cs = "filter (\<lambda>c. cl_library_id c = src) (classes db)"
  let ?ts = "filter (\<lambda>t. tr_library_id t = src) (templates db)"
  let ?nc = "map (\<lambda>c. c\<lparr>cl_library_id := dst\<rparr>) ?cs"
  let ?nt = "map (\<lambda>(n, t). t\<lparr>tr_id := tid n, tr_library_id := dst\<rparr>) (enumerate 0 ?ts)"
  have kc: "map class_key ?nc = map (\<lambda>c. (dst, cl_name c)) ?cs" by (simp add: class_key_def)
  have "distinct (map class_key ?cs)" using wf by (auto simp: lib_wf_def intro: distinct_map_filter)
  then have dc: "distinct (map class_key ?nc)"
    unfolding kc by (auto simp: distinct_map inj_on_def class_key_def)
  have dc2: "class_key ` set ?nc \<inter> class_key ` set (classes db) = {}"
    using new by (auto simp: class_key_def)
  have kt: "map tr_id ?nt = map tid [0..<length ?ts]"
  proof -
    have "map tr_id ?nt = map tid (map fst (enumerate 0 ?ts))" by (simp add: case_prod_beta comp_def del: map_fst_enumerate)
    then show ?thesis by (simp only: map_fst_enumerate add_0)
  qed
  have dt: "distinct (map tr_id ?nt)" unfolding kt using inj(1) by (auto simp: distinct_map intro: inj_on_subset)
  have "tr_id ` set ?nt \<subseteq> range tid" using kt by (metis image_subset_iff list.set_map rangeI)
  then have dt2: "tr_id ` set ?nt \<inter> tr_id ` set (templates db) = {}" using inj(2) by blast
  have in_clone_key: "(dst, c) \<in> class_key ` set ?nc" if "(src, c) \<in> class_key ` set (classes db)" for c
  proof -
    from that obtain r where r: "r \<in> set (classes db)" "class_key r = (src, c)" by auto
    then have "r\<lparr>cl_library_id := dst\<rparr> \<in> set ?nc" by (auto simp: class_key_def)
    moreover have "class_key (r\<lparr>cl_library_id := dst\<rparr>) = (dst, c)" using r(2) by (simp add: class_key_def)
    ultimately show ?thesis by (metis image_eqI)
  qed
  have ref: "\<forall>t\<in>set ?nt. (tr_library_id t, tr_class_name t) \<in> class_key ` set ?nc"
  proof
    fix t assume "t \<in> set ?nt"
    then obtain n t0 where nt: "(n, t0) \<in> set (enumerate 0 ?ts)" "t = t0\<lparr>tr_id := tid n, tr_library_id := dst\<rparr>" by auto
    have "t0 \<in> set (map snd (enumerate 0 ?ts))" using imageI[OF nt(1), of snd] by (simp only: set_map snd_conv)
    then have t0: "t0 \<in> set ?ts" "tr_library_id t = dst" "tr_class_name t = tr_class_name t0"
      using nt(2) by (simp_all del: set_filter)
    then have "(src, tr_class_name t0) \<in> class_key ` set (classes db)" using wf by (auto simp: lib_wf_def)
    then show "(tr_library_id t, tr_class_name t) \<in> class_key ` set ?nc"
      using t0 in_clone_key by simp
  qed
  have st: "\<forall>c\<in>set ?nc. cl_strategy c \<noteq> []" using wf by (auto simp: lib_wf_def)
  show ?thesis
    using lib_wf_extend[OF wf dc dc2 dt dt2 ref st] by (simp add: copy_templates_def copy_classes_def)
qed

lemma class_rows_clone:
  assumes "dst \<notin> cl_library_id ` set (classes db)"
  shows "library_class_rows dst (copy_templates tid src dst (copy_classes src dst db)) =
    map (\<lambda>c. c\<lparr>cl_library_id := dst\<rparr>) (library_class_rows src db)"
proof -
  have "filter (\<lambda>c. cl_library_id c = dst) (classes db) = []" using assms by (auto simp: filter_empty_conv)
  then show ?thesis
    by (simp add: library_class_rows_def copy_templates_def copy_classes_def filter_map comp_def sort_key_map)
qed

definition template_content :: "template \<Rightarrow> template" where
  "template_content t = t\<lparr>t_id := []\<rparr>"

lemma sort_key_enumerate:
  fixes k :: "'a \<Rightarrow> 'b::linorder"
  shows "map snd (sort_key (\<lambda>x. k (snd x)) (enumerate n xs)) = sort_key k xs"
  by (metis sort_key_map map_snd_enumerate)

lemma template_rows_clone:
  fixes tid :: "nat \<Rightarrow> string" and src :: string
  assumes "dst \<notin> tr_library_id ` set (templates db)"
  defines "new \<equiv> library_template_rows dst (copy_templates tid src dst (copy_classes src dst db))"
  shows "map (\<lambda>t. (tr_class_name t, template_content (template_of_row t))) new =
    map (\<lambda>t. (tr_class_name t, template_content (template_of_row t))) (library_template_rows src db)"
proof -
  let ?ts = "filter (\<lambda>t. tr_library_id t = src) (templates db)"
  let ?g = "\<lambda>t. (tr_class_name t, template_content (template_of_row t))"
  have "filter (\<lambda>c. tr_library_id c = dst) (templates db) = []" using assms by (auto simp: filter_empty_conv)
  then have n: "new = map (\<lambda>(n, t). t\<lparr>tr_id := tid n, tr_library_id := dst\<rparr>)
      (sort_key (\<lambda>x. tr_created_at (snd x)) (enumerate 0 ?ts))"
    by (simp add: new_def library_template_rows_def copy_templates_def copy_classes_def filter_map comp_def
        sort_key_map case_prod_beta)
  have "map ?g new = map ?g (map snd (sort_key (\<lambda>x. tr_created_at (snd x)) (enumerate 0 ?ts)))"
    by (auto simp: n template_content_def template_of_row_def split: option.split)
  then show ?thesis by (simp only: sort_key_enumerate library_template_rows_def)
qed

lemma filter_by_class:
  fixes xs ys :: "template_row list"
  assumes "map (\<lambda>t. (tr_class_name t, f t)) xs = map (\<lambda>t. (tr_class_name t, f t)) ys"
  shows "map f (filter (\<lambda>t. tr_class_name t = c) xs) = map f (filter (\<lambda>t. tr_class_name t = c) ys)"
proof -
  have "map f (filter (\<lambda>t. tr_class_name t = c) xs) =
      map snd (filter (\<lambda>p. fst p = c) (map (\<lambda>t. (tr_class_name t, f t)) xs))" for xs :: "template_row list"
    by (simp add: filter_map comp_def)
  then show ?thesis using assms by metis
qed

text \<open>What a library holds, up to the template ids.\<close>

definition library_content ::
  "string \<Rightarrow> lib_db \<Rightarrow> class_name list \<times> (class_name, match_config) dict \<times> (class_name, template list) dict" where
  "library_content lid db =
     (case load_library lid db of (names, cfgs, ts) \<Rightarrow> (names, cfgs, map (\<lambda>(c, l). (c, map template_content l)) ts))"

lemma library_content_clone:
  assumes wf: "lib_wf db" and wf': "lib_wf (copy_templates tid src dst (copy_classes src dst db))"
    and new: "dst \<notin> cl_library_id ` set (classes db)" "dst \<notin> tr_library_id ` set (templates db)"
  shows "library_content dst (copy_templates tid src dst (copy_classes src dst db)) = library_content src db"
proof -
  let ?db' = "copy_templates tid src dst (copy_classes src dst db)"
  have t: "map template_content (map template_of_row (filter (\<lambda>t. tr_class_name t = c) (library_template_rows dst ?db'))) =
      map template_content (map template_of_row (filter (\<lambda>t. tr_class_name t = c) (library_template_rows src db)))" for c
    using filter_by_class[OF template_rows_clone[OF new(2), of tid src], of c] by (simp add: comp_def)
  have split: "library_content lid d = (fst (load_library lid d), fst (snd (load_library lid d)),
      map (\<lambda>(c, l). (c, map template_content l)) (snd (snd (load_library lid d))))" for lid d
    by (simp add: library_content_def case_prod_beta)
  show ?thesis
    unfolding split load_templates[OF wf] load_templates[OF wf']
    using t by (simp add: load_library_def Let_def class_rows_clone[OF new(1)] comp_def)
qed

lemma clone_other_library:
  assumes "lid \<noteq> dst"
  shows "load_library lid (copy_templates tid src dst (copy_classes src dst db)) = load_library lid db"
proof -
  have "filter (\<lambda>t. tr_library_id t = lid) (map (\<lambda>(n, t). t\<lparr>tr_id := tid n, tr_library_id := dst\<rparr>) xs) = []"
    "filter (\<lambda>c. cl_library_id c = lid) (map (\<lambda>c. c\<lparr>cl_library_id := dst\<rparr>) ys) = []"
    for xs :: "(nat \<times> template_row) list" and ys :: "class_row list"
    using assms by (auto simp: filter_empty_conv)
  then show ?thesis
    by (simp add: load_library_def library_class_rows_def library_template_rows_def copy_templates_def copy_classes_def)
qed

lemma create_clone_Inr:
  assumes "create_clone ids now pid label src db = (Inr v, db')"
  obtains db1 where "insert_version_locked (fi_version ids) (fi_library ids) now pid (py_strip label) db = Inr (v, db1)"
    "db' = db1\<lparr>lib := copy_templates (fi_template ids) (v_library_id src) (v_library_id v)
         (copy_classes (v_library_id src) (v_library_id v) (lib db1)),
        fdb := copy_bindings (v_id src) (v_id v) now (fdb db1)\<rparr>"
  using assms unfolding create_clone_def in_transaction_Inr by (auto split: sum.splits prod.splits)

lemma load_new_library: "load_library lid (db\<lparr>libraries := ls\<rparr>) = load_library lid db"
  by (simp add: load_library_def library_class_rows_def library_template_rows_def)

lemma create_clone_wf:
  assumes "core_wf db" "fresh_templates (fi_template ids) db" "src \<in> set (versions db)"
    and "create_clone ids now pid label src db = (Inr v, db')"
  shows "lib_wf (lib db')"
proof -
  obtain db1 where 1: "insert_version_locked (fi_version ids) (fi_library ids) now pid (py_strip label) db = Inr (v, db1)"
    and 2: "db' = db1\<lparr>lib := copy_templates (fi_template ids) (v_library_id src) (v_library_id v)
         (copy_classes (v_library_id src) (v_library_id v) (lib db1)),
        fdb := copy_bindings (v_id src) (v_id v) now (fdb db1)\<rparr>"
    using create_clone_Inr[OF assms(4)] by blast
  note I = insert_version_Inr[OF 1]
  have wf: "lib_wf (lib db)" using assms(1) by (simp add: core_wf_def)
  have "lib_wf (lib db1)" "templates (lib db1) = templates (lib db)"
    using lib_wf_new_library[OF wf] I by simp_all
  moreover have "v_library_id v \<notin> cl_library_id ` set (classes (lib db1))"
    using assms(1) I by (auto simp: core_wf_def)
  ultimately show ?thesis
    unfolding 2 using lib_wf_clone[of "lib db1"] assms(2) by (simp add: fresh_templates_def)
qed

lemma create_clone_copies:
  assumes "core_inv db" "fresh_templates (fi_template ids) db" "src \<in> set (versions db)"
    and "create_clone ids now pid label src db = (Inr v, db')"
  shows "(pid, v_label v) \<notin> (\<lambda>v. (v_product_id v, v_label v)) ` set (versions db) \<and>
    versions db' = versions db @ [v] \<and> v_product_id v = pid \<and> \<not> is_signed_off v \<and>
    v_library_id v \<notin> v_library_id ` set (versions db) \<and>
    library_content (v_library_id v) (lib db') = library_content (v_library_id src) (lib db) \<and>
    (\<forall>lid. lid \<noteq> v_library_id v \<longrightarrow> load_library lid (lib db') = load_library lid (lib db)) \<and>
    version_files (fdb db') = version_files (fdb db) @
      map (cloned_binding (v_id v) now) (filter (\<lambda>b. b_version_id b = v_id src) (version_files (fdb db))) \<and>
    lib_wf (lib db')"
proof -
  obtain db1 where 1: "insert_version_locked (fi_version ids) (fi_library ids) now pid (py_strip label) db = Inr (v, db1)"
    and 2: "db' = db1\<lparr>lib := copy_templates (fi_template ids) (v_library_id src) (v_library_id v)
         (copy_classes (v_library_id src) (v_library_id v) (lib db1)),
        fdb := copy_bindings (v_id src) (v_id v) now (fdb db1)\<rparr>"
    using create_clone_Inr[OF assms(4)] by blast
  note I = insert_version_Inr[OF 1]
  let ?L = "\<lparr>lb_id = fi_library ids, lb_name = ''version:'' @ fi_version ids, lb_created_at = now, lb_revision = 0\<rparr>"
  have db1: "db1 = db\<lparr>lib := (lib db)\<lparr>libraries := libraries (lib db) @ [?L]\<rparr>, versions := versions db @ [v]\<rparr>"
    and lid: "v_library_id v = fi_library ids" "fi_library ids \<notin> lb_id ` set (libraries (lib db))"
    using I by simp_all
  have wf: "lib_wf (lib db)" using assms(1) by (simp add: core_inv_def)
  have wf1: "lib_wf (lib db1)" using lib_wf_new_library[OF wf, of ?L] lid by (simp add: db1)
  have new: "v_library_id v \<notin> cl_library_id ` set (classes (lib db1))" "v_library_id v \<notin> tr_library_id ` set (templates (lib db1))"
    using assms(1) lid by (auto simp: core_inv_def db1)
  have wf2: "lib_wf (lib db')" by (rule create_clone_wf[OF core_ok_wf[OF assms(1)] assms(2-4)])
  have c: "library_content (v_library_id v) (lib db') = library_content (v_library_id src) (lib db1)"
    using library_content_clone[OF wf1 _ new] wf2 by (simp add: 2)
  have same: "load_library l (lib db1) = load_library l (lib db)" for l by (simp add: db1 load_new_library)
  have o: "load_library l (lib db') = load_library l (lib db)" if "l \<noteq> v_library_id v" for l
    using clone_other_library[OF that] by (simp add: 2 same)
  have "library_content (v_library_id src) (lib db1) = library_content (v_library_id src) (lib db)"
    by (simp add: library_content_def same)
  then show ?thesis
    using I c o wf2 by (simp add: 2 copy_bindings_def is_signed_off_def db1)
qed

text \<open>C25. A clone is a faithful, independent copy: it succeeds only under a label the product does
  not have yet, the new version owns a new library with the source's classes, configurations and
  templates (under new ids) and the source's bindings with their operator choices and a reset
  lifecycle, it is not signed off, and no existing version, library or binding changes.\<close>

theorem clone_copies_content:
  assumes "core_inv db" "fresh_templates (fi_template ids) db" "src \<in> set (versions db)"
    and "create_clone ids now pid label src db = (Inr v, db')"
  shows "(pid, v_label v) \<notin> (\<lambda>v. (v_product_id v, v_label v)) ` set (versions db) \<and>
    versions db' = versions db @ [v] \<and> v_product_id v = pid \<and> \<not> is_signed_off v \<and>
    v_library_id v \<notin> v_library_id ` set (versions db) \<and>
    library_content (v_library_id v) (lib db') = library_content (v_library_id src) (lib db) \<and>
    (\<forall>lid. lid \<noteq> v_library_id v \<longrightarrow> load_library lid (lib db') = load_library lid (lib db)) \<and>
    version_files (fdb db') = version_files (fdb db) @
      map (cloned_binding (v_id v) now) (filter (\<lambda>b. b_version_id b = v_id src) (version_files (fdb db))) \<and>
    lib_wf (lib db')"
  by (rule create_clone_copies[OF assms])

definition first_ids :: fresh_ids where
  "first_ids = \<lparr>fi_product = ''p'', fi_version = ''v1'', fi_library = ''l1'', fi_template = (\<lambda>n. ''t'' @ str_of_nat n)\<rparr>"

definition second_ids :: fresh_ids where
  "second_ids = \<lparr>fi_product = [], fi_version = ''v2'', fi_library = ''l2'', fi_template = (\<lambda>n. ''s'' @ str_of_nat n)\<rparr>"

definition empty_core :: core_db where
  "empty_core = \<lparr>products = [], versions = [], lib = empty_lib_db, fdb = \<lparr>files = [], version_files = []\<rparr>\<rparr>"

definition one_product :: core_db where
  "one_product = snd (create_product first_ids 1 ''chip'' ''A'' [] empty_core)"

lemma empty_core_inv: "core_inv empty_core"
  by (simp add: core_inv_def empty_core_def lib_wf_def empty_lib_db_def)

lemma one_product_inv: "core_inv one_product"
  unfolding one_product_def by (rule create_product_inv[OF empty_core_inv])

lemma strip_letters [simp]: "py_strip ''A'' = ''A''" "py_strip ''B'' = ''B''"
  by (simp_all add: py_strip_def py_is_space_def)

definition first_version :: version where
  "first_version = \<lparr>v_id = ''v1'', v_product_id = ''p'', v_label = ''A'', v_library_id = ''l1'',
     v_signed_off_by = None, v_signed_off_at = None, v_evidence_name = None, v_evidence_type = None,
     v_check_dam = False, v_created_at = 1\<rparr>"

lemma one_product_simps:
  "versions one_product = [first_version]" "templates (lib one_product) = []" "classes (lib one_product) = []"
  "map lb_id (libraries (lib one_product)) = [''l1'']" "products one_product = [\<lparr>p_id = ''p'', p_name = ''chip'', p_created_at = 1, p_customer_id = ''uncategorized''\<rparr>]"
  "version_files (fdb one_product) = []"
  by (simp_all add: one_product_def create_product_def in_transaction_def first_ids_def empty_core_def
      insert_version_locked_def create_library_def empty_lib_db_def first_version_def Let_def)

lemma one_product_clones:
  "\<exists>v db'. create_clone second_ids 5 ''p'' ''B'' first_version one_product = (Inr v, db')"
proof -
  have "set (map lb_id (libraries (lib one_product))) = {''l1''}" by (simp only: one_product_simps) simp
  then have l: "''l2'' \<notin> lb_id ` set (libraries (lib one_product))" by (simp only: set_map) simp
  then show ?thesis by (simp add: create_clone_def in_transaction_def insert_version_locked_def create_library_def
        second_ids_def one_product_simps first_version_def Let_def)
qed

lemma clone_copies_content_witness:
  "\<exists>v db'. create_clone second_ids 5 ''p'' ''B'' first_version one_product = (Inr v, db') \<and>
     library_content (v_library_id v) (lib db') = library_content ''l1'' (lib one_product)"
proof -
  have f: "fresh_templates (fi_template second_ids) one_product"
    by (auto simp: fresh_templates_def one_product_simps second_ids_def inj_def)
  obtain v db' where c: "create_clone second_ids 5 ''p'' ''B'' first_version one_product = (Inr v, db')"
    using one_product_clones by blast
  have "first_version \<in> set (versions one_product)" by (simp add: one_product_simps)
  from clone_copies_content[OF one_product_inv f this c] show ?thesis
    using c by (auto simp: first_version_def)
qed

lemma create_clone_inv:
  assumes "core_ok D db" "fresh_templates (fi_template ids) db" "src \<in> set (versions db)" "v_product_id src = pid"
  shows "core_ok D (snd (create_clone ids now pid label src db))"
proof (cases "create_clone ids now pid label src db")
  case (Pair r db')
  show ?thesis
  proof (cases r)
    case (Inl e)
    then have "snd (create_clone ids now pid label src db) = db"
      using Pair unfolding create_clone_def by (intro in_transaction_Inl) auto
    then show ?thesis using assms(1) by simp
  next
    case (Inr v)
    have cl: "create_clone ids now pid label src db = (Inr v, db')" using Pair Inr by simp
    obtain db1 where 1: "insert_version_locked (fi_version ids) (fi_library ids) now pid (py_strip label) db = Inr (v, db1)"
      and 2: "db' = db1\<lparr>lib := copy_templates (fi_template ids) (v_library_id src) (v_library_id v)
         (copy_classes (v_library_id src) (v_library_id v) (lib db1)),
        fdb := copy_bindings (v_id src) (v_id v) now (fdb db1)\<rparr>"
      using create_clone_Inr[OF cl] by blast
    have p: "pid \<in> p_id ` set (products db) \<union> D" using assms(1,3,4) by (auto simp: core_ok_def)
    have inv1: "core_ok D db1" by (rule core_inv_insert_version[OF assms(1) 1 p])
    have wf: "lib_wf (lib db')" using create_clone_wf[OF core_ok_wf[OF assms(1)] assms(2,3) cl] .
    have v: "v_library_id v \<in> lb_id ` set (libraries (lib db1))" "v_id v \<in> v_id ` set (versions db1)"
      using insert_version_Inr[OF 1] by auto
    have s: "libraries (lib db') = libraries (lib db1)" "versions db' = versions db1" "products db' = products db1"
      "cl_library_id ` set (classes (lib db')) \<subseteq> cl_library_id ` set (classes (lib db1)) \<union> {v_library_id v}"
      "tr_library_id ` set (templates (lib db')) \<subseteq> tr_library_id ` set (templates (lib db1)) \<union> {v_library_id v}"
      "b_version_id ` set (version_files (fdb db')) \<subseteq> b_version_id ` set (version_files (fdb db1)) \<union> {v_id v}"
      unfolding 2 by (auto simp: copy_templates_def copy_classes_def copy_bindings_def cloned_binding_def)
    have w: "core_wf db1" by (rule core_ok_wf[OF inv1])
    have i: "cl_library_id ` set (classes (lib db1)) \<subseteq> lb_id ` set (libraries (lib db1))"
      "tr_library_id ` set (templates (lib db1)) \<subseteq> lb_id ` set (libraries (lib db1))"
      "b_version_id ` set (version_files (fdb db1)) \<subseteq> v_id ` set (versions db1)"
      using w by (simp_all only: core_wf_def)
    have "cl_library_id ` set (classes (lib db')) \<subseteq> lb_id ` set (libraries (lib db'))"
      "tr_library_id ` set (templates (lib db')) \<subseteq> lb_id ` set (libraries (lib db'))"
      "b_version_id ` set (version_files (fdb db')) \<subseteq> v_id ` set (versions db')"
      unfolding s(1-3) using subset_trans[OF s(4)] subset_trans[OF s(5)] subset_trans[OF s(6)] i v by simp_all
    then have "core_wf db'" using w wf unfolding core_wf_def s(1-3) by simp
    then have "core_ok D db'" using inv1 by (simp add: core_ok_def s)
    then show ?thesis by (simp add: Pair)
  qed
qed

text \<open>Deleting one version of a well-formed database.\<close>

lemma lib_wf_delete_library: "lib_wf db \<Longrightarrow> lib_wf (delete_library l db)"
proof (cases "l \<in> lb_id ` set (libraries db)")
  case True
  assume wf: "lib_wf db"
  have "\<forall>t\<in>set (sql_delete (\<lambda>t. tr_library_id t = l) (templates db)).
      (tr_library_id t, tr_class_name t) \<in> class_key ` set (sql_delete (\<lambda>c. cl_library_id c = l) (classes db))"
  proof
    fix t assume t: "t \<in> set (sql_delete (\<lambda>t. tr_library_id t = l) (templates db))"
    then have "(tr_library_id t, tr_class_name t) \<in> class_key ` set (classes db)"
      using wf by (simp add: lib_wf_def sql_delete_def)
    then obtain c where c: "c \<in> set (classes db)" "class_key c = (tr_library_id t, tr_class_name t)" by force
    then have "c \<in> set (sql_delete (\<lambda>c. cl_library_id c = l) (classes db))"
      using t by (auto simp: sql_delete_def class_key_def)
    then show "(tr_library_id t, tr_class_name t) \<in> class_key ` set (sql_delete (\<lambda>c. cl_library_id c = l) (classes db))"
      using c(2) by (metis image_eqI)
  qed
  then show ?thesis
    using True wf by (simp add: delete_library_def lib_wf_def distinct_sql_delete)
qed (simp add: delete_library_def)

lemma delete_version_rows_wf:
  assumes wf: "core_wf db" and v: "v \<in> set (versions db)"
  shows "core_wf (delete_version_rows v db)" "products (delete_version_rows v db) = products db"
    "versions (delete_version_rows v db) = filter (\<lambda>x. x \<noteq> v) (versions db)"
proof -
  let ?db = "delete_version_rows v db"
  have inj: "inj_on v_id (set (versions db))" "inj_on v_library_id (set (versions db))"
    using wf by (simp_all add: core_wf_def distinct_map)
  show vs: "versions ?db = filter (\<lambda>x. x \<noteq> v) (versions db)"
    using inj(1) v by (auto simp: delete_version_rows_def sql_delete_def inj_on_def intro!: filter_cong)
  show "products ?db = products db" by (simp add: delete_version_rows_def)
  have L: "v_library_id v \<in> lb_id ` set (libraries (lib db))" using wf v by (auto simp: core_wf_def)
  have other: "v_library_id x \<noteq> v_library_id v" if "x \<in> set (versions ?db)" for x
    using that inj(2) v by (auto simp: vs inj_on_def)
  have sub: "v_library_id ` set (versions db) \<subseteq> lb_id ` set (libraries (lib db))"
    "cl_library_id ` set (classes (lib db)) \<subseteq> lb_id ` set (libraries (lib db))"
    "tr_library_id ` set (templates (lib db)) \<subseteq> lb_id ` set (libraries (lib db))"
    "b_version_id ` set (version_files (fdb db)) \<subseteq> v_id ` set (versions db)"
    using wf by (simp_all only: core_wf_def)
  have libs: "lb_id ` set (libraries (lib ?db)) = lb_id ` set (libraries (lib db)) - {v_library_id v}"
    using L by (auto simp: delete_version_rows_def delete_library_def sql_delete_def)
  have 1: "v_library_id ` set (versions ?db) \<subseteq> lb_id ` set (libraries (lib ?db))"
    using sub(1) other unfolding libs by (auto simp: vs)
  have 2: "cl_library_id ` set (classes (lib ?db)) \<subseteq> lb_id ` set (libraries (lib ?db))"
    "tr_library_id ` set (templates (lib ?db)) \<subseteq> lb_id ` set (libraries (lib ?db))"
    using sub(2,3) L unfolding libs by (auto simp: delete_version_rows_def delete_library_def sql_delete_def)
  have 3: "b_version_id ` set (version_files (fdb ?db)) \<subseteq> v_id ` set (versions ?db)"
  proof
    fix i assume "i \<in> b_version_id ` set (version_files (fdb ?db))"
    then have i: "i \<in> b_version_id ` set (version_files (fdb db))" "i \<noteq> v_id v"
      by (auto simp: delete_version_rows_def sql_delete_def)
    then obtain x where "x \<in> set (versions db)" "i = v_id x" using sub(4) by blast
    then show "i \<in> v_id ` set (versions ?db)" using i(2) by (auto simp: vs)
  qed
  have 4: "lib_wf (lib ?db)" using wf by (simp add: core_wf_def delete_version_rows_def lib_wf_delete_library)
  show "core_wf ?db"
    using wf 1 2 3 4 unfolding core_wf_def vs
    by (simp add: delete_version_rows_def distinct_map_filter)
qed

lemma delete_versions_wf:
  assumes "core_wf db" "distinct vs" "set vs \<subseteq> set (versions db)"
  shows "core_wf (fold delete_version_rows vs db) \<and> products (fold delete_version_rows vs db) = products db \<and>
    versions (fold delete_version_rows vs db) = filter (\<lambda>x. x \<notin> set vs) (versions db)"
  using assms
proof (induction vs arbitrary: db)
  case (Cons v vs)
  note s = delete_version_rows_wf[OF Cons.prems(1), of v]
  have "set vs \<subseteq> set (versions (delete_version_rows v db))" using Cons.prems s(3) by auto
  then show ?case using Cons.IH[of "delete_version_rows v db"] Cons.prems s
    by (auto intro!: filter_cong)
qed simp

lemma delete_for_product_wf:
  assumes "core_wf db"
  shows "core_wf (snd (delete_for_product pid db))" "products (snd (delete_for_product pid db)) = products db"
    "versions (snd (delete_for_product pid db)) = filter (\<lambda>v. v_product_id v \<noteq> pid) (versions db)"
proof -
  let ?vs = "list_by_product pid db"
  have d: "distinct ?vs" using assms by (auto simp: list_by_product_def core_wf_def distinct_map)
  have s: "set ?vs = {v \<in> set (versions db). v_product_id v = pid}" by (auto simp: list_by_product_def)
  show "core_wf (snd (delete_for_product pid db))" "products (snd (delete_for_product pid db)) = products db"
    "versions (snd (delete_for_product pid db)) = filter (\<lambda>v. v_product_id v \<noteq> pid) (versions db)"
    using delete_versions_wf[OF assms d] s by (auto simp: delete_for_product_def Let_def intro!: filter_cong)
qed

lemma core_wf_products: "core_wf db \<Longrightarrow> core_wf (snd (delete_product_row pid db))"
  unfolding core_wf_def delete_product_row_def by (simp add: distinct_sql_delete)

lemma delete_for_product_ok: "core_ok D db \<Longrightarrow> core_ok (insert pid D) (snd (delete_for_product pid db))"
  using delete_for_product_wf[OF core_ok_wf, of D db pid] by (auto simp: core_ok_def)

lemma delete_product_row_ok: "core_ok D db \<Longrightarrow> pid \<in> D \<Longrightarrow> core_ok D (snd (delete_product_row pid db))"
proof -
  assume ok: "core_ok D db" and D: "pid \<in> D"
  have p: "p_id ` set (products (snd (delete_product_row pid db))) = p_id ` set (products db) - {pid}"
    "versions (snd (delete_product_row pid db)) = versions db"
    by (auto simp: delete_product_row_def sql_delete_def)
  show ?thesis using core_wf_products[OF core_ok_wf[OF ok], of pid] ok D unfolding core_ok_def p by blast
qed

text \<open>The two deletions without anything between them leave a consistent database.\<close>

lemma delete_product_rows:
  assumes "core_inv db" "db' = snd (delete_product_row pid (snd (delete_for_product pid db)))"
  shows "core_inv db'" "versions db' = filter (\<lambda>v. v_product_id v \<noteq> pid) (versions db)"
    "p_id ` set (products db') = p_id ` set (products db) - {pid}"
proof -
  note f = delete_for_product_wf[OF core_ok_wf[OF assms(1)], of pid]
  have w: "core_wf db'" unfolding assms(2) by (rule core_wf_products[OF f(1)])
  show v: "versions db' = filter (\<lambda>v. v_product_id v \<noteq> pid) (versions db)"
    by (simp add: assms(2) delete_product_row_def f(3))
  show p: "p_id ` set (products db') = p_id ` set (products db) - {pid}"
    by (auto simp: assms(2) delete_product_row_def f(2) sql_delete_def)
  have "v_product_id ` set (versions db') = v_product_id ` set (versions db) - {pid}" unfolding v by auto
  then show "core_inv db'" using w p assms(1) by (simp add: core_inv_wf)
qed

subsection \<open>Reachable states and the freeze\<close>

text \<open>One request opens a library and edits it; the deletion of a product is two separate operations, with
  the deletion of artifacts, which may fail, between them.\<close>

datatype core_op =
    CreateProduct fresh_ids real string string string
  | CreateFirst fresh_ids real string string
  | CreateClone fresh_ids real string version
  | SignOff string string "string option" "string option" real
  | Unsign string
  | SetCheckDam string bool
  | SetCustomer string string
  | BindFile string string string "string option" file_status real
  | UnbindFile string string
  | EditLibrary string real "library_op list"
  | DeleteVersions string
  | DeleteProductRow string

fun core_do :: "core_op \<Rightarrow> core_db \<Rightarrow> core_db" where
  "core_do (CreateProduct ids now name label cust) db = snd (create_product ids now name label cust db)"
| "core_do (CreateFirst ids now pid label) db = snd (create_first ids now pid label db)"
| "core_do (CreateClone ids now label src) db = snd (create_clone ids now (v_product_id src) label src db)"
| "core_do (SignOff vid who en et now) db = snd (sign_off vid who en et now db)"
| "core_do (Unsign vid) db = snd (unsign vid db)"
| "core_do (SetCheckDam vid val) db = snd (set_check_dam vid val db)"
| "core_do (SetCustomer pid cid) db = snd (set_customer pid cid db)"
| "core_do (BindFile vid role fid view st now) db = db\<lparr>fdb := bind_file vid role fid view st now (fdb db)\<rparr>"
| "core_do (UnbindFile vid fid) db = db\<lparr>fdb := snd (unbind_file vid fid (fdb db))\<rparr>"
| "core_do (EditLibrary lid now ops) db = db\<lparr>lib := snd (fold library_do ops (open_library lid now (lib db)))\<rparr>"
| "core_do (DeleteVersions pid) db = snd (delete_for_product pid db)"
| "core_do (DeleteProductRow pid) db = snd (delete_product_row pid db)"

text \<open>What the callers and the foreign keys give: rows exist, fresh ids are fresh, and the row of a product
  is deleted only after its versions were.  D holds the products whose deletion has begun: a request that
  saw the product before may still add a version to it.\<close>

fun core_op_ok :: "string set \<Rightarrow> core_op \<Rightarrow> core_db \<Rightarrow> bool" where
  "core_op_ok D (CreateFirst ids now pid label) db \<longleftrightarrow> pid \<in> p_id ` set (products db) \<union> D"
| "core_op_ok D (CreateClone ids now label src) db \<longleftrightarrow> src \<in> set (versions db) \<and> fresh_templates (fi_template ids) db"
| "core_op_ok D (BindFile vid role fid view st now) db \<longleftrightarrow> vid \<in> v_id ` set (versions db)"
| "core_op_ok D (EditLibrary lid now ops) db \<longleftrightarrow>
     lid \<in> lb_id ` set (libraries (lib db)) \<and> library_ops_ok ops (open_library lid now (lib db))"
| "core_op_ok D (DeleteProductRow pid) db \<longleftrightarrow> pid \<in> D"
| "core_op_ok D op db \<longleftrightarrow> True"

fun begun :: "core_op \<Rightarrow> string set" where
  "begun (DeleteVersions pid) = {pid}"
| "begun _ = {}"

inductive core_reachable :: "string set \<Rightarrow> core_db \<Rightarrow> bool" where
  core_start: "core_reachable {} \<lparr>products = [], versions = [], lib = empty_lib_db, fdb = \<lparr>files = fs, version_files = []\<rparr>\<rparr>"
| core_step: "core_reachable D db \<Longrightarrow> core_op_ok D op db \<Longrightarrow> core_reachable (D \<union> begun op) (core_do op db)"

lemma create_first_inv:
  assumes "core_ok D db" "pid \<in> p_id ` set (products db) \<union> D"
  shows "core_ok D (snd (create_first ids now pid label db))"
proof (rule transaction_cases[where op = "create_first ids now pid label"])
  show "core_ok D db'" if "create_first ids now pid label db = (Inr v, db')" for v db'
    using that core_inv_insert_version[OF assms(1) _ assms(2)] by (simp add: create_first_def in_transaction_Inr)
qed (auto simp: assms(1) create_first_def intro: in_transaction_Inl)

lemma bindings_core_ok:
  assumes "core_ok D db" "b_version_id ` set (version_files f) \<subseteq> v_id ` set (versions db)"
  shows "core_ok D (db\<lparr>fdb := f\<rparr>)"
  using assms by (simp add: core_ok_def core_wf_def)

lemmas bindings_core_inv = bindings_core_ok[where D = "{}"]

lemma library_core_ok:
  assumes "core_ok D db" "lid \<in> lb_id ` set (libraries (lib db))" "library_ops_ok ops (open_library lid now (lib db))"
  shows "core_ok D (db\<lparr>lib := snd (fold library_do ops (open_library lid now (lib db)))\<rparr>)"
proof -
  let ?s = "fold library_do ops (open_library lid now (lib db))"
  have wf: "lib_wf (lib db)" "lib_filed (lib db)" using core_ok_wf[OF assms(1)] by (simp_all add: core_wf_def lib_filed_def)
  have o: "lib_filed (snd (open_library lid now (lib db)))" "l_id (fst (open_library lid now (lib db))) = lid"
    "lb_id ` set (libraries (snd (open_library lid now (lib db)))) = lb_id ` set (libraries (lib db))"
    using open_library_filed[OF wf(2) assms(2)] by simp_all
  have f: "lib_filed (snd ?s)" "lb_id ` set (libraries (snd ?s)) = lb_id ` set (libraries (lib db))"
    using library_run_filed[of "open_library lid now (lib db)" ops] o assms(2) by simp_all
  have "lib_wf (snd ?s)"
    using library_run_step[of "open_library lid now (lib db)" "{}" ops] open_library_sync[OF wf(1)] assms(3)
    by (simp add: in_step_sync)
  then show ?thesis using assms(1) f by (simp add: core_ok_def core_wf_def lib_filed_def)
qed

lemma core_do_inv: "core_ok D db \<Longrightarrow> core_op_ok D op db \<Longrightarrow> core_ok (D \<union> begun op) (core_do op db)"
proof (cases op)
  case (BindFile vid role fid view st now)
  assume inv: "core_ok D db" and ok: "core_op_ok D op db"
  have "b_version_id ` set (version_files (fdb db)) \<subseteq> v_id ` set (versions db)"
    using core_ok_wf[OF inv] by (simp only: core_wf_def)
  then have "b_version_id ` set (version_files (bind_file vid role fid view st now (fdb db))) \<subseteq> v_id ` set (versions db)"
    using ok BindFile by (auto simp: bind_file_def new_binding_def)
  then show ?thesis using bindings_core_ok[OF inv] BindFile by simp
next
  case (UnbindFile vid fid)
  assume inv: "core_ok D db"
  have "b_version_id ` set (version_files (fdb db)) \<subseteq> v_id ` set (versions db)"
    using core_ok_wf[OF inv] by (simp only: core_wf_def)
  then have "b_version_id ` set (version_files (snd (unbind_file vid fid (fdb db)))) \<subseteq> v_id ` set (versions db)"
    by (auto simp: unbind_file_def Let_def)
  then show ?thesis using bindings_core_ok[OF inv] UnbindFile by simp
next
  case (CreateClone ids now label src)
  assume "core_ok D db" "core_op_ok D op db"
  then show ?thesis using create_clone_inv[where src = src and pid = "v_product_id src"] CreateClone by simp
qed (simp_all add: create_product_inv create_first_inv sign_off_inv unsign_inv set_check_dam_inv
      set_customer_inv library_core_ok delete_for_product_ok delete_product_row_ok)

lemma core_reachable_inv: "core_reachable D db \<Longrightarrow> core_ok D db"
proof (induction rule: core_reachable.induct)
  case (core_start fs) show ?case by (simp add: core_inv_def lib_wf_def empty_lib_db_def)
next
  case (core_step D db op) then show ?case by (simp add: core_do_inv)
qed

text \<open>C23. In every state the operations on the core tables reach, library edits and product deletions
  included, the labels of a product are unique, every version owns a library of its own that exists,
  bindings belong to versions and every template belongs to a class of its library.  Every product has a
  version and every version a product, except for the products in D: those whose deletion has begun, since
  it removes the versions first, then the artifacts, which may fail, and the product's row last.\<close>

theorem core_invariant:
  assumes "core_reachable D db"
  shows "p_id ` set (products db) - D = v_product_id ` set (versions db) - D \<and>
    distinct (map (\<lambda>v. (v_product_id v, v_label v)) (versions db)) \<and>
    distinct (map v_library_id (versions db)) \<and> v_library_id ` set (versions db) \<subseteq> lb_id ` set (libraries (lib db)) \<and>
    b_version_id ` set (version_files (fdb db)) \<subseteq> v_id ` set (versions db) \<and>
    (\<forall>t\<in>set (templates (lib db)). (tr_library_id t, tr_class_name t) \<in> class_key ` set (classes (lib db)))"
proof -
  have ok: "core_ok D db" by (rule core_reachable_inv[OF assms])
  have p: "p_id ` set (products db) - D = v_product_id ` set (versions db) - D" using ok by (auto simp: core_ok_def)
  show ?thesis using core_ok_wf[OF ok] p unfolding core_wf_def lib_wf_def by (elim conjE, intro conjI) assumption+
qed

lemma core_invariant_witness:
  "\<exists>db. core_reachable {''p''} db \<and> p_id ` set (products db) = {''p''} \<and> versions db = [] \<and>
     p_id ` set (products db) - {''p''} = v_product_id ` set (versions db) - {''p''}"
proof -
  have "core_reachable ({} \<union> begun (CreateProduct first_ids 1 ''chip'' ''A'' []))
      (core_do (CreateProduct first_ids 1 ''chip'' ''A'' []) empty_core)"
    unfolding empty_core_def by (intro core_reachable.intros) simp
  then have "core_reachable {} one_product" by (simp add: one_product_def)
  from core_step[OF this, of "DeleteVersions ''p''"]
  have r: "core_reachable {''p''} (snd (delete_for_product ''p'' one_product))" by simp
  note f = delete_for_product_wf[OF core_ok_wf[OF one_product_inv], of "''p''"]
  have "p_id ` set (products (snd (delete_for_product ''p'' one_product))) = {''p''}"
    "versions (snd (delete_for_product ''p'' one_product)) = []"
    unfolding f by (simp_all add: one_product_simps first_version_def)
  moreover note conjunct1[OF core_invariant[OF r]]
  ultimately show ?thesis using r by (intro exI[of _ "snd (delete_for_product ''p'' one_product)"] conjI)
qed

text \<open>The operations that may touch a signed version's row: the admin's unsign and the deletion of
  the versions of its product.\<close>

fun thaws :: "version \<Rightarrow> core_op \<Rightarrow> bool" where
  "thaws v (Unsign vid) \<longleftrightarrow> vid = v_id v"
| "thaws v (DeleteVersions pid) \<longleftrightarrow> pid = v_product_id v"
| "thaws v _ \<longleftrightarrow> False"

lemma get_version_frozen:
  "core_wf db \<Longrightarrow> v \<in> set (versions db) \<Longrightarrow> get_version (v_id v) db = Some v"
  unfolding get_version_def by (rule row_by_unique) (auto simp: core_wf_def)

lemma signed_sign_off:
  assumes "core_wf db" "v \<in> set (versions db)" "v_signed_off_by v = Some who"
  shows "sign_off (v_id v) by en et now db = (Inl (SignedOff who (v_signed_off_at v)), db)"
    "set_check_dam (v_id v) val db = (Inl (SignedOff who (v_signed_off_at v)), db)"
  using get_version_frozen[OF assms(1,2)] assms(3) by (simp_all add: sign_off_def set_check_dam_def in_transaction_def)

lemma update_other_version: "v \<in> set (versions db) \<Longrightarrow> vid \<noteq> v_id v \<Longrightarrow> v \<in> set (versions (update_version vid f db))"
  by (force simp: update_version_def sql_update_def)

lemma insert_version_keeps:
  assumes "insert_version_locked vid lid now pid label db = Inr (w, db')" "v \<in> set (versions db)"
  shows "v \<in> set (versions db')"
proof -
  note I = insert_version_Inr[OF assms(1)]
  have "versions db' = versions db @ [w]" using I by simp
  then show ?thesis using assms(2) by simp
qed

lemma signed_step:
  assumes "core_wf db" "v \<in> set (versions db)" "v_signed_off_by v = Some who" "\<not> thaws v op"
  shows "v \<in> set (versions (core_do op db))"
proof (cases op)
  case (CreateProduct ids now name label cust)
  have "v \<in> set (versions (snd (create_product ids now name label cust db)))"
    unfolding create_product_def
    by (rule transaction_cases) (auto simp: in_transaction_Inl in_transaction_Inr assms(2) Let_def
        intro: insert_version_keeps[OF _ assms(2)] insert_version_keeps split: if_split_asm sum.splits prod.splits)
  then show ?thesis by (simp add: CreateProduct)
next
  case (CreateFirst ids now pid label)
  have "v \<in> set (versions (snd (create_first ids now pid label db)))"
    unfolding create_first_def
    by (rule transaction_cases) (auto simp: in_transaction_Inl in_transaction_Inr assms(2) intro: insert_version_keeps[OF _ assms(2)] insert_version_keeps)
  then show ?thesis by (simp add: CreateFirst)
next
  case (CreateClone ids now label src)
  have "v \<in> set (versions (snd (create_clone ids now (v_product_id src) label src db)))"
    unfolding create_clone_def
    by (rule transaction_cases) (auto simp: in_transaction_Inl in_transaction_Inr assms(2)
        intro: insert_version_keeps[OF _ assms(2)] insert_version_keeps split: sum.splits prod.splits)
  then show ?thesis by (simp add: CreateClone)
next
  case (SignOff vid who' en et now)
  have "v \<in> set (versions (snd (sign_off vid who' en et now db)))"
  proof (cases "vid = v_id v")
    case False
    show ?thesis
    proof (rule transaction_cases[where op = "sign_off vid who' en et now"])
      show "v \<in> set (versions db')" if "sign_off vid who' en et now db = (Inr w, db')" for w db'
        using sign_off_Inr[OF that] update_other_version[OF assms(2) False] by simp
    qed (auto simp: assms(2) sign_off_def intro: in_transaction_Inl)
  qed (use assms signed_sign_off in simp)
  then show ?thesis by (simp add: SignOff)
next
  case (SetCheckDam vid val)
  have "v \<in> set (versions (snd (set_check_dam vid val db)))"
  proof (cases "vid = v_id v")
    case False
    show ?thesis
    proof (rule transaction_cases[where op = "set_check_dam vid val"])
      show "v \<in> set (versions db')" if "set_check_dam vid val db = (Inr w, db')" for w db'
        using set_check_dam_Inr[OF that] update_other_version[OF assms(2) False] by simp
    qed (auto simp: assms(2) set_check_dam_def intro: in_transaction_Inl)
  qed (use assms signed_sign_off in simp)
  then show ?thesis by (simp add: SetCheckDam)
next
  case (Unsign vid)
  then have n: "vid \<noteq> v_id v" using assms(4) by simp
  have "v \<in> set (versions (snd (unsign vid db)))"
  proof (rule transaction_cases[where op = "unsign vid"])
    show "v \<in> set (versions db')" if "unsign vid db = (Inr w, db')" for w db'
      using unsign_Inr[OF that] update_other_version[OF assms(2) n] by simp
  qed (auto simp: assms(2) unsign_def intro: in_transaction_Inl)
  then show ?thesis by (simp add: Unsign)
qed (use assms delete_for_product_wf(3)[OF assms(1)] in \<open>auto simp: set_customer_def delete_product_row_def\<close>)

text \<open>A sequence of operations, each admissible where it runs.\<close>

fun core_run :: "core_op list \<Rightarrow> core_db \<Rightarrow> core_db" where
  "core_run [] db = db"
| "core_run (op # ops) db = core_run ops (core_do op db)"

fun core_run_ok :: "string set \<Rightarrow> core_op list \<Rightarrow> core_db \<Rightarrow> bool" where
  "core_run_ok D [] db \<longleftrightarrow> True"
| "core_run_ok D (op # ops) db \<longleftrightarrow> core_op_ok D op db \<and> core_run_ok (D \<union> begun op) ops (core_do op db)"

lemma signed_run:
  assumes "core_ok D db" "v \<in> set (versions db)" "v_signed_off_by v = Some who"
    "core_run_ok D ops db" "\<forall>op\<in>set ops. \<not> thaws v op"
  shows "core_wf (core_run ops db) \<and> v \<in> set (versions (core_run ops db))"
  using assms
proof (induction ops arbitrary: D db)
  case Nil then show ?case by (simp add: core_ok_wf)
next
  case (Cons op ops)
  have "core_ok (D \<union> begun op) (core_do op db)" using Cons.prems by (simp add: core_do_inv)
  moreover have "v \<in> set (versions (core_do op db))"
    using Cons.prems by (intro signed_step[OF core_ok_wf]) simp_all
  ultimately show ?case using Cons.IH Cons.prems by simp
qed

text \<open>Sign-off freezes the version: whatever admissible operations follow, short of its unsign or
  the deletion of its product, its row stays as signed, and a second sign-off or a change of the
  dam flag is refused with the signer's name and leaves the tables unchanged.\<close>

theorem signed_version_is_frozen:
  assumes "core_reachable D db" "v \<in> set (versions db)" "v_signed_off_by v = Some who"
    "core_run_ok D ops db" "\<forall>op\<in>set ops. \<not> thaws v op"
  shows "get_version (v_id v) (core_run ops db) = Some v \<and>
    sign_off (v_id v) who' en et now (core_run ops db) = (Inl (SignedOff who (v_signed_off_at v)), core_run ops db) \<and>
    set_check_dam (v_id v) val (core_run ops db) = (Inl (SignedOff who (v_signed_off_at v)), core_run ops db)"
proof -
  have r: "core_wf (core_run ops db)" "v \<in> set (versions (core_run ops db))"
    using signed_run[OF core_reachable_inv[OF assms(1)] assms(2-5)] by simp_all
  show ?thesis using get_version_frozen[OF r] signed_sign_off[OF r assms(3)] by simp
qed

definition signed_version :: version where
  "signed_version = first_version\<lparr>v_signed_off_by := Some ''amy'', v_signed_off_at := Some 7\<rparr>"

lemma signed_version_is_frozen_witness:
  "\<exists>db. core_reachable {} db \<and> get_version ''v1'' (core_run [SetCheckDam ''v1'' True, SetCustomer ''p'' ''acme''] db) = Some signed_version"
proof -
  let ?db = "core_do (SignOff ''v1'' ''amy'' None None 7) one_product"
  have g: "get_version ''v1'' one_product = Some first_version"
    by (simp add: get_version_def one_product_simps row_by_def first_version_def)
  have "versions ?db = [signed_version]"
    using g by (simp add: sign_off_def in_transaction_def read_back_def update_version_def one_product_simps
        sql_update_def first_version_def signed_version_def get_version_def row_by_def)
  then have v: "signed_version \<in> set (versions ?db)" by simp
  have "core_reachable ({} \<union> begun (CreateProduct first_ids 1 ''chip'' ''A'' []))
      (core_do (CreateProduct first_ids 1 ''chip'' ''A'' []) empty_core)"
    unfolding empty_core_def by (intro core_reachable.intros) simp
  then have "core_reachable {} one_product" by (simp add: one_product_def)
  from core_step[OF this, of "SignOff ''v1'' ''amy'' None None 7"] have r: "core_reachable {} ?db" by simp
  have "v_signed_off_by signed_version = Some ''amy''" "v_id signed_version = ''v1''"
    by (simp_all add: signed_version_def first_version_def)
  with signed_version_is_frozen[OF r v this(1), of "[SetCheckDam ''v1'' True, SetCustomer ''p'' ''acme'']"] r
  show ?thesis by auto
qed

end
