(* ===== verification/Shapes.thy ===== *)
theory Shapes
  imports LibraryStore
begin

text \<open>
  The shape model of \<^verbatim>\<open>app/matching.py\<close>: entity shapes, the signature test, the
  resampling of outlines and the alignment score.  Coordinates are reals; the array arithmetic of the
  code (means, differences, norms, cumulative sums) is written out on lists of points.  The
  eigenvalue routines and the k-d tree are not code of the repository: they are the fields of
  \<^verbatim>\<open>numerics\<close>, an argument of the definitions that call them.
\<close>

section \<open>Points\<close>

definition padd :: "point \<Rightarrow> point \<Rightarrow> point" where
  "padd p q = (fst p + fst q, snd p + snd q)"

definition psub :: "point \<Rightarrow> point \<Rightarrow> point" where
  "psub p q = (fst p - fst q, snd p - snd q)"

definition pscale :: "real \<Rightarrow> point \<Rightarrow> point" where
  "pscale c p = (c * fst p, c * snd p)"

definition pdot :: "point \<Rightarrow> point \<Rightarrow> real" where
  "pdot p q = fst p * fst q + snd p * snd q"

definition pnorm :: "point \<Rightarrow> real" where
  "pnorm p = sqrt (pdot p p)"

definition pdist :: "point \<Rightarrow> point \<Rightarrow> real" where
  "pdist p q = pnorm (psub p q)"

definition mean :: "real list \<Rightarrow> real" where
  "mean xs = sum_list xs / real (length xs)"

definition mean_point :: "point list \<Rightarrow> point" where
  "mean_point ps = (mean (map fst ps), mean (map snd ps))"

definition centered :: "point list \<Rightarrow> point list" where
  "centered ps = map (\<lambda>p. psub p (mean_point ps)) ps"

definition point_diffs :: "point list \<Rightarrow> point list" where
  "point_diffs ps = map2 psub (tl ps) ps"

text \<open>A 2 by 2 matrix is its two rows; a cloud is multiplied from the right, \<^verbatim>\<open>pts @ m\<close>.\<close>

type_synonym matrix = "point \<times> point"

definition row_times :: "point \<Rightarrow> matrix \<Rightarrow> point" where
  "row_times p m = (fst p * fst (fst m) + snd p * fst (snd m), fst p * snd (fst m) + snd p * snd (snd m))"

definition mat_times :: "matrix \<Rightarrow> matrix \<Rightarrow> matrix" where
  "mat_times a b = (row_times (fst a) b, row_times (snd a) b)"

definition transpose2 :: "matrix \<Rightarrow> matrix" where
  "transpose2 m = ((fst (fst m), fst (snd m)), (snd (fst m), snd (snd m)))"

definition det2 :: "matrix \<Rightarrow> real" where
  "det2 m = fst (fst m) * snd (snd m) - snd (fst m) * fst (snd m)"

section \<open>Third-party numerics\<close>

text \<open>\<^verbatim>\<open>eigvalsh\<close> and \<^verbatim>\<open>eigh\<close> of the symmetric matrix with entries xx, xy, yy (eigenvalues;
  the columns of the eigenvector matrix), the distance \<^verbatim>\<open>cKDTree.query\<close> finds and the indices
  \<^verbatim>\<open>query_ball_point\<close> lists.\<close>

record numerics =
  eigvalsh :: "real \<Rightarrow> real \<Rightarrow> real \<Rightarrow> real \<times> real"
  eigh :: "real \<Rightarrow> real \<Rightarrow> real \<Rightarrow> (real \<times> real) \<times> (point \<times> point)"
  nearest :: "point list \<Rightarrow> point \<Rightarrow> real"
  ball_points :: "point list \<Rightarrow> point \<Rightarrow> real \<Rightarrow> nat list"

text \<open>The documented behaviour the proofs rely on.\<close>

definition orthonormal :: "point \<times> point \<Rightarrow> bool" where
  "orthonormal m \<longleftrightarrow> pdot (fst m) (fst m) = 1 \<and> pdot (snd m) (snd m) = 1 \<and> pdot (fst m) (snd m) = 0"

definition eigh_orthonormal :: "numerics \<Rightarrow> bool" where
  "eigh_orthonormal nm \<longleftrightarrow> (\<forall>a b c. orthonormal (snd (eigh nm a b c)))"

definition nearest_correct :: "numerics \<Rightarrow> bool" where
  "nearest_correct nm \<longleftrightarrow> (\<forall>cloud p. cloud \<noteq> [] \<longrightarrow> nearest nm cloud p = Min (pdist p ` set cloud))"

definition ball_correct :: "numerics \<Rightarrow> bool" where
  "ball_correct nm \<longleftrightarrow>
     (\<forall>cs p r. set (ball_points nm cs p r) = {i. i < length cs \<and> pdist (cs ! i) p \<le> r})"

section \<open>Tunables\<close>

text \<open>The module constants that the developer overrides may change at run time.\<close>

record tunables =
  SCALE_MIN :: real
  SCALE_MAX :: real
  TOLERANCE_ABS :: real
  VERTEX_COUNT_RATIO :: real
  PATH_LENGTH_RATIO :: real
  RADIUS_RATIO :: real
  SIGMA_RATIO_TOL :: real
  RESAMPLE_N :: nat
  BRUTE_FORCE_CUTOFF :: nat

definition compiled_tunables :: tunables where
  "compiled_tunables = \<lparr>SCALE_MIN = 99/100, SCALE_MAX = 101/100, TOLERANCE_ABS = 2/10, VERTEX_COUNT_RATIO = 3/10,
     PATH_LENGTH_RATIO = 20/100, RADIUS_RATIO = 20/100, SIGMA_RATIO_TOL = 15/100, RESAMPLE_N = 64,
     BRUTE_FORCE_CUTOFF = 50\<rparr>"

definition ISOTROPIC_SIGMA_RATIO_THRESHOLD :: real where
  "ISOTROPIC_SIGMA_RATIO_THRESHOLD = 95/100"

definition CIRCLE_RADIUS_KEY_DIGITS :: nat where
  "CIRCLE_RADIUS_KEY_DIGITS = 4"

definition SIGNATURE_DEFAULT_BBOX_RATIO :: real where
  "SIGNATURE_DEFAULT_BBOX_RATIO = 5/100"

section \<open>Entity shapes\<close>

record shape =
  s_handle :: string
  s_points :: "point list"
  s_centroid :: point
  s_radius :: real
  s_path_length :: real
  s_vertex_count :: nat
  s_kind :: "string option"
  s_sigma1 :: real
  s_sigma2 :: real

text \<open>The entries of \<^verbatim>\<open>centered.T @ centered\<close>.\<close>

definition cov :: "point list \<Rightarrow> real \<times> real \<times> real" where
  "cov d = (sum_list (map (\<lambda>p. fst p * fst p) d), sum_list (map (\<lambda>p. fst p * snd p) d),
            sum_list (map (\<lambda>p. snd p * snd p) d))"

definition pca_singular_values :: "numerics \<Rightarrow> point list \<Rightarrow> real \<times> real" where
  "pca_singular_values nm d =
     (if length d < 2 then (0, 0)
      else let (xx, xy, yy) = cov d; (w0, w1) = eigvalsh nm xx xy yy;
               s0 = sqrt (max 0 w0); s1 = sqrt (max 0 w1)
           in (max s0 s1, min s0 s1))"

definition sigma_ratio :: "shape \<Rightarrow> real" where
  "sigma_ratio s = (if s_sigma1 s \<le> 0 then 0 else s_sigma2 s / s_sigma1 s)"

text \<open>\<^verbatim>\<open>np.allclose(p, q, rtol=0, atol=1e-9)\<close>.\<close>

definition close_points :: "point \<Rightarrow> point \<Rightarrow> bool" where
  "close_points p q \<longleftrightarrow> \<bar>fst p - fst q\<bar> \<le> 1 / 10 ^ 9 \<and> \<bar>snd p - snd q\<bar> \<le> 1 / 10 ^ 9"

definition from_points :: "numerics \<Rightarrow> string \<Rightarrow> point list \<Rightarrow> string option \<Rightarrow> shape" where
  "from_points nm handle points kind =
     (if points = [] then
        \<lparr>s_handle = handle, s_points = [], s_centroid = (0, 0), s_radius = 0, s_path_length = 0,
         s_vertex_count = 0, s_kind = kind, s_sigma1 = 0, s_sigma2 = 0\<rparr>
      else
        let path_length = sum_list (map pnorm (point_diffs points));
            arr = (if 2 \<le> length points \<and> close_points (hd points) (last points) then butlast points else points);
            d = centered arr;
            (s1, s2) = pca_singular_values nm d
        in \<lparr>s_handle = handle, s_points = arr, s_centroid = mean_point arr, s_radius = list_max (map pnorm d),
            s_path_length = path_length, s_vertex_count = length arr, s_kind = kind, s_sigma1 = s1, s_sigma2 = s2\<rparr>)"

text \<open>\<^verbatim>\<open>max(8, min(64, round(2 pi r / 0.01)))\<close>, the vertices of a synthesised circle.\<close>

definition circle_verts :: "real \<Rightarrow> nat" where
  "circle_verts r = nat (max 8 (min 64 (py_round (2 * pi * r / (1 / 100)))))"

definition circle_points :: "point \<Rightarrow> real \<Rightarrow> point list" where
  "circle_points c r =
     (let n = circle_verts r in
      map (\<lambda>i. (fst c + r * cos (2 * pi * real i / real n), snd c + r * sin (2 * pi * real i / real n))) [0..<n])"

definition from_circle :: "string \<Rightarrow> point \<Rightarrow> real \<Rightarrow> shape" where
  "from_circle handle c r =
     (let n = circle_verts r; chord = 2 * r * sin (pi / real n); sigma = r * sqrt (real n / 2)
      in \<lparr>s_handle = handle, s_points = circle_points c r, s_centroid = c, s_radius = r,
          s_path_length = real (n - 1) * chord, s_vertex_count = n, s_kind = Some ''circle'',
          s_sigma1 = sigma, s_sigma2 = sigma\<rparr>)"

section \<open>Principal axes\<close>

definition flip_second :: "matrix \<Rightarrow> matrix" where
  "flip_second m = (fst m, pscale (-1) (snd m))"

text \<open>Rows are the principal directions, the larger eigenvalue first, right-handed.\<close>

definition pca_axes :: "numerics \<Rightarrow> point list \<Rightarrow> matrix" where
  "pca_axes nm d =
     (if length d < 2 then ((1, 0), (0, 1))
      else let (xx, xy, yy) = cov d; ((w0, w1), (v0, v1)) = eigh nm xx xy yy;
               axes = (if w0 \<le> w1 then (v1, v0) else (v0, v1))
           in (if det2 axes < 0 then flip_second axes else axes))"

definition SIGN_VARIANTS :: "(real \<times> real) list" where
  "SIGN_VARIANTS = [(1, 1), (1, -1), (-1, 1), (-1, -1)]"

definition apply_sign :: "real \<times> real \<Rightarrow> point \<Rightarrow> point" where
  "apply_sign s p = (fst s * fst p, snd s * snd p)"

definition try_alignments :: "numerics \<Rightarrow> point list \<Rightarrow> point list \<Rightarrow> point list list" where
  "try_alignments nm template_centered candidate_centered =
     (let r0 = mat_times (transpose2 (pca_axes nm candidate_centered)) (pca_axes nm template_centered);
          base = map (\<lambda>p. row_times p r0) candidate_centered
      in map (\<lambda>s. map (apply_sign s) base) SIGN_VARIANTS)"

section \<open>Chamfer distance\<close>

definition chamfer :: "numerics \<Rightarrow> point list \<Rightarrow> point list \<Rightarrow> real" where
  "chamfer nm a b = 1/2 * (mean (map (nearest nm a) b) + mean (map (nearest nm b) a))"

definition sqdist :: "point \<Rightarrow> point \<Rightarrow> real" where
  "sqdist p q = pdot (psub p q) (psub p q)"

definition chamfer_brute :: "point list \<Rightarrow> point list \<Rightarrow> real" where
  "chamfer_brute a b =
     1/2 * (mean (map (\<lambda>p. sqrt (list_min (map (\<lambda>q. sqdist p q) b))) a) +
            mean (map (\<lambda>q. sqrt (list_min (map (\<lambda>p. sqdist p q) a))) b))"

section \<open>Resampling\<close>

definition running_sums :: "real list \<Rightarrow> real list" where
  "running_sums xs = map (\<lambda>i. sum_list (take i xs)) [0..<length xs + 1]"

text \<open>\<^verbatim>\<open>searchsorted(cum, t, side="right")\<close> on the ascending \<^verbatim>\<open>cum\<close>.\<close>

definition searchsorted_right :: "real list \<Rightarrow> real \<Rightarrow> nat" where
  "searchsorted_right cum t = length (filter (\<lambda>c. c \<le> t) cum)"

definition resample_arclength :: "point list \<Rightarrow> nat \<Rightarrow> point list" where
  "resample_arclength points n =
     (if length points < 2 then points
      else
        let extended = points @ [hd points];
            deltas = point_diffs extended;
            seg = map pnorm deltas;
            total = sum_list seg
        in if total < 1 / 10 ^ 12 then replicate n (hd points)
           else
             let cum = running_sums seg
             in map (\<lambda>i. let t = total * real i / real n;
                             idx = min (searchsorted_right cum t - 1) (length seg - 1);
                             frac = (t - cum ! idx) / seg ! idx
                         in padd (extended ! idx) (pscale frac (deltas ! idx))) [0..<n])"

definition argmax :: "real list \<Rightarrow> nat" where
  "argmax xs = index_of (list_max xs) xs"

definition canonical_start :: "point list \<Rightarrow> nat" where
  "canonical_start points =
     (if length points < 2 then 0 else argmax (map (\<lambda>p. pdot p p) (centered points)))"

definition resample_canonical :: "point list \<Rightarrow> nat \<Rightarrow> point list" where
  "resample_canonical points n =
     (if length points < 2 then points else resample_arclength (rotate (canonical_start points) points) n)"

section \<open>The alignment score and the signature test\<close>

definition mean_norm :: "point list \<Rightarrow> real" where
  "mean_norm d = mean (map pnorm d)"

definition align_score :: "numerics \<Rightarrow> tunables \<Rightarrow> point list \<Rightarrow> point list \<Rightarrow> (real \<times> real) option" where
  "align_score nm tn template_pts candidate_pts =
     (if length template_pts < 2 \<or> length candidate_pts < 2 then None
      else
        let t = resample_canonical template_pts (RESAMPLE_N tn);
            c = resample_canonical candidate_pts (RESAMPLE_N tn)
        in if length t < 2 \<or> length c < 2 then None
           else
             let tc = centered t; cc = centered c; t_norm = mean_norm tc; c_norm = mean_norm cc
             in if t_norm < 1 / 10 ^ 9 \<or> c_norm < 1 / 10 ^ 9 then None
                else
                  let scale = t_norm / c_norm
                  in if scale < SCALE_MIN tn \<or> SCALE_MAX tn < scale then None
                     else Some (list_min (map (chamfer nm tc) (try_alignments nm tc (map (pscale scale) cc))), scale))"

definition outside_ratio :: "real \<Rightarrow> real \<Rightarrow> real \<Rightarrow> bool" where
  "outside_ratio a b r \<longleftrightarrow> 0 < a \<and> 0 < b \<and> (a / b < 1 - r \<or> 1 + r < a / b)"

definition signatures_compatible :: "tunables \<Rightarrow> shape \<Rightarrow> shape \<Rightarrow> real option \<Rightarrow> real option \<Rightarrow> bool" where
  "signatures_compatible tn a b path_length_ratio radius_ratio =
     (let plr = (case path_length_ratio of None \<Rightarrow> PATH_LENGTH_RATIO tn | Some r \<Rightarrow> r);
          rr = (case radius_ratio of None \<Rightarrow> RADIUS_RATIO tn | Some r \<Rightarrow> r)
      in if s_vertex_count a < 2 \<or> s_vertex_count b < 2 then False
         else if outside_ratio (s_path_length a) (s_path_length b) plr then False
         else if outside_ratio (s_radius a) (s_radius b) rr then False
         else \<not> SIGMA_RATIO_TOL tn < \<bar>sigma_ratio a - sigma_ratio b\<bar>)"

section \<open>Translation\<close>

definition shift :: "point \<Rightarrow> point list \<Rightarrow> point list" where
  "shift d ps = map (\<lambda>p. padd p d) ps"

lemma shift_basic [simp]:
  "length (shift d ps) = length ps" "shift d [] = []" "shift d ps = [] \<longleftrightarrow> ps = []"
  "shift d (p # ps) = padd p d # shift d ps" "shift d (ps @ qs) = shift d ps @ shift d qs"
  by (simp_all add: shift_def)

lemma psub_padd [simp]: "psub (padd p d) (padd q d) = psub p q"
  by (simp add: psub_def padd_def)

lemma shift_nth: "i < length ps \<Longrightarrow> shift d ps ! i = padd (ps ! i) d"
  by (simp add: shift_def)

lemma hd_shift: "ps \<noteq> [] \<Longrightarrow> hd (shift d ps) = padd (hd ps) d"
  by (cases ps) simp_all

lemma last_shift: "ps \<noteq> [] \<Longrightarrow> last (shift d ps) = padd (last ps) d"
  by (simp add: shift_def last_map)

lemma butlast_shift: "butlast (shift d ps) = shift d (butlast ps)"
  by (simp add: shift_def map_butlast)

lemma rotate_shift: "rotate i (shift d ps) = shift d (rotate i ps)"
  by (simp add: shift_def rotate_map)

lemma point_diffs_shift [simp]: "point_diffs (shift d ps) = point_diffs ps"
proof -
  have "map2 psub (shift d xs) (shift d ys) = map2 psub xs ys" for xs ys
    by (induction xs ys rule: list_induct2') simp_all
  moreover have "tl (shift d ps) = shift d (tl ps)" by (cases ps) simp_all
  ultimately show ?thesis by (simp add: point_diffs_def)
qed

lemma mean_point_shift: "ps \<noteq> [] \<Longrightarrow> mean_point (shift d ps) = padd (mean_point ps) d"
proof -
  assume ne: "ps \<noteq> []"
  have "sum_list (map fst (shift d ps)) = sum_list (map fst ps) + real (length ps) * fst d"
    "sum_list (map snd (shift d ps)) = sum_list (map snd ps) + real (length ps) * snd d"
    by (induction ps) (simp_all add: padd_def algebra_simps)
  then show ?thesis using ne by (simp add: mean_point_def mean_def padd_def add_divide_distrib)
qed

lemma centered_shift [simp]: "centered (shift d ps) = centered ps"
  by (cases "ps = []") (simp_all add: centered_def mean_point_shift, simp add: shift_def)

lemma close_points_shift [simp]: "close_points (padd p d) (padd q d) = close_points p q"
  by (simp add: close_points_def padd_def)

lemma resample_arclength_shift: "resample_arclength (shift d ps) n = shift d (resample_arclength ps n)"
proof (cases "length ps < 2")
  case False
  let ?e = "ps @ [hd ps]"
  let ?ds = "point_diffs ?e"
  have ne: "ps \<noteq> []" using False by auto
  have e: "shift d ps @ [hd (shift d ps)] = shift d ?e" using ne by (simp add: hd_shift)
  have i: "shift d ?e ! min k (length (map pnorm ?ds) - 1) = padd (?e ! min k (length (map pnorm ?ds) - 1)) d" for k
    by (intro shift_nth) (auto simp: point_diffs_def min_def)
  have pa: "padd (padd p d) q = padd (padd p q) d" for p q by (simp add: padd_def)
  have pc: "padd (padd p q) d = padd (padd p d) q" for p q by (simp add: padd_def)
  show ?thesis
    using False ne unfolding resample_arclength_def e Let_def point_diffs_shift i pa
    by (simp add: hd_shift) (simp add: shift_def pc)
qed (simp add: resample_arclength_def)

lemma resample_canonical_shift: "resample_canonical (shift d ps) n = shift d (resample_canonical ps n)"
  by (simp add: resample_canonical_def canonical_start_def rotate_shift resample_arclength_shift)

lemma from_points_shift:
  "from_points nm h' (shift d ps) k' =
     (from_points nm h ps k)\<lparr>s_handle := h', s_kind := k', s_points := shift d (s_points (from_points nm h ps k)),
        s_centroid := (if ps = [] then (0, 0) else padd (s_centroid (from_points nm h ps k)) d)\<rparr>"
proof (cases "ps = []")
  case False
  let ?a = "if 2 \<le> length ps \<and> close_points (hd ps) (last ps) then butlast ps else ps"
  have c: "(if 2 \<le> length (shift d ps) \<and> close_points (hd (shift d ps)) (last (shift d ps)) then butlast (shift d ps)
      else shift d ps) = shift d ?a"
    using False by (simp add: hd_shift last_shift butlast_shift)
  have ne: "?a \<noteq> []" using False by (auto dest: arg_cong[of _ _ length])
  show ?thesis using False ne unfolding from_points_def c Let_def
    by (simp add: mean_point_shift case_prod_beta)
qed (simp add: from_points_def)

lemma length_resample: "2 \<le> length ps \<Longrightarrow> length (resample_canonical ps n) = n"
  by (simp add: resample_canonical_def resample_arclength_def Let_def)

section \<open>An alignment with itself\<close>

lemma orthonormal_pca_axes: "eigh_orthonormal nm \<Longrightarrow> orthonormal (pca_axes nm d)"
proof -
  assume "eigh_orthonormal nm"
  then have o: "orthonormal (snd (eigh nm a b c))" for a b c by (simp add: eigh_orthonormal_def)
  have s: "orthonormal (v, u)" if "orthonormal (u, v)" for u v
    using that by (simp add: orthonormal_def pdot_def mult.commute)
  have f: "orthonormal (flip_second m)" if "orthonormal m" for m
    using that by (simp add: orthonormal_def flip_second_def pdot_def pscale_def)
  show ?thesis
    using o f s unfolding pca_axes_def
    by (auto simp: orthonormal_def[of "((1, 0), (0, 1))"] pdot_def Let_def split: prod.splits
        intro!: f intro: s) (metis s snd_conv o)+
qed

text \<open>A square matrix with orthonormal rows has orthonormal columns.\<close>

lemma orthonormal_columns:
  fixes a b c d :: real
  assumes "a * a + b * b = 1" "c * c + d * d = 1" "a * c + b * d = 0"
  shows "a * a + c * c = 1" "b * b + d * d = 1" "a * b + c * d = 0"
proof -
  have "a * c = - (b * d)" using assms(3) by linarith
  then have "(a * c) * (a * c) = (b * d) * (b * d)" by simp
  then have "(a * a) * (c * c) = (b * b) * (d * d)" by (simp only: mult.assoc mult.left_commute)
  moreover have "c * c = 1 - d * d" "b * b = 1 - a * a" using assms(1,2) by linarith+
  ultimately have "(a * a) * (1 - d * d) = (1 - a * a) * (d * d)" by (simp only:)
  then have ad: "a * a = d * d" by (simp add: right_diff_distrib left_diff_distrib)
  then have cb: "c * c = b * b" using assms(1,2) by linarith
  show "a * a + c * c = 1" "b * b + d * d = 1" using ad cb assms(1,2) by simp_all
  have "(a * b + c * d) * (a * b + c * d) = (a * a) * (b * b) + 2 * (a * c) * (b * d) + (c * c) * (d * d)"
    by (simp add: algebra_simps)
  also have "a * c = - (b * d)" using assms(3) by simp
  finally have "(a * b + c * d) * (a * b + c * d) = 0" by (simp add: ad cb algebra_simps)
  then show "a * b + c * d = 0" by simp
qed

lemma row_times_own_frame:
  assumes "orthonormal m"
  shows "row_times p (mat_times (transpose2 m) m) = p"
proof -
  obtain a b c d where m: "m = ((a, b), (c, d))" by (metis surj_pair)
  note o = orthonormal_columns[of a b c d] assms[unfolded orthonormal_def m pdot_def, simplified]
  have 1: "a * a + c * c = 1" "b * b + d * d = 1" "a * b + c * d = 0" using o by blast+
  have 2: "b * a + d * c = 0" using 1(3) by (simp add: mult.commute)
  show ?thesis by (simp add: m row_times_def mat_times_def transpose2_def 1 2)
qed

lemma chamfer_self: "nearest_correct nm \<Longrightarrow> chamfer nm a a = 0"
proof -
  assume n: "nearest_correct nm"
  have z: "nearest nm a p = 0" if "p \<in> set a" for p
  proof -
    have "Min (pdist p ` set a) = 0"
      using that by (intro Min_eqI) (auto simp: pdist_def pnorm_def pdot_def psub_def image_def intro!: bexI[of _ p])
    moreover have "a \<noteq> []" using that by auto
    ultimately show ?thesis using n[unfolded nearest_correct_def] by metis
  qed
  then have e: "map (nearest nm a) a = map (\<lambda>_. 0) a" by simp
  show ?thesis unfolding chamfer_def e by (simp add: mean_def)
qed

lemma foldl_min_Min: "foldl min (y :: real) ys = Min (insert y (set ys))"
proof (induction ys arbitrary: y)
  case (Cons x ys)
  then show ?case by (cases "ys = []") (simp_all add: min.assoc)
qed simp

lemma foldl_max_Max: "foldl max (y :: real) ys = Max (insert y (set ys))"
proof (induction ys arbitrary: y)
  case (Cons x ys)
  then show ?case by (cases "ys = []") (simp_all add: max.assoc)
qed simp

lemma list_min_Min: "xs \<noteq> [] \<Longrightarrow> list_min xs = Min (set xs)"
  by (cases xs) (simp_all add: list_min_def foldl_min_Min)

lemma list_max_Max: "xs \<noteq> [] \<Longrightarrow> list_max xs = Max (set xs)"
  by (cases xs) (simp_all add: list_max_def foldl_max_Max)

section \<open>A concrete instance\<close>

text \<open>Numerics that keep the documented behaviour, and the unit square shifted along the x axis.\<close>

definition plain_numerics :: numerics where
  "plain_numerics = \<lparr>eigvalsh = (\<lambda>a b c. (min a c, max a c)), eigh = (\<lambda>a b c. ((a, c), ((1, 0), (0, 1)))),
     nearest = (\<lambda>cloud p. list_min (map (pdist p) cloud)),
     ball_points = (\<lambda>cs p r. filter (\<lambda>i. pdist (cs ! i) p \<le> r) [0..<length cs])\<rparr>"

lemma plain_numerics_ok:
  "eigh_orthonormal plain_numerics" "nearest_correct plain_numerics" "ball_correct plain_numerics"
  by (auto simp: eigh_orthonormal_def nearest_correct_def ball_correct_def plain_numerics_def orthonormal_def
      pdot_def list_min_Min)

definition unit_square :: "string \<Rightarrow> real \<Rightarrow> shape" where
  "unit_square h x = from_points plain_numerics h (shift (x, 0) [(0, 0), (1, 0), (1, 1), (0, 1)]) (Some ''polyline'')"

end
