(* ===== verification/Matching.thy ===== *)
theory Matching
  imports Shapes SideRegions
begin

text \<open>
  The matcher of \<^verbatim>\<open>app/matching.py\<close>: the signature index with its gate, the three pipelines for
  one-entity templates (signature, circle radius, chamfer), the rigid matching of several entities and
  the two entry points.  A drawing is the dict of shapes by handle, in insertion order.  The caches
  keyed by the identity of the drawing dict are left out here, where every dict has an identity of its
  own; \<^verbatim>\<open>IndexCache\<close> models the one of the signature index and what happens otherwise.  A set of
  handles is the list of its members: nothing the code does with one depends on their order.
\<close>

type_synonym drawing = "(handle, shape) dict"

record match_result =
  m_handles :: "handle list"
  m_score :: real
  m_scale :: real

datatype miss_reason = MissScale | MissShape

record near_miss =
  n_handles :: "handle list"
  n_score :: real
  n_scale :: real
  n_reason :: miss_reason

record match_output =
  matches :: "match_result list"
  near_misses :: "near_miss list"

definition no_output :: match_output where
  "no_output = \<lparr>matches = [], near_misses = []\<rparr>"

section \<open>The signature index and its gate\<close>

record signature_index =
  i_handles :: "handle list"
  i_vcount :: "nat list"
  i_pl :: "real list"
  i_rad :: "real list"
  i_sig :: "real list"

definition build_signature_index :: "drawing \<Rightarrow> signature_index" where
  "build_signature_index drawing =
     (let shapes = map snd drawing
      in \<lparr>i_handles = map fst drawing, i_vcount = map s_vertex_count shapes, i_pl = map s_path_length shapes,
          i_rad = map s_radius shapes,
          i_sig = map (\<lambda>s. if 0 < s_sigma1 s then s_sigma2 s / s_sigma1 s else 0) shapes\<rparr>)"

text \<open>One gate of the mask: no test unless the template's value is positive.\<close>

definition ratio_mask :: "real \<Rightarrow> real \<Rightarrow> real \<Rightarrow> bool" where
  "ratio_mask t tol x \<longleftrightarrow> (if 0 < t then x \<le> 0 \<or> (1 - tol \<le> t / x \<and> t / x \<le> 1 + tol) else True)"

definition gate_candidates :: "tunables \<Rightarrow> shape \<Rightarrow> signature_index \<Rightarrow> handle list" where
  "gate_candidates tn template idx =
     (if s_vertex_count template < 2 then []
      else
        let t_sig = (if 0 < s_sigma1 template then s_sigma2 template / s_sigma1 template else 0);
            mask = (\<lambda>i. 2 \<le> i_vcount idx ! i \<and>
                        ratio_mask (s_path_length template) (PATH_LENGTH_RATIO tn) (i_pl idx ! i) \<and>
                        ratio_mask (s_radius template) (RADIUS_RATIO tn) (i_rad idx ! i) \<and>
                        \<bar>t_sig - i_sig idx ! i\<bar> \<le> SIGMA_RATIO_TOL tn)
        in map (\<lambda>i. i_handles idx ! i) (filter mask [0..<length (i_handles idx)]))"

section \<open>One entity: signature mode\<close>

definition match_signature_mode :: "tunables \<Rightarrow> shape \<Rightarrow> drawing \<Rightarrow> handle list \<Rightarrow> real \<Rightarrow> match_output" where
  "match_signature_mode tn template drawing skip bbox_ratio =
     no_output\<lparr>matches :=
       map (\<lambda>(handle, shape). \<lparr>m_handles = [handle], m_score = 0,
               m_scale = (if 0 < s_radius template then s_radius shape / s_radius template else 1)\<rparr>)
         (filter (\<lambda>(handle, shape). handle \<notin> set skip \<and>
               signatures_compatible tn template shape (Some bbox_ratio) (Some bbox_ratio)) drawing)\<rparr>"

section \<open>One entity: the circle fast path\<close>

definition radius_bucket_key :: "real \<Rightarrow> int" where
  "radius_bucket_key r = py_round (r * 10 ^ CIRCLE_RADIUS_KEY_DIGITS)"

definition get_radius_buckets :: "drawing \<Rightarrow> (int, handle list) dict" where
  "get_radius_buckets drawing =
     fold (\<lambda>(h, s). dict_push (radius_bucket_key (s_radius s)) h)
       (filter (\<lambda>(h, s). \<not> (s_kind s \<noteq> Some ''circle'' \<or> s_radius s \<le> 0)) drawing) []"

definition match_single_circle :: "shape \<Rightarrow> drawing \<Rightarrow> handle list \<Rightarrow> match_output" where
  "match_single_circle template drawing skip =
     (let key = radius_bucket_key (s_radius template);
          buckets = get_radius_buckets drawing;
          hits = concat (map (dict_list buckets) [key - 1, key, key + 1])
      in no_output\<lparr>matches :=
           map (\<lambda>h. \<lparr>m_handles = [h], m_score = 0, m_scale = 1\<rparr>) (filter (\<lambda>h. h \<notin> set skip) hits)\<rparr>)"

section \<open>One entity: the chamfer pipeline\<close>

text \<open>What the loop computes once for the template.\<close>

record template_side =
  ts_centered :: "point list"
  ts_axes :: matrix
  ts_norm :: real
  ts_tree :: bool

definition template_side_of :: "numerics \<Rightarrow> tunables \<Rightarrow> shape \<Rightarrow> template_side" where
  "template_side_of nm tn template =
     (let tc = centered (resample_canonical (s_points template) (RESAMPLE_N tn))
      in \<lparr>ts_centered = tc, ts_axes = pca_axes nm tc, ts_norm = mean_norm tc,
          ts_tree = (BRUTE_FORCE_CUTOFF tn < length tc)\<rparr>)"

text \<open>The sign variants with the early exit; \<^verbatim>\<open>None\<close> is the initial infinity.\<close>

fun best_variant :: "(real \<times> real \<Rightarrow> real) \<Rightarrow> real \<Rightarrow> (real \<times> real) list \<Rightarrow> real option \<Rightarrow> real option" where
  "best_variant d tolerance [] best = best"
| "best_variant d tolerance (s # ss) best =
     (if best = None \<or> d s < the best
      then if d s \<le> tolerance then Some (d s) else best_variant d tolerance ss (Some (d s))
      else best_variant d tolerance ss best)"

datatype candidate_verdict = NoVerdict | Matched match_result | Missed near_miss

definition judge_candidate ::
  "numerics \<Rightarrow> tunables \<Rightarrow> template_side \<Rightarrow> real \<Rightarrow> handle \<Rightarrow> shape \<Rightarrow> candidate_verdict" where
  "judge_candidate nm tn ts tolerance handle shape =
     (if length (s_points shape) < 2 then NoVerdict
      else
        let cc = centered (resample_canonical (s_points shape) (RESAMPLE_N tn)); c_norm = mean_norm cc
        in if c_norm < 1 / 10 ^ 9 then NoVerdict
           else
             let scale = ts_norm ts / c_norm
             in if scale < SCALE_MIN tn \<or> SCALE_MAX tn < scale
                then Missed \<lparr>n_handles = [handle], n_score = 0, n_scale = scale, n_reason = MissScale\<rparr>
                else
                  let c_scaled = map (pscale scale) cc;
                      rot = mat_times (transpose2 (pca_axes nm c_scaled)) (ts_axes ts);
                      base = map (\<lambda>p. row_times p rot) c_scaled;
                      d = (\<lambda>s. let cand = map (apply_sign s) base
                               in if ts_tree ts then chamfer nm (ts_centered ts) cand
                                  else chamfer_brute (ts_centered ts) cand);
                      best = the (best_variant d tolerance SIGN_VARIANTS None)
                  in if best \<le> tolerance then Matched \<lparr>m_handles = [handle], m_score = best, m_scale = scale\<rparr>
                     else Missed \<lparr>n_handles = [handle], n_score = best, n_scale = scale, n_reason = MissShape\<rparr>)"

definition verdict_matches :: "candidate_verdict \<Rightarrow> match_result list" where
  "verdict_matches v = (case v of Matched m \<Rightarrow> [m] | _ \<Rightarrow> [])"

definition verdict_misses :: "candidate_verdict \<Rightarrow> near_miss list" where
  "verdict_misses v = (case v of Missed m \<Rightarrow> [m] | _ \<Rightarrow> [])"

definition output_of :: "candidate_verdict list \<Rightarrow> match_output" where
  "output_of vs = \<lparr>matches = concat (map verdict_matches vs), near_misses = concat (map verdict_misses vs)\<rparr>"

definition match_single_serial ::
  "numerics \<Rightarrow> tunables \<Rightarrow> shape \<Rightarrow> drawing \<Rightarrow> handle list \<Rightarrow> real \<Rightarrow> match_output" where
  "match_single_serial nm tn template drawing skip tolerance =
     (if s_vertex_count template < 2 then no_output
      else
        let ts = template_side_of nm tn template
        in if ts_norm ts < 1 / 10 ^ 9 then no_output
           else output_of
             (map (\<lambda>h. judge_candidate nm tn ts tolerance h (the (map_of drawing h)))
               (filter (\<lambda>h. h \<notin> set skip) (gate_candidates tn template (build_signature_index drawing)))))"

definition MIN_ITEMS_PER_WORKER :: nat where
  "MIN_ITEMS_PER_WORKER = 200"

text \<open>\<^verbatim>\<open>[items[i:i + n] for i in range(0, len(items), n)]\<close>\<close>

function chunks_of :: "nat \<Rightarrow> 'a list \<Rightarrow> 'a list list" where
  "chunks_of n xs = (if n = 0 \<or> xs = [] then [] else take n xs # chunks_of n (drop n xs))"
  by auto
termination by (relation "measure (\<lambda>(n, xs). length xs)") auto

declare chunks_of.simps [simp del]

definition join_outputs :: "match_output list \<Rightarrow> match_output" where
  "join_outputs os = \<lparr>matches = concat (map matches os), near_misses = concat (map near_misses os)\<rparr>"

text \<open>The candidate sublists handed to the pool.\<close>

definition match_chunks :: "nat \<Rightarrow> handle list \<Rightarrow> drawing \<Rightarrow> drawing list" where
  "match_chunks n_jobs skip drawing =
     (let items = filter (\<lambda>(h, s). h \<notin> set skip) drawing
      in chunks_of ((length items + n_jobs - 1) div n_jobs) items)"

definition in_parallel :: "nat \<Rightarrow> handle list \<Rightarrow> drawing \<Rightarrow> bool" where
  "in_parallel n_jobs skip drawing \<longleftrightarrow>
     1 < n_jobs \<and> n_jobs * MIN_ITEMS_PER_WORKER \<le> length (filter (\<lambda>(h, s). h \<notin> set skip) drawing)"

text \<open>The result of a single-entity match when every process works with the index of the dict it was
  handed. The caches of the processes, which can break this, are the subject of IndexCache.\<close>

definition match_single ::
  "numerics \<Rightarrow> tunables \<Rightarrow> nat \<Rightarrow> shape \<Rightarrow> drawing \<Rightarrow> handle list \<Rightarrow> real \<Rightarrow> match_output" where
  "match_single nm tn n_jobs template drawing skip tolerance =
     (if in_parallel n_jobs skip drawing
      then join_outputs (map (\<lambda>chunk. match_single_serial nm tn template chunk [] tolerance) (match_chunks n_jobs skip drawing))
      else match_single_serial nm tn template drawing skip tolerance)"

section \<open>Fingerprints and clusters\<close>

type_synonym fingerprint = "int \<times> int \<times> int"
type_synonym cluster_id = "int \<times> int \<times> fingerprint"

definition FINGERPRINT_DIGITS :: nat where "FINGERPRINT_DIGITS = 3"
definition FINGERPRINT_NEIGHBOR :: int where "FINGERPRINT_NEIGHBOR = 1"
definition CENTROID_NOISE_TOL :: real where "CENTROID_NOISE_TOL = 1 / 1000"

definition fingerprint_of :: "shape \<Rightarrow> fingerprint" where
  "fingerprint_of s =
     (let mult = 10 ^ FINGERPRINT_DIGITS
      in (py_round (s_path_length s * mult), py_round (s_radius s * mult), py_round (sigma_ratio s * mult)))"

definition fingerprint_neighbours :: "fingerprint \<Rightarrow> int \<Rightarrow> fingerprint list" where
  "fingerprint_neighbours fp radius =
     (let ds = [- radius .. radius]; (p0, p1, p2) = fp
      in concat (map (\<lambda>dp. concat (map (\<lambda>dr. map (\<lambda>ds. (p0 + dp, p1 + dr, p2 + ds)) ds) ds)) ds))"

definition fingerprint_matches :: "fingerprint \<Rightarrow> fingerprint \<Rightarrow> int \<Rightarrow> bool" where
  "fingerprint_matches a b radius \<longleftrightarrow>
     \<bar>fst a - fst b\<bar> \<le> radius \<and> \<bar>fst (snd a) - fst (snd b)\<bar> \<le> radius \<and> \<bar>snd (snd a) - snd (snd b)\<bar> \<le> radius"

definition cluster_key :: "shape \<Rightarrow> cluster_id" where
  "cluster_key s =
     (py_round (fst (s_centroid s) * (1 / CENTROID_NOISE_TOL)), py_round (snd (s_centroid s) * (1 / CENTROID_NOISE_TOL)),
      fingerprint_of s)"

definition get_position_clusters :: "drawing \<Rightarrow> (cluster_id, handle list) dict" where
  "get_position_clusters drawing = fold (\<lambda>(h, s). dict_push (cluster_key s) h) drawing []"

definition dedupe_template_shapes :: "shape list \<Rightarrow> shape list" where
  "dedupe_template_shapes ts =
     rev (snd (fold (\<lambda>t (seen, unique). if cluster_key t \<in> set seen then (seen, unique)
                                        else (cluster_key t # seen, t # unique)) ts ([], [])))"

definition get_fingerprint_buckets :: "drawing \<Rightarrow> (fingerprint, handle list) dict" where
  "get_fingerprint_buckets drawing =
     fold (\<lambda>(h, s). dict_push (fingerprint_of s) h) (filter (\<lambda>(h, s). s_kind s \<noteq> Some ''circle'') drawing) []"

text \<open>The handles in the neighbourhood of a fingerprint, each once.\<close>

definition bucket_neighbourhood :: "(fingerprint, handle list) dict \<Rightarrow> fingerprint \<Rightarrow> handle list" where
  "bucket_neighbourhood buckets fp =
     fold (\<lambda>h acc. if h \<in> set acc then acc else acc @ [h])
       (concat (map (dict_list buckets) (fingerprint_neighbours fp FINGERPRINT_NEIGHBOR))) []"

definition bucket_size :: "(fingerprint, handle list) dict \<Rightarrow> shape \<Rightarrow> nat" where
  "bucket_size buckets t =
     sum_list (map (\<lambda>fp. length (dict_list buckets fp))
       (fingerprint_neighbours (fingerprint_of t) FINGERPRINT_NEIGHBOR))"

section \<open>Several entities: rigid matching\<close>

text \<open>An entity to be found: where it is predicted, its fingerprint and its role.\<close>

record role_spot =
  rs_expected :: point
  rs_fp :: fingerprint
  rs_key :: cluster_id

text \<open>A match under construction: the drawing handles with the template cluster each stands for.\<close>

type_synonym partial_match = "(handle \<times> cluster_id) list"

definition shape_at :: "drawing \<Rightarrow> handle \<Rightarrow> shape" where
  "shape_at drawing h = the (map_of drawing h)"

definition find_at :: "numerics \<Rightarrow> drawing \<Rightarrow> handle list \<Rightarrow> handle list \<Rightarrow> role_spot \<Rightarrow> handle option" where
  "find_at nm drawing skip used spot =
     (let handles = map fst drawing; centroids = map (s_centroid \<circ> snd) drawing
      in find (\<lambda>h. h \<notin> set skip \<and> h \<notin> set used \<and>
                   fingerprint_matches (fingerprint_of (shape_at drawing h)) (rs_fp spot) FINGERPRINT_NEIGHBOR)
           (map (\<lambda>i. handles ! i) (ball_points nm centroids (rs_expected spot) CENTROID_NOISE_TOL)))"

text \<open>The other entities are placed in order; the first one not found fails the pose.\<close>

fun place_others ::
  "numerics \<Rightarrow> drawing \<Rightarrow> handle list \<Rightarrow> role_spot list \<Rightarrow> partial_match \<Rightarrow> partial_match option" where
  "place_others nm drawing skip [] matched = Some matched"
| "place_others nm drawing skip (spot # spots) matched =
     (case find_at nm drawing skip (map fst matched) spot of
        None \<Rightarrow> None
      | Some h \<Rightarrow> place_others nm drawing skip spots (matched @ [(h, rs_key spot)]))"

fun first_some :: "('a \<Rightarrow> 'b option) \<Rightarrow> 'a list \<Rightarrow> 'b option" where
  "first_some f [] = None"
| "first_some f (x # xs) = (case f x of Some y \<Rightarrow> Some y | None \<Rightarrow> first_some f xs)"

text \<open>A consistent pose is recorded unless its group of handles was seen.\<close>

definition record_group :: "partial_match option \<Rightarrow> handle list list \<times> partial_match list \<Rightarrow> handle list list \<times> partial_match list" where
  "record_group r = (\<lambda>(seen, raw).
     case r of
       None \<Rightarrow> (seen, raw)
     | Some m \<Rightarrow> (let group = sort (map fst m)
                  in if group \<in> set seen then (seen, raw) else (seen @ [group], raw @ [m])))"

record seed_choice =
  sc_seed :: shape
  sc_others :: "shape list"

definition choose_seed :: "(fingerprint, handle list) dict \<Rightarrow> shape list \<Rightarrow> seed_choice" where
  "choose_seed buckets template_shapes =
     (let seed = min_by (bucket_size buckets) template_shapes
      in \<lparr>sc_seed = seed, sc_others = filter (\<lambda>t. t \<noteq> seed) template_shapes\<rparr>)"

text \<open>The anisotropic path: the candidate's principal axes under the four sign variants.\<close>

definition role_of :: "shape \<Rightarrow> point \<Rightarrow> role_spot" where
  "role_of t expected = \<lparr>rs_expected = expected, rs_fp = fingerprint_of t, rs_key = cluster_key t\<rparr>"

definition scale_rows :: "real \<times> real \<Rightarrow> matrix \<Rightarrow> matrix" where
  "scale_rows s m = (pscale (fst s) (fst m), pscale (snd s) (snd m))"

definition aniso_spots :: "numerics \<Rightarrow> seed_choice \<Rightarrow> shape \<Rightarrow> real \<times> real \<Rightarrow> role_spot list" where
  "aniso_spots nm sc cand sign =
     (let seed = sc_seed sc;
          seed_axes = pca_axes nm (map (\<lambda>p. psub p (s_centroid seed)) (s_points seed));
          cand_axes = pca_axes nm (map (\<lambda>p. psub p (s_centroid cand)) (s_points cand));
          scaled_axes = scale_rows sign cand_axes
      in map (\<lambda>t. role_of t (padd (row_times (row_times (psub (s_centroid t) (s_centroid seed)) (transpose2 seed_axes))
                                         scaled_axes) (s_centroid cand)))
           (sc_others sc))"

definition aniso_pose ::
  "numerics \<Rightarrow> drawing \<Rightarrow> handle list \<Rightarrow> seed_choice \<Rightarrow> handle \<Rightarrow> partial_match option" where
  "aniso_pose nm drawing skip sc cand_handle =
     first_some (\<lambda>sign. place_others nm drawing skip (aniso_spots nm sc (shape_at drawing cand_handle) sign)
                          [(cand_handle, cluster_key (sc_seed sc))]) SIGN_VARIANTS"

text \<open>The isotropic path: the pose of two centroids, with the mirror image for three or more.\<close>

definition perp :: "point \<Rightarrow> point" where
  "perp v = (- snd v, fst v)"

definition iso_spots :: "seed_choice \<Rightarrow> shape \<Rightarrow> point \<Rightarrow> bool \<Rightarrow> role_spot list" where
  "iso_spots sc cand_seed d_x mirror =
     (let seed = sc_seed sc;
          template_vec = psub (s_centroid (hd (sc_others sc))) (s_centroid seed);
          t_x = pscale (1 / pnorm template_vec) template_vec
      in map (\<lambda>t. let off = psub (s_centroid t) (s_centroid seed);
                      y = pdot off (perp t_x)
                  in role_of t (padd (padd (s_centroid cand_seed) (pscale (pdot off t_x) d_x))
                                  (pscale (if mirror then - y else y) (perp d_x))))
           (tl (sc_others sc)))"

definition iso_pose ::
  "numerics \<Rightarrow> drawing \<Rightarrow> handle list \<Rightarrow> seed_choice \<Rightarrow> handle \<Rightarrow> handle \<Rightarrow> partial_match option" where
  "iso_pose nm drawing skip sc cand_seed_handle cand_other_handle =
     (let seed = sc_seed sc; other_first = hd (sc_others sc);
          template_dist = pnorm (psub (s_centroid other_first) (s_centroid seed));
          cand_seed = shape_at drawing cand_seed_handle;
          cand_vec = psub (s_centroid (shape_at drawing cand_other_handle)) (s_centroid cand_seed);
          cand_dist = pnorm cand_vec
      in if CENTROID_NOISE_TOL < \<bar>cand_dist - template_dist\<bar> then None
         else first_some
           (\<lambda>mirror. place_others nm drawing skip (iso_spots sc cand_seed (pscale (1 / cand_dist) cand_vec) mirror)
              [(cand_seed_handle, cluster_key seed), (cand_other_handle, cluster_key other_first)])
           (if length (sc_others sc) \<le> 1 then [False] else [False, True]))"

definition seed_is_isotropic :: "seed_choice \<Rightarrow> bool" where
  "seed_is_isotropic sc \<longleftrightarrow>
     ISOTROPIC_SIGMA_RATIO_THRESHOLD < sigma_ratio (sc_seed sc) \<and>
     \<not> pnorm (psub (s_centroid (hd (sc_others sc))) (s_centroid (sc_seed sc))) < CENTROID_NOISE_TOL"

definition raw_matches ::
  "numerics \<Rightarrow> drawing \<Rightarrow> handle list \<Rightarrow> cluster_id list \<Rightarrow> seed_choice \<Rightarrow> partial_match list" where
  "raw_matches nm drawing skip template_keys sc =
     (let buckets = get_fingerprint_buckets drawing;
          usable = (\<lambda>h. h \<notin> set skip \<and> cluster_key (shape_at drawing h) \<notin> set template_keys);
          seeds = filter usable (bucket_neighbourhood buckets (fingerprint_of (sc_seed sc)))
      in snd (if seed_is_isotropic sc
              then fold (\<lambda>cs. fold (\<lambda>co. record_group (iso_pose nm drawing skip sc cs co))
                         (filter (\<lambda>co. co \<noteq> cs \<and> usable co)
                           (bucket_neighbourhood buckets (fingerprint_of (hd (sc_others sc)))))) seeds ([], [])
              else fold (\<lambda>c. record_group (aniso_pose nm drawing skip sc c)) seeds ([], [])))"

text \<open>The expansion of a match to the stacked duplicates of its handles, as many as the user had
  selected for the role.\<close>

definition template_multiplicity :: "drawing \<Rightarrow> handle list \<Rightarrow> cluster_id \<Rightarrow> nat option" where
  "template_multiplicity drawing skip key =
     (let n = length (filter (\<lambda>h. h \<in> fst ` set drawing \<and> cluster_key (shape_at drawing h) = key) (remdups skip))
      in if n = 0 then None else Some n)"

fun pick_mates :: "nat \<Rightarrow> handle list \<Rightarrow> handle list \<Rightarrow> handle list \<Rightarrow> handle list" where
  "pick_mates n skip picked [] = picked"
| "pick_mates n skip picked (cm # cms) =
     (if n \<le> length picked then picked
      else if cm \<in> set picked \<or> cm \<in> set skip then pick_mates n skip picked cms
      else pick_mates n skip (picked @ [cm]) cms)"

definition expand_match :: "drawing \<Rightarrow> handle list \<Rightarrow> partial_match \<Rightarrow> handle list" where
  "expand_match drawing skip matched =
     filter (\<lambda>h. h \<notin> set skip)
       (sort (remdups (concat (map (\<lambda>(h, role_key).
          pick_mates (case template_multiplicity drawing skip role_key of None \<Rightarrow> 1 | Some n \<Rightarrow> n) skip [h]
            (case map_of (get_position_clusters drawing) (cluster_key (shape_at drawing h)) of
               None \<Rightarrow> [h] | Some members \<Rightarrow> members)) matched))))"

definition expand_all :: "drawing \<Rightarrow> handle list \<Rightarrow> partial_match list \<Rightarrow> match_result list" where
  "expand_all drawing skip raw =
     snd (fold (\<lambda>m (seen, expanded).
            let full = expand_match drawing skip m;
                physical = sort (map (\<lambda>h. cluster_key (shape_at drawing h)) full)
            in if full = [] \<or> physical \<in> set seen then (seen, expanded)
               else (physical # seen, expanded @ [\<lparr>m_handles = full, m_score = 0, m_scale = 1\<rparr>]))
          raw ([], []))"

datatype match_error = MatchValueError string

text \<open>\<^verbatim>\<open>np.stack\<close> refuses a drawing without entities.\<close>

definition match_multi ::
  "numerics \<Rightarrow> tunables \<Rightarrow> shape list \<Rightarrow> drawing \<Rightarrow> handle list \<Rightarrow> real \<Rightarrow> bool \<Rightarrow> match_error + match_output" where
  "match_multi nm tn template_shapes drawing skip tolerance exclude_template_positions =
     (let ts = (if 1 < length template_shapes then dedupe_template_shapes template_shapes else template_shapes)
      in if 1 < length template_shapes \<and> length ts = 1
         then Inr (match_single nm tn 1 (hd ts) drawing skip tolerance)
         else if drawing = [] then Inl (MatchValueError ''need at least one array to stack'')
         else
           let keys = (if exclude_template_positions then map cluster_key ts else []);
               sc = choose_seed (get_fingerprint_buckets drawing) ts
           in Inr (no_output\<lparr>matches := expand_all drawing skip (raw_matches nm drawing skip keys sc)\<rparr>))"

section \<open>Entry points\<close>

definition dispatch ::
  "numerics \<Rightarrow> tunables \<Rightarrow> nat \<Rightarrow> shape list \<Rightarrow> drawing \<Rightarrow> handle list \<Rightarrow> real \<Rightarrow> string \<Rightarrow> real option \<Rightarrow> bool \<Rightarrow>
   match_error + match_output" where
  "dispatch nm tn n_jobs template_shapes drawing skip tolerance strategy bbox_ratio exclude =
     (if template_shapes = [] then Inr no_output
      else if strategy = ''signature'' \<and> length template_shapes = 1
      then Inr (match_signature_mode tn (hd template_shapes) drawing skip
                  (case bbox_ratio of Some r \<Rightarrow> r | None \<Rightarrow> SIGNATURE_DEFAULT_BBOX_RATIO))
      else if length template_shapes = 1
      then let tpl = hd template_shapes
           in if s_kind tpl = Some ''circle'' \<and> 0 < s_radius tpl then Inr (match_single_circle tpl drawing skip)
              else Inr (match_single nm tn n_jobs tpl drawing skip tolerance)
      else match_multi nm tn template_shapes drawing skip tolerance exclude)"

definition find_matches ::
  "numerics \<Rightarrow> tunables \<Rightarrow> nat \<Rightarrow> handle list \<Rightarrow> drawing \<Rightarrow> real option \<Rightarrow> string \<Rightarrow> real option \<Rightarrow>
   match_error + match_output" where
  "find_matches nm tn n_jobs template_handles drawing tolerance strategy bbox_ratio =
     dispatch nm tn n_jobs (List.map_filter (map_of drawing) template_handles) drawing (remdups template_handles)
       (case tolerance of None \<Rightarrow> TOLERANCE_ABS tn | Some t \<Rightarrow> t) strategy bbox_ratio True"

definition find_matches_from_pointsets ::
  "numerics \<Rightarrow> tunables \<Rightarrow> nat \<Rightarrow> point_sets \<Rightarrow> drawing \<Rightarrow> real option \<Rightarrow> string option list option \<Rightarrow> string \<Rightarrow>
   real option \<Rightarrow> match_error + match_output" where
  "find_matches_from_pointsets nm tn n_jobs entity_point_sets drawing tolerance entity_kinds strategy bbox_ratio =
     (case (case entity_kinds of
              None \<Rightarrow> Some (replicate (length entity_point_sets) None)
            | Some ks \<Rightarrow> if length ks \<noteq> length entity_point_sets then None else Some ks) of
        None \<Rightarrow> Inl (MatchValueError ''entity_kinds length must equal entity_point_sets length'')
      | Some kinds \<Rightarrow>
          dispatch nm tn n_jobs
            (List.map_filter (\<lambda>(i, pts, k). if pts = [] then None
                                else Some (from_points nm (''_template_'' @ str_of_nat i) pts k))
               (enumerate 0 (zip entity_point_sets kinds)))
            drawing [] (case tolerance of None \<Rightarrow> TOLERANCE_ABS tn | Some t \<Rightarrow> t) strategy bbox_ratio False)"

section \<open>The gate is the signature test\<close>

lemma ratio_mask_iff: "ratio_mask t tol x \<longleftrightarrow> \<not> outside_ratio t x tol"
  by (auto simp: ratio_mask_def outside_ratio_def)

lemma gate_sigma: "(if 0 < s_sigma1 s then s_sigma2 s / s_sigma1 s else 0) = sigma_ratio s"
  by (simp add: sigma_ratio_def)

lemma filter_nth_map: "map (\<lambda>i. f (xs ! i)) (filter (\<lambda>i. P (xs ! i)) [0..<length xs]) = map f (filter P xs)"
proof (induction xs rule: rev_induct)
  case (snoc x xs)
  have "filter (\<lambda>i. P ((xs @ [x]) ! i)) [0..<length xs] = filter (\<lambda>i. P (xs ! i)) [0..<length xs]"
    by (rule filter_cong) (simp_all add: nth_append)
  moreover have "map (\<lambda>i. f ((xs @ [x]) ! i)) (filter (\<lambda>i. P (xs ! i)) [0..<length xs]) =
      map (\<lambda>i. f (xs ! i)) (filter (\<lambda>i. P (xs ! i)) [0..<length xs])"
    by (rule map_cong) (auto simp: nth_append)
  ultimately show ?case using snoc by (simp add: nth_append)
qed simp

lemma gate_candidates_eq:
  "gate_candidates tn t (build_signature_index drawing) =
     map fst (filter (\<lambda>p. signatures_compatible tn t (snd p) None None) drawing)"
proof (cases "s_vertex_count t < 2")
  case False
  let ?mask = "\<lambda>p. 2 \<le> s_vertex_count (snd p) \<and>
      ratio_mask (s_path_length t) (PATH_LENGTH_RATIO tn) (s_path_length (snd p)) \<and>
      ratio_mask (s_radius t) (RADIUS_RATIO tn) (s_radius (snd p)) \<and>
      \<bar>sigma_ratio t - sigma_ratio (snd p)\<bar> \<le> SIGMA_RATIO_TOL tn"
  have m: "?mask p \<longleftrightarrow> signatures_compatible tn t (snd p) None None" for p
    using False by (auto simp: signatures_compatible_def Let_def ratio_mask_iff)
  let ?idx = "build_signature_index drawing"
  have "gate_candidates tn t ?idx =
      map (\<lambda>i. fst (drawing ! i)) (filter (\<lambda>i. ?mask (drawing ! i)) [0..<length drawing])"
    using False unfolding gate_candidates_def Let_def gate_sigma
    by (auto simp: build_signature_index_def Let_def gate_sigma intro!: map_cong filter_cong)
  then show ?thesis
    using filter_nth_map[of fst drawing "\<lambda>p. signatures_compatible tn t (snd p) None None"] by (simp only: m)
qed (simp add: gate_candidates_def signatures_compatible_def Let_def)

text \<open>The vectorised gate over the precomputed index selects, in drawing order, exactly the
  handles whose shape passes the scalar signature test with the default ratios, whatever values the
  tunables have at the time of the call.\<close>

theorem gate_is_signature_test:
  "gate_candidates tn t (build_signature_index drawing) =
     map fst (filter (\<lambda>p. signatures_compatible tn t (snd p) None None) drawing)"
  by (rule gate_candidates_eq)

section \<open>Parallel and serial matching\<close>

lemma match_single_serial_eq:
  assumes "dict_ok drawing"
  shows "match_single_serial nm tn t drawing skip tol =
    (if s_vertex_count t < 2 \<or> ts_norm (template_side_of nm tn t) < 1 / 10 ^ 9 then no_output
     else output_of (map (\<lambda>p. judge_candidate nm tn (template_side_of nm tn t) tol (fst p) (snd p))
       (filter (\<lambda>p. fst p \<notin> set skip \<and> signatures_compatible tn t (snd p) None None) drawing)))"
proof -
  have "the (map_of drawing (fst p)) = snd p" if "p \<in> set drawing" for p
    using that assms by (metis dict_entry_iff option.sel prod.collapse)
  then have "map (\<lambda>h. judge_candidate nm tn ts tol h (the (map_of drawing h)))
      (filter (\<lambda>h. h \<notin> set skip) (map fst (filter P drawing))) =
    map (\<lambda>p. judge_candidate nm tn ts tol (fst p) (snd p)) (filter (\<lambda>p. fst p \<notin> set skip \<and> P p) drawing)" for ts P
    by (auto simp: filter_map comp_def intro!: map_cong filter_cong)
  then show ?thesis by (simp add: match_single_serial_def gate_candidates_eq Let_def)
qed

lemma concat_chunks_of: "0 < n \<Longrightarrow> concat (chunks_of n xs) = xs"
  by (induction n xs rule: chunks_of.induct) (subst chunks_of.simps, simp)

lemma chunks_of_sub: "c \<in> set (chunks_of n xs) \<Longrightarrow> \<exists>i j. c = take i (drop j xs)"
proof (induction n xs rule: chunks_of.induct)
  case (1 n xs)
  show ?case
  proof (cases "n = 0 \<or> xs = []")
    case False
    then consider "c = take n xs" | "c \<in> set (chunks_of n (drop n xs))"
      using 1(2) by (subst (asm) chunks_of.simps) auto
    then show ?thesis
    proof cases
      case 2
      then obtain i j where "c = take i (drop j (drop n xs))" using 1(1) False by blast
      then show ?thesis by (metis drop_drop)
    qed (metis drop_0)
  next
    case True
    then have "chunks_of n xs = []" by (subst chunks_of.simps) auto
    then show ?thesis using 1(2) by simp
  qed
qed

lemma join_output_of: "join_outputs (map (output_of \<circ> f) xs) = output_of (concat (map f xs))"
  by (induction xs) (simp_all add: join_outputs_def output_of_def)

lemma join_no_output: "join_outputs (map (\<lambda>_. no_output) xs) = no_output"
  by (induction xs) (simp_all add: join_outputs_def no_output_def)

lemma dict_ok_sub: "dict_ok xs \<Longrightarrow> dict_ok (take i (drop j xs))"
  by (simp add: take_map[symmetric] drop_map[symmetric])

lemma dict_ok_filter: "dict_ok xs \<Longrightarrow> dict_ok (filter P xs)"
  by (rule distinct_map_filter)

lemma match_single_parallel:
  assumes d: "dict_ok drawing"
  shows "match_single nm tn n_jobs t drawing skip tol = match_single_serial nm tn t drawing skip tol"
proof -
  let ?items = "filter (\<lambda>(h, s). h \<notin> set skip) drawing"
  let ?n = "(length ?items + n_jobs - 1) div n_jobs"
  have "join_outputs (map (\<lambda>c. match_single_serial nm tn t c [] tol) (chunks_of ?n ?items)) =
      match_single_serial nm tn t drawing skip tol"
    if j: "\<not> n_jobs \<le> 1" and big: "\<not> length ?items < n_jobs * MIN_ITEMS_PER_WORKER"
  proof -
    have "n_jobs \<le> length ?items + n_jobs - 1" using j big by (simp add: MIN_ITEMS_PER_WORKER_def)
    then have n: "0 < ?n" using j by (simp add: div_greater_zero_iff)
    let ?ts = "template_side_of nm tn t"
    let ?f = "\<lambda>c. map (\<lambda>p. judge_candidate nm tn ?ts tol (fst p) (snd p))
        (filter (\<lambda>p. signatures_compatible tn t (snd p) None None) c)"
    let ?none = "s_vertex_count t < 2 \<or> ts_norm ?ts < 1 / 10 ^ 9"
    have ok: "dict_ok c" if "c \<in> set (chunks_of ?n ?items)" for c
      using chunks_of_sub[OF that] dict_ok_sub dict_ok_filter[OF d] by metis
    have m: "map (\<lambda>c. match_single_serial nm tn t c [] tol) (chunks_of ?n ?items) =
        map (\<lambda>c. if ?none then no_output else (output_of \<circ> ?f) c) (chunks_of ?n ?items)"
      by (rule map_cong) (simp_all add: match_single_serial_eq[OF ok])
    have "concat (map ?f (chunks_of ?n ?items)) = ?f (concat (chunks_of ?n ?items))"
      by (simp add: map_concat filter_concat comp_def)
    also have "\<dots> = map (\<lambda>p. judge_candidate nm tn ?ts tol (fst p) (snd p))
        (filter (\<lambda>p. fst p \<notin> set skip \<and> signatures_compatible tn t (snd p) None None) drawing)"
      unfolding concat_chunks_of[OF n] by (simp add: case_prod_beta conj_commute)
    finally show ?thesis
      using join_output_of[of ?f "chunks_of ?n ?items"] join_no_output[of "chunks_of ?n ?items"]
      unfolding m match_single_serial_eq[OF d] by (cases ?none) (simp_all only: if_True if_False)
  qed
  then show ?thesis by (simp add: match_single_def in_parallel_def match_chunks_def Let_def)
qed

section \<open>The circle fast path\<close>

definition circle_radius :: "shape \<Rightarrow> bool" where
  "circle_radius s \<longleftrightarrow> s_kind s = Some ''circle'' \<and> 0 < s_radius s"

lemma radius_buckets_list:
  "dict_list (get_radius_buckets drawing) k =
     map fst (filter (\<lambda>p. circle_radius (snd p) \<and> radius_bucket_key (s_radius (snd p)) = k) drawing)"
proof -
  have "get_radius_buckets drawing =
      fold (\<lambda>p. dict_push (radius_bucket_key (s_radius (snd p))) (fst p)) (filter (\<lambda>p. circle_radius (snd p)) drawing) []"
    unfolding get_radius_buckets_def by (simp add: case_prod_beta' circle_radius_def not_le)
  then show ?thesis
    by (simp add: fold_push_list conj_commute)
qed

definition circle_hit :: "shape \<Rightarrow> handle list \<Rightarrow> handle \<times> shape \<Rightarrow> bool" where
  "circle_hit t skip p \<longleftrightarrow> fst p \<notin> set skip \<and> circle_radius (snd p) \<and>
     \<bar>radius_bucket_key (s_radius (snd p)) - radius_bucket_key (s_radius t)\<bar> \<le> 1"

lemma near_keys: "\<bar>a - b :: int\<bar> \<le> 1 \<longleftrightarrow> a = b - 1 \<or> a = b \<or> a = b + 1"
  by presburger

lemma circle_matches_set:
  "set (matches (match_single_circle t drawing skip)) =
     (\<lambda>p. \<lparr>m_handles = [fst p], m_score = 0, m_scale = 1\<rparr>) ` {p \<in> set drawing. circle_hit t skip p}"
proof -
  let ?k = "radius_bucket_key (s_radius t)"
  let ?hits = "concat (map (dict_list (get_radius_buckets drawing)) [?k - 1, ?k, ?k + 1])"
  have "set ?hits = fst ` {p \<in> set drawing. circle_radius (snd p) \<and>
      \<bar>radius_bucket_key (s_radius (snd p)) - ?k\<bar> \<le> 1}"
    unfolding radius_buckets_list near_keys by auto
  then have "set (filter (\<lambda>h. h \<notin> set skip) ?hits) = fst ` {p \<in> set drawing. circle_hit t skip p}"
    unfolding set_filter circle_hit_def by auto
  then show ?thesis
    by (simp only: match_single_circle_def Let_def no_output_def match_output.simps match_output.update_convs
        match_output.select_convs set_map image_image)
qed

lemma scaled_abs_diff: "\<bar>a * 10 ^ 4 - b * 10 ^ 4\<bar> = \<bar>a - b :: real\<bar> * 10 ^ 4"
proof -
  have "a * 10 ^ 4 - b * 10 ^ 4 = (a - b) * 10 ^ 4" by (rule left_diff_distrib[symmetric])
  then show ?thesis by (simp only: abs_mult power_abs abs_numeral)
qed

lemma radius_key_near: "\<bar>a - b\<bar> < 1 / 10 ^ 4 \<Longrightarrow> \<bar>radius_bucket_key a - radius_bucket_key b\<bar> \<le> 1"
proof -
  assume "\<bar>a - b\<bar> < 1 / 10 ^ 4"
  then have "\<bar>a * 10 ^ 4 - b * 10 ^ 4\<bar> < 1" unfolding scaled_abs_diff by (simp add: field_simps)
  moreover have "\<bar>of_int (py_round (a * 10 ^ 4)) - a * 10 ^ 4\<bar> \<le> 1 / 2" "\<bar>of_int (py_round (b * 10 ^ 4)) - b * 10 ^ 4\<bar> \<le> 1 / 2"
    by (rule py_round_bounds)+
  ultimately have "\<bar>real_of_int (py_round (a * 10 ^ 4) - py_round (b * 10 ^ 4))\<bar> < 2" by (simp only: of_int_diff)
  then show ?thesis unfolding radius_bucket_key_def CIRCLE_RADIUS_KEY_DIGITS_def by linarith
qed

lemma radius_key_far: "\<bar>radius_bucket_key a - radius_bucket_key b\<bar> \<le> 1 \<Longrightarrow> \<bar>a - b\<bar> \<le> 2 / 10 ^ 4"
proof -
  assume "\<bar>radius_bucket_key a - radius_bucket_key b\<bar> \<le> 1"
  then have "\<bar>real_of_int (py_round (a * 10 ^ 4)) - real_of_int (py_round (b * 10 ^ 4))\<bar> \<le> 1"
    unfolding radius_bucket_key_def CIRCLE_RADIUS_KEY_DIGITS_def by linarith
  moreover have "\<bar>of_int (py_round (a * 10 ^ 4)) - a * 10 ^ 4\<bar> \<le> 1 / 2" "\<bar>of_int (py_round (b * 10 ^ 4)) - b * 10 ^ 4\<bar> \<le> 1 / 2"
    by (rule py_round_bounds)+
  ultimately have "\<bar>a * 10 ^ 4 - b * 10 ^ 4\<bar> \<le> 2" by linarith
  then show ?thesis unfolding scaled_abs_diff by (simp add: field_simps)
qed

text \<open>C26. A one-circle template matches every circle of the drawing that was not selected and whose
  radius differs by less than the bucket width, none whose radius differs by more than two widths,
  and no other kind of entity; it reports no near misses.\<close>

theorem circle_match_exact:
  "near_misses (match_single_circle t drawing skip) = [] \<and>
   (\<forall>h s. (h, s) \<in> set drawing \<and> h \<notin> set skip \<and> circle_radius s \<and> \<bar>s_radius s - s_radius t\<bar> < 1 / 10 ^ 4 \<longrightarrow>
      \<lparr>m_handles = [h], m_score = 0, m_scale = 1\<rparr> \<in> set (matches (match_single_circle t drawing skip))) \<and>
   (\<forall>m \<in> set (matches (match_single_circle t drawing skip)).
      \<exists>h s. m_handles m = [h] \<and> (h, s) \<in> set drawing \<and> h \<notin> set skip \<and> circle_radius s \<and>
            \<bar>s_radius s - s_radius t\<bar> \<le> 2 / 10 ^ 4)"
proof (intro conjI allI impI ballI)
  show "near_misses (match_single_circle t drawing skip) = []"
    by (simp add: match_single_circle_def no_output_def Let_def)
  show "\<lparr>m_handles = [h], m_score = 0, m_scale = 1\<rparr> \<in> set (matches (match_single_circle t drawing skip))"
    if "(h, s) \<in> set drawing \<and> h \<notin> set skip \<and> circle_radius s \<and> \<bar>s_radius s - s_radius t\<bar> < 1 / 10 ^ 4" for h s
    using that radius_key_near unfolding circle_matches_set circle_hit_def by (intro image_eqI[of _ _ "(h, s)"]) auto
  show "\<exists>h s. m_handles m = [h] \<and> (h, s) \<in> set drawing \<and> h \<notin> set skip \<and> circle_radius s \<and>
      \<bar>s_radius s - s_radius t\<bar> \<le> 2 / 10 ^ 4" if "m \<in> set (matches (match_single_circle t drawing skip))" for m
    using that radius_key_far unfolding circle_matches_set circle_hit_def by fastforce
qed

lemma circle_match_exact_witness:
  "\<lparr>m_handles = [''b''], m_score = 0, m_scale = 1\<rparr> \<in> set (matches (match_single_circle (from_circle ''a'' (0, 0) 1)
     [(''a'', from_circle ''a'' (0, 0) 1), (''b'', from_circle ''b'' (9, 9) (1 + 1 / 10 ^ 5))] [''a'']))"
proof -
  let ?d = "[(''a'', from_circle ''a'' (0, 0) 1), (''b'', from_circle ''b'' (9, 9) (1 + 1 / 10 ^ 5))]"
  have "circle_radius (from_circle ''b'' (9, 9) (1 + 1 / 10 ^ 5))"
    "\<bar>s_radius (from_circle ''b'' (9, 9) (1 + 1 / 10 ^ 5)) - s_radius (from_circle ''a'' (0, 0) 1)\<bar> < 1 / 10 ^ 4"
    by (simp_all add: circle_radius_def from_circle_def Let_def)
  moreover have "(''b'', from_circle ''b'' (9, 9) (1 + 1 / 10 ^ 5)) \<in> set ?d \<and> ''b'' \<notin> set [''a'']" by simp
  ultimately show ?thesis
    using circle_match_exact[of "from_circle ''a'' (0, 0) 1" ?d "[''a'']"] by blast
qed

section \<open>Copies are found\<close>

text \<open>The tunables in force leave room for an exact copy.\<close>

definition tunables_ok :: "tunables \<Rightarrow> bool" where
  "tunables_ok tn \<longleftrightarrow> SCALE_MIN tn \<le> 1 \<and> 1 \<le> SCALE_MAX tn \<and> 0 \<le> PATH_LENGTH_RATIO tn \<and>
     0 \<le> RADIUS_RATIO tn \<and> 0 \<le> SIGMA_RATIO_TOL tn"

lemma compiled_tunables_ok: "tunables_ok compiled_tunables"
  by (simp add: tunables_ok_def compiled_tunables_def)

lemma compatible_same_scalars:
  assumes "tunables_ok tn" "2 \<le> s_vertex_count t" "s_vertex_count s = s_vertex_count t"
    "s_path_length s = s_path_length t" "s_radius s = s_radius t" "s_sigma1 s = s_sigma1 t" "s_sigma2 s = s_sigma2 t"
  shows "signatures_compatible tn t s None None"
  using assms by (simp add: signatures_compatible_def outside_ratio_def sigma_ratio_def tunables_ok_def)

lemma best_variant_first: "d s \<le> tol \<Longrightarrow> best_variant d tol (s # ss) None = Some (d s)"
  by simp

lemma chamfer_brute_self: "chamfer_brute a a = 0"
proof -
  have z: "sqrt (list_min (map (\<lambda>q. sqdist p q) a)) = 0" "sqrt (list_min (map (\<lambda>q. sqdist q p) a)) = 0"
    if "p \<in> set a" for p
  proof -
    have s: "0 \<le> sqdist p q" "sqdist q p = sqdist p q" "sqdist p p = 0" for q
      by (simp add: sqdist_def pdot_def, simp add: sqdist_def pdot_def psub_def algebra_simps,
          simp add: sqdist_def pdot_def psub_def)
    have "Min (set (map (\<lambda>q. sqdist p q) a)) = 0"
      using that s(1,3) by (intro Min_eqI) (auto simp: image_iff intro!: bexI[of _ p])
    moreover have sw: "map (\<lambda>q. sqdist q p) a = map (\<lambda>q. sqdist p q) a" by (rule map_cong[OF refl s(2)])
    moreover have "a \<noteq> []" using that by auto
    ultimately show "sqrt (list_min (map (\<lambda>q. sqdist p q) a)) = 0" "sqrt (list_min (map (\<lambda>q. sqdist q p) a)) = 0"
      unfolding sw by (simp_all add: list_min_Min)
  qed
  have "map (\<lambda>p. sqrt (list_min (map (\<lambda>q. sqdist p q) a))) a = map (\<lambda>_. 0) a"
    "map (\<lambda>q. sqrt (list_min (map (\<lambda>p. sqdist p q) a))) a = map (\<lambda>_. 0) a"
    using z by simp_all
  then show ?thesis unfolding chamfer_brute_def by (simp only: mean_def) simp
qed

lemma judge_copy:
  assumes nm: "eigh_orthonormal nm" "nearest_correct nm" and tn: "tunables_ok tn" and tol: "0 \<le> tol"
    and pts: "s_points s = shift d (s_points t)" "2 \<le> length (s_points t)"
    and norm: "1 / 10 ^ 9 \<le> ts_norm (template_side_of nm tn t)"
  shows "judge_candidate nm tn (template_side_of nm tn t) tol h s =
    Matched \<lparr>m_handles = [h], m_score = 0, m_scale = 1\<rparr>"
proof -
  let ?ts = "template_side_of nm tn t"
  let ?tc = "centered (resample_canonical (s_points t) (RESAMPLE_N tn))"
  have cc: "centered (resample_canonical (s_points s) (RESAMPLE_N tn)) = ?tc"
    by (simp add: pts(1) resample_canonical_shift)
  have ts: "ts_norm ?ts = mean_norm ?tc" "ts_axes ?ts = pca_axes nm ?tc" "ts_centered ?ts = ?tc"
    by (simp_all add: template_side_of_def Let_def)
  have pos: "0 < mean_norm ?tc" using norm ts(1) by (simp add: less_le_trans[of 0 "1 / 10 ^ 9"])
  have scale: "ts_norm ?ts / mean_norm ?tc = 1" using pos ts(1) by simp
  have "pscale 1 = (\<lambda>p. p)" "apply_sign (1, 1) = (\<lambda>p. p)" by (simp_all add: fun_eq_iff pscale_def apply_sign_def)
  then have one: "map (pscale 1) ?tc = ?tc" and sgn: "map (apply_sign (1, 1)) ?tc = ?tc" by simp_all
  have base: "map (\<lambda>p. row_times p (mat_times (transpose2 (pca_axes nm ?tc)) (ts_axes ?ts))) ?tc = ?tc"
    using row_times_own_frame[OF orthonormal_pca_axes[OF nm(1)]] by (simp add: ts(2))
  have len: "\<not> length (s_points s) < 2" using pts by simp
  have nz: "\<not> mean_norm ?tc < 1 / 10 ^ 9" using norm ts(1) by simp
  have sc: "\<not> (1 < SCALE_MIN tn \<or> SCALE_MAX tn < 1)" using tn by (simp add: tunables_ok_def)
  have d: "(if ts_tree ?ts then chamfer nm ?tc (map (apply_sign (1, 1)) ?tc)
      else chamfer_brute ?tc (map (apply_sign (1, 1)) ?tc)) = 0"
    unfolding sgn by (simp add: chamfer_self[OF nm(2)] chamfer_brute_self)
  show ?thesis
    unfolding judge_candidate_def Let_def cc scale one base SIGN_VARIANTS_def ts(3)
    using len nz sc tol by (simp add: d)
qed

lemma copy_in_matches:
  assumes ok: "dict_ok drawing" "(h, s) \<in> set drawing" "h \<notin> set skip"
    and compat: "signatures_compatible tn t s None None" "2 \<le> s_vertex_count t"
    and norm: "1 / 10 ^ 9 \<le> ts_norm (template_side_of nm tn t)"
    and judged: "judge_candidate nm tn (template_side_of nm tn t) tol h s = Matched m"
  shows "m \<in> set (matches (match_single nm tn n_jobs t drawing skip tol))"
proof -
  have "\<not> (s_vertex_count t < 2 \<or> ts_norm (template_side_of nm tn t) < 1 / 10 ^ 9)" using compat norm by simp
  then have e: "match_single nm tn n_jobs t drawing skip tol =
      output_of (map (\<lambda>p. judge_candidate nm tn (template_side_of nm tn t) tol (fst p) (snd p))
       (filter (\<lambda>p. fst p \<notin> set skip \<and> signatures_compatible tn t (snd p) None None) drawing))"
    by (simp only: match_single_parallel[OF ok(1)] match_single_serial_eq[OF ok(1)] if_False)
  have "(h, s) \<in> set (filter (\<lambda>p. fst p \<notin> set skip \<and> signatures_compatible tn t (snd p) None None) drawing)"
    using ok compat by simp
  then show ?thesis
    unfolding e output_of_def using judged by (force simp: verdict_matches_def)
qed

text \<open>C11. A translated copy is always found: if an unselected entity of the drawing carries the
  template's outline moved by any vector, the chamfer pipeline reports it with score 0 and scale 1,
  for every job count and whatever the tolerance, the resampling density and the numerical routines
  are, as long as eigenvectors are orthonormal, tree queries are exact and the outline does not
  shrink to a point.\<close>

theorem translated_copy_matches:
  assumes "eigh_orthonormal nm" "nearest_correct nm" "tunables_ok tn" "0 \<le> tol"
    and "dict_ok drawing" "(h, from_points nm h (shift d pts) kind) \<in> set drawing" "h \<notin> set skip"
    and "t = from_points nm h0 pts kind0" "2 \<le> s_vertex_count t"
    and "1 / 10 ^ 9 \<le> ts_norm (template_side_of nm tn t)"
  shows "\<lparr>m_handles = [h], m_score = 0, m_scale = 1\<rparr> \<in> set (matches (match_single nm tn n_jobs t drawing skip tol))"
proof -
  let ?s = "from_points nm h (shift d pts) kind"
  have f: "?s = t\<lparr>s_handle := h, s_kind := kind, s_points := shift d (s_points t),
      s_centroid := (if pts = [] then (0, 0) else padd (s_centroid t) d)\<rparr>"
    unfolding assms(8) by (rule from_points_shift)
  have len: "length (s_points t) = s_vertex_count t" by (simp add: assms(8) from_points_def case_prod_beta Let_def)
  have "signatures_compatible tn t ?s None None"
    by (rule compatible_same_scalars) (simp_all add: assms(3,9) f)
  moreover have "judge_candidate nm tn (template_side_of nm tn t) tol h ?s =
      Matched \<lparr>m_handles = [h], m_score = 0, m_scale = 1\<rparr>"
    by (rule judge_copy[where d = d]) (use assms(1-4,9,10) len in \<open>simp_all add: f\<close>)
  ultimately show ?thesis by (rule copy_in_matches[OF assms(5-7) _ assms(9,10)])
qed

text \<open>Eight samples of the unit square.\<close>

definition eight_samples :: tunables where
  "eight_samples = compiled_tunables\<lparr>RESAMPLE_N := 8\<rparr>"

definition square_points :: "point list" where
  "square_points = [(0, 0), (1, 0), (1, 1), (0, 1)]"

lemma centered_square: "centered square_points = [(-1/2, -1/2), (1/2, -1/2), (1/2, 1/2), (-1/2, 1/2)]"
  by (simp add: centered_def square_points_def mean_point_def mean_def psub_def)

lemma resampled_square:
  "resample_canonical square_points 8 = [(0, 0), (1/2, 0), (1, 0), (1, 1/2), (1, 1), (1/2, 1), (0, 1), (0, 1/2)]"
proof -
  have start: "canonical_start square_points = 0"
    unfolding canonical_start_def centered_square by (simp add: argmax_def pdot_def list_max_def square_points_def)
  have ds: "point_diffs (square_points @ [hd square_points]) = [(1, 0), (0, 1), (-1, 0), (0, -1)]"
    by (simp add: point_diffs_def square_points_def psub_def)
  have seg: "map pnorm [(1, 0), (0, 1), (-1, 0), (0, -1)] = [1, 1, 1, 1]" by (simp add: pnorm_def pdot_def)
  have cum: "running_sums [1, 1, 1, 1] = [0, 1, 2, 3, 4]" by (simp add: running_sums_def upt_rec)
  have up: "[0..<8] = [0, 1, 2, 3, 4, 5, 6, 7]" by (simp add: upt_rec)
  show ?thesis
    unfolding resample_canonical_def start resample_arclength_def Let_def rotate0 id_apply ds seg cum up
    by (simp add: square_points_def searchsorted_right_def padd_def pscale_def)
qed

lemma square_norm: "1 / 10 ^ 9 \<le> mean_norm (centered (resample_canonical square_points 8))"
proof -
  have "centered (resample_canonical square_points 8) =
      [(-1/2, -1/2), (0, -1/2), (1/2, -1/2), (1/2, 0), (1/2, 1/2), (0, 1/2), (-1/2, 1/2), (-1/2, 0)]"
    unfolding resampled_square by (simp add: centered_def mean_point_def mean_def psub_def)
  then have m: "mean_norm (centered (resample_canonical square_points 8)) = (4 * sqrt (1/2) + 4 * sqrt (1/4)) / 8"
    by (simp add: mean_norm_def mean_def pnorm_def pdot_def)
  have q: "sqrt (1/4) = 1/2" by (simp add: real_sqrt_divide)
  have "1/4 \<le> mean_norm (centered (resample_canonical square_points 8))" unfolding m q by simp
  then show ?thesis by (rule order_trans[rotated]) simp
qed

lemma translated_copy_matches_witness:
  "\<lparr>m_handles = [''b''], m_score = 0, m_scale = 1\<rparr> \<in> set (matches (match_single plain_numerics eight_samples 1
     (from_points plain_numerics ''a'' square_points (Some ''polyline''))
     [(''b'', from_points plain_numerics ''b'' (shift (7, 3) square_points) None)] [''a''] (2/10)))"
proof (rule translated_copy_matches[OF plain_numerics_ok(1,2)])
  have open_outline: "\<not> close_points (hd square_points) (last square_points)"
    by (simp add: close_points_def square_points_def)
  then have pts: "s_points (from_points plain_numerics ''a'' square_points (Some ''polyline'')) = square_points"
    "s_vertex_count (from_points plain_numerics ''a'' square_points (Some ''polyline'')) = 4"
    by (simp_all add: from_points_def Let_def case_prod_beta) (simp_all add: square_points_def)
  show "tunables_ok eight_samples" by (simp add: eight_samples_def tunables_ok_def compiled_tunables_def)
  show "2 \<le> s_vertex_count (from_points plain_numerics ''a'' square_points (Some ''polyline''))" by (simp add: pts)
  show "1 / 10 ^ 9 \<le> ts_norm (template_side_of plain_numerics eight_samples
      (from_points plain_numerics ''a'' square_points (Some ''polyline'')))"
    using square_norm by (simp add: template_side_of_def Let_def pts eight_samples_def)
  show "(''b'', from_points plain_numerics ''b'' (shift (7, 3) square_points) None)
      \<in> set [(''b'', from_points plain_numerics ''b'' (shift (7, 3) square_points) None)]" by simp
qed simp_all

section \<open>What a rigid match contains\<close>

lemma fingerprint_neighbours_iff: "b \<in> set (fingerprint_neighbours a r) \<longleftrightarrow> fingerprint_matches b a r"
proof -
  obtain a0 a1 a2 b0 b1 b2 where ab: "a = (a0, a1, a2)" "b = (b0, b1, b2)" by (metis prod_cases3)
  have "b \<in> set (fingerprint_neighbours a r) \<longleftrightarrow>
      (\<exists>x y z. \<bar>x\<bar> \<le> r \<and> \<bar>y\<bar> \<le> r \<and> \<bar>z\<bar> \<le> r \<and> b0 = a0 + x \<and> b1 = a1 + y \<and> b2 = a2 + z)"
    by (auto simp: fingerprint_neighbours_def ab Let_def image_iff abs_le_iff)
  also have "\<dots> \<longleftrightarrow> fingerprint_matches b a r"
  proof
    assume "fingerprint_matches b a r"
    then have "\<bar>b0 - a0\<bar> \<le> r \<and> \<bar>b1 - a1\<bar> \<le> r \<and> \<bar>b2 - a2\<bar> \<le> r \<and>
        b0 = a0 + (b0 - a0) \<and> b1 = a1 + (b1 - a1) \<and> b2 = a2 + (b2 - a2)"
      by (simp add: fingerprint_matches_def ab)
    then show "\<exists>x y z. \<bar>x\<bar> \<le> r \<and> \<bar>y\<bar> \<le> r \<and> \<bar>z\<bar> \<le> r \<and> b0 = a0 + x \<and> b1 = a1 + y \<and> b2 = a2 + z" by blast
  qed (auto simp: fingerprint_matches_def ab)
  finally show ?thesis .
qed

lemma fold_keep_first: "set (fold (\<lambda>h acc. if h \<in> set acc then acc else acc @ [h]) hs acc) = set acc \<union> set hs"
  by (induction hs arbitrary: acc) auto

lemma set_bucket_neighbourhood:
  "set (bucket_neighbourhood B fp) = \<Union> ((\<lambda>k. set (dict_list B k)) ` set (fingerprint_neighbours fp FINGERPRINT_NEIGHBOR))"
  unfolding bucket_neighbourhood_def fold_keep_first set_concat set_map by (simp only: image_image list.set Un_empty_left)

lemma bucket_neighbourhood_iff:
  "h \<in> set (bucket_neighbourhood (get_fingerprint_buckets drawing) fp) \<longleftrightarrow>
     (\<exists>s. (h, s) \<in> set drawing \<and> s_kind s \<noteq> Some ''circle'' \<and> fingerprint_matches (fingerprint_of s) fp FINGERPRINT_NEIGHBOR)"
proof -
  have b: "dict_list (get_fingerprint_buckets drawing) k =
      map fst (filter (\<lambda>p. s_kind (snd p) \<noteq> Some ''circle'' \<and> fingerprint_of (snd p) = k) drawing)" for k
    unfolding get_fingerprint_buckets_def by (simp add: case_prod_beta' fold_push_list conj_commute)
  have l: "set (dict_list (get_fingerprint_buckets drawing) k) =
      {h. \<exists>s. (h, s) \<in> set drawing \<and> s_kind s \<noteq> Some ''circle'' \<and> fingerprint_of s = k}" for k
    unfolding b by force
  show ?thesis unfolding set_bucket_neighbourhood l
  proof
    assume "h \<in> (\<Union>k\<in>set (fingerprint_neighbours fp FINGERPRINT_NEIGHBOR).
        {h. \<exists>s. (h, s) \<in> set drawing \<and> s_kind s \<noteq> Some ''circle'' \<and> fingerprint_of s = k})"
    then obtain s where "(h, s) \<in> set drawing" "s_kind s \<noteq> Some ''circle''"
      "fingerprint_of s \<in> set (fingerprint_neighbours fp FINGERPRINT_NEIGHBOR)" by blast
    then show "\<exists>s. (h, s) \<in> set drawing \<and> s_kind s \<noteq> Some ''circle'' \<and>
        fingerprint_matches (fingerprint_of s) fp FINGERPRINT_NEIGHBOR"
      unfolding fingerprint_neighbours_iff by blast
  next
    assume "\<exists>s. (h, s) \<in> set drawing \<and> s_kind s \<noteq> Some ''circle'' \<and>
        fingerprint_matches (fingerprint_of s) fp FINGERPRINT_NEIGHBOR"
    then obtain s where s: "(h, s) \<in> set drawing" "s_kind s \<noteq> Some ''circle''"
      "fingerprint_matches (fingerprint_of s) fp FINGERPRINT_NEIGHBOR" by (elim exE conjE)
    show "h \<in> (\<Union>k\<in>set (fingerprint_neighbours fp FINGERPRINT_NEIGHBOR).
        {h. \<exists>s. (h, s) \<in> set drawing \<and> s_kind s \<noteq> Some ''circle'' \<and> fingerprint_of s = k})"
      using s(3)[folded fingerprint_neighbours_iff] s(1,2) by (intro UN_I[of "fingerprint_of s"]) auto
  qed
qed

lemma shape_at_eq: "dict_ok drawing \<Longrightarrow> (h, s) \<in> set drawing \<Longrightarrow> shape_at drawing h = s"
  unfolding shape_at_def using map_of_is_SomeI by fastforce

text \<open>An unselected entity of the drawing that fills a template entity's role, and one that also
  stands where it is predicted.\<close>

definition fills :: "drawing \<Rightarrow> handle list \<Rightarrow> handle \<Rightarrow> shape \<Rightarrow> bool" where
  "fills drawing skip h t \<longleftrightarrow> h \<in> fst ` set drawing \<and> h \<notin> set skip \<and>
     fingerprint_matches (fingerprint_of (shape_at drawing h)) (fingerprint_of t) FINGERPRINT_NEIGHBOR"

definition fits :: "drawing \<Rightarrow> handle list \<Rightarrow> handle \<Rightarrow> role_spot \<Rightarrow> bool" where
  "fits drawing skip h spot \<longleftrightarrow> h \<in> fst ` set drawing \<and> h \<notin> set skip \<and>
     fingerprint_matches (fingerprint_of (shape_at drawing h)) (rs_fp spot) FINGERPRINT_NEIGHBOR \<and>
     pdist (s_centroid (shape_at drawing h)) (rs_expected spot) \<le> CENTROID_NOISE_TOL"

lemma find_at_Some:
  assumes "ball_correct nm" "dict_ok drawing" "find_at nm drawing skip used spot = Some h"
  shows "fits drawing skip h spot \<and> h \<notin> set used"
proof -
  obtain i where h: "h \<notin> set skip" "h \<notin> set used"
    "fingerprint_matches (fingerprint_of (shape_at drawing h)) (rs_fp spot) FINGERPRINT_NEIGHBOR"
    and i: "i \<in> set (ball_points nm (map (s_centroid \<circ> snd) drawing) (rs_expected spot) CENTROID_NOISE_TOL)"
      "h = map fst drawing ! i"
    using assms(3) by (auto simp: find_at_def Let_def find_Some_iff in_set_conv_nth) (metis nth_mem)
  have i': "i < length drawing" "pdist (map (s_centroid \<circ> snd) drawing ! i) (rs_expected spot) \<le> CENTROID_NOISE_TOL"
    using i(1) by (simp_all only: assms(1)[unfolded ball_correct_def, rule_format] mem_Collect_eq length_map)
  have "(h, snd (drawing ! i)) \<in> set drawing" using i(2) i'(1) by simp
  then have "shape_at drawing h = snd (drawing ! i)" "h \<in> fst ` set drawing"
    using shape_at_eq[OF assms(2)] by (metis, metis fst_conv image_eqI)
  then show ?thesis using h i' by (simp add: fits_def)
qed

lemma place_others_Some:
  assumes "ball_correct nm" "dict_ok drawing" "place_others nm drawing skip spots matched = Some m"
  shows "\<exists>hs. map fst m = map fst matched @ hs \<and> list_all2 (fits drawing skip) hs spots \<and>
    (distinct (map fst matched) \<longrightarrow> distinct (map fst m))"
  using assms(3)
proof (induction spots arbitrary: matched)
  case (Cons spot spots)
  then obtain h where h: "find_at nm drawing skip (map fst matched) spot = Some h"
    "place_others nm drawing skip spots (matched @ [(h, rs_key spot)]) = Some m"
    by (auto split: option.splits)
  obtain hs where hs: "map fst m = map fst matched @ h # hs" "list_all2 (fits drawing skip) hs spots"
    "distinct (map fst matched) \<and> h \<notin> set (map fst matched) \<longrightarrow> distinct (map fst m)"
    using Cons.IH[OF h(2)] by auto
  then show ?case using find_at_Some[OF assms(1,2) h(1)] by (intro exI[of _ "h # hs"]) auto
qed simp

lemma fits_role_of: "fits drawing skip h (role_of t e) \<Longrightarrow> fills drawing skip h t"
  by (simp add: fits_def fills_def role_of_def)

lemma list_all2_roles:
  "list_all2 (fits drawing skip) hs (map (\<lambda>t. role_of t (e t)) ts) \<Longrightarrow> list_all2 (fills drawing skip) hs ts"
  by (auto simp: list_all2_map2 elim!: list_all2_mono intro: fits_role_of)

lemma first_some_Some: "first_some f xs = Some y \<Longrightarrow> \<exists>x\<in>set xs. f x = Some y"
  by (induction xs) (auto split: option.splits)

text \<open>A pose covers the template: one entity each, pairwise different.\<close>

definition covers :: "drawing \<Rightarrow> handle list \<Rightarrow> shape list \<Rightarrow> partial_match \<Rightarrow> bool" where
  "covers drawing skip ts m \<longleftrightarrow> distinct (map fst m) \<and> list_all2 (fills drawing skip) (map fst m) ts"

lemma aniso_pose_covers:
  assumes "ball_correct nm" "dict_ok drawing" "fills drawing skip c (sc_seed sc)"
    "aniso_pose nm drawing skip sc c = Some m"
  shows "covers drawing skip (sc_seed sc # sc_others sc) m"
proof -
  obtain sign where "place_others nm drawing skip (aniso_spots nm sc (shape_at drawing c) sign)
      [(c, cluster_key (sc_seed sc))] = Some m"
    using assms(4) first_some_Some unfolding aniso_pose_def by fast
  from place_others_Some[OF assms(1,2) this] obtain hs
    where "map fst m = c # hs" "list_all2 (fits drawing skip) hs (aniso_spots nm sc (shape_at drawing c) sign)"
      "distinct (map fst m)" by auto
  then show ?thesis using assms(3) list_all2_roles
    by (simp add: covers_def aniso_spots_def Let_def)
qed

lemma iso_pose_covers:
  assumes "ball_correct nm" "dict_ok drawing" "sc_others sc \<noteq> []" "c \<noteq> co"
    and "fills drawing skip c (sc_seed sc)" "fills drawing skip co (hd (sc_others sc))"
    and "iso_pose nm drawing skip sc c co = Some m"
  shows "covers drawing skip (sc_seed sc # sc_others sc) m"
proof -
  let ?P = "\<lambda>v mirror. place_others nm drawing skip (iso_spots sc (shape_at drawing c) v mirror)
      [(c, cluster_key (sc_seed sc)), (co, cluster_key (hd (sc_others sc)))]"
  obtain v mirrors where "first_some (?P v) mirrors = Some m"
    using assms(7) unfolding iso_pose_def Let_def by (metis option.distinct(1))
  then obtain mirror where "?P v mirror = Some m" using first_some_Some by fast
  from place_others_Some[OF assms(1,2) this] obtain hs
    where m: "map fst m = c # co # hs" "list_all2 (fits drawing skip) hs (iso_spots sc (shape_at drawing c) v mirror)"
      "distinct (map fst m)" using assms(4) by auto
  then have "list_all2 (fills drawing skip) hs (tl (sc_others sc))"
    using list_all2_roles by (simp add: iso_spots_def Let_def)
  moreover have "sc_others sc = hd (sc_others sc) # tl (sc_others sc)" using assms(3) by simp
  ultimately show ?thesis using m(1,3) assms(5,6) unfolding covers_def by (metis list_all2_Cons)
qed

lemma record_group_raw: "m \<in> set (snd (record_group r s)) \<Longrightarrow> m \<in> set (snd s) \<or> r = Some m"
  by (cases s) (auto simp: record_group_def Let_def split: option.splits if_splits)

lemma fold_record_group:
  "m \<in> set (snd (fold (\<lambda>c. record_group (pose c)) cs s)) \<Longrightarrow> m \<in> set (snd s) \<or> (\<exists>c\<in>set cs. pose c = Some m)"
proof (induction cs arbitrary: s)
  case (Cons c cs)
  then show ?case using record_group_raw[of m "pose c" s] by fastforce
qed simp

lemma fold_fold_record_group:
  "m \<in> set (snd (fold (\<lambda>c. fold (\<lambda>co. record_group (pose c co)) (others c)) cs s)) \<Longrightarrow>
     m \<in> set (snd s) \<or> (\<exists>c\<in>set cs. \<exists>co\<in>set (others c). pose c co = Some m)"
proof (induction cs arbitrary: s)
  case (Cons c cs)
  let ?s = "fold (\<lambda>co. record_group (pose c co)) (others c) s"
  have "m \<in> set (snd ?s) \<or> (\<exists>c\<in>set cs. \<exists>co\<in>set (others c). pose c co = Some m)" using Cons.IH[of ?s] Cons.prems by simp
  then show ?case using fold_record_group[of m "pose c" "others c" s] by auto
qed simp

lemma neighbourhood_fills:
  assumes "dict_ok drawing" "c \<in> set (bucket_neighbourhood (get_fingerprint_buckets drawing) (fingerprint_of t))" "c \<notin> set skip"
  shows "fills drawing skip c t"
proof -
  obtain s where s: "(c, s) \<in> set drawing" "fingerprint_matches (fingerprint_of s) (fingerprint_of t) FINGERPRINT_NEIGHBOR"
    using assms(2) unfolding bucket_neighbourhood_iff by blast
  then show ?thesis using assms(3) shape_at_eq[OF assms(1) s(1)] by (auto simp: fills_def image_iff intro: bexI[OF _ s(1)])
qed

lemma raw_match_covers:
  assumes "ball_correct nm" "dict_ok drawing" "sc_others sc \<noteq> []" "m \<in> set (raw_matches nm drawing skip keys sc)"
  shows "covers drawing skip (sc_seed sc # sc_others sc) m"
proof (cases "seed_is_isotropic sc")
  case True
  then obtain c co where "c \<in> set (bucket_neighbourhood (get_fingerprint_buckets drawing) (fingerprint_of (sc_seed sc)))"
    "co \<in> set (bucket_neighbourhood (get_fingerprint_buckets drawing) (fingerprint_of (hd (sc_others sc))))"
    "c \<notin> set skip" "co \<notin> set skip" "co \<noteq> c" "iso_pose nm drawing skip sc c co = Some m"
    using assms(4) fold_fold_record_group[of m "iso_pose nm drawing skip sc"] unfolding raw_matches_def Let_def
    by fastforce
  then show ?thesis using iso_pose_covers[OF assms(1-3)] neighbourhood_fills[OF assms(2)] by metis
next
  case False
  then obtain c where "c \<in> set (bucket_neighbourhood (get_fingerprint_buckets drawing) (fingerprint_of (sc_seed sc)))"
    "c \<notin> set skip" "aniso_pose nm drawing skip sc c = Some m"
    using assms(4) fold_record_group[of m "aniso_pose nm drawing skip sc"] unfolding raw_matches_def Let_def
    by fastforce
  then show ?thesis using aniso_pose_covers[OF assms(1,2)] neighbourhood_fills[OF assms(2)] by metis
qed

lemma pick_mates_keeps: "set picked \<subseteq> set (pick_mates n skip picked cms)"
  by (induction n skip picked cms rule: pick_mates.induct) auto

lemma expand_match_keeps: "h \<in> fst ` set m \<Longrightarrow> h \<notin> set skip \<Longrightarrow> h \<in> set (expand_match drawing skip m)"
  using pick_mates_keeps[of "[h]"] unfolding expand_match_def by (force simp: case_prod_beta)

lemma expand_match_ok: "sorted (expand_match drawing skip m) \<and> distinct (expand_match drawing skip m) \<and>
    set (expand_match drawing skip m) \<inter> set skip = {}"
  using sorted_filter[where f = "\<lambda>h. h" and P = "\<lambda>h. h \<notin> set skip"] by (auto simp: expand_match_def)

lemma expand_all_in:
  "r \<in> set (expand_all drawing skip raw) \<Longrightarrow>
     \<exists>m\<in>set raw. r = \<lparr>m_handles = expand_match drawing skip m, m_score = 0, m_scale = 1\<rparr>"
proof -
  have "r \<in> set (snd (fold (\<lambda>m (seen, expanded).
            let full = expand_match drawing skip m;
                physical = sort (map (\<lambda>h. cluster_key (shape_at drawing h)) full)
            in if full = [] \<or> physical \<in> set seen then (seen, expanded)
               else (physical # seen, expanded @ [\<lparr>m_handles = full, m_score = 0, m_scale = 1\<rparr>])) raw (seen, acc))) \<Longrightarrow>
     r \<in> set acc \<or> (\<exists>m\<in>set raw. r = \<lparr>m_handles = expand_match drawing skip m, m_score = 0, m_scale = 1\<rparr>)" for seen acc
    by (induction raw arbitrary: seen acc) (auto simp: Let_def split: if_splits, fastforce+)
  from this[of "[]" "[]"] show "r \<in> set (expand_all drawing skip raw) \<Longrightarrow> ?thesis" by (simp add: expand_all_def)
qed

lemma dedupe_fold:
  assumes "set seen = cluster_key ` set unique" "distinct (map cluster_key unique)"
    and "fold (\<lambda>t (seen, unique). if cluster_key t \<in> set seen then (seen, unique)
           else (cluster_key t # seen, t # unique)) ts (seen, unique) = (seen', unique')"
  shows "distinct (map cluster_key unique') \<and> set unique' \<subseteq> set unique \<union> set ts"
  using assms
proof (induction ts arbitrary: seen unique)
  case (Cons t ts)
  show ?case
  proof (cases "cluster_key t \<in> set seen")
    case True
    then show ?thesis using Cons.IH[OF Cons.prems(1,2)] Cons.prems(3) by auto
  next
    case False
    then have "distinct (map cluster_key unique') \<and> set unique' \<subseteq> set (t # unique) \<union> set ts"
      using Cons.IH[of "cluster_key t # seen" "t # unique"] Cons.prems by simp
    then show ?thesis by simp
  qed
qed simp

lemma dedupe_template_shapes:
  "distinct (map cluster_key (dedupe_template_shapes ts))" "set (dedupe_template_shapes ts) \<subseteq> set ts"
proof -
  obtain a b where e: "fold (\<lambda>t (seen, unique). if cluster_key t \<in> set seen then (seen, unique)
      else (cluster_key t # seen, t # unique)) ts ([], []) = (a, b)" by (rule prod.exhaust)
  then have "dedupe_template_shapes ts = rev b" by (simp add: dedupe_template_shapes_def)
  then show "distinct (map cluster_key (dedupe_template_shapes ts))" "set (dedupe_template_shapes ts) \<subseteq> set ts"
    using dedupe_fold[OF _ _ e] by (simp_all add: rev_map[symmetric])
qed

lemma choose_seed_mset:
  assumes "distinct ts" "ts \<noteq> []"
  shows "mset (sc_seed (choose_seed b ts) # sc_others (choose_seed b ts)) = mset ts"
proof -
  have "min_by (bucket_size b) ts \<in> set ts" by (rule min_by_in[OF assms(2)])
  then have "distinct (sc_seed (choose_seed b ts) # sc_others (choose_seed b ts))"
    "set (sc_seed (choose_seed b ts) # sc_others (choose_seed b ts)) = set ts"
    using assms(1) by (auto simp: choose_seed_def Let_def)
  then show ?thesis using assms(1) by (metis set_eq_iff_mset_eq_distinct)
qed

lemma list_all2_fills: "list_all2 (fills drawing skip) hs us \<Longrightarrow> h \<in> set hs \<Longrightarrow> h \<notin> set skip"
  by (induction rule: list_all2_induct) (auto simp: fills_def)

text \<open>C12. A match of a template of several entities is one: every group the rigid matcher reports
  holds, for each template entity (stacked duplicates collapsed), a drawing entity of its own that
  was not selected and whose fingerprint is within one step of the template's; the group is sorted,
  without duplicates, holds no selected handle, and is reported with score 0 and scale 1.\<close>

theorem multi_match_sound:
  assumes "ball_correct nm" "dict_ok drawing" "1 < length (dedupe_template_shapes ts)"
    and "match_multi nm tn ts drawing skip tol excl = Inr out" "r \<in> set (matches out)"
  shows "\<exists>hs us. mset us = mset (dedupe_template_shapes ts) \<and> distinct hs \<and> list_all2 (fills drawing skip) hs us \<and>
      set hs \<subseteq> set (m_handles r) \<and> sorted (m_handles r) \<and> distinct (m_handles r) \<and>
      set (m_handles r) \<inter> set skip = {} \<and> m_score r = 0 \<and> m_scale r = 1"
proof -
  let ?ts = "dedupe_template_shapes ts"
  let ?sc = "choose_seed (get_fingerprint_buckets drawing) ?ts"
  have d: "distinct ?ts" using dedupe_template_shapes(1) unfolding distinct_map by (rule conjunct1)
  have ne: "?ts \<noteq> []" using assms(3) by auto
  note u = choose_seed_mset[OF d ne, of "get_fingerprint_buckets drawing"]
  have "length (sc_seed ?sc # sc_others ?sc) = length ?ts" by (rule mset_eq_length[OF u])
  then have others: "sc_others ?sc \<noteq> []" using assms(3) by auto
  have "length ?ts \<le> length ts" using dedupe_template_shapes(2) d by (metis card_length card_mono distinct_card finite_set order_trans)
  then obtain keys where "out = no_output\<lparr>matches := expand_all drawing skip (raw_matches nm drawing skip keys ?sc)\<rparr>"
    using assms(3,4) unfolding match_multi_def Let_def by (auto split: if_split_asm)
  then obtain m where m: "m \<in> set (raw_matches nm drawing skip keys ?sc)"
    "r = \<lparr>m_handles = expand_match drawing skip m, m_score = 0, m_scale = 1\<rparr>"
    using assms(5) expand_all_in by (force simp: no_output_def)
  have c: "distinct (map fst m)" "list_all2 (fills drawing skip) (map fst m) (sc_seed ?sc # sc_others ?sc)"
    using raw_match_covers[OF assms(1,2) others m(1)] by (simp_all only: covers_def)
  have "h \<notin> set skip" if "h \<in> set (map fst m)" for h
    by (rule list_all2_fills[OF c(2) that])
  then have "set (map fst m) \<subseteq> set (expand_match drawing skip m)" using expand_match_keeps[of _ m skip drawing] by auto
  then show ?thesis
    using u c expand_match_ok[of drawing skip m] m(2)
    by (intro exI[of _ "map fst m"] exI[of _ "sc_seed ?sc # sc_others ?sc"]) simp
qed

text \<open>Two pads of different shape at distance 5, and a copy of the pair ten units up.\<close>

definition exact_numerics :: numerics where
  "exact_numerics = \<lparr>eigvalsh = (\<lambda>a b c. (min a c, max a c)), eigh = (\<lambda>a b c. ((a, c), ((1, 0), (0, 1)))),
     nearest = (\<lambda>cloud p. list_min (map (sqdist p) cloud)),
     ball_points = (\<lambda>cs p r. filter (\<lambda>i. 0 \<le> r \<and> sqdist (cs ! i) p \<le> r * r) [0..<length cs])\<rparr>"

lemma exact_numerics_ball: "ball_correct exact_numerics"
proof -
  have "pdist p q \<le> r \<longleftrightarrow> 0 \<le> r \<and> sqdist p q \<le> r * r" for p q r
  proof -
    have "0 \<le> sqdist p q" by (simp add: sqdist_def pdot_def)
    then have "0 \<le> sqrt (sqdist p q)" "sqrt (sqdist p q) * sqrt (sqdist p q) = sqdist p q" by simp_all
    then show ?thesis unfolding pdist_def pnorm_def sqdist_def[symmetric]
      by (metis abs_le_square_iff abs_of_nonneg order_trans power2_eq_square)
  qed
  then show ?thesis by (auto simp: ball_correct_def exact_numerics_def)
qed

definition pad_shape :: "string \<Rightarrow> point \<Rightarrow> real \<Rightarrow> real \<Rightarrow> shape" where
  "pad_shape h c w ratio = \<lparr>s_handle = h, s_points = [psub c (w, 0), padd c (w, 0)], s_centroid = c, s_radius = w,
     s_path_length = 2 * w, s_vertex_count = 2, s_kind = Some ''polyline'', s_sigma1 = 1, s_sigma2 = ratio\<rparr>"

definition pad_pairs :: drawing where
  "pad_pairs = [(''a'', pad_shape ''a'' (0, 0) 1 (1/2)), (''b'', pad_shape ''b'' (5, 0) 2 (1/4)),
     (''c'', pad_shape ''c'' (0, 10) 1 (1/2)), (''d'', pad_shape ''d'' (5, 10) 2 (1/4))]"

abbreviation pad_a :: shape where "pad_a \<equiv> pad_shape ''a'' (0, 0) 1 (1/2)"
abbreviation pad_b :: shape where "pad_b \<equiv> pad_shape ''b'' (5, 0) 2 (1/4)"

lemma pads_dedupe: "dedupe_template_shapes [pad_a, pad_b] = [pad_a, pad_b]"
  by code_simp

lemma pads_seed: "choose_seed (get_fingerprint_buckets pad_pairs) [pad_a, pad_b] = \<lparr>sc_seed = pad_a, sc_others = [pad_b]\<rparr>"
  by code_simp

lemma pads_bucket: "bucket_neighbourhood (get_fingerprint_buckets pad_pairs) (fingerprint_of pad_a) = [''a'', ''c'']"
  by code_simp

lemma pads_keys: "cluster_key (shape_at pad_pairs ''c'') \<notin> set [cluster_key pad_a, cluster_key pad_b]"
  by code_simp

lemma pads_pose: "aniso_pose exact_numerics pad_pairs [''a'', ''b''] \<lparr>sc_seed = pad_a, sc_others = [pad_b]\<rparr> ''c'' =
    Some [(''c'', cluster_key pad_a), (''d'', cluster_key pad_b)]"
  by code_simp

lemma pad_keys:
  "cluster_key (shape_at pad_pairs ''a'') = (0, 0, 2000, 1000, 500)"
  "cluster_key (shape_at pad_pairs ''b'') = (5000, 0, 4000, 2000, 250)"
  "cluster_key (shape_at pad_pairs ''c'') = (0, 10000, 2000, 1000, 500)"
  "cluster_key (shape_at pad_pairs ''d'') = (5000, 10000, 4000, 2000, 250)"
  "cluster_key pad_a = (0, 0, 2000, 1000, 500)" "cluster_key pad_b = (5000, 0, 4000, 2000, 250)"
  by code_simp+

lemma pad_key_of:
  "cluster_key (pad_shape ''c'' (0, 10) 1 (1/2)) = (0, 10000, 2000, 1000, 500)"
  "cluster_key (pad_shape ''d'' (5, 10) 2 (1/4)) = (5000, 10000, 4000, 2000, 250)"
  by code_simp+

lemma pad_members: "map fst pad_pairs = [''a'', ''b'', ''c'', ''d'']" "fst ` set pad_pairs = {''a'', ''b'', ''c'', ''d''}"
  by (simp_all add: pad_pairs_def)

lemma pad_clusters:
  "get_position_clusters pad_pairs =
     [((0, 0, 2000, 1000, 500), [''a'']), ((5000, 0, 4000, 2000, 250), [''b'']),
      ((0, 10000, 2000, 1000, 500), [''c'']), ((5000, 10000, 4000, 2000, 250), [''d''])]"
  unfolding get_position_clusters_def pad_pairs_def
  by (simp add: pad_keys pad_key_of dict_push_def)

lemma pads_expand: "expand_all pad_pairs [''a'', ''b''] [[(''c'', cluster_key pad_a), (''d'', cluster_key pad_b)]] =
    [\<lparr>m_handles = [''c'', ''d''], m_score = 0, m_scale = 1\<rparr>]"
  unfolding expand_all_def
  by (simp add: expand_match_def template_multiplicity_def pad_keys pad_members pad_clusters)

lemma pad_pair_found:
  "match_multi exact_numerics compiled_tunables [pad_a, pad_b] pad_pairs [''a'', ''b''] (2/10) True =
   Inr \<lparr>matches = [\<lparr>m_handles = [''c'', ''d''], m_score = 0, m_scale = 1\<rparr>], near_misses = []\<rparr>"
proof -
  have "\<not> seed_is_isotropic \<lparr>sc_seed = pad_a, sc_others = [pad_b]\<rparr>"
    by (simp add: seed_is_isotropic_def sigma_ratio_def pad_shape_def ISOTROPIC_SIGMA_RATIO_THRESHOLD_def)
  then have "raw_matches exact_numerics pad_pairs [''a'', ''b''] [cluster_key pad_a, cluster_key pad_b]
      \<lparr>sc_seed = pad_a, sc_others = [pad_b]\<rparr> = [[(''c'', cluster_key pad_a), (''d'', cluster_key pad_b)]]"
    using pads_keys pads_pose pads_bucket by (simp add: raw_matches_def Let_def record_group_def)
  then show ?thesis
    using pads_expand by (simp add: match_multi_def Let_def pads_dedupe pads_seed no_output_def) (simp add: pad_pairs_def)
qed

lemma multi_match_sound_witness:
  "\<exists>hs. distinct hs \<and> length hs = 2 \<and> set hs \<subseteq> {''c'', ''d''}"
proof -
  have "dict_ok pad_pairs" by (simp add: pad_pairs_def)
  moreover have "1 < length (dedupe_template_shapes [pad_a, pad_b])" by (simp add: pads_dedupe)
  ultimately obtain hs us where "mset us = mset (dedupe_template_shapes [pad_a, pad_b])" "distinct hs"
    "list_all2 (fills pad_pairs [''a'', ''b'']) hs us" "set hs \<subseteq> set [''c'', ''d'']"
    using multi_match_sound[OF exact_numerics_ball _ _ pad_pair_found,
        of "\<lparr>m_handles = [''c'', ''d''], m_score = 0, m_scale = 1\<rparr>"] by auto
  moreover from this(1) have "size (mset us) = 2" by (simp add: pads_dedupe)
  ultimately have "length hs = 2" using list_all2_lengthD by (metis size_mset)
  then show ?thesis using \<open>distinct hs\<close> \<open>set hs \<subseteq> set [''c'', ''d'']\<close> by auto
qed

section \<open>The selection is never matched\<close>

definition avoids :: "handle list \<Rightarrow> match_output \<Rightarrow> bool" where
  "avoids skip out \<longleftrightarrow> (\<forall>m\<in>set (matches out). set (m_handles m) \<inter> set skip = {}) \<and>
     (\<forall>n\<in>set (near_misses out). set (n_handles n) \<inter> set skip = {})"

lemma avoids_no_output: "avoids skip no_output"
  by (simp add: avoids_def no_output_def)

lemma judge_handles:
  "judge_candidate nm tn ts tol h s = Matched m \<Longrightarrow> m_handles m = [h]"
  "judge_candidate nm tn ts tol h s = Missed n \<Longrightarrow> n_handles n = [h]"
  by (auto simp: judge_candidate_def Let_def split: if_splits)

lemma avoids_output_of:
  "\<forall>p\<in>set ps. fst p \<notin> set skip \<Longrightarrow>
     avoids skip (output_of (map (\<lambda>p. judge_candidate nm tn ts tol (fst p) (snd p)) ps))"
  by (auto simp: avoids_def output_of_def verdict_matches_def verdict_misses_def
      split: candidate_verdict.splits dest!: judge_handles[OF sym])

lemma avoids_match_single: "dict_ok drawing \<Longrightarrow> avoids skip (match_single nm tn n t drawing skip tol)"
  by (simp add: match_single_parallel match_single_serial_eq avoids_no_output avoids_output_of)

lemma avoids_signature: "avoids skip (match_signature_mode tn t drawing skip r)"
  by (auto simp: avoids_def match_signature_mode_def no_output_def)

lemma avoids_circle: "avoids skip (match_single_circle t drawing skip)"
  unfolding avoids_def circle_matches_set
  by (auto simp: circle_hit_def) (simp add: match_single_circle_def Let_def no_output_def)

lemma expand_match_skip: "x \<in> set (expand_match drawing skip m) \<Longrightarrow> x \<notin> set skip"
  by (simp add: expand_match_def)

lemma avoids_multi:
  "dict_ok drawing \<Longrightarrow> match_multi nm tn ts drawing skip tol excl = Inr out \<Longrightarrow> avoids skip out"
  by (auto simp: match_multi_def Let_def avoids_match_single split: if_split_asm)
     (auto simp: avoids_def no_output_def dest!: expand_all_in dest: expand_match_skip)

lemma avoids_dispatch:
  assumes "dict_ok drawing" "dispatch nm tn n ts drawing skip tol strategy r excl = Inr out"
  shows "avoids skip out"
  using assms(2) avoids_multi[OF assms(1)] avoids_match_single[OF assms(1)] avoids_signature avoids_circle
  by (auto simp: dispatch_def Let_def avoids_no_output split: if_split_asm)

text \<open>In-drawing search never answers with the question: whatever the strategy, the template and
  the job count, no match and no near miss contains a handle the user selected.\<close>

theorem find_matches_excludes_template:
  assumes "dict_ok drawing" "find_matches nm tn n template_handles drawing tol strategy r = Inr out"
  shows "(\<forall>m\<in>set (matches out). set (m_handles m) \<inter> set template_handles = {}) \<and>
    (\<forall>n\<in>set (near_misses out). set (n_handles n) \<inter> set template_handles = {})"
proof -
  have "avoids (remdups template_handles) out"
    by (rule avoids_dispatch[OF assms(1) assms(2)[unfolded find_matches_def]])
  then show ?thesis by (simp add: avoids_def)
qed

lemma find_matches_excludes_template_witness:
  "\<exists>out. find_matches exact_numerics compiled_tunables 1 [''a'', ''b''] pad_pairs None ''chamfer'' None = Inr out \<and>
     matches out \<noteq> [] \<and> (\<forall>m\<in>set (matches out). set (m_handles m) \<inter> {''a'', ''b''} = {})"
proof -
  have "List.map_filter (map_of pad_pairs) [''a'', ''b''] = [pad_a, pad_b]"
    by (simp add: pad_pairs_def List.map_filter_def)
  then have f: "find_matches exact_numerics compiled_tunables 1 [''a'', ''b''] pad_pairs None ''chamfer'' None =
      Inr \<lparr>matches = [\<lparr>m_handles = [''c'', ''d''], m_score = 0, m_scale = 1\<rparr>], near_misses = []\<rparr>"
    using pad_pair_found by (simp add: find_matches_def dispatch_def compiled_tunables_def)
  have "dict_ok pad_pairs" by (simp add: pad_pairs_def)
  from find_matches_excludes_template[OF this f] show ?thesis using f by auto
qed

end
