(* ===== verification/IndexCache.thy ===== *)
theory IndexCache
  imports Matching
begin

text \<open>
  The signature index cache of \<^verbatim>\<open>app/matching.py\<close> and the fan-out over the process pool.
  \<^verbatim>\<open>_get_signature_index\<close> keys the cache of a process by \<^verbatim>\<open>id(drawing)\<close>, an integer the interpreter
  gives to a live dict and may give again once the dict is gone, and never evicts.  The chunk worker
  builds a dict per call, so the process that serves a chunk and the identity its dict gets are inputs.
  The match is compared with the one of Matching, where every index is the drawing's own.
\<close>

section \<open>The cache\<close>

type_synonym index_cache = "(int, signature_index) dict"

definition get_signature_index :: "int \<Rightarrow> drawing \<Rightarrow> index_cache \<Rightarrow> signature_index \<times> index_cache" where
  "get_signature_index oid drawing cache =
     (case map_of cache oid of
        Some idx \<Rightarrow> (idx, cache)
      | None \<Rightarrow> (let idx = build_signature_index drawing in (idx, cache @ [(oid, idx)])))"

text \<open>The serial loop over a given index; \<^verbatim>\<open>drawing[handle]\<close> raises for a handle the drawing lacks.\<close>

definition serial_with_index ::
  "numerics \<Rightarrow> tunables \<Rightarrow> shape \<Rightarrow> signature_index \<Rightarrow> drawing \<Rightarrow> handle list \<Rightarrow> real \<Rightarrow> match_output option" where
  "serial_with_index nm tn template idx drawing skip tolerance =
     (let ts = template_side_of nm tn template;
          hs = filter (\<lambda>h. h \<notin> set skip) (gate_candidates tn template idx)
      in if \<exists>h\<in>set hs. map_of drawing h = None then None
         else Some (output_of (map (\<lambda>h. judge_candidate nm tn ts tolerance h (the (map_of drawing h))) hs)))"

definition serial_cached ::
  "numerics \<Rightarrow> tunables \<Rightarrow> shape \<Rightarrow> int \<times> drawing \<Rightarrow> handle list \<Rightarrow> real \<Rightarrow> index_cache \<Rightarrow> match_output option \<times> index_cache" where
  "serial_cached nm tn template job skip tolerance cache =
     (if s_vertex_count template < 2 \<or> ts_norm (template_side_of nm tn template) < 1 / 10 ^ 9 then (Some no_output, cache)
      else case get_signature_index (fst job) (snd job) cache of
             (idx, cache') \<Rightarrow> (serial_with_index nm tn template idx (snd job) skip tolerance, cache'))"

definition match_single_chunk ::
  "numerics \<Rightarrow> tunables \<Rightarrow> shape \<Rightarrow> int \<times> drawing \<Rightarrow> real \<Rightarrow> index_cache \<Rightarrow> match_output option \<times> index_cache" where
  "match_single_chunk nm tn template job tolerance cache = serial_cached nm tn template job [] tolerance cache"

section \<open>The pool\<close>

text \<open>The futures in submission order: each names the process that serves it and the identity of the
  dict built there. Processes share nothing, so only the order within a process matters.\<close>

fun pool_run ::
  "numerics \<Rightarrow> tunables \<Rightarrow> shape \<Rightarrow> real \<Rightarrow> (nat \<times> int \<times> drawing) list \<Rightarrow> (nat \<Rightarrow> index_cache)
     \<Rightarrow> match_output option list \<times> (nat \<Rightarrow> index_cache)" where
  "pool_run nm tn template tolerance [] caches = ([], caches)"
| "pool_run nm tn template tolerance ((w, job) # jobs) caches =
     (case match_single_chunk nm tn template job tolerance (caches w) of
        (out, cache) \<Rightarrow>
          (case pool_run nm tn template tolerance jobs (caches(w := cache)) of
             (outs, caches') \<Rightarrow> (out # outs, caches')))"

definition scheduled :: "(nat \<Rightarrow> nat \<times> int) \<Rightarrow> drawing list \<Rightarrow> (nat \<times> int \<times> drawing) list" where
  "scheduled sched chunks = map (\<lambda>(i, chunk). (Suc (fst (sched i)), snd (sched i), chunk)) (enumerate 0 chunks)"

text \<open>Process 0 is the caller, the others are the pool's. \<^verbatim>\<open>fut.result()\<close> raises again what a chunk
  raised, so one failed chunk fails the match.\<close>

definition match_single_cached ::
  "numerics \<Rightarrow> tunables \<Rightarrow> nat \<Rightarrow> shape \<Rightarrow> int \<times> drawing \<Rightarrow> handle list \<Rightarrow> real \<Rightarrow> (nat \<Rightarrow> nat \<times> int)
     \<Rightarrow> (nat \<Rightarrow> index_cache) \<Rightarrow> match_output option \<times> (nat \<Rightarrow> index_cache)" where
  "match_single_cached nm tn n_jobs template job skip tolerance sched caches =
     (if in_parallel n_jobs skip (snd job)
      then (case pool_run nm tn template tolerance (scheduled sched (match_chunks n_jobs skip (snd job))) caches of
              (outs, caches') \<Rightarrow> (map_option join_outputs (those outs), caches'))
      else (case serial_cached nm tn template job skip tolerance (caches 0) of
              (out, cache) \<Rightarrow> (out, caches(0 := cache))))"

section \<open>Caches that hold what they promise\<close>

text \<open>The lifetime the comment of the cache relies on: in each process an identity stands for one
  drawing, and a cached index is the index of that drawing.\<close>

definition valid_caches :: "(nat \<Rightarrow> int \<Rightarrow> drawing) \<Rightarrow> (nat \<Rightarrow> index_cache) \<Rightarrow> bool" where
  "valid_caches heap caches \<longleftrightarrow> (\<forall>w. \<forall>(oid, idx)\<in>set (caches w). idx = build_signature_index (heap w oid))"

lemma serial_with_own_index:
  assumes "dict_ok drawing" "\<not> (s_vertex_count t < 2 \<or> ts_norm (template_side_of nm tn t) < 1 / 10 ^ 9)"
  shows "serial_with_index nm tn t (build_signature_index drawing) drawing skip tol =
    Some (match_single_serial nm tn t drawing skip tol)"
proof -
  have "map_of drawing h \<noteq> None" if "h \<in> set (gate_candidates tn t (build_signature_index drawing))" for h
    using that unfolding gate_candidates_eq map_of_eq_None_iff by force
  then show ?thesis using assms(2) by (auto simp: serial_with_index_def match_single_serial_def Let_def)
qed

lemma valid_lookup:
  assumes "valid_caches heap caches" "heap w oid = drawing"
  shows "fst (get_signature_index oid drawing (caches w)) = build_signature_index drawing"
    "valid_caches heap (caches(w := snd (get_signature_index oid drawing (caches w))))"
proof -
  have "idx = build_signature_index drawing" if "map_of (caches w) oid = Some idx" for idx
    using assms map_of_SomeD[OF that] by (auto simp: valid_caches_def)
  then show "fst (get_signature_index oid drawing (caches w)) = build_signature_index drawing"
    by (simp add: get_signature_index_def Let_def split: option.split)
  show "valid_caches heap (caches(w := snd (get_signature_index oid drawing (caches w))))"
    using assms by (auto simp: get_signature_index_def valid_caches_def Let_def split: option.split)
qed

lemma serial_cached_valid:
  assumes "valid_caches heap caches" "heap w (fst job) = snd job" "dict_ok (snd job)"
  shows "fst (serial_cached nm tn t job skip tol (caches w)) = Some (match_single_serial nm tn t (snd job) skip tol)"
    "valid_caches heap (caches(w := snd (serial_cached nm tn t job skip tol (caches w))))"
proof -
  note v = valid_lookup[OF assms(1,2)]
  show "fst (serial_cached nm tn t job skip tol (caches w)) = Some (match_single_serial nm tn t (snd job) skip tol)"
    using serial_with_own_index[OF assms(3)] v(1)
    by (auto simp: serial_cached_def case_prod_beta match_single_serial_def)
  show "valid_caches heap (caches(w := snd (serial_cached nm tn t job skip tol (caches w))))"
    using v(2) assms(1) by (simp add: serial_cached_def case_prod_beta)
qed

lemma pool_run_valid:
  assumes "valid_caches heap caches" "\<forall>(w, oid, chunk)\<in>set jobs. heap w oid = chunk \<and> dict_ok chunk"
  shows "fst (pool_run nm tn t tol jobs caches) = map (\<lambda>(w, oid, chunk). Some (match_single_serial nm tn t chunk [] tol)) jobs \<and>
    valid_caches heap (snd (pool_run nm tn t tol jobs caches))"
  using assms
proof (induction jobs arbitrary: caches)
  case (Cons j jobs)
  obtain w oid chunk where j: "j = (w, oid, chunk)" by (cases j)
  have "heap w (fst (oid, chunk)) = snd (oid, chunk)" "dict_ok (snd (oid, chunk))" using Cons.prems(2) by (auto simp: j)
  note s = serial_cached_valid[OF Cons.prems(1) this, of nm tn t "[]" tol]
  obtain out cache where o: "serial_cached nm tn t (oid, chunk) [] tol (caches w) = (out, cache)" by force
  obtain outs caches' where r: "pool_run nm tn t tol jobs (caches(w := cache)) = (outs, caches')" by force
  have "outs = map (\<lambda>(w, oid, chunk). Some (match_single_serial nm tn t chunk [] tol)) jobs \<and> valid_caches heap caches'"
    using Cons.IH[OF s(2)] Cons.prems(2) unfolding o snd_conv r fst_conv by (simp add: j)
  then show ?case using s(1) by (simp add: j match_single_chunk_def o r del: fun_upd_apply)
qed simp

lemma those_all: "those (map (\<lambda>x. Some (f x)) xs) = Some (map f xs)"
  by (induction xs) simp_all

lemma enumerated: "(i, x) \<in> set (enumerate 0 xs) \<Longrightarrow> i < length xs \<and> x = xs ! i"
  by (auto simp: in_set_enumerate_eq)

lemma scheduled_jobs:
  assumes "\<forall>i<length chunks. heap (Suc (fst (sched i))) (snd (sched i)) = chunks ! i" "\<forall>c\<in>set chunks. dict_ok c"
  shows "\<forall>(w, oid, chunk)\<in>set (scheduled sched chunks). heap w oid = chunk \<and> dict_ok chunk"
    "map (\<lambda>(w, oid, chunk). f chunk) (scheduled sched chunks) = map f chunks"
proof -
  show "\<forall>(w, oid, chunk)\<in>set (scheduled sched chunks). heap w oid = chunk \<and> dict_ok chunk"
    using assms by (fastforce simp: scheduled_def dest: enumerated)
  have "map (\<lambda>(w, oid, chunk). f chunk) (scheduled sched chunks) = map f (map snd (enumerate 0 chunks))"
    unfolding scheduled_def map_map by (rule map_cong) auto
  then show "map (\<lambda>(w, oid, chunk). f chunk) (scheduled sched chunks) = map f chunks" by simp
qed

lemma chunks_ok: "dict_ok drawing \<Longrightarrow> c \<in> set (match_chunks n skip drawing) \<Longrightarrow> dict_ok c"
  unfolding match_chunks_def Let_def by (drule chunks_of_sub) (auto intro: dict_ok_sub dict_ok_filter)

text \<open>C14. Fanning the candidates out over worker processes changes nothing as long as every process keeps the
  lifetime contract of its index cache: if in each process an identity stands for one dict, then for
  every job count, every assignment of chunks to processes and whatever the caches already hold, the
  chunked match returns the same matches and near misses, in the same order, as the serial match without
  a cache, and leaves caches that keep the contract for the next call.\<close>

theorem parallel_match_is_serial:
  assumes "dict_ok drawing" "valid_caches heap caches" "heap 0 oid = drawing"
    and "\<forall>i<length (match_chunks n_jobs skip drawing).
      heap (Suc (fst (sched i))) (snd (sched i)) = match_chunks n_jobs skip drawing ! i"
  shows "fst (match_single_cached nm tn n_jobs t (oid, drawing) skip tol sched caches) =
      Some (match_single_serial nm tn t drawing skip tol) \<and>
    valid_caches heap (snd (match_single_cached nm tn n_jobs t (oid, drawing) skip tol sched caches))"
proof (cases "in_parallel n_jobs skip drawing")
  case True
  let ?chunks = "match_chunks n_jobs skip drawing"
  have "\<forall>c\<in>set ?chunks. dict_ok c" using chunks_ok[OF assms(1)] by blast
  note s = scheduled_jobs[where heap = heap and sched = sched, OF assms(4) this]
  obtain outs caches' where p: "pool_run nm tn t tol (scheduled sched ?chunks) caches = (outs, caches')" by force
  have "outs = map (\<lambda>c. Some (match_single_serial nm tn t c [] tol)) ?chunks" "valid_caches heap caches'"
    using pool_run_valid[OF assms(2) s(1), of nm tn t tol] unfolding p s(2) by simp_all
  then show ?thesis
    using match_single_parallel[OF assms(1), of nm tn n_jobs t skip tol] True
    by (simp add: match_single_cached_def match_single_def p those_all)
next
  case False
  then show ?thesis
    using serial_cached_valid[OF assms(2), of 0 "(oid, drawing)" nm tn t skip tol] assms(1,3)
    by (simp add: match_single_cached_def case_prod_beta)
qed

definition many_squares :: drawing where
  "many_squares = map (\<lambda>i. (str_of_nat i, unit_square (str_of_nat i) (real i))) [0..<1000]"

lemma many_squares_ok: "dict_ok many_squares"
proof -
  have "inj str_of_nat" by (rule injI) (metis nat_of_str)
  then show ?thesis by (simp add: many_squares_def comp_def distinct_map) (erule inj_on_subset, simp)
qed

text \<open>Four processes, one chunk each; all chunks get the same identity, but in different processes.\<close>

lemma parallel_match_is_serial_witness:
  "in_parallel 4 [] many_squares \<and>
   fst (match_single_cached plain_numerics compiled_tunables 4 (unit_square [] 0) (3, many_squares) [] (2/10)
      (\<lambda>i. (i, 7)) (\<lambda>_. [])) =
   Some (match_single_serial plain_numerics compiled_tunables (unit_square [] 0) many_squares [] (2/10))"
proof -
  have "in_parallel 4 [] many_squares" by (simp add: in_parallel_def many_squares_def MIN_ITEMS_PER_WORKER_def)
  then show ?thesis
    using parallel_match_is_serial[OF many_squares_ok,
        of "\<lambda>w oid. if w = 0 then many_squares else match_chunks 4 [] many_squares ! (w - 1)" "\<lambda>_. []" 3 4 "[]" "\<lambda>i. (i, 7)"]
    by (simp add: valid_caches_def)
qed

text \<open>Outside the contract the match breaks: when the interpreter gives the second chunk of a process the
  identity of the first, already freed, dict, the chunk is gated with the stale index of the first: a
  candidate of the first chunk passes the gate, is looked up in the second and the lookup raises.\<close>

theorem reused_identity_breaks_the_chunk:
  assumes "fst (pool_run nm tn t tol [(w, i, [(''a'', s)]), (w, i, [(''b'', s')])] caches) = [out, out']"
    and "caches w = []" "\<not> (s_vertex_count t < 2 \<or> ts_norm (template_side_of nm tn t) < 1 / 10 ^ 9)"
    and "signatures_compatible tn t s None None"
  shows "out = Some (match_single_serial nm tn t [(''a'', s)] [] tol) \<and> out' = None"
proof -
  have 1: "serial_cached nm tn t (i, [(''a'', s)]) [] tol [] =
      (Some (match_single_serial nm tn t [(''a'', s)] [] tol), [(i, build_signature_index [(''a'', s)])])"
    using assms(3) serial_with_own_index[OF _ assms(3), of "[(''a'', s)]" "[]" tol]
    by (auto simp: serial_cached_def get_signature_index_def Let_def)
  have g: "gate_candidates tn t (build_signature_index [(''a'', s)]) = [''a'']"
    using assms(4) by (simp add: gate_candidates_eq)
  have 2: "fst (serial_cached nm tn t (i, [(''b'', s')]) [] tol [(i, build_signature_index [(''a'', s)])]) = None"
    using assms(3) g by (simp add: serial_cached_def get_signature_index_def serial_with_index_def Let_def)
  show ?thesis using assms(1,2) 1 2 by (simp add: match_single_chunk_def case_prod_beta)
qed

lemma reused_identity_breaks_the_chunk_witness:
  "fst (pool_run plain_numerics eight_samples (from_points plain_numerics ''t'' square_points None) (2/10)
     [(1, 7, [(''a'', from_points plain_numerics ''a'' (shift (3, 0) square_points) None)]),
      (1, 7, [(''b'', from_points plain_numerics ''b'' (shift (9, 0) square_points) None)])] (\<lambda>_. [])) ! 1 = None"
proof -
  let ?t = "from_points plain_numerics ''t'' square_points None"
  let ?s = "from_points plain_numerics ''a'' (shift (3, 0) square_points) None"
  let ?jobs = "[(1, 7, [(''a'', ?s)]), (1, 7, [(''b'', from_points plain_numerics ''b'' (shift (9, 0) square_points) None)])]"
  obtain a b where w: "fst (pool_run plain_numerics eight_samples ?t (2/10) ?jobs (\<lambda>_. [])) = [a, b]"
    by (simp add: case_prod_beta)
  have "\<not> close_points (hd square_points) (last square_points)" by (simp add: close_points_def square_points_def)
  then have pts: "s_points ?t = square_points" "s_vertex_count ?t = 4"
    by (simp_all add: from_points_def Let_def case_prod_beta) (simp_all add: square_points_def)
  have "\<not> ts_norm (template_side_of plain_numerics eight_samples ?t) < 1 / 10 ^ 9"
    using square_norm by (simp add: template_side_of_def Let_def pts eight_samples_def)
  then have n: "\<not> (s_vertex_count ?t < 2 \<or> ts_norm (template_side_of plain_numerics eight_samples ?t) < 1 / 10 ^ 9)"
    by (simp add: pts)
  have "tunables_ok eight_samples" by (simp add: eight_samples_def tunables_ok_def compiled_tunables_def)
  then have "signatures_compatible eight_samples ?t ?s None None"
    by (rule compatible_same_scalars) (simp_all add: pts from_points_shift[where h = "''t''" and k = None])
  from reused_identity_breaks_the_chunk[OF w refl n this] show ?thesis by (simp only: w) simp
qed

end
