(* ===== verification/RuleCheck.thy ===== *)
theory RuleCheck
  imports VersionStore
begin

text \<open>
  \<^verbatim>\<open>app/rule_check.py\<close>: the adapter that checks the envelope the external rule function returns.
  The function itself is not in the repository and is a parameter.  What it returns is any Python
  value; the validator's exceptions are values: its own error with the violated clause, and the two
  exceptions the interpreter raises inside it.  The contract of the module's documentation is stated
  apart from the code and the validator proved to accept exactly the results that meet it.
\<close>

datatype pyobj =
    PNone
  | PBool bool
  | PInt int
  | PFloat pyfloat
  | PStr string
  | PList "pyobj list"
  | PDict "(pyobj \<times> pyobj) list"
  | POther

datatype violation =
    NotDict
  | RuleNameNotStr
  | PayloadNotDict
  | MissingKey string
  | PassNotBool
  | TextNotStr
  | RulesNotList
  | SubNotDict
  | BadPart
  | BadText
  | BadFileId
  | BadHandle string
  | AliasDisagrees
  | BadTo
  | EmptyTo
  | BadToElement nat
  | EmptyToElement nat
  | BadTolText
  | BadPoint string
  | UnpairedCoordinates
  | BadPointList string
  | EmptyPointList string
  | BadPointAt string nat
  | ToWithoutFrom
  | TolTextWithoutTol
  | HandleWithoutFile

datatype check_error = OutputError violation | PyTypeError | PyOverflowError

fun check_bind :: "check_error + 'a \<Rightarrow> ('a \<Rightarrow> check_error + 'b) \<Rightarrow> check_error + 'b" where
  "check_bind (Inl e) f = Inl e"
| "check_bind (Inr x) f = f x"

definition require_that :: "bool \<Rightarrow> violation \<Rightarrow> check_error + unit" where
  "require_that b v = (if b then Inr () else Inl (OutputError v))"

text \<open>\<^verbatim>\<open>d.get(key)\<close>\<close>

definition pget :: "string \<Rightarrow> (pyobj \<times> pyobj) list \<Rightarrow> pyobj" where
  "pget k d = (case map_of d (PStr k) of None \<Rightarrow> PNone | Some v \<Rightarrow> v)"

definition VALID_PARTS :: "string list" where
  "VALID_PARTS = [''SBT'', ''BD'', ''POD'', ''RING'', ''LID'', ''NovelLID'']"

text \<open>Membership in a frozenset hashes the value: lists and dicts have no hash.\<close>

definition valid_part :: "pyobj \<Rightarrow> check_error + bool" where
  "valid_part v =
     (case v of
        PList _ \<Rightarrow> Inl PyTypeError
      | PDict _ \<Rightarrow> Inl PyTypeError
      | PStr s \<Rightarrow> Inr (s \<in> set VALID_PARTS)
      | _ \<Rightarrow> Inr False)"

definition typed_handle :: "(pyobj \<times> pyobj) list \<Rightarrow> string \<Rightarrow> check_error + string option" where
  "typed_handle sub key =
     (case pget key sub of
        PNone \<Rightarrow> Inr None
      | PStr s \<Rightarrow> Inr (Some s)
      | _ \<Rightarrow> Inl (OutputError (BadHandle key)))"

text \<open>From this magnitude on an integer does not fit a double and \<^verbatim>\<open>math.isfinite\<close> raises.\<close>

definition FLOAT_LIMIT :: int where
  "FLOAT_LIMIT = 2 ^ 1024 - 2 ^ 970"

definition is_number :: "pyobj \<Rightarrow> check_error + bool" where
  "is_number v =
     (case v of
        PInt n \<Rightarrow> if FLOAT_LIMIT \<le> \<bar>n\<bar> then Inl PyOverflowError else Inr True
      | PFloat (Fin _) \<Rightarrow> Inr True
      | _ \<Rightarrow> Inr False)"

text \<open>\<^verbatim>\<open>all(_is_number(c) for c in val)\<close>, which stops at the first False.\<close>

fun all_numbers :: "pyobj list \<Rightarrow> check_error + bool" where
  "all_numbers [] = Inr True"
| "all_numbers (v # vs) = check_bind (is_number v) (\<lambda>b. if b then all_numbers vs else Inr False)"

definition point_test :: "pyobj \<Rightarrow> check_error + bool" where
  "point_test v = (case v of PList xs \<Rightarrow> if length xs \<noteq> 2 then Inr False else all_numbers xs | _ \<Rightarrow> Inr False)"

definition typed_point :: "(pyobj \<times> pyobj) list \<Rightarrow> string \<Rightarrow> check_error + pyobj option" where
  "typed_point sub key =
     (let val = pget key sub
      in if val = PNone then Inr None
         else check_bind (point_test val)
                (\<lambda>ok. if ok then Inr (Some val) else Inl (OutputError (BadPoint key))))"

fun typed_points_from :: "string \<Rightarrow> nat \<Rightarrow> pyobj list \<Rightarrow> check_error + unit" where
  "typed_points_from key i [] = Inr ()"
| "typed_points_from key i (p # ps) =
     check_bind (point_test p)
       (\<lambda>ok. if ok then typed_points_from key (i + 1) ps else Inl (OutputError (BadPointAt key i)))"

definition typed_point_list :: "(pyobj \<times> pyobj) list \<Rightarrow> string \<Rightarrow> check_error + unit" where
  "typed_point_list sub key =
     (case pget key sub of
        PNone \<Rightarrow> Inr ()
      | PList ps \<Rightarrow> if ps = [] then Inl (OutputError (EmptyPointList key)) else typed_points_from key 0 ps
      | _ \<Rightarrow> Inl (OutputError (BadPointList key)))"

fun typed_to_elements :: "nat \<Rightarrow> pyobj list \<Rightarrow> check_error + unit" where
  "typed_to_elements i [] = Inr ()"
| "typed_to_elements i (e # es) =
     (case e of
        PStr s \<Rightarrow> if s = [] then Inl (OutputError (EmptyToElement i)) else typed_to_elements (i + 1) es
      | _ \<Rightarrow> Inl (OutputError (BadToElement i)))"

definition typed_to :: "(pyobj \<times> pyobj) list \<Rightarrow> check_error + pyobj" where
  "typed_to sub =
     (case pget ''to'' sub of
        PNone \<Rightarrow> Inr PNone
      | PStr s \<Rightarrow> Inr (PStr s)
      | PList es \<Rightarrow>
          if es = [] then Inl (OutputError EmptyTo)
          else check_bind (typed_to_elements 0 es) (\<lambda>_. Inr (PList es))
      | _ \<Rightarrow> Inl (OutputError BadTo))"

definition has_to_value :: "pyobj \<Rightarrow> bool" where
  "has_to_value v \<longleftrightarrow> (case v of PNone \<Rightarrow> False | PList es \<Rightarrow> 0 < length es | _ \<Rightarrow> True)"

definition is_str :: "pyobj \<Rightarrow> bool" where
  "is_str v \<longleftrightarrow> (case v of PStr _ \<Rightarrow> True | _ \<Rightarrow> False)"

definition validate_sub_rule :: "pyobj \<Rightarrow> check_error + unit" where
  "validate_sub_rule subv =
     (case subv of PDict sub \<Rightarrow>
        check_bind (valid_part (pget ''part'' sub)) (\<lambda>ok.
        check_bind (require_that ok BadPart) (\<lambda>_.
        let text = pget ''text'' sub; file_id = pget ''file_id'' sub; tol_text = pget ''tol_text'' sub in
        check_bind (require_that (is_str text \<and> text \<noteq> PStr []) BadText) (\<lambda>_.
        check_bind (require_that (file_id = PNone \<or> is_str file_id) BadFileId) (\<lambda>_.
        check_bind (typed_handle sub ''from'') (\<lambda>frm.
        check_bind (typed_handle sub ''from_entity'') (\<lambda>from_entity.
        check_bind (require_that (\<not> (frm \<noteq> None \<and> from_entity \<noteq> None \<and> frm \<noteq> from_entity)) AliasDisagrees) (\<lambda>_.
        let effective_from = (if frm \<noteq> None then frm else from_entity) in
        check_bind (typed_to sub) (\<lambda>to.
        check_bind (typed_handle sub ''tol'') (\<lambda>tol.
        check_bind (require_that (tol_text = PNone \<or> is_str tol_text) BadTolText) (\<lambda>_.
        check_bind (typed_point sub ''from_coordinates'') (\<lambda>from_coords.
        check_bind (typed_point sub ''to_coordinates'') (\<lambda>to_coords.
        check_bind (require_that ((from_coords = None) = (to_coords = None)) UnpairedCoordinates) (\<lambda>_.
        check_bind (typed_point_list sub ''to_entity'') (\<lambda>_.
        check_bind (require_that (\<not> (has_to_value to \<and> effective_from = None)) ToWithoutFrom) (\<lambda>_.
        check_bind (require_that (\<not> (tol_text \<noteq> PNone \<and> tol = None)) TolTextWithoutTol) (\<lambda>_.
        require_that (\<not> ((effective_from \<noteq> None \<or> has_to_value to \<or> tol \<noteq> None) \<and> file_id = PNone))
          HandleWithoutFile))))))))))))))))
      | _ \<Rightarrow> Inl (OutputError SubNotDict))"

fun validate_sub_rules :: "pyobj list \<Rightarrow> check_error + unit" where
  "validate_sub_rules [] = Inr ()"
| "validate_sub_rules (s # ss) = check_bind (validate_sub_rule s) (\<lambda>_. validate_sub_rules ss)"

fun require_keys :: "string list \<Rightarrow> (pyobj \<times> pyobj) list \<Rightarrow> check_error + unit" where
  "require_keys [] d = Inr ()"
| "require_keys (k # ks) d =
     check_bind (require_that (map_of d (PStr k) \<noteq> None) (MissingKey k)) (\<lambda>_. require_keys ks d)"

definition is_bool :: "pyobj \<Rightarrow> bool" where
  "is_bool v \<longleftrightarrow> (case v of PBool _ \<Rightarrow> True | _ \<Rightarrow> False)"

definition validate_rule :: "pyobj \<Rightarrow> pyobj \<Rightarrow> check_error + unit" where
  "validate_rule rule_name payload =
     check_bind (require_that (is_str rule_name) RuleNameNotStr) (\<lambda>_.
     case payload of
       PDict d \<Rightarrow>
         check_bind (require_keys [''pass'', ''text'', ''rules''] d) (\<lambda>_.
         check_bind (require_that (is_bool (pget ''pass'' d)) PassNotBool) (\<lambda>_.
         check_bind (require_that (is_str (pget ''text'' d)) TextNotStr) (\<lambda>_.
         case pget ''rules'' d of
           PList subs \<Rightarrow> validate_sub_rules subs
         | _ \<Rightarrow> Inl (OutputError RulesNotList))))
     | _ \<Rightarrow> Inl (OutputError PayloadNotDict))"

fun validate_rules :: "(pyobj \<times> pyobj) list \<Rightarrow> check_error + unit" where
  "validate_rules [] = Inr ()"
| "validate_rules ((n, p) # rs) = check_bind (validate_rule n p) (\<lambda>_. validate_rules rs)"

definition validate_envelope :: "pyobj \<Rightarrow> check_error + unit" where
  "validate_envelope result =
     (case result of PDict d \<Rightarrow> validate_rules d | _ \<Rightarrow> Inl (OutputError NotDict))"

text \<open>The external rule function is a parameter.\<close>

definition check_rules :: "(string \<Rightarrow> string \<Rightarrow> pyobj) \<Rightarrow> string \<Rightarrow> string \<Rightarrow> check_error + pyobj" where
  "check_rules external product_id bundle_dir =
     (let result = external product_id bundle_dir
      in check_bind (validate_envelope result) (\<lambda>_. Inr result))"

section \<open>The documented contract\<close>

definition number_ok :: "pyobj \<Rightarrow> bool" where
  "number_ok v \<longleftrightarrow> (case v of PInt n \<Rightarrow> \<bar>n\<bar> < FLOAT_LIMIT | PFloat (Fin _) \<Rightarrow> True | _ \<Rightarrow> False)"

definition point_ok :: "pyobj \<Rightarrow> bool" where
  "point_ok v \<longleftrightarrow> (case v of PList [a, b] \<Rightarrow> number_ok a \<and> number_ok b | _ \<Rightarrow> False)"

definition handle_or_none :: "pyobj \<Rightarrow> bool" where
  "handle_or_none v \<longleftrightarrow> v = PNone \<or> is_str v"

definition target_ok :: "pyobj \<Rightarrow> bool" where
  "target_ok v \<longleftrightarrow> handle_or_none v \<or> (case v of PList es \<Rightarrow> es \<noteq> [] \<and> (\<forall>e\<in>set es. is_str e \<and> e \<noteq> PStr []) | _ \<Rightarrow> False)"

definition outline_ok :: "pyobj \<Rightarrow> bool" where
  "outline_ok v \<longleftrightarrow> v = PNone \<or> (case v of PList ps \<Rightarrow> ps \<noteq> [] \<and> (\<forall>p\<in>set ps. point_ok p) | _ \<Rightarrow> False)"

text \<open>A sub-rule: typed fields, \<^verbatim>\<open>from_entity\<close> an alias of \<^verbatim>\<open>from\<close>, paired coordinates, a target
  only with a source, a tolerance text only with a tolerance, handles only with a file.\<close>

definition sub_rule_ok :: "pyobj \<Rightarrow> bool" where
  "sub_rule_ok v \<longleftrightarrow> (case v of
     PDict d \<Rightarrow>
       (let f = (\<lambda>k. pget k d); given = (\<lambda>k. pget k d \<noteq> PNone); source = given ''from'' \<or> given ''from_entity'' in
        (\<exists>p\<in>set VALID_PARTS. f ''part'' = PStr p) \<and> is_str (f ''text'') \<and> f ''text'' \<noteq> PStr [] \<and>
        handle_or_none (f ''file_id'') \<and> handle_or_none (f ''from'') \<and> handle_or_none (f ''from_entity'') \<and>
        handle_or_none (f ''tol'') \<and> handle_or_none (f ''tol_text'') \<and> target_ok (f ''to'') \<and>
        (given ''from'' \<and> given ''from_entity'' \<longrightarrow> f ''from'' = f ''from_entity'') \<and>
        (given ''from_coordinates'' \<longrightarrow> point_ok (f ''from_coordinates'')) \<and>
        (given ''to_coordinates'' \<longrightarrow> point_ok (f ''to_coordinates'')) \<and>
        (given ''from_coordinates'' \<longleftrightarrow> given ''to_coordinates'') \<and>
        outline_ok (f ''to_entity'') \<and>
        (given ''to'' \<longrightarrow> source) \<and> (given ''tol_text'' \<longrightarrow> given ''tol'') \<and>
        (source \<or> given ''to'' \<or> given ''tol'' \<longrightarrow> given ''file_id''))
   | _ \<Rightarrow> False)"

definition rule_ok :: "pyobj \<times> pyobj \<Rightarrow> bool" where
  "rule_ok r \<longleftrightarrow> is_str (fst r) \<and> (case snd r of
     PDict d \<Rightarrow> (\<forall>k\<in>{''pass'', ''text'', ''rules''}. map_of d (PStr k) \<noteq> None) \<and>
        is_bool (pget ''pass'' d) \<and> is_str (pget ''text'' d) \<and>
        (case pget ''rules'' d of PList subs \<Rightarrow> \<forall>s\<in>set subs. sub_rule_ok s | _ \<Rightarrow> False)
   | _ \<Rightarrow> False)"

definition envelope_ok :: "pyobj \<Rightarrow> bool" where
  "envelope_ok v \<longleftrightarrow> (case v of PDict d \<Rightarrow> \<forall>r\<in>set d. rule_ok r | _ \<Rightarrow> False)"

section \<open>The validator accepts exactly the contract\<close>

lemma check_bind_Inr [simp]: "check_bind m f = Inr y \<longleftrightarrow> (\<exists>x. m = Inr x \<and> f x = Inr y)"
  by (cases m) auto

lemma require_that_Inr [simp]: "require_that b v = Inr u \<longleftrightarrow> b"
  by (simp add: require_that_def)

lemma valid_part_Inr [simp]: "valid_part v = Inr True \<longleftrightarrow> (\<exists>p\<in>set VALID_PARTS. v = PStr p)"
  by (auto simp: valid_part_def split: pyobj.splits)

definition str_opt :: "pyobj \<Rightarrow> string option" where
  "str_opt v = (case v of PStr s \<Rightarrow> Some s | _ \<Rightarrow> None)"

lemma typed_handle_Inr: "typed_handle d k = Inr h \<longleftrightarrow> handle_or_none (pget k d) \<and> h = str_opt (pget k d)"
  by (auto simp: typed_handle_def str_opt_def handle_or_none_def is_str_def split: pyobj.splits)

lemma str_opt_None: "handle_or_none v \<Longrightarrow> str_opt v = None \<longleftrightarrow> v = PNone"
  by (auto simp: str_opt_def handle_or_none_def is_str_def split: pyobj.splits)

lemma str_opt_eq: "handle_or_none v \<Longrightarrow> handle_or_none w \<Longrightarrow> str_opt v = str_opt w \<longleftrightarrow> v = w"
  by (auto simp: str_opt_def handle_or_none_def is_str_def split: pyobj.splits)

lemma is_number_True [simp]: "is_number v = Inr True \<longleftrightarrow> number_ok v"
  by (auto simp: is_number_def number_ok_def split: pyobj.splits pyfloat.splits)

lemma all_numbers_True [simp]: "all_numbers vs = Inr True \<longleftrightarrow> (\<forall>v\<in>set vs. number_ok v)"
proof (induction vs)
  case (Cons v vs)
  have "all_numbers (v # vs) = Inr True \<longleftrightarrow> is_number v = Inr True \<and> all_numbers vs = Inr True"
    by (cases "is_number v") auto
  then show ?case using Cons by simp
qed simp

lemma point_test_True [simp]: "point_test v = Inr True \<longleftrightarrow> point_ok v"
  by (auto simp: point_test_def point_ok_def length_Suc_conv numeral_2_eq_2 split: pyobj.splits list.splits)

lemma typed_point_Inr: "typed_point d k = Inr x \<longleftrightarrow>
    (pget k d \<noteq> PNone \<longrightarrow> point_ok (pget k d)) \<and> x = (if pget k d = PNone then None else Some (pget k d))"
proof (cases "pget k d = PNone")
  case False
  have "(check_bind (point_test (pget k d))
      (\<lambda>ok. if ok then Inr (Some (pget k d)) else Inl (OutputError (BadPoint k))) = Inr x) \<longleftrightarrow>
      point_test (pget k d) = Inr True \<and> x = Some (pget k d)"
    by (cases "point_test (pget k d)") auto
  then show ?thesis using False unfolding typed_point_def Let_def by (simp del: check_bind_Inr)
qed (auto simp: typed_point_def)

lemma typed_points_from_Inr: "typed_points_from k i ps = Inr u \<longleftrightarrow> (\<forall>p\<in>set ps. point_ok p)"
proof (induction ps arbitrary: i)
  case (Cons p ps)
  have "typed_points_from k i (p # ps) = Inr u \<longleftrightarrow> point_test p = Inr True \<and> typed_points_from k (i + 1) ps = Inr u"
    by (cases "point_test p") auto
  then show ?case using Cons by simp
qed simp

lemma typed_point_list_Inr [simp]: "typed_point_list d k = Inr u \<longleftrightarrow> outline_ok (pget k d)"
  by (auto simp: typed_point_list_def outline_ok_def typed_points_from_Inr split: pyobj.splits)

lemma typed_to_elements_Inr: "typed_to_elements i es = Inr u \<longleftrightarrow> (\<forall>e\<in>set es. is_str e \<and> e \<noteq> PStr [])"
  by (induction es arbitrary: i) (auto simp: is_str_def split: pyobj.splits)

lemma typed_to_Inr: "typed_to d = Inr v \<longleftrightarrow> v = pget ''to'' d \<and> target_ok v"
  by (auto simp: typed_to_def target_ok_def handle_or_none_def is_str_def typed_to_elements_Inr split: pyobj.splits)

lemma has_to_value_iff: "target_ok v \<Longrightarrow> has_to_value v \<longleftrightarrow> v \<noteq> PNone"
  by (auto simp: target_ok_def has_to_value_def handle_or_none_def is_str_def split: pyobj.splits)

lemma bool_witness: "(\<exists>x. A x \<and> x \<and> B) \<longleftrightarrow> A True \<and> B"
  by metis

lemma none_if: "((if b then None else Some x) = None) \<longleftrightarrow> b"
  by simp

lemma validate_sub_rule_dict:
  "validate_sub_rule (PDict d) = Inr u \<longleftrightarrow>
     (\<exists>p\<in>set VALID_PARTS. pget ''part'' d = PStr p) \<and>
     (is_str (pget ''text'' d) \<and> pget ''text'' d \<noteq> PStr []) \<and>
     handle_or_none (pget ''file_id'' d) \<and> handle_or_none (pget ''from'' d) \<and> handle_or_none (pget ''from_entity'' d) \<and>
     \<not> (str_opt (pget ''from'' d) \<noteq> None \<and> str_opt (pget ''from_entity'' d) \<noteq> None \<and>
        str_opt (pget ''from'' d) \<noteq> str_opt (pget ''from_entity'' d)) \<and>
     target_ok (pget ''to'' d) \<and> handle_or_none (pget ''tol'' d) \<and> handle_or_none (pget ''tol_text'' d) \<and>
     (pget ''from_coordinates'' d \<noteq> PNone \<longrightarrow> point_ok (pget ''from_coordinates'' d)) \<and>
     (pget ''to_coordinates'' d \<noteq> PNone \<longrightarrow> point_ok (pget ''to_coordinates'' d)) \<and>
     (pget ''from_coordinates'' d = PNone) = (pget ''to_coordinates'' d = PNone) \<and>
     outline_ok (pget ''to_entity'' d) \<and>
     \<not> (has_to_value (pget ''to'' d) \<and>
        (if str_opt (pget ''from'' d) \<noteq> None then str_opt (pget ''from'' d) else str_opt (pget ''from_entity'' d)) = None) \<and>
     \<not> (pget ''tol_text'' d \<noteq> PNone \<and> str_opt (pget ''tol'' d) = None) \<and>
     \<not> (((if str_opt (pget ''from'' d) \<noteq> None then str_opt (pget ''from'' d) else str_opt (pget ''from_entity'' d)) \<noteq> None \<or>
         has_to_value (pget ''to'' d) \<or> str_opt (pget ''tol'' d) \<noteq> None) \<and> pget ''file_id'' d = PNone)"
  unfolding validate_sub_rule_def Let_def pyobj.case
    check_bind_Inr require_that_Inr typed_handle_Inr typed_point_Inr typed_to_Inr typed_point_list_Inr
    handle_or_none_def[symmetric]
  by (simp only: ex_simps simp_thms conj_assoc bool_witness valid_part_Inr none_if)

lemma validate_sub_rule_Inr: "validate_sub_rule v = Inr u \<longleftrightarrow> sub_rule_ok v"
proof (cases v)
  case (PDict d)
  let ?typed = "handle_or_none (pget ''from'' d) \<and> handle_or_none (pget ''from_entity'' d) \<and>
      handle_or_none (pget ''tol'' d) \<and> target_ok (pget ''to'' d)"
  show ?thesis
  proof (cases ?typed)
    case True
    then have h: "str_opt (pget ''from'' d) = None \<longleftrightarrow> pget ''from'' d = PNone"
      "str_opt (pget ''from_entity'' d) = None \<longleftrightarrow> pget ''from_entity'' d = PNone"
      "str_opt (pget ''tol'' d) = None \<longleftrightarrow> pget ''tol'' d = PNone"
      "str_opt (pget ''from'' d) = str_opt (pget ''from_entity'' d) \<longleftrightarrow> pget ''from'' d = pget ''from_entity'' d"
      "has_to_value (pget ''to'' d) \<longleftrightarrow> pget ''to'' d \<noteq> PNone"
      by (simp_all add: str_opt_None str_opt_eq has_to_value_iff)
    have i: "(if str_opt (pget ''from'' d) \<noteq> None then str_opt (pget ''from'' d) else str_opt (pget ''from_entity'' d)) = None
        \<longleftrightarrow> pget ''from'' d = PNone \<and> pget ''from_entity'' d = PNone"
      using h by simp
    show ?thesis
      unfolding PDict validate_sub_rule_dict sub_rule_ok_def Let_def pyobj.case i unfolding h using True by argo
  next
    case False
    then show ?thesis unfolding PDict validate_sub_rule_dict sub_rule_ok_def Let_def pyobj.case by blast
  qed
qed (simp_all add: validate_sub_rule_def sub_rule_ok_def)

lemma validate_sub_rules_Inr: "validate_sub_rules ss = Inr u \<longleftrightarrow> (\<forall>s\<in>set ss. sub_rule_ok s)"
  by (induction ss) (simp_all add: validate_sub_rule_Inr)

lemma require_keys_Inr: "require_keys ks d = Inr u \<longleftrightarrow> (\<forall>k\<in>set ks. map_of d (PStr k) \<noteq> None)"
  by (induction ks) simp_all

lemma validate_rule_Inr: "validate_rule n p = Inr u \<longleftrightarrow> rule_ok (n, p)"
  by (auto simp: validate_rule_def rule_ok_def require_keys_Inr validate_sub_rules_Inr split: pyobj.splits)

lemma validate_rules_Inr: "validate_rules rs = Inr u \<longleftrightarrow> (\<forall>r\<in>set rs. rule_ok r)"
  by (induction rs) (auto simp: validate_rule_Inr)

text \<open>C27. The validator accepts a result exactly when it meets the documented contract of the
  RuleChecking output, so the adapter returns the external function's result verbatim on every result
  that meets it and an error on every other.\<close>

theorem envelope_validation_is_the_contract:
  "check_rules external pid dir =
     (if envelope_ok (external pid dir) then Inr (external pid dir)
      else Inl (projl (validate_envelope (external pid dir)))) \<and>
   (validate_envelope (external pid dir) = Inr () \<longleftrightarrow> envelope_ok (external pid dir))"
proof -
  have iff: "validate_envelope v = Inr () \<longleftrightarrow> envelope_ok v" for v
    by (auto simp: validate_envelope_def envelope_ok_def validate_rules_Inr split: pyobj.splits)
  show ?thesis
    using iff[of "external pid dir"] by (cases "validate_envelope (external pid dir)") (auto simp: check_rules_def Let_def)
qed

text \<open>The validator's own exception is not the only one that escapes it.\<close>

lemma unhashable_part_escapes:
  "validate_envelope (PDict [(PStr ''r'', PDict [(PStr ''pass'', PBool True), (PStr ''text'', PStr ''t''),
     (PStr ''rules'', PList [PDict [(PStr ''part'', PList [])]])])]) = Inl PyTypeError"
  by (simp add: validate_envelope_def validate_rule_def require_that_def is_str_def is_bool_def pget_def
      validate_sub_rule_def valid_part_def Let_def)

end
