(* ===== verification/VersionDiff.thy ===== *)
theory VersionDiff
  imports VersionStore
begin

text \<open>
  \<^verbatim>\<open>app/version_diff.py\<close>: the comparison of two versions, template by signature,
  configuration by class and binding by role and file.
\<close>

record template_entry =
  te_id :: string
  te_class_name :: class_name
  te_entity_count :: nat
  te_vertex_count :: nat
  te_bbox :: "real \<times> real \<times> real \<times> real"
  te_centroid :: point
  te_point_sets :: point_sets

definition template_entry_of :: "class_name \<Rightarrow> template \<Rightarrow> template_entry" where
  "template_entry_of c t =
     \<lparr>te_id = t_id t, te_class_name = c, te_entity_count = length (t_point_sets t),
      te_vertex_count = sum_list (map length (t_point_sets t)), te_bbox = t_bbox t, te_centroid = t_centroid t,
      te_point_sets = t_point_sets t\<rparr>"

type_synonym signature_dict = "(class_name \<times> signature, class_name \<times> template) dict"

text \<open>A later template of the same signature replaces the earlier one, in the earlier one's place.\<close>

definition signature_index_of :: "(class_name, template list) dict \<Rightarrow> signature_dict" where
  "signature_index_of templates_by_class =
     fold (\<lambda>(c, ts) idx. fold (\<lambda>t. AList.update (c, template_signature (t_point_sets t)) (c, t)) ts idx)
       templates_by_class []"

definition entries_missing :: "signature_dict \<Rightarrow> signature_dict \<Rightarrow> template_entry list" where
  "entries_missing idx other =
     map (\<lambda>(key, c, t). template_entry_of c t)
       (filter (\<lambda>(key, _). key \<notin> fst ` set other) (sort_key (\<lambda>kv. fst (fst kv)) idx))"

record templates_diff =
  td_added :: "template_entry list"
  td_removed :: "template_entry list"

definition templates_of_library :: "string \<Rightarrow> lib_db \<Rightarrow> (class_name, template list) dict" where
  "templates_of_library l db = snd (snd (load_library l db))"

definition configs_of_library :: "string \<Rightarrow> lib_db \<Rightarrow> (class_name, match_config) dict" where
  "configs_of_library l db = fst (snd (load_library l db))"

definition diff_templates :: "string \<Rightarrow> string \<Rightarrow> lib_db \<Rightarrow> templates_diff" where
  "diff_templates lib_from lib_to db =
     (let idx_from = signature_index_of (templates_of_library lib_from db);
          idx_to = signature_index_of (templates_of_library lib_to db)
      in \<lparr>td_added = entries_missing idx_to idx_from, td_removed = entries_missing idx_from idx_to\<rparr>)"

definition diff_configs ::
  "string \<Rightarrow> string \<Rightarrow> lib_db \<Rightarrow> (class_name \<times> match_config option \<times> match_config option) list" where
  "diff_configs lib_from lib_to db =
     (let cfg_from = configs_of_library lib_from db; cfg_to = configs_of_library lib_to db
      in filter (\<lambda>(c, a, b). a \<noteq> b)
           (map (\<lambda>c. (c, map_of cfg_from c, map_of cfg_to c))
             (sort (remdups (map fst cfg_from @ map fst cfg_to)))))"

record file_mini =
  fm_file_id :: string
  fm_name :: string
  fm_size :: nat

definition file_mini_of :: "file_record \<Rightarrow> file_mini" where
  "file_mini_of r = \<lparr>fm_file_id = r_id r, fm_name = r_name r, fm_size = r_size r\<rparr>"

datatype change_kind = Added | Removed | StateChanged

record binding_change =
  bc_role :: string
  bc_kind :: change_kind
  bc_from :: "file_mini option"
  bc_to :: "file_mini option"
  bc_changed :: "string list"

text \<open>The state fields, with the test whether two records differ in them.\<close>

definition BINDING_STATE_FIELDS :: "(string \<times> (binding \<Rightarrow> binding \<Rightarrow> bool)) list" where
  "BINDING_STATE_FIELDS =
     [(''dxf_view'', \<lambda>a b. b_dxf_view a \<noteq> b_dxf_view b),
      (''selected_layers'', \<lambda>a b. b_selected_layers a \<noteq> b_selected_layers b),
      (''top_view_rect'', \<lambda>a b. b_top_view_rect a \<noteq> b_top_view_rect b),
      (''bottom_view_rect'', \<lambda>a b. b_bottom_view_rect a \<noteq> b_bottom_view_rect b),
      (''side_view_rect'', \<lambda>a b. b_side_view_rect a \<noteq> b_side_view_rect b),
      (''user_unit_override'', \<lambda>a b. b_user_unit_override a \<noteq> b_user_unit_override b),
      (''chosen_layout'', \<lambda>a b. b_chosen_layout a \<noteq> b_chosen_layout b)]"

definition record_key :: "file_record \<Rightarrow> string \<times> string" where
  "record_key r = (b_role (r_binding r), r_id r)"

definition records_by_key :: "file_record list \<Rightarrow> (string \<times> string, file_record) dict" where
  "records_by_key rs = fold (\<lambda>r. AList.update (record_key r) r) rs []"

definition binding_change_of ::
  "(string \<times> string) \<Rightarrow> file_record option \<Rightarrow> file_record option \<Rightarrow> binding_change list" where
  "binding_change_of key a b =
     (case (a, b) of
        (None, None) \<Rightarrow> []
      | (None, Some y) \<Rightarrow> [\<lparr>bc_role = fst key, bc_kind = Added, bc_from = None, bc_to = Some (file_mini_of y), bc_changed = []\<rparr>]
      | (Some x, None) \<Rightarrow> [\<lparr>bc_role = fst key, bc_kind = Removed, bc_from = Some (file_mini_of x), bc_to = None, bc_changed = []\<rparr>]
      | (Some x, Some y) \<Rightarrow>
          let changed = map fst (filter (\<lambda>(f, differs). differs (r_binding x) (r_binding y)) BINDING_STATE_FIELDS)
          in if changed = [] then []
             else [\<lparr>bc_role = fst key, bc_kind = StateChanged, bc_from = Some (file_mini_of x),
                    bc_to = Some (file_mini_of y), bc_changed = changed\<rparr>])"

definition diff_bindings :: "string \<Rightarrow> string \<Rightarrow> file_db \<Rightarrow> binding_change list" where
  "diff_bindings version_from version_to db =
     (let recs_from = records_by_key (FileStore.list_by_version version_from db);
          recs_to = records_by_key (FileStore.list_by_version version_to db)
      in concat (map (\<lambda>key. binding_change_of key (map_of recs_from key) (map_of recs_to key))
           (sort (remdups (map fst recs_from @ map fst recs_to)))))"

record version_diff =
  vd_product_id :: string
  vd_from :: version
  vd_to :: version
  vd_templates :: templates_diff
  vd_configs :: "(class_name \<times> match_config option \<times> match_config option) list"
  vd_bindings :: "binding_change list"
  vd_templates_added :: nat
  vd_templates_removed :: nat
  vd_configs_changed :: nat
  vd_bindings_changed :: nat
  vd_identical :: bool

definition diff_versions :: "version \<Rightarrow> version \<Rightarrow> core_db \<Rightarrow> version_diff" where
  "diff_versions v_from v_to db =
     (let ts = diff_templates (v_library_id v_from) (v_library_id v_to) (lib db);
          cs = diff_configs (v_library_id v_from) (v_library_id v_to) (lib db);
          bs = diff_bindings (v_id v_from) (v_id v_to) (fdb db)
      in \<lparr>vd_product_id = v_product_id v_from, vd_from = v_from, vd_to = v_to, vd_templates = ts, vd_configs = cs,
          vd_bindings = bs, vd_templates_added = length (td_added ts), vd_templates_removed = length (td_removed ts),
          vd_configs_changed = length cs, vd_bindings_changed = length bs,
          vd_identical = (\<not> (td_added ts \<noteq> [] \<or> td_removed ts \<noteq> [] \<or> cs \<noteq> [] \<or> bs \<noteq> []))\<rparr>)"

section \<open>The keys of the signature index\<close>

definition signature_keys :: "(class_name, template list) dict \<Rightarrow> (class_name \<times> signature) set" where
  "signature_keys d = (\<Union>(c, ts)\<in>set d. (\<lambda>t. (c, template_signature (t_point_sets t))) ` set ts)"

lemma signature_index_keys: "fst ` set (signature_index_of d) = signature_keys d"
proof -
  have inner: "fst ` set (fold (\<lambda>t. AList.update (c, template_signature (t_point_sets t)) (c, t)) ts idx) =
      fst ` set idx \<union> (\<lambda>t. (c, template_signature (t_point_sets t))) ` set ts"
    for c :: class_name and ts and idx :: signature_dict
    by (induction ts arbitrary: idx) (auto simp: dom_update)
  have "fst ` set (fold (\<lambda>(c, ts) idx. fold (\<lambda>t. AList.update (c, template_signature (t_point_sets t)) (c, t)) ts idx) d idx) =
      fst ` set idx \<union> signature_keys d" for idx
    by (induction d arbitrary: idx) (simp_all add: inner signature_keys_def case_prod_beta' Un_assoc)
  from this[of "[]"] show ?thesis by (simp add: signature_index_of_def)
qed

lemma entries_missing_empty: "entries_missing a b = [] \<longleftrightarrow> fst ` set a \<subseteq> fst ` set b"
  by (simp add: entries_missing_def filter_empty_conv case_prod_beta' image_subset_iff)

lemma diff_templates_empty:
  "td_added (diff_templates l m db) = [] \<longleftrightarrow> signature_keys (templates_of_library m db) \<subseteq> signature_keys (templates_of_library l db)"
  "td_removed (diff_templates l m db) = [] \<longleftrightarrow> signature_keys (templates_of_library l db) \<subseteq> signature_keys (templates_of_library m db)"
  by (simp_all add: diff_templates_def Let_def entries_missing_empty signature_index_keys)

lemma signature_keys_content:
  assumes "map (\<lambda>(c, l). (c, map template_content l)) d = map (\<lambda>(c, l). (c, map template_content l)) e"
  shows "signature_keys d = signature_keys e"
proof -
  have s: "template_signature (t_point_sets (template_content t)) = template_signature (t_point_sets t)" for t
    by (simp add: template_content_def)
  have k: "signature_keys (map (\<lambda>(c, l). (c, map template_content l)) d) = signature_keys d" for d
    by (simp add: signature_keys_def s image_image case_prod_beta')
  show ?thesis using k[of d] k[of e] assms by simp
qed

lemma library_content_diff:
  assumes "library_content l db = library_content m db"
  shows "td_added (diff_templates l m db) = []" "td_removed (diff_templates l m db) = []" "diff_configs l m db = []"
proof -
  have t: "map (\<lambda>(c, l). (c, map template_content l)) (templates_of_library l db) =
      map (\<lambda>(c, l). (c, map template_content l)) (templates_of_library m db)"
    and c: "configs_of_library l db = configs_of_library m db"
    using assms by (simp_all add: library_content_def templates_of_library_def configs_of_library_def case_prod_beta)
  show "td_added (diff_templates l m db) = []" "td_removed (diff_templates l m db) = []"
    unfolding diff_templates_empty using signature_keys_content[OF t] by simp_all
  show "diff_configs l m db = []" by (simp add: diff_configs_def Let_def c filter_empty_conv)
qed

section \<open>The bindings of a clone\<close>

definition as_cloned :: "string \<Rightarrow> real \<Rightarrow> file_record \<Rightarrow> file_record" where
  "as_cloned vid now r = r\<lparr>r_version_id := vid, r_binding := cloned_binding vid now (r_binding r)\<rparr>"

lemma as_cloned_key [simp]: "record_key (as_cloned vid now r) = record_key r"
  by (simp add: record_key_def as_cloned_def cloned_binding_def)

lemma row_to_record_cloned: "row_to_record (cloned_binding vid now b) f = as_cloned vid now (row_to_record b f)"
  by (simp add: row_to_record_def as_cloned_def cloned_binding_def)

lemma records_by_key_cloned:
  "records_by_key (map (as_cloned vid now) rs) = map (\<lambda>(k, r). (k, as_cloned vid now r)) (records_by_key rs)"
proof -
  have u: "AList.update k (f r) (map (\<lambda>(k, r). (k, f r)) d) = map (\<lambda>(k, r). (k, f r)) (AList.update k r d)"
    for k :: "string \<times> string" and f :: "file_record \<Rightarrow> file_record" and r d
    by (induction d) auto
  have "fold (\<lambda>r. AList.update (record_key r) r) (map (as_cloned vid now) rs) (map (\<lambda>(k, r). (k, as_cloned vid now r)) d) =
      map (\<lambda>(k, r). (k, as_cloned vid now r)) (fold (\<lambda>r. AList.update (record_key r) r) rs d)" for d
    by (induction rs arbitrary: d) (simp_all add: u)
  from this[of "[]"] show ?thesis by (simp add: records_by_key_def)
qed

lemma binding_change_cloned: "binding_change_of key (Some r) (Some (as_cloned vid now r)) = []"
  by (simp add: binding_change_of_def BINDING_STATE_FIELDS_def as_cloned_def cloned_binding_def)

lemma diff_bindings_cloned:
  assumes "FileStore.list_by_version w db = map (as_cloned w now) (FileStore.list_by_version v db)"
  shows "diff_bindings v w db = []"
proof -
  let ?d = "records_by_key (FileStore.list_by_version v db)"
  have "binding_change_of key (map_of ?d key) (map_of (map (\<lambda>(k, r). (k, as_cloned w now r)) ?d) key) = []" for key
    by (cases "map_of ?d key") (simp_all add: map_of_map binding_change_cloned, simp add: binding_change_of_def)
  then show ?thesis by (simp add: diff_bindings_def Let_def assms records_by_key_cloned)
qed

lemma map_filter_append: "List.map_filter f (xs @ ys) = List.map_filter f xs @ List.map_filter f ys"
  by (simp add: List.map_filter_def)

lemma list_by_version_cloned:
  assumes f: "files db' = files db" "version_files db' = version_files db @
      map (cloned_binding w now) (filter (\<lambda>b. b_version_id b = v) (version_files db))"
    and new: "w \<notin> b_version_id ` set (version_files db)" "w \<noteq> v"
  shows "FileStore.list_by_version w db' = map (as_cloned w now) (FileStore.list_by_version v db')"
proof -
  let ?row = "\<lambda>b. map_option (row_to_record b) (row_by f_id (b_file_id b) (files db))"
  have v: "r_version_id r = b_version_id b" if "?row b = Some r" for b r
    using that by (auto simp: row_to_record_def)
  have sel: "filter (\<lambda>r. r_version_id r = x) (List.map_filter ?row bs) =
      List.map_filter ?row (filter (\<lambda>b. b_version_id b = x) bs)" for x bs
    by (induction bs) (auto simp: map_filter_simps row_to_record_def split: option.splits)
  have cl: "?row (cloned_binding w now b) = map_option (as_cloned w now) (?row b)" for b
  proof -
    have "b_file_id (cloned_binding w now b) = b_file_id b" by (simp add: cloned_binding_def)
    moreover have "row_to_record (cloned_binding w now b) = (\<lambda>f. as_cloned w now (row_to_record b f))"
      by (simp add: fun_eq_iff row_to_record_cloned)
    ultimately show ?thesis by (simp add: option.map_comp comp_def)
  qed
  let ?vs = "filter (\<lambda>b. b_version_id b = v) (version_files db)"
  have none: "filter (\<lambda>b. b_version_id b = w) (version_files db) = []" using new(1) by (auto simp: filter_empty_conv)
  have w: "filter (\<lambda>b. b_version_id b = w) (version_files db') = map (cloned_binding w now) ?vs"
    by (simp add: f none filter_map comp_def cloned_binding_def)
  have vv: "filter (\<lambda>b. b_version_id b = v) (version_files db') = ?vs"
    using new(2) by (simp add: f filter_map comp_def cloned_binding_def)
  have m: "List.map_filter ?row (map (cloned_binding w now) bs) = map (as_cloned w now) (List.map_filter ?row bs)" for bs
    by (induction bs) (auto simp: map_filter_simps cl split: option.splits)
  have role: "b_role (r_binding (as_cloned w now r)) = b_role (r_binding r)" for r
    by (simp add: as_cloned_def cloned_binding_def)
  show ?thesis
    unfolding FileStore.list_by_version_def binding_select_def f(1) sel w vv m
    by (simp add: sort_key_map comp_def role)
qed

text \<open>A fresh clone differs from its source in nothing the comparison shows: right after
  \<^verbatim>\<open>create_clone\<close> succeeds the diff from the source to the clone reports identical versions.\<close>

theorem clone_diff_identical:
  assumes "core_inv db" "fresh_templates (fi_template ids) db" "src \<in> set (versions db)"
    and "create_clone ids now pid label src db = (Inr v, db')"
  shows "vd_identical (diff_versions src v db')"
proof -
  note C = create_clone_copies[OF assms]
  obtain db1 where 1: "insert_version_locked (fi_version ids) (fi_library ids) now pid (py_strip label) db = Inr (v, db1)"
    "db' = db1\<lparr>lib := copy_templates (fi_template ids) (v_library_id src) (v_library_id v)
         (copy_classes (v_library_id src) (v_library_id v) (lib db1)),
        fdb := copy_bindings (v_id src) (v_id v) now (fdb db1)\<rparr>"
    by (rule create_clone_Inr[OF assms(4)])
  note I = insert_version_Inr[OF 1(1)]
  have fr: "v_id v \<notin> v_id ` set (versions db)" "files (fdb db') = files (fdb db)"
    using I 1(2) by (simp_all add: copy_bindings_def)
  have "v_library_id v \<notin> v_library_id ` set (versions db)" using C by blast
  then have ne: "v_library_id src \<noteq> v_library_id v" "v_id src \<noteq> v_id v"
    using fr(1) imageI[OF assms(3), of v_library_id] imageI[OF assms(3), of v_id] by metis+
  have "library_content (v_library_id src) (lib db') = library_content (v_library_id src) (lib db)"
    using C ne(1) by (simp add: library_content_def)
  then have "library_content (v_library_id src) (lib db') = library_content (v_library_id v) (lib db')" using C by simp
  note L = library_content_diff[OF this]
  have "b_version_id ` set (version_files (fdb db)) \<subseteq> v_id ` set (versions db)" using assms(1) by (simp only: core_inv_def)
  then have "v_id v \<notin> b_version_id ` set (version_files (fdb db))" using fr(1) by blast
  from list_by_version_cloned[OF fr(2) _ this, of now "v_id src"] have
    "FileStore.list_by_version (v_id v) (fdb db') = map (as_cloned (v_id v) now) (FileStore.list_by_version (v_id src) (fdb db'))"
    using C ne(2) by simp
  then have "diff_bindings (v_id src) (v_id v) (fdb db') = []" by (rule diff_bindings_cloned)
  then show ?thesis using L by (simp add: diff_versions_def Let_def)
qed

lemma clone_diff_identical_witness:
  "\<exists>v db'. create_clone second_ids 5 ''p'' ''B'' first_version one_product = (Inr v, db') \<and>
     vd_identical (diff_versions first_version v db')"
proof -
  have f: "fresh_templates (fi_template second_ids) one_product"
    by (auto simp: fresh_templates_def one_product_simps second_ids_def inj_def)
  obtain v db' where c: "create_clone second_ids 5 ''p'' ''B'' first_version one_product = (Inr v, db')"
    using one_product_clones by blast
  have "first_version \<in> set (versions one_product)" by (simp add: one_product_simps)
  from clone_diff_identical[OF one_product_inv f this c] show ?thesis using c by blast
qed

end
