(* ===== verification/Guards.thy ===== *)
theory Guards
  imports AuthStore VersionStore JobStore
begin

text \<open>
  \<^verbatim>\<open>app/guards.py\<close>: the dependency every guarded endpoint declares.  The chain resolves the
  product of the request, compares the caller's effective role with a floor and, for content
  writes, requires the product's edit lock.  The state is that of all stores; the identity is the
  one \<^verbatim>\<open>get_identity\<close> has resolved and \<^verbatim>\<open>dev\<close> the developer switch of \<^verbatim>\<open>dev_resolve_grants\<close>.
\<close>

record server =
  auth :: auth_db
  core :: core_db
  queue :: jobs

record route =
  path_params :: "(string, string) dict"
  query_params :: "(string, string) dict"

datatype guard_error =
    NotFound string
  | Forbidden role bool
  | LockRequired "string option"

definition status_code :: "guard_error \<Rightarrow> nat" where
  "status_code e = (case e of NotFound _ \<Rightarrow> 404 | Forbidden _ _ \<Rightarrow> 403 | LockRequired _ \<Rightarrow> 423)"

text \<open>\<^verbatim>\<open>path or query\<close>: an empty path value falls through to the query.\<close>

definition param :: "route \<Rightarrow> string \<Rightarrow> string option" where
  "param rq name =
     (if or_empty (map_of (path_params rq) name) \<noteq> [] then map_of (path_params rq) name
      else map_of (query_params rq) name)"

definition product_for :: "route \<Rightarrow> core_db \<Rightarrow> guard_error + string option" where
  "product_for rq db =
     (let pid = param rq ''product_id''; vid = param rq ''version_id'' in
      if or_empty pid \<noteq> [] then Inr pid
      else if or_empty vid \<noteq> [] then
        (case get_version (the vid) db of
           None \<Rightarrow> Inl (NotFound ''version not found'')
         | Some v \<Rightarrow> Inr (Some (v_product_id v)))
      else Inr None)"

definition product_role :: "bool \<Rightarrow> identity \<Rightarrow> string option \<Rightarrow> server \<Rightarrow> role option" where
  "product_role dev ident product_id s =
     (if is_bypass ident \<and> \<not> dev then Some Admin
      else let customer_id = (case product_id of
                 None \<Rightarrow> None
               | Some pid \<Rightarrow> (case get_product pid (core s) of None \<Rightarrow> None | Some p \<Rightarrow> Some (p_customer_id p)))
           in effective_role dev ident product_id customer_id (auth s))"

definition enforce ::
  "bool \<Rightarrow> identity \<Rightarrow> string option \<Rightarrow> role \<Rightarrow> bool \<Rightarrow> real \<Rightarrow> server \<Rightarrow> guard_error + unit" where
  "enforce dev ident product_id min_role with_lock now s =
     (case product_role dev ident product_id s of
        None \<Rightarrow> Inl (Forbidden min_role (or_empty product_id \<noteq> []))
      | Some r \<Rightarrow>
          if ROLE_RANK r < ROLE_RANK min_role then Inl (Forbidden min_role (or_empty product_id \<noteq> []))
          else if with_lock \<and> product_id \<noteq> None \<and> \<not> is_bypass ident then
            (let holder = lock_holder (the product_id) now (auth s)
             in if holder \<noteq> Some (i_userid ident) then Inl (LockRequired holder) else Inr ())
          else Inr ())"

definition require_role ::
  "role \<Rightarrow> bool \<Rightarrow> bool \<Rightarrow> identity \<Rightarrow> route \<Rightarrow> real \<Rightarrow> server \<Rightarrow> guard_error + identity" where
  "require_role min_role with_lock dev ident rq now s =
     (case product_for rq (core s) of
        Inl e \<Rightarrow> Inl e
      | Inr product_id \<Rightarrow>
          (case enforce dev ident product_id min_role with_lock now s of Inl e \<Rightarrow> Inl e | Inr _ \<Rightarrow> Inr ident))"

definition viewer_guard :: "bool \<Rightarrow> identity \<Rightarrow> route \<Rightarrow> real \<Rightarrow> server \<Rightarrow> guard_error + identity" where
  "viewer_guard = require_role Viewer False"

definition editor_guard :: "bool \<Rightarrow> identity \<Rightarrow> route \<Rightarrow> real \<Rightarrow> server \<Rightarrow> guard_error + identity" where
  "editor_guard = require_role Editor True"

definition editor_guard_nolock :: "bool \<Rightarrow> identity \<Rightarrow> route \<Rightarrow> real \<Rightarrow> server \<Rightarrow> guard_error + identity" where
  "editor_guard_nolock = require_role Editor False"

definition admin_guard :: "bool \<Rightarrow> identity \<Rightarrow> route \<Rightarrow> real \<Rightarrow> server \<Rightarrow> guard_error + identity" where
  "admin_guard = require_role Admin False"

definition job_viewer_guard :: "bool \<Rightarrow> identity \<Rightarrow> string \<Rightarrow> server \<Rightarrow> guard_error + identity" where
  "job_viewer_guard dev ident job_id s =
     (case get_job job_id (queue s) of
        None \<Rightarrow> Inr ident
      | Some j \<Rightarrow>
          if or_empty (j_version_id j) = [] then Inr ident
          else case product_role dev ident (map_option v_product_id (get_version (the (j_version_id j)) (core s))) s of
                 None \<Rightarrow> Inl (Forbidden Viewer True)
               | Some _ \<Rightarrow> Inr ident)"

definition product_of_template :: "string \<Rightarrow> core_db \<Rightarrow> string option" where
  "product_of_template template_id db =
     (case row_by tr_id template_id (templates (lib db)) of
        None \<Rightarrow> None
      | Some row \<Rightarrow> map_option v_product_id (row_by v_library_id (tr_library_id row) (versions db)))"

definition template_editor_guard ::
  "bool \<Rightarrow> identity \<Rightarrow> string \<Rightarrow> real \<Rightarrow> server \<Rightarrow> guard_error + identity" where
  "template_editor_guard dev ident template_id now s =
     (case product_of_template template_id (core s) of
        None \<Rightarrow> Inr ident
      | Some pid \<Rightarrow>
          (case enforce dev ident (Some pid) Editor True now s of Inl e \<Rightarrow> Inl e | Inr _ \<Rightarrow> Inr ident))"

definition visible_products :: "bool \<Rightarrow> identity \<Rightarrow> product list \<Rightarrow> auth_db \<Rightarrow> product list" where
  "visible_products dev ident ps db =
     (if is_bypass ident \<and> \<not> dev then ps
      else filter (\<lambda>p. effective_role dev ident (Some (p_id p)) (Some (p_customer_id p)) db \<noteq> None) ps)"

section \<open>What a guard lets through\<close>

lemma enforce_Inr:
  "enforce dev ident pid r lk now s = Inr u \<longleftrightarrow>
     (\<exists>have. product_role dev ident pid s = Some have \<and> ROLE_RANK r \<le> ROLE_RANK have) \<and>
     (lk \<and> pid \<noteq> None \<and> \<not> is_bypass ident \<longrightarrow> lock_holder (the pid) now (auth s) = Some (i_userid ident))"
  by (auto simp: enforce_def Let_def split: option.splits)

lemma require_role_Inr:
  "require_role r lk dev ident rq now s = Inr i \<longleftrightarrow>
     i = ident \<and> (\<exists>pid. product_for rq (core s) = Inr pid \<and> enforce dev ident pid r lk now s = Inr ())"
  by (auto simp: require_role_def split: sum.splits)

lemma viewer_rank [simp]: "ROLE_RANK Viewer \<le> ROLE_RANK r"
  by (cases r) (simp_all add: ROLE_RANK_def)

lemma editor_rank: "ROLE_RANK Editor \<le> ROLE_RANK r \<longleftrightarrow> r \<noteq> Viewer"
  by (cases r) (simp_all add: ROLE_RANK_def)

text \<open>The guards are ordered: what admits an admin admits an editor without the lock, and so on.\<close>

lemma enforce_weaken:
  assumes "enforce dev ident pid r lk now s = Inr u" "ROLE_RANK r' \<le> ROLE_RANK r" "lk' \<longrightarrow> lk"
  shows "enforce dev ident pid r' lk' now s = Inr u"
  using assms order_trans[OF assms(2)] unfolding enforce_Inr by blast

lemma require_role_weaken:
  assumes "require_role r lk dev ident rq now s = Inr i" "ROLE_RANK r' \<le> ROLE_RANK r" "lk' \<longrightarrow> lk"
  shows "require_role r' lk' dev ident rq now s = Inr i"
  using assms enforce_weaken unfolding require_role_Inr by blast

lemma product_role_of_row:
  assumes "distinct (map p_id (products (core s)))" "p \<in> set (products (core s))"
  shows "product_role dev ident (Some (p_id p)) s =
    (if is_bypass ident \<and> \<not> dev then Some Admin
     else effective_role dev ident (Some (p_id p)) (Some (p_customer_id p)) (auth s))"
  using row_by_unique[OF assms] by (simp add: product_role_def get_product_def)

text \<open>The product list and the guards agree: a listed product is one whose pages the viewer guard
  opens to the caller, and no product the caller may view is left out.\<close>

theorem visible_products_are_viewable:
  assumes "core_inv (core s)" "p \<in> set (products (core s))" "or_empty (Some (p_id p)) \<noteq> []"
  shows "p \<in> set (visible_products dev ident (list_products (core s)) (auth s)) \<longleftrightarrow>
    viewer_guard dev ident \<lparr>path_params = [(''product_id'', p_id p)], query_params = []\<rparr> now s = Inr ident"
proof -
  have d: "distinct (map p_id (products (core s)))" using assms(1) by (simp only: core_inv_def)
  have "p \<in> set (list_products (core s))" using assms(2) by (simp add: list_products_def)
  then have "p \<in> set (visible_products dev ident (list_products (core s)) (auth s)) \<longleftrightarrow>
      product_role dev ident (Some (p_id p)) s \<noteq> None"
    using product_role_of_row[OF d assms(2), of dev ident] by (simp add: visible_products_def)
  then show ?thesis
    using assms(3) unfolding viewer_guard_def require_role_Inr enforce_Inr
    by (auto simp: product_for_def param_def Let_def or_empty_def)
qed

definition ann_reads :: auth_db where
  "ann_reads = snd (add_grant ''g1'' 1 ''user'' ''ann'' ''viewer'' ''product'' ''p'' ''root''
     (seed_customer ''Uncategorized'' 0 empty_auth_db))"

definition ann_server :: server where
  "ann_server = \<lparr>auth = ann_reads, core = one_product, queue = []\<rparr>"

lemma one_product_row:
  "\<lparr>p_id = ''p'', p_name = ''chip'', p_created_at = 1, p_customer_id = ''uncategorized''\<rparr> \<in> set (products one_product)"
  by (simp only: one_product_simps) simp

lemma ann_sees:
  "effective_role False ann (Some ''p'') (Some ''uncategorized'') ann_reads = Some Viewer"
  by (simp add: ann_reads_def add_grant_def parse_grantee_type_def parse_role_def parse_scope_type_def seed_customer_def
      empty_auth_db_def effective_role_def ann_def is_bypass_def grant_applies_def audit_def grant_key_def Let_def)

lemma visible_products_are_viewable_witness:
  "viewer_guard False ann \<lparr>path_params = [(''product_id'', ''p'')], query_params = []\<rparr> 9 ann_server = Inr ann"
proof -
  let ?p = "\<lparr>p_id = ''p'', p_name = ''chip'', p_created_at = 1, p_customer_id = ''uncategorized''\<rparr>"
  have s: "core_inv (core ann_server)" "?p \<in> set (products (core ann_server))"
    using one_product_inv one_product_row by (simp_all only: ann_server_def server.simps)
  have "?p \<in> set (visible_products False ann (list_products (core ann_server)) (auth ann_server))"
    using s(2) ann_sees by (simp add: visible_products_def list_products_def) (simp add: ann_server_def)
  then show ?thesis using visible_products_are_viewable[OF s, of False ann 9] by (simp add: or_empty_def)
qed

text \<open>The product a route names itself, in its path or through the version in its path or query, when the
  query adds no \<^verbatim>\<open>product_id\<close>.\<close>

definition names_product :: "route \<Rightarrow> string \<Rightarrow> core_db \<Rightarrow> bool" where
  "names_product rq p db \<longleftrightarrow>
     or_empty (map_of (query_params rq) ''product_id'') = [] \<and>
     (if or_empty (map_of (path_params rq) ''product_id'') \<noteq> []
      then map_of (path_params rq) ''product_id'' = Some p
      else \<exists>vid v. param rq ''version_id'' = Some vid \<and> vid \<noteq> [] \<and> get_version vid db = Some v \<and> v_product_id v = p)"

lemma named_product: "names_product rq p db \<Longrightarrow> product_for rq db = Inr (Some p)"
  unfolding names_product_def product_for_def param_def Let_def by (auto simp: or_empty_def split: if_splits option.splits)

lemma lock_refuses:
  assumes "lock_holder p now (auth s) \<noteq> Some (i_userid ident)" "\<not> is_bypass ident"
  shows "\<exists>e. enforce dev ident (Some p) Editor True now s = Inl e \<and> status_code e \<in> {403, 423}"
  using assms by (auto simp: enforce_def status_code_def Let_def split: option.splits)

text \<open>C19. The edit lock protects the guarded writes: for 300 seconds after a user's acquisition or heartbeat of a
  product's lock succeeds, whatever lock operations the other users attempt, the editor guard of every
  route that names the product and the guard of every template of the product turn every other
  session user away with 403 or 423, whatever roles they hold.  The exceptions are those of the code: a
  forced release of the product by an admin, which the audit log then shows; a bypass identity, which
  needs no lock; and a \<^verbatim>\<open>product_id\<close> in the query, which makes the guard look at another product.\<close>

theorem edit_lock_protects_writes:
  assumes "auth_inv db" "lock_granted p u t db db'"
    and "\<forall>a\<in>set as. action_user a \<noteq> u \<and> action_time a \<le> t + 300" "now \<le> t + 300"
    and "auth s = fold lock_do as db'" "\<not> is_bypass ident" "i_userid ident \<noteq> u"
  shows "(\<forall>rq. names_product rq p (core s) \<longrightarrow>
        (\<exists>e. editor_guard dev ident rq now s = Inl e \<and> status_code e \<in> {403, 423})) \<and>
      (\<forall>tid. product_of_template tid (core s) = Some p \<longrightarrow>
        (\<exists>e. template_editor_guard dev ident tid now s = Inl e \<and> status_code e \<in> {403, 423})) \<or>
    (\<exists>v t. Force v p t \<in> set as) \<and> forced_releases p u db' < forced_releases p u (auth s)"
  using lock_kept_or_forced[OF assms(1-4)]
proof
  assume "lock_holder p now (fold lock_do as db') = Some u"
  then have "lock_holder p now (auth s) \<noteq> Some (i_userid ident)" using assms(5,7) by simp
  from lock_refuses[OF this assms(6), of dev] obtain e
    where "enforce dev ident (Some p) Editor True now s = Inl e" "status_code e \<in> {403, 423}" by blast
  then show ?thesis
    by (auto simp: editor_guard_def require_role_def template_editor_guard_def dest: named_product)
qed (simp add: assms(5))

lemma edit_lock_protects_writes_witness:
  "\<exists>e. editor_guard False ann \<lparr>path_params = [(''version_id'', ''v1'')], query_params = []\<rparr> 250
     \<lparr>auth = snd (edit_acquire ''p'' ''ann'' 200 (snd (acquire_lock ''p'' ''bob'' 100 ann_reads))),
      core = one_product, queue = []\<rparr> = Inl e \<and> status_code e \<in> {403, 423}"
proof -
  have i: "auth_inv ann_reads" unfolding ann_reads_def by (rule auth_inv_add_grant[OF seed_inv])
  have a: "ls_acquired (fst (acquire_lock ''p'' ''bob'' 100 ann_reads))"
    by (simp add: ann_reads_def add_grant_def parse_grantee_type_def parse_role_def parse_scope_type_def seed_customer_def
        empty_auth_db_def audit_def grant_key_def acquire_lock_def Let_def)
  then have g: "lock_granted ''p'' ''bob'' 100 ann_reads (snd (acquire_lock ''p'' ''bob'' 100 ann_reads))"
    by (simp add: lock_granted_def)
  let ?s = "\<lparr>auth = snd (edit_acquire ''p'' ''ann'' 200 (snd (acquire_lock ''p'' ''bob'' 100 ann_reads))),
      core = one_product, queue = []\<rparr>"
  have "names_product \<lparr>path_params = [(''version_id'', ''v1'')], query_params = []\<rparr> ''p'' (core ?s)"
    by (simp add: names_product_def param_def or_empty_def get_version_def one_product_simps first_version_def)
  then show ?thesis
    using edit_lock_protects_writes[OF i g, of "[Acquire ''ann'' ''p'' 200]" 250 ?s ann False]
    by (simp add: lock_do_def ann_def is_bypass_def)
qed

text \<open>C28. No way around the product through its templates: the guard of a template's endpoints admits a
  caller only as an editor of the product whose version owns the template's library, and, unless
  in bypass mode, as the holder of that product's edit lock.\<close>

theorem template_edits_need_the_product:
  assumes "core_inv (core s)" "tr \<in> set (templates (lib (core s)))"
    and "v \<in> set (versions (core s))" "v_library_id v = tr_library_id tr"
    and "template_editor_guard dev ident (tr_id tr) now s = Inr i"
  shows "(\<exists>r. product_role dev ident (Some (v_product_id v)) s = Some r \<and> r \<noteq> Viewer) \<and>
    (is_bypass ident \<or> lock_holder (v_product_id v) now (auth s) = Some (i_userid ident))"
proof -
  have d: "distinct (map tr_id (templates (lib (core s))))" "distinct (map v_library_id (versions (core s)))"
    using assms(1) by (simp_all only: core_inv_def lib_wf_def)
  have "product_of_template (tr_id tr) (core s) = Some (v_product_id v)"
    using row_by_unique[OF d(1) assms(2)] row_by_unique[OF d(2) assms(3)] assms(4) by (simp add: product_of_template_def)
  then have "enforce dev ident (Some (v_product_id v)) Editor True now s = Inr ()"
    using assms(5) by (auto simp: template_editor_guard_def split: sum.splits)
  then show ?thesis unfolding enforce_Inr by (auto simp: editor_rank)
qed

definition pad_template :: template_row where
  "pad_template = \<lparr>tr_id = ''t1'', tr_library_id = ''l1'', tr_class_name = ''Pad'', tr_point_sets = [[(0, 0), (1, 0)]],
     tr_centroid = (1/2, 0), tr_bbox = (0, 0, 1, 0), tr_created_at = 2, tr_kinds = None\<rparr>"

definition pad_core :: core_db where
  "pad_core = one_product\<lparr>lib := (lib one_product)\<lparr>
     classes := [\<lparr>cl_library_id = ''l1'', cl_name = ''Pad'', cl_rank = 0, cl_created_at = 2,
       cl_strategy = ''chamfer'', cl_bbox_ratio = None\<rparr>], templates := [pad_template]\<rparr>\<rparr>"

lemma pad_core_inv: "core_inv pad_core"
proof -
  have l: "lb_id ` set (libraries (lib one_product)) = {''l1''}" "distinct (map lb_id (libraries (lib one_product)))"
    unfolding set_map[symmetric] one_product_simps by simp_all
  show ?thesis
    unfolding core_inv_def lib_wf_def pad_core_def core_db.simps lib_db.simps one_product_simps
    using l by (simp add: one_product_simps pad_template_def first_version_def class_key_def)
qed

definition editing_auth :: auth_db where
  "editing_auth = snd (acquire_lock ''p'' ''ann'' 100 (snd (add_grant ''g1'' 1 ''user'' ''ann'' ''editor'' ''product'' ''p'' ''root''
     (seed_customer ''Uncategorized'' 0 empty_auth_db))))"

lemma template_edits_need_the_product_witness:
  "lock_holder ''p'' 150 editing_auth = Some ''ann''"
proof -
  let ?s = "\<lparr>auth = editing_auth, core = pad_core, queue = []\<rparr>"
  have e: "effective_role False ann (Some ''p'') (Some ''uncategorized'') editing_auth = Some Editor"
    "lock_holder ''p'' 150 editing_auth = Some ''ann''"
    by (simp_all add: editing_auth_def add_grant_def parse_grantee_type_def parse_role_def parse_scope_type_def
        seed_customer_def empty_auth_db_def effective_role_def ann_def is_bypass_def grant_applies_def audit_def
        grant_key_def acquire_lock_def lock_holder_def LOCK_TTL_SECONDS_def rowcount_def Let_def)
  have a: "i_userid ann = ''ann''" "\<not> is_bypass ann" by (simp_all add: ann_def is_bypass_def)
  have "product_of_template ''t1'' pad_core = Some ''p''"
    by (simp add: product_of_template_def pad_core_def pad_template_def one_product_simps first_version_def)
  moreover have "product_role False ann (Some ''p'') ?s = Some Editor"
    using e(1) a(2) by (simp add: product_role_def get_product_def pad_core_def one_product_simps)
  ultimately have g: "template_editor_guard False ann (tr_id pad_template) 150 ?s = Inr ann"
    using e(2) a by (simp add: template_editor_guard_def enforce_def pad_template_def Let_def)
  have "core_inv (core ?s)" "pad_template \<in> set (templates (lib (core ?s)))" "first_version \<in> set (versions (core ?s))"
    "v_library_id first_version = tr_library_id pad_template"
    using pad_core_inv by (simp_all add: pad_core_def one_product_simps first_version_def pad_template_def)
  from template_edits_need_the_product[OF this g] show ?thesis using a by (simp add: first_version_def)
qed

end
