(* ===== verification/ProductViews.thy ===== *)
theory ProductViews
  imports VersionStore
begin

text \<open>
  \<^verbatim>\<open>app/product_views.py\<close>: from the files bound to one role of a version, the source of each logical
  view.  A whole file covers the view of its tag, a multi-view file the views it has a region for.
\<close>

definition VIEWS :: "string list" where
  "VIEWS = [''top'', ''bottom'', ''side'']"

datatype source_kind = WholeFile | Region

record view_source =
  vs_file_id :: string
  vs_source :: source_kind
  vs_rect :: "rect option"

datatype view_error = ViewCoverageConflict string "string list"

text \<open>\<^verbatim>\<open>getattr(rec, f"{v}_view_rect")\<close>\<close>

definition view_rect :: "string \<Rightarrow> binding \<Rightarrow> rect option" where
  "view_rect v b =
     (if v = ''top'' then b_top_view_rect b else if v = ''bottom'' then b_bottom_view_rect b else b_side_view_rect b)"

type_synonym view_claims = "(string, view_source) dict \<times> (string, string list) dict"

definition claim_view :: "string \<Rightarrow> string \<Rightarrow> view_source \<Rightarrow> view_claims \<Rightarrow> view_claims" where
  "claim_view v file_id src = (\<lambda>(mapping, claims). (AList.update v src mapping, dict_push v file_id claims))"

definition view_tag :: "file_record \<Rightarrow> string" where
  "view_tag rec = (if or_empty (b_dxf_view (r_binding rec)) = [] then ''multi'' else the (b_dxf_view (r_binding rec)))"

definition claim_region :: "file_record \<Rightarrow> string \<Rightarrow> view_claims \<Rightarrow> view_claims" where
  "claim_region rec v st =
     (case view_rect v (r_binding rec) of
        None \<Rightarrow> st
      | Some r \<Rightarrow> claim_view v (r_id rec) \<lparr>vs_file_id = r_id rec, vs_source = Region, vs_rect = Some r\<rparr> st)"

definition claim_regions :: "file_record \<Rightarrow> view_claims \<Rightarrow> view_claims" where
  "claim_regions rec st = fold (claim_region rec) VIEWS st"

definition claim_record :: "file_record \<Rightarrow> view_claims \<Rightarrow> view_claims" where
  "claim_record rec st =
     (let tag = view_tag rec in
      if tag = ''multi'' then claim_regions rec st
      else if tag \<in> set VIEWS then
        claim_view tag (r_id rec) \<lparr>vs_file_id = r_id rec, vs_source = WholeFile, vs_rect = None\<rparr> st
      else st)"

definition resolve_views :: "file_record list \<Rightarrow> view_error + (string, view_source) dict" where
  "resolve_views rows =
     (let (mapping, claims) = fold claim_record rows ([], map (\<lambda>v. (v, [])) VIEWS)
      in case find (\<lambda>(v, contributors). 1 < length contributors) claims of
           Some (v, contributors) \<Rightarrow> Inl (ViewCoverageConflict v contributors)
         | None \<Rightarrow> Inr mapping)"

definition resolve_for_version ::
  "string \<Rightarrow> string \<Rightarrow> file_db \<Rightarrow> view_error + (string, view_source) dict" where
  "resolve_for_version version_id dxf_role db =
     resolve_views (filter (\<lambda>f. b_role (r_binding f) = dxf_role) (FileStore.list_by_version version_id db))"

section \<open>Each view has at most one source\<close>

text \<open>What a row contributes to a view.\<close>

definition source_of :: "string \<Rightarrow> file_record \<Rightarrow> view_source option" where
  "source_of v rec =
     (if view_tag rec = ''multi'' then
        map_option (\<lambda>r. \<lparr>vs_file_id = r_id rec, vs_source = Region, vs_rect = Some r\<rparr>) (view_rect v (r_binding rec))
      else if view_tag rec = v then Some \<lparr>vs_file_id = r_id rec, vs_source = WholeFile, vs_rect = None\<rparr>
      else None)"

definition sources_of :: "string \<Rightarrow> file_record list \<Rightarrow> view_source list" where
  "sources_of v rows = List.map_filter (source_of v) rows"

lemma keys_dict_push: "k \<in> fst ` set d \<Longrightarrow> map fst (dict_push k x d) = map fst d"
  unfolding dict_push_def by (induction d) auto

lemma claim_view_lookup [simp]:
  "map_of (fst (claim_view v i src st)) w = (if w = v then Some src else map_of (fst st) w)"
  "dict_list (snd (claim_view v i src st)) w = (if w = v then dict_list (snd st) w @ [i] else dict_list (snd st) w)"
  "v \<in> fst ` set (snd st) \<Longrightarrow> map fst (snd (claim_view v i src st)) = map fst (snd st)"
  by (auto simp: claim_view_def case_prod_beta update_conv keys_dict_push)

lemma claim_view_keys [simp]:
  "fst ` set (snd (claim_view v i src st)) = insert v (fst ` set (snd st))"
  by (simp add: claim_view_def case_prod_beta dict_keys_push)

text \<open>What the loop has recorded: per view its last source and the files that claim it.\<close>

definition recorded :: "view_claims \<Rightarrow> file_record list \<Rightarrow> bool" where
  "recorded st rows \<longleftrightarrow> map fst (snd st) = VIEWS \<and>
     (\<forall>v. dict_list (snd st) v = (if v \<in> set VIEWS then map vs_file_id (sources_of v rows) else [])) \<and>
     (\<forall>v. map_of (fst st) v = (if v \<in> set VIEWS \<and> sources_of v rows \<noteq> [] then Some (last (sources_of v rows)) else None))"

lemma sources_of_snoc: "sources_of v (rows @ [rec]) = sources_of v rows @ (case source_of v rec of None \<Rightarrow> [] | Some s \<Rightarrow> [s])"
  by (induction rows) (auto simp: sources_of_def split: option.splits)

lemma claim_region_lookup [simp]:
  "v \<in> fst ` set (snd st) \<Longrightarrow> map fst (snd (claim_region rec v st)) = map fst (snd st)"
  "v \<in> fst ` set (snd st) \<Longrightarrow> fst ` set (snd (claim_region rec v st)) = fst ` set (snd st)"
  "dict_list (snd (claim_region rec v st)) w = dict_list (snd st) w @
     (if w = v \<and> view_rect v (r_binding rec) \<noteq> None then [r_id rec] else [])"
  "map_of (fst (claim_region rec v st)) w =
     (if w = v then (case view_rect v (r_binding rec) of None \<Rightarrow> map_of (fst st) w
        | Some r \<Rightarrow> Some \<lparr>vs_file_id = r_id rec, vs_source = Region, vs_rect = Some r\<rparr>) else map_of (fst st) w)"
  by (auto simp: claim_region_def split: option.splits)

lemma claim_regions_lookup:
  assumes "distinct vs"
  shows "dict_list (snd (fold (claim_region rec) vs st)) w = dict_list (snd st) w @
       (if w \<in> set vs \<and> view_rect w (r_binding rec) \<noteq> None then [r_id rec] else [])"
    "map_of (fst (fold (claim_region rec) vs st)) w =
       (if w \<in> set vs then (case view_rect w (r_binding rec) of None \<Rightarrow> map_of (fst st) w
          | Some r \<Rightarrow> Some \<lparr>vs_file_id = r_id rec, vs_source = Region, vs_rect = Some r\<rparr>) else map_of (fst st) w)"
  using assms by (induction vs arbitrary: st) (simp_all split: option.splits)

lemma claim_regions_keys:
  "set vs \<subseteq> fst ` set (snd st) \<Longrightarrow> map fst (snd (fold (claim_region rec) vs st)) = map fst (snd st)"
proof (induction vs arbitrary: st)
  case (Cons v vs)
  then have v: "v \<in> fst ` set (snd st)" and vs: "set vs \<subseteq> fst ` set (snd st)" by simp_all
  have "set vs \<subseteq> fst ` set (snd (claim_region rec v st))" unfolding claim_region_lookup(2)[OF v] by (rule vs)
  from Cons.IH[OF this] show ?case by (simp only: fold.simps o_apply claim_region_lookup(1)[OF v])
qed simp

lemma VIEWS_distinct [simp]: "distinct VIEWS" "''multi'' \<notin> set VIEWS"
  by (simp_all add: VIEWS_def)

lemma claim_record_lookup:
  assumes "map fst (snd st) = VIEWS"
  shows "map fst (snd (claim_record rec st)) = VIEWS"
    "dict_list (snd (claim_record rec st)) v = dict_list (snd st) v @
       (if v \<in> set VIEWS then (case source_of v rec of None \<Rightarrow> [] | Some s \<Rightarrow> [vs_file_id s]) else [])"
    "map_of (fst (claim_record rec st)) v =
       (if v \<in> set VIEWS \<and> source_of v rec \<noteq> None then source_of v rec else map_of (fst st) v)"
proof -
  have k: "set VIEWS \<subseteq> fst ` set (snd st)" using arg_cong[OF assms, of set] by simp
  note r = claim_regions_lookup[OF VIEWS_distinct(1), of rec]
  show "map fst (snd (claim_record rec st)) = VIEWS"
    using assms claim_regions_keys[OF k, of rec] claim_view_lookup(3)[OF subsetD[OF k]]
    by (simp add: claim_record_def claim_regions_def Let_def)
  show "dict_list (snd (claim_record rec st)) v = dict_list (snd st) v @
       (if v \<in> set VIEWS then (case source_of v rec of None \<Rightarrow> [] | Some s \<Rightarrow> [vs_file_id s]) else [])"
    by (auto simp: claim_record_def claim_regions_def r(1) source_of_def Let_def split: option.splits)
  show "map_of (fst (claim_record rec st)) v =
       (if v \<in> set VIEWS \<and> source_of v rec \<noteq> None then source_of v rec else map_of (fst st) v)"
    by (auto simp: claim_record_def claim_regions_def r(2) source_of_def Let_def split: option.splits)
qed

lemma recorded_step: "recorded st rows \<Longrightarrow> recorded (claim_record rec st) (rows @ [rec])"
  unfolding recorded_def by (auto simp: claim_record_lookup sources_of_snoc split: option.splits)

lemma recorded_fold: "recorded (fold claim_record rows ([], map (\<lambda>v. (v, [])) VIEWS)) rows"
proof (induction rows rule: rev_induct)
  case Nil
  then show ?case by (simp add: recorded_def VIEWS_def sources_of_def dict_list_def)
qed (simp add: recorded_step)

lemma find_as_filter: "find P xs = (case filter P xs of [] \<Rightarrow> None | x # _ \<Rightarrow> Some x)"
  by (induction xs) auto

text \<open>The views of a role are resolved exactly when no view has two sources, and then to the
  source each view has; otherwise the error names the first view with several sources and all
  the files that claim it.\<close>

theorem resolve_views_unique:
  "map_sum id map_of (resolve_views rows) =
     (case filter (\<lambda>v. 1 < length (sources_of v rows)) VIEWS of
        v # _ \<Rightarrow> Inl (ViewCoverageConflict v (map vs_file_id (sources_of v rows)))
      | [] \<Rightarrow> Inr (\<lambda>v. if v \<in> set VIEWS \<and> sources_of v rows \<noteq> [] then Some (hd (sources_of v rows)) else None))"
proof -
  obtain mapping claims where f: "fold claim_record rows ([], map (\<lambda>v. (v, [])) VIEWS) = (mapping, claims)"
    by (cases "fold claim_record rows ([], map (\<lambda>v. (v, [])) VIEWS)")
  have k: "map fst claims = VIEWS" and c: "\<And>v. dict_list claims v = (if v \<in> set VIEWS then map vs_file_id (sources_of v rows) else [])"
    and m: "\<And>v. map_of mapping v = (if v \<in> set VIEWS \<and> sources_of v rows \<noteq> [] then Some (last (sources_of v rows)) else None)"
    using recorded_fold[of rows] unfolding f recorded_def by simp_all
  have "claims = map (\<lambda>v. (v, map vs_file_id (sources_of v rows))) VIEWS"
  proof (rule dict_eqI)
    show "\<forall>v\<in>fst ` set (map (\<lambda>v. (v, map vs_file_id (sources_of v rows))) VIEWS).
        map_of claims v = map_of (map (\<lambda>v. (v, map vs_file_id (sources_of v rows))) VIEWS) v"
    proof
      fix v assume "v \<in> fst ` set (map (\<lambda>v. (v, map vs_file_id (sources_of v rows))) VIEWS)"
      then have v: "v \<in> set VIEWS" by auto
      then have "v \<in> fst ` set claims" using arg_cong[OF k, of set] by simp
      then obtain xs where "map_of claims v = Some xs" by (metis map_of_eq_None_iff not_None_eq)
      then show "map_of claims v = map_of (map (\<lambda>v. (v, map vs_file_id (sources_of v rows))) VIEWS) v"
        using c[of v] v by (simp add: dict_list_def map_of_map_restrict)
    qed
  qed (simp_all add: k o_def VIEWS_def)
  then have find: "find (\<lambda>(v, contributors). 1 < length contributors) claims =
      (case filter (\<lambda>v. 1 < length (sources_of v rows)) VIEWS of
         [] \<Rightarrow> None | v # _ \<Rightarrow> Some (v, map vs_file_id (sources_of v rows)))"
    by (simp add: find_as_filter filter_map o_def split: list.splits)
  show ?thesis
  proof (cases "filter (\<lambda>v. 1 < length (sources_of v rows)) VIEWS")
    case Nil
    then have "last (sources_of v rows) = hd (sources_of v rows)" if "v \<in> set VIEWS" "sources_of v rows \<noteq> []" for v
      using that by (cases "sources_of v rows") (auto simp: filter_empty_conv not_less)
    then show ?thesis unfolding resolve_views_def f Let_def prod.case find Nil by (auto simp: m fun_eq_iff)
  next
    case (Cons v vs)
    then show ?thesis unfolding resolve_views_def f Let_def prod.case find Cons by simp
  qed
qed

end
