(* ===== verification/DevOverrides.thy ===== *)
theory DevOverrides
  imports Matching
begin

text \<open>
  \<^verbatim>\<open>app/dev_overrides.py\<close>: the developer's overrides of the tunables of \<^verbatim>\<open>app/matching.py\<close>
  and \<^verbatim>\<open>app/dxf.py\<close>.  The attributes of the two modules are one dict, the names being distinct.
\<close>

datatype tuned = TInt int | TFloat pyfloat

record spec =
  sp_module :: string
  sp_name :: string
  sp_is_int :: bool
  sp_min :: real
  sp_max :: real
  sp_default :: tuned

definition float_spec :: "string \<Rightarrow> string \<Rightarrow> real \<Rightarrow> real \<Rightarrow> real \<Rightarrow> spec" where
  "float_spec m n lo hi d =
     \<lparr>sp_module = m, sp_name = n, sp_is_int = False, sp_min = lo, sp_max = hi, sp_default = TFloat (Fin d)\<rparr>"

definition int_spec :: "string \<Rightarrow> string \<Rightarrow> real \<Rightarrow> real \<Rightarrow> int \<Rightarrow> spec" where
  "int_spec m n lo hi d =
     \<lparr>sp_module = m, sp_name = n, sp_is_int = True, sp_min = lo, sp_max = hi, sp_default = TInt d\<rparr>"

text \<open>The allow-list, each entry with the value the module is compiled with.\<close>

definition ALLOW_LIST :: "spec list" where
  "ALLOW_LIST =
     [float_spec ''matching'' ''SCALE_MIN'' (5/10) 1 (99/100),
      float_spec ''matching'' ''SCALE_MAX'' 1 2 (101/100),
      float_spec ''matching'' ''TOLERANCE_ABS'' (1/10^6) 1 (2/10),
      float_spec ''matching'' ''VERTEX_COUNT_RATIO'' 0 1 (3/10),
      float_spec ''matching'' ''PATH_LENGTH_RATIO'' 0 1 (20/100),
      float_spec ''matching'' ''RADIUS_RATIO'' 0 1 (20/100),
      float_spec ''matching'' ''SIGMA_RATIO_TOL'' 0 1 (15/100),
      int_spec ''matching'' ''RESAMPLE_N'' 8 1024 64,
      int_spec ''matching'' ''BRUTE_FORCE_CUTOFF'' 1 10000 50,
      float_spec ''dxf'' ''BASE_TOLERANCE'' (1/10^6) 10 (1/100),
      float_spec ''dxf'' ''CURVE_FLATTENING_DISTANCE'' (1/10^6) 10 (1/100),
      int_spec ''dxf'' ''CIRCLE_MIN_VERTS'' 3 256 8,
      float_spec ''dxf'' ''CIRCLE_RADIAL_TOL'' (1/10^9) 1 (2/1000),
      int_spec ''dxf'' ''MAX_PRIMS_PER_THUMB'' 10 10000 600,
      int_spec ''dxf'' ''MAX_VERTICES_PER_POLYLINE'' 4 1024 24]"

type_synonym attributes = "(string, tuned) dict"

definition BY_NAME :: "string \<Rightarrow> spec option" where
  "BY_NAME n = row_by sp_name n ALLOW_LIST"

definition DEFAULTS :: attributes where
  "DEFAULTS = map (\<lambda>s. (sp_name s, sp_default s)) ALLOW_LIST"

definition attr :: "string \<Rightarrow> attributes \<Rightarrow> tuned" where
  "attr n st = the (map_of st n)"

record entry_state =
  en_spec :: spec
  en_current :: tuned

definition entry_state_of :: "attributes \<Rightarrow> spec \<Rightarrow> entry_state" where
  "entry_state_of st s = \<lparr>en_spec = s, en_current = attr (sp_name s) st\<rparr>"

definition read_state :: "attributes \<Rightarrow> entry_state list" where
  "read_state st = map (entry_state_of st) ALLOW_LIST"

text \<open>Python's \<^verbatim>\<open>value < lo or value > hi\<close>: both are False for NaN.\<close>

definition outside :: "real \<Rightarrow> real \<Rightarrow> tuned \<Rightarrow> bool" where
  "outside lo hi v \<longleftrightarrow>
     (case v of
        TInt n \<Rightarrow> real_of_int n < lo \<or> hi < real_of_int n
      | TFloat (Fin x) \<Rightarrow> x < lo \<or> hi < x
      | TFloat PosInf \<Rightarrow> True
      | TFloat NegInf \<Rightarrow> True
      | TFloat NaN \<Rightarrow> False)"

datatype override_error = GotBool | ExpectedInt | ExpectedNumber | OutOfRange real real | NotAllowed | NoOverrides | TooBig

text \<open>\<^verbatim>\<open>float(n)\<close> raises OverflowError, which is not a ValueError, from this magnitude on.\<close>

definition FLOAT_OVERFLOW :: int where
  "FLOAT_OVERFLOW = 2 ^ 1024 - 2 ^ 970"

definition coerce_type :: "spec \<Rightarrow> json \<Rightarrow> override_error + tuned" where
  "coerce_type s raw =
     (case raw of
        JBool _ \<Rightarrow> Inl GotBool
      | JInt n \<Rightarrow>
          if sp_is_int s then Inr (TInt n)
          else if FLOAT_OVERFLOW \<le> \<bar>n\<bar> then Inl TooBig
          else Inr (TFloat (Fin (real_of_int n)))
      | JFloat x \<Rightarrow>
          if sp_is_int s then
            (case x of Fin r \<Rightarrow> if real_of_int \<lfloor>r\<rfloor> = r then Inr (TInt \<lfloor>r\<rfloor>) else Inl ExpectedInt | _ \<Rightarrow> Inl ExpectedInt)
          else Inr (TFloat x)
      | _ \<Rightarrow> Inl (if sp_is_int s then ExpectedInt else ExpectedNumber))"

definition coerce :: "spec \<Rightarrow> json \<Rightarrow> override_error + tuned" where
  "coerce s raw =
     (case coerce_type s raw of
        Inl e \<Rightarrow> Inl e
      | Inr v \<Rightarrow> if outside (sp_min s) (sp_max s) v then Inl (OutOfRange (sp_min s) (sp_max s)) else Inr v)"

text \<open>One key of the body: an error, or the coerced value.\<close>

definition check_override :: "string \<times> json \<Rightarrow> override_error + tuned" where
  "check_override kv =
     (case BY_NAME (fst kv) of None \<Rightarrow> Inl NotAllowed | Some s \<Rightarrow> coerce s (snd kv))"

definition override_errors :: "(string, json) dict \<Rightarrow> (string, override_error) dict" where
  "override_errors overrides =
     List.map_filter (\<lambda>kv. case check_override kv of Inl e \<Rightarrow> Some (fst kv, e) | Inr _ \<Rightarrow> None) overrides"

definition coerced_overrides :: "(string, json) dict \<Rightarrow> attributes" where
  "coerced_overrides overrides =
     List.map_filter (\<lambda>kv. case check_override kv of Inl _ \<Rightarrow> None | Inr v \<Rightarrow> Some (fst kv, v)) overrides"

definition set_attrs :: "attributes \<Rightarrow> attributes \<Rightarrow> attributes" where
  "set_attrs kvs st = fold (\<lambda>(k, v). AList.update k v) kvs st"

datatype apply_failure = ValidationError "(string, override_error) dict" | OverflowError

definition apply_overrides ::
  "(string, json) dict \<Rightarrow> attributes \<Rightarrow> (apply_failure + entry_state list) \<times> attributes" where
  "apply_overrides overrides st =
     (if overrides = [] then (Inl (ValidationError [(''_root'', NoOverrides)]), st)
      else if TooBig \<in> snd ` set (override_errors overrides) then (Inl OverflowError, st)
      else if override_errors overrides \<noteq> [] then (Inl (ValidationError (override_errors overrides)), st)
      else let st' = set_attrs (coerced_overrides overrides) st in (Inr (read_state st'), st'))"

definition reset_overrides :: "attributes \<Rightarrow> entry_state list \<times> attributes" where
  "reset_overrides st =
     (let st' = fold (\<lambda>s. AList.update (sp_name s) (attr (sp_name s) DEFAULTS)) ALLOW_LIST st in (read_state st', st'))"

text \<open>\<^verbatim>\<open>cur != DEFAULTS[name]\<close>: a NaN differs from everything.\<close>

definition differs :: "tuned \<Rightarrow> tuned \<Rightarrow> bool" where
  "differs a b \<longleftrightarrow> a = TFloat NaN \<or> b = TFloat NaN \<or> a \<noteq> b"

definition snapshot_non_default :: "attributes \<Rightarrow> attributes" where
  "snapshot_non_default st =
     map (\<lambda>s. (sp_name s, attr (sp_name s) st))
       (filter (\<lambda>s. differs (attr (sp_name s) st) (attr (sp_name s) DEFAULTS)) ALLOW_LIST)"

definition apply_snapshot :: "attributes \<Rightarrow> attributes \<Rightarrow> attributes" where
  "apply_snapshot snap st = set_attrs (filter (\<lambda>kv. BY_NAME (fst kv) \<noteq> None) snap) st"

text \<open>The endpoint \<^verbatim>\<open>POST /api/dev/settings\<close>: a reset takes precedence.\<close>

definition dev_settings_post ::
  "(string, json) dict \<Rightarrow> attributes \<Rightarrow> (apply_failure + entry_state list) \<times> attributes" where
  "dev_settings_post payload st =
     (if map_of payload ''reset'' = Some (JBool True)
      then (case reset_overrides st of (entries, st') \<Rightarrow> (Inr entries, st'))
      else apply_overrides (filter (\<lambda>kv. fst kv \<noteq> ''reset'') payload) st)"

text \<open>The matcher reads the module attributes by name.\<close>

definition as_real :: "tuned \<Rightarrow> real" where
  "as_real v = (case v of TInt n \<Rightarrow> real_of_int n | TFloat (Fin x) \<Rightarrow> x | _ \<Rightarrow> 0)"

definition as_nat :: "tuned \<Rightarrow> nat" where
  "as_nat v = (case v of TInt n \<Rightarrow> nat n | TFloat _ \<Rightarrow> 0)"

definition tunables_of :: "attributes \<Rightarrow> tunables" where
  "tunables_of st =
     \<lparr>SCALE_MIN = as_real (attr ''SCALE_MIN'' st), SCALE_MAX = as_real (attr ''SCALE_MAX'' st),
      TOLERANCE_ABS = as_real (attr ''TOLERANCE_ABS'' st), VERTEX_COUNT_RATIO = as_real (attr ''VERTEX_COUNT_RATIO'' st),
      PATH_LENGTH_RATIO = as_real (attr ''PATH_LENGTH_RATIO'' st), RADIUS_RATIO = as_real (attr ''RADIUS_RATIO'' st),
      SIGMA_RATIO_TOL = as_real (attr ''SIGMA_RATIO_TOL'' st), RESAMPLE_N = as_nat (attr ''RESAMPLE_N'' st),
      BRUTE_FORCE_CUTOFF = as_nat (attr ''BRUTE_FORCE_CUTOFF'' st)\<rparr>"

section \<open>Every reachable setting is in its range\<close>

definition in_range :: "spec \<Rightarrow> tuned \<Rightarrow> bool" where
  "in_range s v \<longleftrightarrow> \<not> outside (sp_min s) (sp_max s) v \<and> (sp_is_int s \<longleftrightarrow> (\<exists>n. v = TInt n))"

definition attrs_ok :: "attributes \<Rightarrow> bool" where
  "attrs_ok st \<longleftrightarrow> map fst st = map sp_name ALLOW_LIST \<and> (\<forall>s\<in>set ALLOW_LIST. in_range s (attr (sp_name s) st))"

lemma names_distinct: "distinct (map sp_name ALLOW_LIST)"
  by (simp add: ALLOW_LIST_def float_spec_def int_spec_def)

lemma BY_NAME_Some: "BY_NAME n = Some s \<longleftrightarrow> s \<in> set ALLOW_LIST \<and> sp_name s = n"
  using row_by_unique[OF names_distinct, of s] by (auto simp: BY_NAME_def dest: row_by_SomeD)

lemma DEFAULTS_keys: "map fst DEFAULTS = map sp_name ALLOW_LIST"
  by (simp add: DEFAULTS_def)

lemma attr_DEFAULTS: "s \<in> set ALLOW_LIST \<Longrightarrow> attr (sp_name s) DEFAULTS = sp_default s"
proof -
  assume "s \<in> set ALLOW_LIST"
  then have "(sp_name s, sp_default s) \<in> set DEFAULTS" by (simp add: DEFAULTS_def)
  moreover have "distinct (map fst DEFAULTS)" by (simp only: DEFAULTS_keys names_distinct)
  ultimately show ?thesis by (simp add: attr_def)
qed

lemma defaults_in_range: "s \<in> set ALLOW_LIST \<Longrightarrow> in_range s (sp_default s)"
  by (auto simp: ALLOW_LIST_def float_spec_def int_spec_def in_range_def outside_def)

lemma DEFAULTS_ok: "attrs_ok DEFAULTS"
  by (simp add: attrs_ok_def DEFAULTS_keys attr_DEFAULTS defaults_in_range)

lemma attr_update: "attr n (AList.update k v st) = (if n = k then v else attr n st)"
  by (simp add: attr_def update_conv)

lemma attrs_ok_update:
  assumes "attrs_ok st" "s \<in> set ALLOW_LIST" "in_range s v"
  shows "attrs_ok (AList.update (sp_name s) v st)"
proof -
  have "set (map fst st) = set (map sp_name ALLOW_LIST)" using assms(1) by (simp only: attrs_ok_def)
  then have "sp_name s \<in> fst ` set st" using assms(2) by simp
  then have "map fst (AList.update (sp_name s) v st) = map fst st" by (simp add: update_keys)
  then have k: "map fst (AList.update (sp_name s) v st) = map sp_name ALLOW_LIST"
    using assms(1) by (simp only: attrs_ok_def)
  have "s' = s" if "s' \<in> set ALLOW_LIST" "sp_name s' = sp_name s" for s'
    using names_distinct that assms(2) by (simp add: distinct_map inj_on_def)
  then show ?thesis using assms k by (auto simp: attrs_ok_def attr_update)
qed

lemma set_attrs_ok:
  assumes "attrs_ok st" "\<forall>kv\<in>set kvs. \<exists>s\<in>set ALLOW_LIST. fst kv = sp_name s \<and> in_range s (snd kv)"
  shows "attrs_ok (set_attrs kvs st)"
  using assms
proof (induction kvs arbitrary: st)
  case (Cons kv kvs)
  then obtain s where "s \<in> set ALLOW_LIST" "fst kv = sp_name s" "in_range s (snd kv)" by auto
  then show ?case using Cons attrs_ok_update[OF Cons.prems(1)] by (simp add: set_attrs_def case_prod_beta)
qed (simp add: set_attrs_def)

lemma coerce_in_range: "coerce s raw = Inr v \<Longrightarrow> in_range s v"
  by (auto simp: coerce_def coerce_type_def in_range_def split: json.splits sum.splits if_splits pyfloat.splits)

lemma coerced_in_range:
  assumes "kv \<in> set (coerced_overrides overrides)"
  shows "\<exists>s\<in>set ALLOW_LIST. fst kv = sp_name s \<and> in_range s (snd kv)"
proof -
  obtain kv' where "(case check_override kv' of Inl _ \<Rightarrow> None | Inr v \<Rightarrow> Some (fst kv', v)) = Some kv"
    using assms unfolding coerced_overrides_def in_map_filter by blast
  then have "check_override kv' = Inr (snd kv)" "fst kv' = fst kv" by (auto split: sum.splits)
  then obtain raw where "check_override (fst kv, raw) = Inr (snd kv)" by (metis prod.collapse)
  then obtain s where s: "BY_NAME (fst kv) = Some s" "coerce s raw = Inr (snd kv)"
    by (auto simp: check_override_def split: option.splits)
  from coerce_in_range[OF s(2)] s(1) show ?thesis unfolding BY_NAME_Some by metis
qed

lemma apply_overrides_ok: "attrs_ok st \<Longrightarrow> attrs_ok (snd (apply_overrides overrides st))"
  using coerced_in_range by (auto simp: apply_overrides_def Let_def intro!: set_attrs_ok)

lemma reset_ok:
  assumes "attrs_ok st" shows "attrs_ok (snd (reset_overrides st))"
proof -
  have "attrs_ok (fold (\<lambda>s. AList.update (sp_name s) (attr (sp_name s) DEFAULTS)) ss st)"
    if "set ss \<subseteq> set ALLOW_LIST" "attrs_ok st" for ss and st
    using that by (induction ss arbitrary: st) (simp_all add: attrs_ok_update attr_DEFAULTS defaults_in_range)
  then show ?thesis using assms by (simp add: reset_overrides_def Let_def)
qed

lemma dev_post_ok: "attrs_ok st \<Longrightarrow> attrs_ok (snd (dev_settings_post payload st))"
  using apply_overrides_ok reset_ok[of st] by (auto simp: dev_settings_post_def case_prod_beta)

definition after_posts :: "(string, json) dict list \<Rightarrow> attributes" where
  "after_posts payloads = fold (\<lambda>p st. snd (dev_settings_post p st)) payloads DEFAULTS"

lemma after_posts_ok: "attrs_ok (after_posts payloads)"
proof -
  have "attrs_ok (fold (\<lambda>p st. snd (dev_settings_post p st)) payloads st)" if "attrs_ok st" for st
    using that by (induction payloads arbitrary: st) (simp_all add: dev_post_ok)
  then show ?thesis using DEFAULTS_ok by (simp add: after_posts_def)
qed

lemma attr_member: "attrs_ok st \<Longrightarrow> s \<in> set ALLOW_LIST \<Longrightarrow> (sp_name s, attr (sp_name s) st) \<in> set st"
proof -
  assume "attrs_ok st" "s \<in> set ALLOW_LIST"
  then have "set (map fst st) = set (map sp_name ALLOW_LIST)" by (simp only: attrs_ok_def)
  with \<open>s \<in> set ALLOW_LIST\<close> have "sp_name s \<in> fst ` set st" by simp
  then obtain v where "map_of st (sp_name s) = Some v" by (metis map_of_eq_None_iff not_None_eq)
  then show ?thesis using map_of_SomeD by (simp add: attr_def)
qed

lemma real_in_range:
  assumes "attrs_ok st" "TFloat NaN \<notin> snd ` set st" "s \<in> set ALLOW_LIST"
  shows "sp_min s \<le> as_real (attr (sp_name s) st) \<and> as_real (attr (sp_name s) st) \<le> sp_max s"
proof -
  have "attr (sp_name s) st \<noteq> TFloat NaN" using attr_member[OF assms(1,3)] assms(2) by force
  moreover have "in_range s (attr (sp_name s) st)" using assms(1,3) by (simp add: attrs_ok_def)
  ultimately show ?thesis by (auto simp: in_range_def outside_def as_real_def split: tuned.splits pyfloat.splits)
qed

lemma int_attr: "attrs_ok st \<Longrightarrow> s \<in> set ALLOW_LIST \<Longrightarrow> sp_is_int s \<Longrightarrow> \<exists>n. attr (sp_name s) st = TInt n \<and> sp_min s \<le> real_of_int n"
  by (auto simp: attrs_ok_def in_range_def outside_def)

lemma spec_member:
  "float_spec ''matching'' ''SCALE_MIN'' (5/10) 1 (99/100) \<in> set ALLOW_LIST"
  "float_spec ''matching'' ''SCALE_MAX'' 1 2 (101/100) \<in> set ALLOW_LIST"
  "float_spec ''matching'' ''PATH_LENGTH_RATIO'' 0 1 (20/100) \<in> set ALLOW_LIST"
  "float_spec ''matching'' ''RADIUS_RATIO'' 0 1 (20/100) \<in> set ALLOW_LIST"
  "float_spec ''matching'' ''SIGMA_RATIO_TOL'' 0 1 (15/100) \<in> set ALLOW_LIST"
  "int_spec ''matching'' ''RESAMPLE_N'' 8 1024 64 \<in> set ALLOW_LIST"
  by (simp_all add: ALLOW_LIST_def)

text \<open>C30. Whatever sequence of bodies is posted to the settings endpoint, as long as no NaN was set the
  matcher runs with sound tunables: the accepted scale range contains 1, the bands are not
  negative and at least eight points are resampled.  So the theorems of the matcher, which ask for
  sound tunables only, hold under every override a developer can make.\<close>

theorem overrides_keep_tunables_ok:
  assumes "TFloat NaN \<notin> snd ` set (after_posts payloads)"
  shows "tunables_ok (tunables_of (after_posts payloads)) \<and> 8 \<le> RESAMPLE_N (tunables_of (after_posts payloads))"
proof -
  let ?st = "after_posts payloads"
  note r = real_in_range[OF after_posts_ok assms]
  have "as_real (attr ''SCALE_MIN'' ?st) \<le> 1" "1 \<le> as_real (attr ''SCALE_MAX'' ?st)"
    "0 \<le> as_real (attr ''PATH_LENGTH_RATIO'' ?st)" "0 \<le> as_real (attr ''RADIUS_RATIO'' ?st)"
    "0 \<le> as_real (attr ''SIGMA_RATIO_TOL'' ?st)"
    using r[OF spec_member(1)] r[OF spec_member(2)] r[OF spec_member(3)] r[OF spec_member(4)] r[OF spec_member(5)]
    by (simp_all add: float_spec_def)
  moreover obtain n where "attr ''RESAMPLE_N'' ?st = TInt n" "8 \<le> n"
    using int_attr[OF after_posts_ok[of payloads] spec_member(6)] by (auto simp: int_spec_def)
  ultimately show ?thesis by (simp add: tunables_ok_def tunables_of_def as_nat_def)
qed

definition three_posts :: "(string, json) dict list" where
  "three_posts = [[(''RESAMPLE_N'', JFloat (Fin 32)), (''SCALE_MIN'', JFloat (Fin (9/10)))],
     [(''SCALE_MAX'', JInt 7), (''RADIUS_RATIO'', JFloat (Fin 1))], [(''PATH_LENGTH_RATIO'', JInt 1)]]"

lemma after_three_posts:
  "after_posts three_posts = AList.update ''PATH_LENGTH_RATIO'' (TFloat (Fin 1))
     (AList.update ''SCALE_MIN'' (TFloat (Fin (9/10))) (AList.update ''RESAMPLE_N'' (TInt 32) DEFAULTS))"
proof -
  have "dev_settings_post [(''RESAMPLE_N'', JFloat (Fin 32)), (''SCALE_MIN'', JFloat (Fin (9/10)))] st =
      (let st' = AList.update ''SCALE_MIN'' (TFloat (Fin (9/10))) (AList.update ''RESAMPLE_N'' (TInt 32) st) in (Inr (read_state st'), st'))"
    "snd (dev_settings_post [(''SCALE_MAX'', JInt 7), (''RADIUS_RATIO'', JFloat (Fin 1))] st) = st"
    "dev_settings_post [(''PATH_LENGTH_RATIO'', JInt 1)] st =
      (let st' = AList.update ''PATH_LENGTH_RATIO'' (TFloat (Fin 1)) st in (Inr (read_state st'), st'))" for st
    by (simp_all add: dev_settings_post_def apply_overrides_def override_errors_def coerced_overrides_def check_override_def
        BY_NAME_def ALLOW_LIST_def float_spec_def int_spec_def coerce_def coerce_type_def outside_def set_attrs_def
        FLOAT_OVERFLOW_def Let_def)
  then show ?thesis by (simp add: after_posts_def three_posts_def Let_def)
qed

lemma overrides_keep_tunables_ok_witness:
  "tunables_ok (tunables_of (after_posts three_posts)) \<and> RESAMPLE_N (tunables_of (after_posts three_posts)) = 32"
proof -
  have "TFloat NaN \<notin> snd ` set (after_posts three_posts)"
    unfolding after_three_posts by (simp add: DEFAULTS_def ALLOW_LIST_def float_spec_def int_spec_def)
  from overrides_keep_tunables_ok[OF this] show ?thesis
    unfolding after_three_posts by (simp add: tunables_of_def attr_update as_nat_def)
qed

section \<open>Carrying the overrides to a worker process\<close>

lemma attr_Cons: "attr n (kv # kvs) = (if fst kv = n then snd kv else attr n kvs)"
  by (cases kv) (simp add: attr_def)

lemma attr_set_attrs:
  "dict_ok kvs \<Longrightarrow> attr n (set_attrs kvs st) = (if n \<in> fst ` set kvs then attr n kvs else attr n st)"
proof (induction kvs arbitrary: st)
  case (Cons kv kvs)
  have "set_attrs (kv # kvs) st = set_attrs kvs (AList.update (fst kv) (snd kv) st)"
    by (simp add: set_attrs_def case_prod_beta)
  then show ?case using Cons by (auto simp: attr_update attr_Cons)
qed (simp add: set_attrs_def)

lemma keys_set_attrs: "fst ` set kvs \<subseteq> fst ` set st \<Longrightarrow> map fst (set_attrs kvs st) = map fst st"
proof (induction kvs arbitrary: st)
  case (Cons kv kvs)
  have "map fst (AList.update (fst kv) (snd kv) st) = map fst st" using Cons.prems by (simp add: update_keys)
  then show ?case using Cons.IH[of "AList.update (fst kv) (snd kv) st"] Cons.prems
    by (simp add: set_attrs_def case_prod_beta flip: set_map)
qed (simp add: set_attrs_def)

lemma attributes_eqI:
  assumes "map fst xs = map fst ys" "dict_ok ys" "\<forall>n\<in>fst ` set ys. attr n xs = attr n ys"
  shows "xs = ys"
proof (rule dict_eqI[OF assms(1,2)], rule ballI)
  fix n assume n: "n \<in> fst ` set ys"
  then have "n \<in> fst ` set xs" using arg_cong[OF assms(1), of set] by simp
  then show "map_of xs n = map_of ys n"
    using n assms(3) by (metis attr_def map_of_eq_None_iff option.collapse)
qed

lemma snapshot_attrs: "attr n (map (\<lambda>s. (sp_name s, attr (sp_name s) st)) ss) = attr n st" if "n \<in> sp_name ` set ss"
  using that by (induction ss) (auto simp: attr_def)

lemma snapshot_ferries:
  assumes "attrs_ok st"
  shows "apply_snapshot (snapshot_non_default st) DEFAULTS = st"
proof -
  let ?ss = "filter (\<lambda>s. differs (attr (sp_name s) st) (attr (sp_name s) DEFAULTS)) ALLOW_LIST"
  let ?snap = "snapshot_non_default st"
  have keys: "fst ` set ?snap = sp_name ` set ?ss" by (auto simp: snapshot_non_default_def image_image)
  have known: "BY_NAME (sp_name s) \<noteq> None" if "s \<in> set ALLOW_LIST" for s
    using that BY_NAME_Some[of "sp_name s" s] by simp
  have ok: "dict_ok ?snap" unfolding snapshot_non_default_def using names_distinct
    by (simp add: o_def distinct_map_filter)
  have all: "filter (\<lambda>kv. BY_NAME (fst kv) \<noteq> None) ?snap = ?snap"
    using known by (auto simp: filter_id_conv snapshot_non_default_def)
  show ?thesis
  proof (rule attributes_eqI)
    have "fst ` set ?snap \<subseteq> fst ` set DEFAULTS" by (auto simp: snapshot_non_default_def DEFAULTS_def image_image)
    then show "map fst (apply_snapshot ?snap DEFAULTS) = map fst st"
      using assms unfolding apply_snapshot_def all attrs_ok_def by (simp add: keys_set_attrs DEFAULTS_keys)
    show "dict_ok st" using assms names_distinct by (simp add: attrs_ok_def)
    show "\<forall>n\<in>fst ` set st. attr n (apply_snapshot ?snap DEFAULTS) = attr n st"
    proof
      fix n assume "n \<in> fst ` set st"
      then have "n \<in> set (map sp_name ALLOW_LIST)" using assms by (metis attrs_ok_def set_map)
      then obtain s where s: "s \<in> set ALLOW_LIST" "n = sp_name s" by auto
      show "attr n (apply_snapshot ?snap DEFAULTS) = attr n st"
      proof (cases "n \<in> sp_name ` set ?ss")
        case True
        then show ?thesis unfolding apply_snapshot_def all attr_set_attrs[OF ok] keys
          using snapshot_attrs[OF True, of st] by (simp add: snapshot_non_default_def)
      next
        case False
        then have "\<not> differs (attr n st) (attr n DEFAULTS)" using s by auto
        then show ?thesis unfolding apply_snapshot_def all attr_set_attrs[OF ok] keys using False by (simp add: differs_def)
      qed
    qed
  qed
qed

text \<open>C29. The snapshot carries the overrides: a worker process that starts from the compiled defaults
  and applies the snapshot its parent took has exactly the parent's attributes, NaN included,
  after any sequence of bodies posted to the parent.\<close>

theorem snapshot_round_trip:
  "apply_snapshot (snapshot_non_default (after_posts payloads)) DEFAULTS = after_posts payloads"
  by (rule snapshot_ferries[OF after_posts_ok])

text \<open>A NaN is in every range.\<close>

lemma nan_is_accepted:
  "snd (apply_overrides [(''TOLERANCE_ABS'', JFloat NaN)] DEFAULTS) = AList.update ''TOLERANCE_ABS'' (TFloat NaN) DEFAULTS"
  by (simp add: apply_overrides_def override_errors_def coerced_overrides_def check_override_def BY_NAME_def ALLOW_LIST_def
      float_spec_def int_spec_def coerce_def coerce_type_def outside_def set_attrs_def Let_def)

text \<open>A refused body changes nothing; an accepted one sets exactly its keys.\<close>

lemma refused_changes_nothing: "fst (apply_overrides overrides st) = Inl e \<Longrightarrow> snd (apply_overrides overrides st) = st"
  by (auto simp: apply_overrides_def Let_def split: if_splits)

end
