(* ===== verification/Dxf.thy ===== *)
theory Dxf
  imports Shapes
begin

text \<open>
  \<^verbatim>\<open>app/dxf.py\<close> up to the finished rendering: the backend that turns drawing calls into
  primitives and their bounding box, circle detection, the choice of the layout, units and rescaling.
  Reading the file, walking its entities and flattening curves are done by ezdxf, which is not code of
  the repository: a document and the calls its frontend makes for a list of entities are arguments,
  and so is the linear solver of numpy.
\<close>

section \<open>Constants\<close>

text \<open>The constants the developer overrides may change.\<close>

record dxf_tunables =
  BASE_TOLERANCE :: real
  CIRCLE_MIN_VERTS :: nat
  CIRCLE_RADIAL_TOL :: real
  MAX_PRIMS_PER_THUMB :: nat
  MAX_VERTICES_PER_POLYLINE :: nat

definition compiled_dxf :: dxf_tunables where
  "compiled_dxf = \<lparr>BASE_TOLERANCE = 1/100, CIRCLE_MIN_VERTS = 8, CIRCLE_RADIAL_TOL = 2/1000,
     MAX_PRIMS_PER_THUMB = 600, MAX_VERTICES_PER_POLYLINE = 24\<rparr>"

definition SCALE_FACTOR :: real where "SCALE_FACTOR = 1 / 10 ^ 5"
definition CIRCLE_MIN_VERTS_NOCURVE :: nat where "CIRCLE_MIN_VERTS_NOCURVE = 11"

definition DECORATIVE_DXFTYPES :: "string set" where
  "DECORATIVE_DXFTYPES = set [''TEXT'', ''MTEXT'', ''DIMENSION'']"

definition NON_RENDERED_DXFTYPES :: "string set" where
  "NON_RENDERED_DXFTYPES = set [''VIEWPORT'']"

text \<open>The last label is the UTF-8 encoding of the micrometre sign.\<close>

definition UNIT_TO_SCALE :: "(string, real) dict" where
  "UNIT_TO_SCALE = [(''mm'', 1), (''cm'', 10), (''m'', 1000), (''inch'', 254/10),
     (map (\<lambda>n. char_of (n :: nat)) [206, 188, 109], 1/1000)]"

section \<open>Primitives\<close>

datatype geometry =
    PPoint point
  | PLine point point
  | PPolyline "point list" bool
  | PCircle point real bool
  | PFilled "point list list"

text \<open>The render properties; the flag of the circle is \<^verbatim>\<open>filled\<close>, of the polyline \<^verbatim>\<open>closed\<close>.\<close>

record props =
  pr_color :: string
  pr_layer :: string
  pr_lineweight :: real
  pr_handle :: string

record primitive =
  geom :: geometry
  style :: props
  decorative :: bool

definition geom_type :: "geometry \<Rightarrow> string" where
  "geom_type g =
     (case g of PPoint _ \<Rightarrow> ''point'' | PLine _ _ \<Rightarrow> ''line'' | PPolyline _ _ \<Rightarrow> ''polyline''
      | PCircle _ _ _ \<Rightarrow> ''circle'' | PFilled _ \<Rightarrow> ''filled_polygon'')"

text \<open>ezdxf gives \<^verbatim>\<open>#RRGGBBAA\<close> sometimes.\<close>

definition normalize_color :: "string \<Rightarrow> string" where
  "normalize_color c = (if py_starts_with ''#'' c \<and> length c = 9 then take 7 c else c)"

definition props_of :: "props \<Rightarrow> props" where
  "props_of p = p\<lparr>pr_color := normalize_color (pr_color p)\<rparr>"

section \<open>Circle detection\<close>

type_synonym triple = "real \<times> real \<times> real"

text \<open>\<^verbatim>\<open>np.linalg.solve\<close> on a 3 by 3 system, None when it raises LinAlgError.\<close>

type_synonym solver = "triple \<times> triple \<times> triple \<Rightarrow> triple \<Rightarrow> triple option"

definition sum_over :: "(point \<Rightarrow> real) \<Rightarrow> point list \<Rightarrow> real" where
  "sum_over f ps = sum_list (map f ps)"

definition sq_norm :: "point \<Rightarrow> real" where
  "sq_norm p = fst p * fst p + snd p * snd p"

definition kasa_matrix :: "point list \<Rightarrow> triple \<times> triple \<times> triple" where
  "kasa_matrix ps =
     ((sum_over (\<lambda>p. fst p * fst p) ps, sum_over (\<lambda>p. fst p * snd p) ps, sum_over fst ps),
      (sum_over (\<lambda>p. fst p * snd p) ps, sum_over (\<lambda>p. snd p * snd p) ps, sum_over snd ps),
      (sum_over fst ps, sum_over snd ps, real (length ps)))"

definition kasa_vector :: "point list \<Rightarrow> triple" where
  "kasa_vector ps =
     (- sum_over (\<lambda>p. fst p * sq_norm p) ps, - sum_over (\<lambda>p. snd p * sq_norm p) ps, - sum_over sq_norm ps)"

definition circle_centre :: "solver \<Rightarrow> point list \<Rightarrow> point" where
  "circle_centre solve arr =
     (let c0 = mean_point arr; local = map (\<lambda>p. psub p c0) arr in
      case solve (kasa_matrix local) (kasa_vector local) of
        None \<Rightarrow> c0
      | Some (D, E, F) \<Rightarrow> (fst c0 - D / 2, snd c0 - E / 2))"

definition radii :: "point \<Rightarrow> point list \<Rightarrow> real list" where
  "radii c arr = map (\<lambda>p. pdist p c) arr"

definition extent :: "real list \<Rightarrow> real" where
  "extent xs = list_max xs - list_min xs"

text \<open>The four gates a fit has to pass, in the code's order.\<close>

definition fit_circle :: "solver \<Rightarrow> real \<Rightarrow> point list \<Rightarrow> (point \<times> real) option" where
  "fit_circle solve radial_tol arr =
     (let c = circle_centre solve arr;
          r = radii c arr;
          rmean = mean r;
          max_extent = max (extent (map fst arr)) (extent (map snd arr));
          min_extent = min (extent (map fst arr)) (extent (map snd arr))
      in if rmean < 1 / 10 ^ 9 then None
         else if rmean > max_extent then None
         else if max_extent > 0 \<and> min_extent / max_extent < 9/10 then None
         else if (list_max r - list_min r) / rmean > radial_tol then None
         else Some (c, rmean))"

text \<open>The vertices without the repeated last one of a closed outline.\<close>

definition ring_of :: "point list \<Rightarrow> point list" where
  "ring_of points = take (if hd points = last points then length points - 1 else length points) points"

definition detect_circle :: "solver \<Rightarrow> real \<Rightarrow> point list \<Rightarrow> nat \<Rightarrow> (point \<times> real) option" where
  "detect_circle solve radial_tol points min_verts =
     (if length points < min_verts then None
      else if length (ring_of points) < min_verts then None
      else fit_circle solve radial_tol (ring_of points))"

section \<open>The backend\<close>

text \<open>A sub-path knows whether it is closed and has curves; ezdxf flattens it at a tolerance.\<close>

record sub_path =
  is_closed :: bool
  has_curves :: bool
  flattening :: "real \<Rightarrow> point list"

datatype draw_event =
    EnterEntity string
  | ExitEntity
  | SetBackground string
  | DrawPoint point props
  | DrawLine point point props
  | DrawSolidLines "(point \<times> point) list" props
  | DrawPath "sub_path list" props
  | DrawFilledPaths "sub_path list list" props
  | DrawFilledPolygon "point list" props
  | DrawImage

type_synonym bbox = "real \<times> real \<times> real \<times> real"

text \<open>The four extrema start at infinities, which the property \<^verbatim>\<open>bbox\<close> reports as None.\<close>

record backend =
  bk_primitives :: "primitive list"
  bk_background :: string
  bk_tolerance :: real
  bk_bbox :: "bbox option"
  bk_decorative :: bool

definition new_backend :: "real \<Rightarrow> backend" where
  "new_backend tolerance =
     \<lparr>bk_primitives = [], bk_background = ''#ffffff'', bk_tolerance = tolerance, bk_bbox = None, bk_decorative = False\<rparr>"

definition grow :: "point \<Rightarrow> bbox option \<Rightarrow> bbox option" where
  "grow p b =
     (case b of
        None \<Rightarrow> Some (fst p, snd p, fst p, snd p)
      | Some (xmin, ymin, xmax, ymax) \<Rightarrow>
          Some (if fst p < xmin then fst p else xmin, if snd p < ymin then snd p else ymin,
                if fst p > xmax then fst p else xmax, if snd p > ymax then snd p else ymax))"

definition track_point :: "point \<Rightarrow> backend \<Rightarrow> backend" where
  "track_point p bk = bk\<lparr>bk_bbox := grow p (bk_bbox bk)\<rparr>"

definition track_points :: "point list \<Rightarrow> backend \<Rightarrow> backend" where
  "track_points ps bk = fold track_point ps bk"

definition append_prim :: "geometry \<Rightarrow> props \<Rightarrow> backend \<Rightarrow> backend" where
  "append_prim g pr bk =
     bk\<lparr>bk_primitives := bk_primitives bk @ [\<lparr>geom = g, style = pr, decorative = bk_decorative bk\<rparr>]\<rparr>"

definition draw_line :: "point \<Rightarrow> point \<Rightarrow> props \<Rightarrow> backend \<Rightarrow> backend" where
  "draw_line s e pr bk = append_prim (PLine s e) pr (track_point e (track_point s bk))"

definition draw_circle :: "point \<times> real \<Rightarrow> bool \<Rightarrow> props \<Rightarrow> backend \<Rightarrow> backend" where
  "draw_circle cr filled pr bk =
     (case cr of (c, r) \<Rightarrow>
        append_prim (PCircle c r filled) pr
          (track_point (fst c + r, snd c + r) (track_point (fst c - r, snd c - r) bk)))"

definition detect_sub :: "solver \<Rightarrow> dxf_tunables \<Rightarrow> sub_path \<Rightarrow> point list \<Rightarrow> (point \<times> real) option" where
  "detect_sub solve dt sub points =
     (if is_closed sub then
        detect_circle solve (CIRCLE_RADIAL_TOL dt) points
          (if has_curves sub then CIRCLE_MIN_VERTS dt else CIRCLE_MIN_VERTS_NOCURVE)
      else None)"

definition draw_sub_path :: "solver \<Rightarrow> dxf_tunables \<Rightarrow> props \<Rightarrow> sub_path \<Rightarrow> backend \<Rightarrow> backend" where
  "draw_sub_path solve dt pr sub bk =
     (let points = flattening sub (bk_tolerance bk) in
      if length points < 2 then bk
      else case detect_sub solve dt sub points of
             Some circle \<Rightarrow> draw_circle circle False (props_of pr) bk
           | None \<Rightarrow> append_prim (PPolyline points (is_closed sub)) (props_of pr) (track_points points bk))"

text \<open>The single closed sub-path that is a circle, of \<^verbatim>\<open>draw_filled_paths\<close>.\<close>

definition filled_circle :: "solver \<Rightarrow> dxf_tunables \<Rightarrow> real \<Rightarrow> sub_path list list \<Rightarrow> (point \<times> real) option" where
  "filled_circle solve dt tol paths =
     (case paths of
        [[sub]] \<Rightarrow>
          (let pts = flattening sub tol
           in if is_closed sub \<and> 3 \<le> length pts then detect_sub solve dt sub pts else None)
      | _ \<Rightarrow> None)"

definition rings_of :: "real \<Rightarrow> sub_path list list \<Rightarrow> point list list" where
  "rings_of tol paths = filter (\<lambda>pts. 3 \<le> length pts) (map (\<lambda>sub. flattening sub tol) (concat paths))"

definition draw_filled_paths :: "solver \<Rightarrow> dxf_tunables \<Rightarrow> sub_path list list \<Rightarrow> props \<Rightarrow> backend \<Rightarrow> backend" where
  "draw_filled_paths solve dt paths pr bk =
     (case filled_circle solve dt (bk_tolerance bk) paths of
        Some circle \<Rightarrow> draw_circle circle True (props_of pr) bk
      | None \<Rightarrow>
          (let rings = rings_of (bk_tolerance bk) paths; bk' = fold track_points rings bk
           in if rings = [] then bk' else append_prim (PFilled rings) (props_of pr) bk'))"

definition draw_filled_polygon :: "point list \<Rightarrow> props \<Rightarrow> backend \<Rightarrow> backend" where
  "draw_filled_polygon pts pr bk =
     (if length pts < 3 then bk else append_prim (PFilled [pts]) (props_of pr) (track_points pts bk))"

fun draw :: "solver \<Rightarrow> dxf_tunables \<Rightarrow> draw_event \<Rightarrow> backend \<Rightarrow> backend" where
  "draw solve dt (EnterEntity dxftype) bk = bk\<lparr>bk_decorative := dxftype \<in> DECORATIVE_DXFTYPES\<rparr>"
| "draw solve dt ExitEntity bk = bk\<lparr>bk_decorative := False\<rparr>"
| "draw solve dt (SetBackground color) bk = bk\<lparr>bk_background := normalize_color color\<rparr>"
| "draw solve dt (DrawPoint p pr) bk = append_prim (PPoint p) (props_of pr) (track_point p bk)"
| "draw solve dt (DrawLine s e pr) bk = draw_line s e (props_of pr) bk"
| "draw solve dt (DrawSolidLines ls pr) bk = fold (\<lambda>(s, e). draw_line s e (props_of pr)) ls bk"
| "draw solve dt (DrawPath subs pr) bk = fold (draw_sub_path solve dt pr) subs bk"
| "draw solve dt (DrawFilledPaths paths pr) bk = draw_filled_paths solve dt paths pr bk"
| "draw solve dt (DrawFilledPolygon pts pr) bk = draw_filled_polygon pts pr bk"
| "draw solve dt DrawImage bk = bk"

section \<open>Units\<close>

definition detect_scale_factor :: "int option \<Rightarrow> real \<Rightarrow> real" where
  "detect_scale_factor insunits diagonal = 1"

definition scale_geometry :: "real \<Rightarrow> geometry \<Rightarrow> geometry" where
  "scale_geometry k g =
     (case g of
        PPoint p \<Rightarrow> PPoint (pscale k p)
      | PLine s e \<Rightarrow> PLine (pscale k s) (pscale k e)
      | PPolyline ps cl \<Rightarrow> PPolyline (map (pscale k) ps) cl
      | PCircle c r filled \<Rightarrow> PCircle (pscale k c) (r * k) filled
      | PFilled rings \<Rightarrow> PFilled (map (map (pscale k)) rings))"

definition scale_primitive :: "real \<Rightarrow> primitive \<Rightarrow> primitive" where
  "scale_primitive k p = p\<lparr>geom := scale_geometry k (geom p)\<rparr>"

definition scale_bbox :: "real \<Rightarrow> bbox \<Rightarrow> bbox" where
  "scale_bbox k b = (case b of (xmin, ymin, xmax, ymax) \<Rightarrow> (xmin * k, ymin * k, xmax * k, ymax * k))"

record recover_notes =
  rn_strict_error :: string
  rn_n_fixed :: nat
  rn_n_unrecoverable :: nat
  rn_audit_messages :: "string list"

record render_output =
  ro_primitives :: "primitive list"
  ro_bbox :: "bbox option"
  ro_background :: string
  ro_flatten_tolerance :: real
  ro_insunits :: "int option"
  ro_applied_scale :: real
  ro_recover_notes :: "recover_notes option"
  ro_source_layout :: "string option"
  ro_source_is_paperspace :: bool

definition bbox_diagonal :: "bbox \<Rightarrow> real" where
  "bbox_diagonal b = (case b of (xmin, ymin, xmax, ymax) \<Rightarrow> pnorm (max (xmax - xmin) 0, max (ymax - ymin) 0))"

definition unit_factor :: "string option \<Rightarrow> real option" where
  "unit_factor unit = (case unit of None \<Rightarrow> None | Some u \<Rightarrow> map_of UNIT_TO_SCALE u)"

definition maybe_rescale :: "render_output \<Rightarrow> string option \<Rightarrow> render_output \<times> real" where
  "maybe_rescale render user_unit_override =
     (case ro_bbox render of
        None \<Rightarrow> (render, 1)
      | Some b \<Rightarrow>
          (let factor = (case unit_factor user_unit_override of
                           Some k \<Rightarrow> k | None \<Rightarrow> detect_scale_factor (ro_insunits render) (bbox_diagonal b))
           in if factor = 1 then (render, 1)
              else (render\<lparr>ro_primitives := map (scale_primitive factor) (ro_primitives render),
                           ro_bbox := Some (scale_bbox factor b), ro_applied_scale := factor\<rparr>, factor)))"

section \<open>Layouts\<close>

definition choose_flatten_tolerance :: "dxf_tunables \<Rightarrow> real \<Rightarrow> real" where
  "choose_flatten_tolerance dt diagonal =
     (if diagonal \<le> 0 then BASE_TOLERANCE dt else max (BASE_TOLERANCE dt) (diagonal * SCALE_FACTOR))"

record entity =
  en_dxftype :: string
  en_ref :: nat

record layout =
  ly_name :: string
  ly_paperspace :: bool
  ly_entities :: "entity list"

text \<open>\<^verbatim>\<open>tabs\<close> are the names in tab order with what \<^verbatim>\<open>layouts.get\<close> gives for them; the
  lookup of any other name fails.\<close>

record document =
  modelspace :: layout
  tabs :: "(string \<times> layout option) list"
  extmin :: "point option"
  extmax :: "point option"
  insunits :: "int option"

definition get_layout :: "document \<Rightarrow> string \<Rightarrow> layout option" where
  "get_layout doc name = (case map_of (tabs doc) name of Some (Some ly) \<Rightarrow> Some ly | _ \<Rightarrow> None)"

definition renderable_entity_count :: "layout \<Rightarrow> nat" where
  "renderable_entity_count ly = length (filter (\<lambda>e. en_dxftype e \<notin> NON_RENDERED_DXFTYPES) (ly_entities ly))"

definition layout_name_of :: "layout \<Rightarrow> string" where
  "layout_name_of ly = (if ly_name ly = [] then ''Model'' else ly_name ly)"

text \<open>The paper-space tab with the most renderable entities, the first of equals.\<close>

fun best_layout :: "(string \<times> layout option) list \<Rightarrow> nat \<Rightarrow> (layout \<times> string) option \<Rightarrow> (layout \<times> string) option" where
  "best_layout [] best_count best = best"
| "best_layout ((name, None) # ts) best_count best = best_layout ts best_count best"
| "best_layout ((name, Some ly) # ts) best_count best =
     (if \<not> ly_paperspace ly then best_layout ts best_count best
      else let count = renderable_entity_count ly in
           if count > best_count then best_layout ts count (Some (ly, name))
           else best_layout ts best_count best)"

definition auto_layout :: "document \<Rightarrow> layout \<times> string \<times> bool" where
  "auto_layout doc =
     (if ly_entities (modelspace doc) \<noteq> [] then (modelspace doc, layout_name_of (modelspace doc), False)
      else case best_layout (tabs doc) 0 None of
             Some (ly, name) \<Rightarrow> (ly, name, True)
           | None \<Rightarrow> (modelspace doc, layout_name_of (modelspace doc), False))"

definition resolve_layout :: "document \<Rightarrow> string option \<Rightarrow> layout \<times> string \<times> bool" where
  "resolve_layout doc layout_name =
     (if or_empty layout_name \<noteq> [] then
        (case get_layout doc (the layout_name) of
           Some ly \<Rightarrow> (ly, layout_name_of ly, ly_paperspace ly)
         | None \<Rightarrow> auto_layout doc)
      else auto_layout doc)"

record layout_entry =
  le_name :: string
  le_entity_count :: nat
  le_is_paperspace :: bool

definition enumerate_layouts_doc :: "document \<Rightarrow> layout_entry list" where
  "enumerate_layouts_doc doc =
     List.map_filter (\<lambda>(name, ly). map_option (\<lambda>l. \<lparr>le_name = name, le_entity_count = renderable_entity_count l,
       le_is_paperspace = ly_paperspace l\<rparr>) ly) (tabs doc)"

section \<open>Rendering a file\<close>

datatype open_error = DxfError string string | OtherException string | RuntimeError string

text \<open>ezdxf: strict and recovering reader (with the audit's fixes and the number of its errors), the
  frontend's calls for a list of entities, and the size of their extents.\<close>

record ezdxf =
  readfile :: "string \<Rightarrow> open_error + document"
  recover_readfile :: "string \<Rightarrow> open_error + document \<times> string list \<times> nat"
  frontend :: "document \<Rightarrow> entity list \<Rightarrow> draw_event list"
  extents :: "entity list \<Rightarrow> point option"

definition open_dxf :: "ezdxf \<Rightarrow> string \<Rightarrow> open_error + document \<times> recover_notes option" where
  "open_dxf ez src =
     (case readfile ez src of
        Inr doc \<Rightarrow> Inr (doc, None)
      | Inl (DxfError cls msg) \<Rightarrow>
          (case recover_readfile ez src of
             Inl (DxfError cls' msg') \<Rightarrow>
               Inl (RuntimeError (''strict: '' @ cls @ '': '' @ msg @ '' | recover: '' @ cls' @ '': '' @ msg'))
           | Inl e \<Rightarrow> Inl e
           | Inr (doc, fixes, n_errors) \<Rightarrow>
               Inr (doc, Some \<lparr>rn_strict_error = cls @ '': '' @ msg, rn_n_fixed = length fixes,
                               rn_n_unrecoverable = n_errors, rn_audit_messages = take 5 fixes\<rparr>))
      | Inl e \<Rightarrow> Inl e)"

definition enumerate_layouts :: "ezdxf \<Rightarrow> string \<Rightarrow> open_error + layout_entry list" where
  "enumerate_layouts ez src =
     (case open_dxf ez src of Inl e \<Rightarrow> Inl e | Inr (doc, _) \<Rightarrow> Inr (enumerate_layouts_doc doc))"

definition modelspace_diagonal :: "ezdxf \<Rightarrow> document \<Rightarrow> entity list \<Rightarrow> real option" where
  "modelspace_diagonal ez doc msp =
     (case (extmin doc, extmax doc) of
        (Some lo, Some hi) \<Rightarrow>
          if 0 < fst hi - fst lo \<and> 0 < snd hi - snd lo then Some (pdist hi lo)
          else map_option pnorm (extents ez msp)
      | _ \<Rightarrow> map_option pnorm (extents ez msp))"

text \<open>\<^verbatim>\<open>entities\<close> are those of the target after the hatches are gone; so is the modelspace when
  it is the target.\<close>

definition layout_diagonal :: "ezdxf \<Rightarrow> document \<Rightarrow> layout \<Rightarrow> entity list \<Rightarrow> real option" where
  "layout_diagonal ez doc ly entities =
     (if \<not> ly_paperspace ly then modelspace_diagonal ez doc entities
      else map_option pnorm (extents ez (filter (\<lambda>e. en_dxftype e \<notin> NON_RENDERED_DXFTYPES) entities)))"

definition without_hatches :: "entity list \<Rightarrow> entity list" where
  "without_hatches es = filter (\<lambda>e. en_dxftype e \<noteq> ''HATCH'') es"

definition run_backend :: "solver \<Rightarrow> dxf_tunables \<Rightarrow> real \<Rightarrow> draw_event list \<Rightarrow> backend" where
  "run_backend solve dt tol events = fold (draw solve dt) events (new_backend tol)"

definition flatten_for_render ::
  "ezdxf \<Rightarrow> solver \<Rightarrow> dxf_tunables \<Rightarrow> string \<Rightarrow> string option \<Rightarrow> string option \<Rightarrow> open_error + render_output" where
  "flatten_for_render ez solve dt src user_unit_override layout_name =
     (case open_dxf ez src of
        Inl e \<Rightarrow> Inl e
      | Inr (doc, notes) \<Rightarrow>
          (case resolve_layout doc layout_name of (target, source_layout, is_paper) \<Rightarrow>
             (let entities = without_hatches (ly_entities target);
                  tol = (case layout_diagonal ez doc target entities of
                           None \<Rightarrow> BASE_TOLERANCE dt | Some d \<Rightarrow> choose_flatten_tolerance dt d);
                  bk = run_backend solve dt tol (frontend ez doc entities)
              in Inr (fst (maybe_rescale
                   \<lparr>ro_primitives = bk_primitives bk, ro_bbox = bk_bbox bk, ro_background = bk_background bk,
                    ro_flatten_tolerance = tol, ro_insunits = insunits doc, ro_applied_scale = 1,
                    ro_recover_notes = notes, ro_source_layout = Some source_layout,
                    ro_source_is_paperspace = is_paper\<rparr> user_unit_override)))))"

section \<open>The bounding box covers the drawing\<close>

text \<open>The points that bound a primitive; of a circle, the corners of its square.\<close>

definition geom_points :: "geometry \<Rightarrow> point list" where
  "geom_points g =
     (case g of
        PPoint p \<Rightarrow> [p]
      | PLine s e \<Rightarrow> [s, e]
      | PPolyline ps _ \<Rightarrow> ps
      | PCircle c r _ \<Rightarrow> [(fst c - r, snd c - r), (fst c + r, snd c + r)]
      | PFilled rings \<Rightarrow> concat rings)"

definition in_box :: "bbox option \<Rightarrow> point \<Rightarrow> bool" where
  "in_box b p \<longleftrightarrow>
     (case b of None \<Rightarrow> False
      | Some (xmin, ymin, xmax, ymax) \<Rightarrow> xmin \<le> fst p \<and> fst p \<le> xmax \<and> ymin \<le> snd p \<and> snd p \<le> ymax)"

definition prims_in_box :: "primitive list \<Rightarrow> bbox option \<Rightarrow> bool" where
  "prims_in_box ps b \<longleftrightarrow> (\<forall>p\<in>set ps. \<forall>q\<in>set (geom_points (geom p)). in_box b q)"

lemma in_box_grow: "in_box b q \<or> q = p \<Longrightarrow> in_box (grow p b) q"
  by (cases b) (auto simp: in_box_def grow_def)

lemma track_point_simps [simp]:
  "bk_bbox (track_point p bk) = grow p (bk_bbox bk)" "bk_primitives (track_point p bk) = bk_primitives bk"
  by (simp_all add: track_point_def)

lemma track_points_prims [simp]: "bk_primitives (track_points ps bk) = bk_primitives bk"
  unfolding track_points_def by (induction ps arbitrary: bk) simp_all

lemma track_points_covers: "in_box (bk_bbox bk) q \<or> q \<in> set ps \<Longrightarrow> in_box (bk_bbox (track_points ps bk)) q"
  unfolding track_points_def by (induction ps arbitrary: bk) (auto simp: in_box_grow)

lemma append_prim_simps [simp]:
  "bk_bbox (append_prim g pr bk) = bk_bbox bk"
  "set (bk_primitives (append_prim g pr bk)) =
     insert \<lparr>geom = g, style = pr, decorative = bk_decorative bk\<rparr> (set (bk_primitives bk))"
  by (simp_all add: append_prim_def)

text \<open>What a drawing call may do: grow the box and append primitives that lie in it.\<close>

definition backend_ok :: "backend \<Rightarrow> bool" where
  "backend_ok bk \<longleftrightarrow> prims_in_box (bk_primitives bk) (bk_bbox bk)"

lemma backend_ok_track: "backend_ok bk \<Longrightarrow> backend_ok (track_point p bk)"
  by (auto simp: backend_ok_def prims_in_box_def in_box_grow)

lemma backend_ok_tracks: "backend_ok bk \<Longrightarrow> backend_ok (track_points ps bk)"
  unfolding track_points_def by (induction ps arbitrary: bk) (simp_all add: backend_ok_track)

lemma backend_ok_append:
  "backend_ok bk \<Longrightarrow> \<forall>q\<in>set (geom_points g). in_box (bk_bbox bk) q \<Longrightarrow> backend_ok (append_prim g pr bk)"
  by (auto simp: backend_ok_def prims_in_box_def)

lemma fold_backend_ok: "(\<And>x bk. backend_ok bk \<Longrightarrow> backend_ok (f x bk)) \<Longrightarrow> backend_ok bk \<Longrightarrow> backend_ok (fold f xs bk)"
  by (induction xs arbitrary: bk) simp_all

lemma draw_line_ok: "backend_ok bk \<Longrightarrow> backend_ok (draw_line s e pr bk)"
  unfolding draw_line_def by (intro backend_ok_append backend_ok_track) (auto simp: geom_points_def in_box_grow)

lemma draw_circle_ok: "backend_ok bk \<Longrightarrow> backend_ok (draw_circle cr filled pr bk)"
  by (cases cr) (auto simp: draw_circle_def geom_points_def in_box_grow intro!: backend_ok_append backend_ok_track)

lemma draw_sub_path_ok: "backend_ok bk \<Longrightarrow> backend_ok (draw_sub_path solve dt pr sub bk)"
  by (auto simp: draw_sub_path_def Let_def geom_points_def draw_circle_ok track_points_covers
      intro!: backend_ok_append backend_ok_tracks split: option.splits)

lemma rings_covered:
  "in_box (bk_bbox bk) q \<or> q \<in> set (concat rings) \<Longrightarrow> in_box (bk_bbox (fold track_points rings bk)) q"
  by (induction rings arbitrary: bk) (auto simp: track_points_covers)

lemma draw_filled_paths_ok: "backend_ok bk \<Longrightarrow> backend_ok (draw_filled_paths solve dt paths pr bk)"
  by (auto simp: draw_filled_paths_def Let_def draw_circle_ok geom_points_def rings_covered
      intro!: backend_ok_append fold_backend_ok backend_ok_tracks split: option.splits)

lemma draw_filled_polygon_ok: "backend_ok bk \<Longrightarrow> backend_ok (draw_filled_polygon pts pr bk)"
  by (auto simp: draw_filled_polygon_def geom_points_def track_points_covers intro!: backend_ok_append backend_ok_tracks)

lemma draw_ok: "backend_ok bk \<Longrightarrow> backend_ok (draw solve dt ev bk)"
proof (cases ev)
  case (DrawPoint p pr)
  then show "backend_ok bk \<Longrightarrow> ?thesis"
    by (auto simp: geom_points_def in_box_grow intro!: backend_ok_append backend_ok_track)
next
  case (DrawSolidLines ls pr)
  then show "backend_ok bk \<Longrightarrow> ?thesis" by (auto intro!: fold_backend_ok draw_line_ok)
qed (auto simp: draw_line_ok draw_filled_paths_ok draw_filled_polygon_ok backend_ok_def
    intro!: fold_backend_ok[unfolded backend_ok_def] draw_sub_path_ok[unfolded backend_ok_def]
      draw_line_ok[unfolded backend_ok_def] draw_filled_paths_ok[unfolded backend_ok_def]
      draw_filled_polygon_ok[unfolded backend_ok_def])

lemma run_backend_ok: "backend_ok (run_backend solve dt tol events)"
  unfolding run_backend_def
proof (rule fold_backend_ok)
  show "backend_ok (new_backend tol)" by (simp add: backend_ok_def prims_in_box_def new_backend_def)
qed (rule draw_ok)

lemma unit_factor_pos: "unit_factor u = Some k \<Longrightarrow> 0 < k"
  by (auto simp: unit_factor_def UNIT_TO_SCALE_def split: option.splits if_splits)

lemma in_box_scale: "0 < k \<Longrightarrow> in_box (Some b) q \<Longrightarrow> in_box (Some (scale_bbox k b)) (pscale k q)"
  by (cases b) (simp add: in_box_def scale_bbox_def pscale_def mult.commute mult_left_mono)

lemma geom_points_scale: "geom_points (scale_geometry k g) = map (pscale k) (geom_points g)"
  by (cases g) (simp_all add: geom_points_def scale_geometry_def pscale_def map_concat algebra_simps)

lemma maybe_rescale_in_box:
  assumes "prims_in_box (ro_primitives r) (ro_bbox r)"
  shows "prims_in_box (ro_primitives (fst (maybe_rescale r u))) (ro_bbox (fst (maybe_rescale r u)))"
proof (cases "ro_bbox r")
  case (Some b)
  define k where "k = (case unit_factor u of Some k \<Rightarrow> k | None \<Rightarrow> detect_scale_factor (ro_insunits r) (bbox_diagonal b))"
  have "0 < k" unfolding k_def by (cases "unit_factor u") (auto simp: unit_factor_pos detect_scale_factor_def)
  then show ?thesis using assms Some
    by (auto simp: maybe_rescale_def k_def[symmetric] Let_def prims_in_box_def scale_primitive_def geom_points_scale in_box_scale)
qed (use assms in \<open>simp add: maybe_rescale_def\<close>)

text \<open>C33. The bounding box a rendering reports covers the drawing: every vertex and every circle's
  square of every primitive lies in it, whatever the file draws, with whatever unit it is read and
  whatever layout is rendered.\<close>

theorem bbox_covers_drawing:
  assumes "flatten_for_render ez solve dt src unit layout_name = Inr out"
    and "p \<in> set (ro_primitives out)" "q \<in> set (geom_points (geom p))"
  shows "in_box (ro_bbox out) q"
proof -
  obtain r where "out = fst (maybe_rescale r unit)" "prims_in_box (ro_primitives r) (ro_bbox r)"
    using assms(1) run_backend_ok[unfolded backend_ok_def]
    by (auto simp: flatten_for_render_def Let_def case_prod_beta split: sum.splits)
  then show ?thesis using maybe_rescale_in_box assms(2,3) by (auto simp: prims_in_box_def)
qed

text \<open>A file with one line of the model space, in inches.\<close>

definition black :: props where
  "black = \<lparr>pr_color = ''#000000'', pr_layer = ''0'', pr_lineweight = 1, pr_handle = ''1F''\<rparr>"

definition line_doc :: document where
  "line_doc = \<lparr>modelspace = \<lparr>ly_name = ''Model'', ly_paperspace = False, ly_entities = [\<lparr>en_dxftype = ''LINE'', en_ref = 0\<rparr>]\<rparr>,
     tabs = [], extmin = None, extmax = None, insunits = Some 1\<rparr>"

definition line_ezdxf :: ezdxf where
  "line_ezdxf = \<lparr>readfile = (\<lambda>_. Inr line_doc), recover_readfile = (\<lambda>_. Inl (OtherException [])),
     frontend = (\<lambda>_ _. [EnterEntity ''LINE'', DrawLine (0, 0) (2, 1) black, ExitEntity]), extents = (\<lambda>_. None)\<rparr>"

definition no_solver :: solver where
  "no_solver m b = None"

lemma bbox_covers_drawing_witness:
  "\<exists>out p. flatten_for_render line_ezdxf no_solver compiled_dxf [] (Some ''inch'') None = Inr out \<and>
     p \<in> set (ro_primitives out) \<and> geom p = PLine (0, 0) (254/5, 127/5) \<and> in_box (ro_bbox out) (254/5, 127/5)"
proof -
  let ?p = "\<lparr>geom = PLine (0, 0) (254/5, 127/5), style = black, decorative = False\<rparr>"
  have "\<exists>out. flatten_for_render line_ezdxf no_solver compiled_dxf [] (Some ''inch'') None = Inr out \<and>
      ro_primitives out = [?p]"
    by (simp add: flatten_for_render_def open_dxf_def line_ezdxf_def line_doc_def resolve_layout_def auto_layout_def
        or_empty_def layout_diagonal_def modelspace_diagonal_def run_backend_def new_backend_def draw_line_def
        track_point_def grow_def append_prim_def maybe_rescale_def unit_factor_def UNIT_TO_SCALE_def
        scale_primitive_def scale_geometry_def pscale_def props_of_def black_def normalize_color_def
        DECORATIVE_DXFTYPES_def Let_def)
  then obtain out where out: "flatten_for_render line_ezdxf no_solver compiled_dxf [] (Some ''inch'') None = Inr out"
    "ro_primitives out = [?p]" by blast
  have "in_box (ro_bbox out) (254/5, 127/5)"
    using bbox_covers_drawing[OF out(1), of ?p "(254/5, 127/5)"] out(2) by (simp add: geom_points_def)
  then show ?thesis using out by auto
qed

section \<open>Circle detection\<close>

lemma mean_between:
  assumes "xs \<noteq> []" "\<forall>x\<in>set xs. lo \<le> x \<and> x \<le> (hi :: real)"
  shows "lo \<le> mean xs \<and> mean xs \<le> hi"
proof -
  have "real (length xs) * lo \<le> sum_list xs \<and> sum_list xs \<le> real (length xs) * hi"
    using assms(2) by (induction xs) (auto simp: algebra_simps)
  then show ?thesis using assms(1) by (simp add: mean_def field_simps)
qed

lemma list_extrema: "x \<in> set xs \<Longrightarrow> list_min xs \<le> x \<and> x \<le> list_max xs"
  by (cases xs) (auto simp: list_min_Min list_max_Max)

lemma set_ring_of: "2 \<le> length points \<Longrightarrow> set (ring_of points) = set points"
proof -
  assume l: "2 \<le> length points"
  show ?thesis
  proof (cases "hd points = last points")
    case True
    obtain p ps where ps: "points = p # ps" "ps \<noteq> []" using l by (cases points) (auto simp: Suc_le_eq)
    have "ring_of points = butlast points" using True by (simp add: ring_of_def butlast_conv_take)
    moreover have "set points = insert (last points) (set (butlast points))"
      using ps by (metis append_butlast_last_id list.distinct(1) list.simps(15) rotate1.simps(2) set_rotate1)
    moreover have "last points \<in> set (butlast points)" using True ps by simp
    ultimately show ?thesis by auto
  qed (simp add: ring_of_def)
qed

definition circle_gates :: "real \<Rightarrow> point list \<Rightarrow> point \<Rightarrow> bool" where
  "circle_gates tol arr c \<longleftrightarrow>
     1 / 10 ^ 9 \<le> mean (radii c arr) \<and>
     mean (radii c arr) \<le> max (extent (map fst arr)) (extent (map snd arr)) \<and>
     \<not> (max (extent (map fst arr)) (extent (map snd arr)) > 0 \<and>
        min (extent (map fst arr)) (extent (map snd arr)) / max (extent (map fst arr)) (extent (map snd arr)) < 9/10) \<and>
     (list_max (radii c arr) - list_min (radii c arr)) / mean (radii c arr) \<le> tol"

lemma gate_chain:
  "(if a < x then None else if b < a then None else if g then None else if t < d then None else Some y) =
   (if x \<le> a \<and> a \<le> b \<and> \<not> g \<and> d \<le> t then Some y else None)" for a b x t d :: real
  by simp

lemma fit_circle_eq:
  "fit_circle solve tol arr =
     (if circle_gates tol arr (circle_centre solve arr)
      then Some (circle_centre solve arr, mean (radii (circle_centre solve arr) arr)) else None)"
  unfolding fit_circle_def Let_def circle_gates_def
  by (rule gate_chain)

text \<open>C34. A promoted outline is a circle: every vertex of a sub-path that becomes a circle primitive
  lies at the reported radius from the reported centre up to the radial tolerance, whatever the
  solver returns, so an ill-conditioned fit can reject a circle but never invent one.\<close>

theorem circle_detection_sound:
  assumes "detect_circle solve tol points mv = Some (c, r)" "p \<in> set points" "3 \<le> mv"
  shows "\<bar>pdist p c - r\<bar> \<le> tol * r \<and> 1 / 10 ^ 9 \<le> r"
proof -
  let ?ring = "ring_of points"
  have len: "mv \<le> length ?ring" and f: "fit_circle solve tol ?ring = Some (c, r)"
    using assms(1) by (auto simp: detect_circle_def split: if_splits)
  have g: "circle_gates tol ?ring c" and r: "r = mean (radii c ?ring)"
    using f unfolding fit_circle_eq by (auto split: if_splits)
  have "length ?ring \<le> length points" by (simp add: ring_of_def)
  then have "2 \<le> length points" using len assms(3) by linarith
  then have p: "pdist p c \<in> set (radii c ?ring)" using assms(2) by (simp add: set_ring_of radii_def)
  then have "radii c ?ring \<noteq> []" by auto
  from mean_between[OF this, of "list_min (radii c ?ring)" "list_max (radii c ?ring)"] list_extrema
  have m: "list_min (radii c ?ring) \<le> r \<and> r \<le> list_max (radii c ?ring)" unfolding r by blast
  have "1 / 10 ^ 9 \<le> r" "(list_max (radii c ?ring) - list_min (radii c ?ring)) / r \<le> tol"
    using g unfolding circle_gates_def r by blast+
  moreover from this(1) have "0 < r" by (rule less_le_trans[rotated]) simp
  ultimately have "1 / 10 ^ 9 \<le> r" "list_max (radii c ?ring) - list_min (radii c ?ring) \<le> tol * r"
    by (simp_all add: pos_divide_le_eq)
  then show ?thesis using m list_extrema[OF p] by linarith
qed

text \<open>The solver's documented behaviour: the solution of a system with a non-zero determinant.\<close>

definition det3 :: "triple \<times> triple \<times> triple \<Rightarrow> real" where
  "det3 m = (case m of ((a, b, c), (d, e, f), (g, h, i)) \<Rightarrow> a * (e * i - f * h) - b * (d * i - f * g) + c * (d * h - e * g))"

definition dot3 :: "triple \<Rightarrow> triple \<Rightarrow> real" where
  "dot3 r x = (case (r, x) of ((a, b, c), (u, v, w)) \<Rightarrow> a * u + b * v + c * w)"

definition times3 :: "triple \<times> triple \<times> triple \<Rightarrow> triple \<Rightarrow> triple" where
  "times3 m x = (case m of (r, s, t) \<Rightarrow> (dot3 r x, dot3 s x, dot3 t x))"

definition solve_correct :: "solver \<Rightarrow> bool" where
  "solve_correct solve \<longleftrightarrow> (\<forall>m x. det3 m \<noteq> 0 \<longrightarrow> solve m (times3 m x) = Some x)"

lemma sum_over_simps [simp]: "sum_over f [] = 0" "sum_over f (p # ps) = f p + sum_over f ps"
  by (simp_all add: sum_over_def)

text \<open>If every local point satisfies x^2 + y^2 + D x + E y + F = 0, the triple solves the normal equations.\<close>

lemma negate_sum: "a + D * b + E * c + F * d = 0 \<Longrightarrow> - a = b * D + c * E + d * (F :: real)"
  by (simp add: mult.commute)

lemma kasa_solution:
  assumes "\<forall>p\<in>set ps. sq_norm p + D * fst p + E * snd p + F = 0"
  shows "kasa_vector ps = times3 (kasa_matrix ps) (D, E, F)"
proof -
  have row: "sum_over (\<lambda>p. f p * sq_norm p) ps + D * sum_over (\<lambda>p. f p * fst p) ps +
      E * sum_over (\<lambda>p. f p * snd p) ps + F * sum_over f ps = 0" for f
  proof -
    have "sum_over (\<lambda>p. f p * sq_norm p) ps + D * sum_over (\<lambda>p. f p * fst p) ps +
      E * sum_over (\<lambda>p. f p * snd p) ps + F * sum_over f ps =
      sum_over (\<lambda>p. f p * (sq_norm p + D * fst p + E * snd p + F)) ps"
      by (induction ps) (simp_all add: algebra_simps)
    also have "\<dots> = 0" using assms by (induction ps) simp_all
    finally show ?thesis .
  qed
  have len: "sum_over (\<lambda>p. 1) ps = real (length ps)" by (induction ps) simp_all
  have c: "sum_over (\<lambda>p. snd p * fst p) ps = sum_over (\<lambda>p. fst p * snd p) ps"
    by (simp add: sum_over_def mult.commute)
  note r = negate_sum[OF row]
  show ?thesis
    unfolding kasa_vector_def kasa_matrix_def times3_def dot3_def prod.case Pair_inject
    using r[of fst] r[of snd] r[of "\<lambda>_. 1"] unfolding len c by simp
qed

lemma pdist_sq: "pdist p c = r \<Longrightarrow> (fst p - fst c)\<^sup>2 + (snd p - snd c)\<^sup>2 = r\<^sup>2"
  by (auto simp: pdist_def pnorm_def pdot_def psub_def power2_eq_square)

lemma circle_centre_exact:
  assumes solve: "solve_correct solve" and on: "\<forall>p\<in>set arr. pdist p c = r"
    and det: "det3 (kasa_matrix (map (\<lambda>p. psub p (mean_point arr)) arr)) \<noteq> 0"
  shows "circle_centre solve arr = c"
proof -
  let ?m = "mean_point arr"
  let ?local = "map (\<lambda>p. psub p ?m) arr"
  define D E F where "D = - 2 * (fst c - fst ?m)" and "E = - 2 * (snd c - snd ?m)"
    and "F = (fst c - fst ?m)\<^sup>2 + (snd c - snd ?m)\<^sup>2 - r\<^sup>2"
  have "\<forall>p\<in>set ?local. sq_norm p + D * fst p + E * snd p + F = 0"
  proof
    fix q assume "q \<in> set ?local"
    then obtain p where p: "p \<in> set arr" "q = psub p ?m" by auto
    then have "(fst p - fst c)\<^sup>2 + (snd p - snd c)\<^sup>2 = r\<^sup>2" using on pdist_sq by blast
    then show "sq_norm q + D * fst q + E * snd q + F = 0"
      unfolding p(2) D_def E_def F_def psub_def sq_norm_def fst_conv snd_conv by (simp add: power2_eq_square algebra_simps)
  qed
  from kasa_solution[OF this] have "solve (kasa_matrix ?local) (kasa_vector ?local) = Some (D, E, F)"
    using solve det unfolding solve_correct_def by presburger
  then show ?thesis by (simp add: circle_centre_def Let_def D_def E_def prod_eq_iff field_simps)
qed

text \<open>An outline whose vertices lie exactly on a circle, however unevenly spaced and wherever in the
  drawing, is promoted to that very circle: centre and radius are exact.\<close>

theorem circle_detection_exact:
  assumes "solve_correct solve" "det3 (kasa_matrix (map (\<lambda>p. psub p (mean_point (ring_of points))) (ring_of points))) \<noteq> 0"
    and "\<forall>p\<in>set points. pdist p c = r" "mv \<le> length (ring_of points)" "3 \<le> mv" "0 \<le> tol" "1 / 10 ^ 9 \<le> r"
    and "r \<le> max (extent (map fst (ring_of points))) (extent (map snd (ring_of points)))"
    and "9/10 * max (extent (map fst (ring_of points))) (extent (map snd (ring_of points)))
           \<le> min (extent (map fst (ring_of points))) (extent (map snd (ring_of points)))"
  shows "detect_circle solve tol points mv = Some (c, r)"
proof -
  let ?ring = "ring_of points"
  have len: "length ?ring \<le> length points" by (simp add: ring_of_def)
  then have on: "\<forall>p\<in>set ?ring. pdist p c = r" using assms(3-5) set_ring_of by force
  have c: "circle_centre solve ?ring = c" by (rule circle_centre_exact[OF assms(1) on assms(2)])
  have n: "radii c ?ring = replicate (length ?ring) r" "length ?ring \<noteq> 0"
    using on assms(4,5) by (auto simp: radii_def map_replicate_const[symmetric] intro: map_cong)
  then have m: "mean (radii c ?ring) = r" "list_max (radii c ?ring) = r" "list_min (radii c ?ring) = r"
    by (simp_all add: mean_def sum_list_replicate list_max_Max list_min_Min)
  have e: "0 < max (extent (map fst ?ring)) (extent (map snd ?ring))"
    by (rule less_le_trans[OF less_le_trans[OF _ assms(7)] assms(8)]) simp
  have ratio: "\<not> (0 < mx \<and> mn / mx < 9/10)" if "0 < mx" "9/10 * mx \<le> mn" for mx mn :: real
    using that by (simp add: field_simps)
  have "(r - r) / r \<le> tol" using assms(6) by simp
  then have "circle_gates tol ?ring c"
    unfolding circle_gates_def m using assms(7,8) ratio[OF e assms(9)] by blast
  then show ?thesis using assms(4) len by (simp add: detect_circle_def fit_circle_eq c m(1))
qed

text \<open>Twelve unevenly spaced vertices on a circle of radius 5, the first repeated.\<close>

definition twelve :: "point list" where
  "twelve = [(5, 0), (4, 3), (3, 4), (0, 5), (-3, 4), (-4, 3), (-5, 0), (-4, -3), (-3, -4), (0, -5), (3, -4), (4, -3)]"

definition dodecagon :: "point list" where
  "dodecagon = twelve @ [(5, 0)]"

definition cramer :: solver where
  "cramer m b =
     (if det3 m = 0 then None
      else case (m, b) of (((a11, a12, a13), (a21, a22, a23), (a31, a32, a33)), (b1, b2, b3)) \<Rightarrow>
        Some (det3 ((b1, a12, a13), (b2, a22, a23), (b3, a32, a33)) / det3 m,
              det3 ((a11, b1, a13), (a21, b2, a23), (a31, b3, a33)) / det3 m,
              det3 ((a11, a12, b1), (a21, a22, b2), (a31, a32, b3)) / det3 m))"

lemma cramer_columns:
  "det3 ((a*u + b*v + c*w, b, c), (d*u + e*v + f*w, e, f), (g*u + h*v + i*w, h, i)) =
     det3 ((a, b, c), (d, e, f), (g, h, i)) * u"
  "det3 ((a, a*u + b*v + c*w, c), (d, d*u + e*v + f*w, f), (g, g*u + h*v + i*w, i)) =
     det3 ((a, b, c), (d, e, f), (g, h, i)) * v"
  "det3 ((a, b, a*u + b*v + c*w), (d, e, d*u + e*v + f*w), (g, h, g*u + h*v + i*w)) =
     det3 ((a, b, c), (d, e, f), (g, h, i)) * w"
  unfolding det3_def prod.case by algebra+

lemma cramer_correct: "solve_correct cramer"
proof -
  have "cramer m (times3 m x) = Some x" if d: "det3 m \<noteq> 0" for m x
  proof -
    obtain a b c d e f g h i where m: "m = ((a, b, c), (d, e, f), (g, h, i))" by (metis prod.exhaust)
    obtain u v w where x: "x = (u, v, w)" by (metis prod.exhaust)
    show ?thesis using d unfolding cramer_def m x times3_def dot3_def prod.case cramer_columns by simp
  qed
  then show ?thesis by (simp add: solve_correct_def)
qed

lemma ring_dodecagon: "ring_of dodecagon = twelve"
  by (simp add: ring_of_def dodecagon_def twelve_def)

lemma twelve_on_circle: "\<forall>p\<in>set dodecagon. pdist p (0, 0) = 5"
proof -
  have "sqrt 25 = 5" by (rule real_sqrt_unique) simp_all
  then show ?thesis by (simp add: dodecagon_def twelve_def pdist_def pnorm_def pdot_def psub_def)
qed

lemma twelve_facts:
  "length twelve = 12" "mean_point twelve = (0, 0)" "extent (map fst twelve) = 10" "extent (map snd twelve) = 10"
  by (simp_all add: twelve_def mean_point_def mean_def extent_def list_max_def list_min_def)

lemma circle_detection_exact_witness: "detect_circle cramer (2/1000) dodecagon 11 = Some ((0, 0), 5)"
proof -
  have "map (\<lambda>p. psub p (0, 0)) twelve = twelve" by (simp add: psub_def)
  moreover have "kasa_matrix twelve = ((150, 0, 0), (0, 150, 0), (0, 0, 12))"
    by (simp add: kasa_matrix_def twelve_def)
  ultimately have "det3 (kasa_matrix (map (\<lambda>p. psub p (mean_point (ring_of dodecagon))) (ring_of dodecagon))) \<noteq> 0"
    by (simp add: ring_dodecagon twelve_facts det3_def)
  from circle_detection_exact[OF cramer_correct this twelve_on_circle, of 11 "2/1000"]
  show ?thesis by (simp add: ring_dodecagon twelve_facts)
qed

lemma circle_detection_sound_witness:
  "detect_circle no_solver (2/1000) dodecagon 11 = Some ((0, 0), 5) \<and> \<bar>pdist (3, 4) (0, 0) - 5\<bar> \<le> 2/1000 * 5"
proof -
  have l: "length dodecagon = 13" by (simp add: dodecagon_def twelve_def)
  have c: "circle_centre no_solver twelve = (0, 0)" by (simp add: circle_centre_def no_solver_def twelve_facts Let_def)
  have "pdist p (0, 0) = 5" if "p \<in> set twelve" for p using twelve_on_circle that by (simp add: dodecagon_def)
  then have "radii (0, 0) twelve = map (\<lambda>_. 5) twelve" unfolding radii_def by (intro map_cong refl)
  then have "radii (0, 0) twelve = replicate 12 5" by (simp only: map_replicate_const twelve_facts)
  then have "mean (radii (0, 0) twelve) = 5" "list_max (radii (0, 0) twelve) = 5" "list_min (radii (0, 0) twelve) = 5"
    by (simp_all add: mean_def list_max_Max list_min_Min sum_list_replicate)
  then have d: "detect_circle no_solver (2/1000) dodecagon 11 = Some ((0, 0), 5)"
    using l by (simp add: detect_circle_def ring_dodecagon twelve_facts fit_circle_eq circle_gates_def c)
  have "(3, 4) \<in> set dodecagon" by (simp add: dodecagon_def twelve_def)
  from circle_detection_sound[OF d this] show ?thesis using d by simp
qed

end
