(* ===== verification/Blobs.thy ===== *)
theory Blobs
  imports Prelude
begin

text \<open>
  \<^verbatim>\<open>app/storage.py\<close> (the key of every artifact) and \<^verbatim>\<open>app/blobstore.py\<close>: one interface of
  a map from keys to contents, implemented on local files and on an S3 client.  The client is
  boto3, not code of the repository: it is a parameter with the documented behaviour of the five
  operations used as a predicate.  A JSON text is represented by the value it encodes.
\<close>

section \<open>Keys\<close>

definition upload_key :: "string \<Rightarrow> string" where
  "upload_key file_id = ''uploads/'' @ file_id @ ''.dxf''"

definition parsed_key :: "string \<Rightarrow> string \<Rightarrow> string" where
  "parsed_key version_id file_id = ''parsed/'' @ version_id @ ''/'' @ file_id @ ''.json''"

definition prematch_key :: "string \<Rightarrow> string \<Rightarrow> string" where
  "prematch_key version_id file_id = ''prematch/'' @ version_id @ ''/'' @ file_id @ ''.json''"

definition match_key :: "string \<Rightarrow> string \<Rightarrow> string" where
  "match_key version_id file_id = ''match/'' @ version_id @ ''/'' @ file_id @ ''.json''"

definition rule_check_key :: "string \<Rightarrow> string" where
  "rule_check_key version_id = ''rule_check/'' @ version_id @ ''.json''"

definition sign_off_evidence_key :: "string \<Rightarrow> string" where
  "sign_off_evidence_key version_id = ''sign_off_evidence/'' @ version_id"

definition layer_preview_prefix :: "string \<Rightarrow> string \<Rightarrow> string" where
  "layer_preview_prefix version_id file_id = ''layer_preview/'' @ version_id @ ''/'' @ file_id"

definition layer_manifest_key :: "string \<Rightarrow> string \<Rightarrow> string" where
  "layer_manifest_key version_id file_id = layer_preview_prefix version_id file_id @ ''/layers.json''"

definition layer_preview_svg_key :: "string \<Rightarrow> string \<Rightarrow> string \<Rightarrow> string" where
  "layer_preview_svg_key version_id file_id safe_name =
     layer_preview_prefix version_id file_id @ ''/'' @ safe_name @ ''.svg''"

definition layer_preview_primitives_key :: "string \<Rightarrow> string \<Rightarrow> string" where
  "layer_preview_primitives_key version_id file_id = layer_preview_prefix version_id file_id @ ''/primitives.json''"

definition layout_manifest_key :: "string \<Rightarrow> string \<Rightarrow> string" where
  "layout_manifest_key version_id file_id = layer_preview_prefix version_id file_id @ ''/layouts/layouts.json''"

definition layout_preview_svg_key :: "string \<Rightarrow> string \<Rightarrow> string \<Rightarrow> string" where
  "layout_preview_svg_key version_id file_id safe_name =
     layer_preview_prefix version_id file_id @ ''/layouts/'' @ safe_name @ ''.svg''"

section \<open>The local store\<close>

datatype blob = Raw string | Json json

datatype blob_error = FileNotFoundError string | DecodeError string | ClientFailure string

text \<open>Files under the root, with the time of their last write in nanoseconds.\<close>

type_synonym local_files = "(string, blob \<times> nat) dict"

definition local_put :: "nat \<Rightarrow> string \<Rightarrow> blob \<Rightarrow> local_files \<Rightarrow> local_files" where
  "local_put now key data fs = AList.update key (data, now) fs"

definition local_get :: "string \<Rightarrow> local_files \<Rightarrow> blob_error + blob" where
  "local_get key fs = (case map_of fs key of None \<Rightarrow> Inl (FileNotFoundError key) | Some (b, _) \<Rightarrow> Inr b)"

definition local_exists :: "string \<Rightarrow> local_files \<Rightarrow> blob_error + bool" where
  "local_exists key fs = Inr (map_of fs key \<noteq> None)"

definition local_delete :: "string \<Rightarrow> local_files \<Rightarrow> bool \<times> local_files" where
  "local_delete key fs = (map_of fs key \<noteq> None, AList.delete key fs)"

definition local_delete_many :: "string list \<Rightarrow> local_files \<Rightarrow> nat \<times> local_files" where
  "local_delete_many keys fs =
     fold (\<lambda>key (n, fs). case local_delete key fs of (gone, fs') \<Rightarrow> (if gone then n + 1 else n, fs')) keys (0, fs)"

definition local_stat :: "string \<Rightarrow> local_files \<Rightarrow> blob_error + string" where
  "local_stat key fs = (case map_of fs key of None \<Rightarrow> Inl (FileNotFoundError key) | Some (_, t) \<Rightarrow> Inr (str_of_nat t))"

text \<open>\<^verbatim>\<open>json.loads(self.get_text(key))\<close>, the same code in both stores.\<close>

definition parse_json :: "string \<Rightarrow> blob \<Rightarrow> blob_error + json" where
  "parse_json key b = (case b of Json j \<Rightarrow> Inr j | Raw _ \<Rightarrow> Inl (DecodeError key))"

definition local_put_json :: "nat \<Rightarrow> string \<Rightarrow> json \<Rightarrow> local_files \<Rightarrow> local_files" where
  "local_put_json now key obj fs = local_put now key (Json obj) fs"

definition local_get_json :: "string \<Rightarrow> local_files \<Rightarrow> blob_error + json" where
  "local_get_json key fs = (case local_get key fs of Inl e \<Rightarrow> Inl e | Inr b \<Rightarrow> parse_json key b)"

section \<open>The S3 store\<close>

datatype s3_error = ClientError string

record 's s3_client =
  put_object :: "string \<Rightarrow> blob \<Rightarrow> 's \<Rightarrow> 's"
  get_object :: "string \<Rightarrow> 's \<Rightarrow> s3_error + blob"
  head_object :: "string \<Rightarrow> 's \<Rightarrow> s3_error + string"
  delete_object :: "string \<Rightarrow> 's \<Rightarrow> 's"
  delete_objects :: "string list \<Rightarrow> 's \<Rightarrow> s3_error + 's"

text \<open>The codes that mean a missing key; every other error is re-raised.\<close>

definition is_missing :: "s3_error \<Rightarrow> bool" where
  "is_missing e \<longleftrightarrow> (case e of ClientError code \<Rightarrow> code \<in> set [''NoSuchKey'', ''404'', ''NotFound''])"

definition s3_failure :: "string \<Rightarrow> s3_error \<Rightarrow> blob_error" where
  "s3_failure key e = (if is_missing e then FileNotFoundError key else case e of ClientError code \<Rightarrow> ClientFailure code)"

definition s3_put :: "'s s3_client \<Rightarrow> string \<Rightarrow> blob \<Rightarrow> 's \<Rightarrow> 's" where
  "s3_put c key data s = put_object c key data s"

definition s3_get :: "'s s3_client \<Rightarrow> string \<Rightarrow> 's \<Rightarrow> blob_error + blob" where
  "s3_get c key s = (case get_object c key s of Inl e \<Rightarrow> Inl (s3_failure key e) | Inr b \<Rightarrow> Inr b)"

definition s3_exists :: "'s s3_client \<Rightarrow> string \<Rightarrow> 's \<Rightarrow> blob_error + bool" where
  "s3_exists c key s =
     (case head_object c key s of
        Inr _ \<Rightarrow> Inr True
      | Inl e \<Rightarrow> if is_missing e then Inr False else Inl (s3_failure key e))"

definition s3_delete :: "'s s3_client \<Rightarrow> string \<Rightarrow> 's \<Rightarrow> bool \<times> 's" where
  "s3_delete c key s = (True, delete_object c key s)"

text \<open>\<^verbatim>\<open>for i in range(0, len(batch), 1000)\<close>\<close>

function batches :: "nat \<Rightarrow> 'a list \<Rightarrow> 'a list list" where
  "batches n xs = (if xs = [] \<or> n = 0 then [] else take n xs # batches n (drop n xs))"
  by pat_completeness auto
termination by (relation "measure (\<lambda>(n, xs). length xs)") auto

declare batches.simps [simp del]

lemma batches_simps [simp]:
  "batches n [] = []"
  "0 < n \<Longrightarrow> xs \<noteq> [] \<Longrightarrow> batches n xs = take n xs # batches n (drop n xs)"
  by (simp_all add: batches.simps)

fun s3_delete_batches :: "'s s3_client \<Rightarrow> string list list \<Rightarrow> 's \<Rightarrow> blob_error + 's" where
  "s3_delete_batches c [] s = Inr s"
| "s3_delete_batches c (b # bs) s =
     (case delete_objects c b s of
        Inl (ClientError code) \<Rightarrow> Inl (ClientFailure code)
      | Inr s' \<Rightarrow> s3_delete_batches c bs s')"

definition s3_delete_many :: "'s s3_client \<Rightarrow> string list \<Rightarrow> 's \<Rightarrow> blob_error + nat \<times> 's" where
  "s3_delete_many c keys s =
     (case s3_delete_batches c (batches 1000 keys) s of Inl e \<Rightarrow> Inl e | Inr s' \<Rightarrow> Inr (length keys, s'))"

definition s3_stat :: "'s s3_client \<Rightarrow> string \<Rightarrow> 's \<Rightarrow> blob_error + string" where
  "s3_stat c key s = (case head_object c key s of Inl e \<Rightarrow> Inl (s3_failure key e) | Inr etag \<Rightarrow> Inr etag)"

definition s3_get_json :: "'s s3_client \<Rightarrow> string \<Rightarrow> 's \<Rightarrow> blob_error + json" where
  "s3_get_json c key s = (case s3_get c key s of Inl e \<Rightarrow> Inl e | Inr b \<Rightarrow> parse_json key b)"

section \<open>The keys of a version\<close>

text \<open>\<^verbatim>\<open>[e["safe_name"] for e in manifest.get(field, [])]\<close>; a malformed manifest raises.\<close>

fun entry_safe_names :: "string \<Rightarrow> json list \<Rightarrow> blob_error + string list" where
  "entry_safe_names key [] = Inr []"
| "entry_safe_names key (e # es) =
     (case json_get ''safe_name'' e of
        Some (JStr s) \<Rightarrow> (case entry_safe_names key es of Inl err \<Rightarrow> Inl err | Inr ss \<Rightarrow> Inr (s # ss))
      | _ \<Rightarrow> Inl (DecodeError key))"

definition manifest_safe_names :: "string \<Rightarrow> string \<Rightarrow> json \<Rightarrow> blob_error + string list" where
  "manifest_safe_names key field manifest =
     (case manifest of
        JObj d \<Rightarrow> (case map_of d field of None \<Rightarrow> Inr [] | Some (JList es) \<Rightarrow> entry_safe_names key es | Some _ \<Rightarrow> Inl (DecodeError key))
      | _ \<Rightarrow> Inl (DecodeError key))"

text \<open>The manifest's key and the keys of its thumbnails; nothing when there is no manifest.\<close>

definition manifest_keys ::
  "local_files \<Rightarrow> string \<Rightarrow> string \<Rightarrow> (string \<Rightarrow> string) \<Rightarrow> blob_error + string list" where
  "manifest_keys fs manifest_key field svg_key =
     (case local_get_json manifest_key fs of
        Inl (FileNotFoundError _) \<Rightarrow> Inr []
      | Inl e \<Rightarrow> Inl e
      | Inr manifest \<Rightarrow>
          (case manifest_safe_names manifest_key field manifest of
             Inl e \<Rightarrow> Inl e
           | Inr names \<Rightarrow> Inr (manifest_key # map svg_key names)))"

definition file_artifact_keys :: "local_files \<Rightarrow> string \<Rightarrow> string \<Rightarrow> blob_error + string list" where
  "file_artifact_keys fs vid fid =
     (case manifest_keys fs (layer_manifest_key vid fid) ''layers'' (layer_preview_svg_key vid fid) of
        Inl e \<Rightarrow> Inl e
      | Inr layers \<Rightarrow>
          (case manifest_keys fs (layout_manifest_key vid fid) ''layouts'' (layout_preview_svg_key vid fid) of
             Inl e \<Rightarrow> Inl e
           | Inr layouts \<Rightarrow>
               Inr ([parsed_key vid fid, prematch_key vid fid, match_key vid fid, layer_preview_primitives_key vid fid]
                 @ layers @ layouts)))"

fun files_artifact_keys :: "local_files \<Rightarrow> string \<Rightarrow> string list \<Rightarrow> blob_error + string list" where
  "files_artifact_keys fs vid [] = Inr []"
| "files_artifact_keys fs vid (fid # fids) =
     (case file_artifact_keys fs vid fid of
        Inl e \<Rightarrow> Inl e
      | Inr ks \<Rightarrow> (case files_artifact_keys fs vid fids of Inl e \<Rightarrow> Inl e | Inr ks2 \<Rightarrow> Inr (ks @ ks2)))"

definition version_artifact_keys :: "local_files \<Rightarrow> string \<Rightarrow> string list \<Rightarrow> blob_error + string list" where
  "version_artifact_keys fs vid fids =
     (case files_artifact_keys fs vid fids of
        Inl e \<Rightarrow> Inl e
      | Inr ks \<Rightarrow> Inr ([rule_check_key vid, sign_off_evidence_key vid] @ ks))"

text \<open>The interface both stores implement: a map from keys to contents.\<close>

datatype blob_op = Put nat string blob | Delete string | DeleteMany "string list"

fun blob_do ::
  "(nat \<Rightarrow> string \<Rightarrow> blob \<Rightarrow> 's \<Rightarrow> 's) \<Rightarrow> (string \<Rightarrow> 's \<Rightarrow> 's) \<Rightarrow> (string list \<Rightarrow> 's \<Rightarrow> 's) \<Rightarrow> blob_op \<Rightarrow> 's \<Rightarrow> 's" where
  "blob_do put del remove (Put t k b) s = put t k b s"
| "blob_do put del remove (Delete k) s = del k s"
| "blob_do put del remove (DeleteMany ks) s = remove ks s"

fun map_do :: "blob_op \<Rightarrow> (string \<Rightarrow> blob option) \<Rightarrow> string \<Rightarrow> blob option" where
  "map_do (Put t k b) m = m(k \<mapsto> b)"
| "map_do (Delete k) m = m(k := None)"
| "map_do (DeleteMany ks) m = m |` (- set ks)"

locale blob_store =
  fixes content :: "'s \<Rightarrow> string \<Rightarrow> blob option"
    and put :: "nat \<Rightarrow> string \<Rightarrow> blob \<Rightarrow> 's \<Rightarrow> 's"
    and get :: "string \<Rightarrow> 's \<Rightarrow> blob_error + blob"
    and has :: "string \<Rightarrow> 's \<Rightarrow> blob_error + bool"
    and del :: "string \<Rightarrow> 's \<Rightarrow> 's"
    and remove :: "string list \<Rightarrow> 's \<Rightarrow> 's"
  assumes content_put: "content (put t k b s) = (content s)(k \<mapsto> b)"
    and content_del: "content (del k s) = (content s)(k := None)"
    and content_remove: "content (remove ks s) = content s |` (- set ks)"
    and get_content: "get k s = (case content s k of None \<Rightarrow> Inl (FileNotFoundError k) | Some b \<Rightarrow> Inr b)"
    and has_content: "has k s = Inr (content s k \<noteq> None)"
begin

lemma content_do: "content (blob_do put del remove op s) = map_do op (content s)"
  by (cases op) (simp_all add: content_put content_del content_remove)

lemma content_run: "content (fold (blob_do put del remove) ops s) = fold map_do ops (content s)"
  by (induction ops arbitrary: s) (simp_all add: content_do)

lemma get_run:
  "get k (fold (blob_do put del remove) ops s) =
     (case fold map_do ops (content s) k of None \<Rightarrow> Inl (FileNotFoundError k) | Some b \<Rightarrow> Inr b)"
  by (simp only: get_content content_run)

lemma has_run: "has k (fold (blob_do put del remove) ops s) = Inr (fold map_do ops (content s) k \<noteq> None)"
  by (simp only: has_content content_run)

lemma get_remove: "get k (remove ks s) = (if k \<in> set ks then Inl (FileNotFoundError k) else get k s)"
  by (simp add: get_content content_remove restrict_map_def)

end

text \<open>The local store implements it.\<close>

definition local_content :: "local_files \<Rightarrow> string \<Rightarrow> blob option" where
  "local_content fs k = map_option fst (map_of fs k)"

definition local_del :: "string \<Rightarrow> local_files \<Rightarrow> local_files" where
  "local_del k fs = snd (local_delete k fs)"

definition local_remove :: "string list \<Rightarrow> local_files \<Rightarrow> local_files" where
  "local_remove ks fs = snd (local_delete_many ks fs)"

lemma local_content_del: "local_content (local_del k fs) = (local_content fs)(k := None)"
  by (rule ext) (simp add: local_content_def local_del_def local_delete_def delete_conv)

lemma local_remove_Cons: "local_remove (k # ks) fs = local_remove ks (local_del k fs)"
proof -
  have "snd (fold (\<lambda>key (n, fs). case local_delete key fs of (gone, fs') \<Rightarrow> (if gone then n + 1 else n, fs')) ks (m, fs)) =
      snd (fold (\<lambda>key (n, fs). case local_delete key fs of (gone, fs') \<Rightarrow> (if gone then n + 1 else n, fs')) ks (m', fs))"
    for m m' :: nat and fs
    by (induction ks arbitrary: m m' fs) (simp_all add: case_prod_beta)
  from this[of _ _ 0] show ?thesis
    by (simp add: local_remove_def local_delete_many_def local_del_def case_prod_beta)
qed

lemma local_content_remove: "local_content (local_remove ks fs) = local_content fs |` (- set ks)"
proof (induction ks arbitrary: fs)
  case Nil
  then show ?case by (simp add: local_remove_def local_delete_many_def)
next
  case (Cons k ks)
  then show ?case by (auto simp: local_remove_Cons local_content_del restrict_map_def fun_eq_iff)
qed

interpretation local: blob_store local_content local_put local_get local_exists local_del local_remove
proof
  show "local_content (local_put t k b s) = (local_content s)(k \<mapsto> b)" for t k b s
    by (rule ext) (simp add: local_content_def local_put_def update_conv)
  show "local_get k s = (case local_content s k of None \<Rightarrow> Inl (FileNotFoundError k) | Some b \<Rightarrow> Inr b)" for k s
    by (simp add: local_get_def local_content_def case_prod_beta split: option.splits)
  show "local_exists k s = Inr (local_content s k \<noteq> None)" for k s
    by (simp add: local_exists_def local_content_def)
qed (rule local_content_del local_content_remove)+

text \<open>So does the S3 store, on a client with the documented behaviour: objects are kept by key, reads
  of a missing key fail with one of the missing codes, deletes are blind, and a batch delete of
  at most 1000 keys succeeds.\<close>

definition s3_ok :: "'s s3_client \<Rightarrow> ('s \<Rightarrow> string \<Rightarrow> blob option) \<Rightarrow> bool" where
  "s3_ok c objects \<longleftrightarrow>
     (\<forall>k b s. objects (put_object c k b s) = (objects s)(k \<mapsto> b)) \<and>
     (\<forall>k s. get_object c k s = (case objects s k of None \<Rightarrow> Inl (ClientError ''NoSuchKey'') | Some b \<Rightarrow> Inr b)) \<and>
     (\<forall>k s. (objects s k = None \<longrightarrow> head_object c k s = Inl (ClientError ''404'')) \<and>
            (objects s k \<noteq> None \<longrightarrow> (\<exists>etag. head_object c k s = Inr etag))) \<and>
     (\<forall>k s. objects (delete_object c k s) = (objects s)(k := None)) \<and>
     (\<forall>ks s. length ks \<le> 1000 \<longrightarrow> (\<exists>s'. delete_objects c ks s = Inr s' \<and> objects s' = objects s |` (- set ks)))"

definition s3_del :: "'s s3_client \<Rightarrow> string \<Rightarrow> 's \<Rightarrow> 's" where
  "s3_del c k s = snd (s3_delete c k s)"

definition s3_remove :: "'s s3_client \<Rightarrow> string list \<Rightarrow> 's \<Rightarrow> 's" where
  "s3_remove c ks s = (case s3_delete_many c ks s of Inl _ \<Rightarrow> s | Inr (_, s') \<Rightarrow> s')"

lemma batches_le: "0 < n \<Longrightarrow> b \<in> set (batches n xs) \<Longrightarrow> length b \<le> n"
proof (induction n xs rule: batches.induct)
  case (1 n xs)
  then show ?case by (cases "xs = []") auto
qed

lemma batches_concat: "0 < n \<Longrightarrow> concat (batches n xs) = xs"
proof (induction n xs rule: batches.induct)
  case (1 n xs)
  then show ?case by (cases "xs = []") auto
qed

lemma s3_delete_batches_ok:
  assumes "s3_ok c objects" "\<forall>b\<in>set bs. length b \<le> 1000"
  shows "\<exists>s'. s3_delete_batches c bs s = Inr s' \<and> objects s' = objects s |` (- set (concat bs))"
  using assms(2)
proof (induction bs arbitrary: s)
  case (Cons b bs)
  then obtain s1 where s1: "delete_objects c b s = Inr s1" "objects s1 = objects s |` (- set b)"
    using assms(1) unfolding s3_ok_def by (meson list.set_intros(1))
  from Cons obtain s2 where s2: "s3_delete_batches c bs s1 = Inr s2" "objects s2 = objects s1 |` (- set (concat bs))"
    by (meson list.set_intros(2))
  have "objects s2 = objects s |` (- set (concat (b # bs)))"
    unfolding s2(2) s1(2) by (auto simp: restrict_map_def fun_eq_iff)
  then show ?case using s1(1) s2(1) by simp
qed (simp add: restrict_map_def)

lemma s3_delete_many_ok:
  assumes "s3_ok c objects"
  shows "\<exists>s'. s3_delete_many c ks s = Inr (length ks, s') \<and> objects s' = objects s |` (- set ks)"
proof -
  have "\<forall>b\<in>set (batches 1000 ks). length b \<le> 1000" "concat (batches 1000 ks) = ks"
    using batches_le[of 1000 _ ks] batches_concat[of 1000 ks] by simp_all
  then show ?thesis using s3_delete_batches_ok[OF assms, of "batches 1000 ks" s] by (auto simp: s3_delete_many_def)
qed

lemma s3_blob_store:
  assumes "s3_ok c objects"
  shows "blob_store objects (\<lambda>_. s3_put c) (s3_get c) (s3_exists c) (s3_del c) (s3_remove c)"
proof
  note ok = assms[unfolded s3_ok_def]
  show "objects (s3_put c k b s) = (objects s)(k \<mapsto> b)" for k b s using ok by (simp add: s3_put_def)
  show "objects (s3_del c k s) = (objects s)(k := None)" for k s using ok by (simp add: s3_del_def s3_delete_def)
  show "objects (s3_remove c ks s) = objects s |` (- set ks)" for ks s
    using s3_delete_many_ok[OF assms, of ks s] by (auto simp: s3_remove_def)
  show "s3_get c k s = (case objects s k of None \<Rightarrow> Inl (FileNotFoundError k) | Some b \<Rightarrow> Inr b)" for k s
    using ok by (simp add: s3_get_def s3_failure_def is_missing_def split: option.splits)
  show "s3_exists c k s = Inr (objects s k \<noteq> None)" for k s
  proof (cases "objects s k")
    case None
    then have "head_object c k s = Inl (ClientError ''404'')" using ok by blast
    then show ?thesis using None by (simp add: s3_exists_def is_missing_def)
  next
    case (Some b)
    then obtain e where "head_object c k s = Inr e" using ok by (metis option.distinct(1))
    then show ?thesis using Some by (simp add: s3_exists_def)
  qed
qed

text \<open>C31. The two backends are interchangeable: from the same contents, after any sequence of writes,
  deletions and batch deletions of any length, every read and every existence test gives the same
  answer on the S3 store as on the local one, a missing key being the same error on both.\<close>

theorem backends_agree:
  assumes "s3_ok c objects" "objects s = local_content fs"
  shows "s3_get c k (fold (blob_do (\<lambda>_. s3_put c) (s3_del c) (s3_remove c)) ops s) =
           local_get k (fold (blob_do local_put local_del local_remove) ops fs) \<and>
         s3_exists c k (fold (blob_do (\<lambda>_. s3_put c) (s3_del c) (s3_remove c)) ops s) =
           local_exists k (fold (blob_do local_put local_del local_remove) ops fs)"
  using blob_store.get_run[OF s3_blob_store[OF assms(1)], of k ops s] local.get_run[of k ops fs]
    blob_store.has_run[OF s3_blob_store[OF assms(1)], of k ops s] local.has_run[of k ops fs]
  unfolding assms(2) by simp

definition dict_client :: "(string, blob) dict s3_client" where
  "dict_client =
     \<lparr>put_object = AList.update,
      get_object = (\<lambda>k s. case map_of s k of None \<Rightarrow> Inl (ClientError ''NoSuchKey'') | Some b \<Rightarrow> Inr b),
      head_object = (\<lambda>k s. case map_of s k of None \<Rightarrow> Inl (ClientError ''404'') | Some b \<Rightarrow> Inr ''etag''),
      delete_object = AList.delete,
      delete_objects = (\<lambda>ks s. if 1000 < length ks then Inl (ClientError ''MalformedXML'')
        else Inr (filter (\<lambda>kv. fst kv \<notin> set ks) s))\<rparr>"

lemma dict_client_ok: "s3_ok dict_client map_of"
proof -
  have "map_of (filter (\<lambda>kv. fst kv \<notin> set ks) s) = map_of s |` (- set ks)" for ks and s :: "(string, blob) dict"
    by (induction s) (auto simp: restrict_map_def fun_eq_iff)
  then show ?thesis
    by (auto simp: s3_ok_def dict_client_def update_conv' delete_conv' split: option.splits)
qed

lemma backends_agree_witness:
  "s3_get dict_client ''a'' (fold (blob_do (\<lambda>_. s3_put dict_client) (s3_del dict_client) (s3_remove dict_client))
      [Put 1 ''a'' (Json JNull), DeleteMany (''a'' # replicate 1500 ''b'')] []) = Inl (FileNotFoundError ''a'')"
proof -
  let ?ops = "[Put 1 ''a'' (Json JNull), DeleteMany (''a'' # replicate 1500 ''b'')]"
  have s: "map_of [] = local_content []" by (simp add: local_content_def fun_eq_iff)
  have gone: "map_do (DeleteMany (''a'' # ks)) m ''a'' = None" for ks m by simp
  have "local_get ''a'' (fold (blob_do local_put local_del local_remove) ?ops []) = Inl (FileNotFoundError ''a'')"
    unfolding local.get_run by (simp only: fold.simps o_apply id_apply gone option.case)
  then show ?thesis using backends_agree[OF dict_client_ok s, of "''a''" ?ops] by (simp only:)
qed

section \<open>Artifacts of different versions\<close>

text \<open>The first two segments of a key.\<close>

definition key_segments :: "string \<Rightarrow> string \<times> string" where
  "key_segments key = (case split_on (CHR ''/'') key of d # x # _ \<Rightarrow> (d, x) | _ \<Rightarrow> ([], []))"

lemma key_segments_nested:
  "CHR ''/'' \<notin> set d \<Longrightarrow> CHR ''/'' \<notin> set v \<Longrightarrow> key_segments (d @ CHR ''/'' # v @ CHR ''/'' # rest) = (d, v)"
  by (simp add: key_segments_def split_on_append_sep split: list.splits)

lemma key_segments_flat:
  "CHR ''/'' \<notin> set d \<Longrightarrow> CHR ''/'' \<notin> set v \<Longrightarrow> key_segments (d @ CHR ''/'' # v) = (d, v)"
  by (simp add: key_segments_def split_on_append_sep split_on_no_sep)

definition owned_segments :: "string \<Rightarrow> (string \<times> string) set" where
  "owned_segments v =
     {(''rule_check'', v @ ''.json''), (''sign_off_evidence'', v), (''parsed'', v), (''prematch'', v), (''match'', v),
      (''layer_preview'', v)}"

lemma key_shapes:
  "parsed_key v f = ''parsed'' @ CHR ''/'' # v @ CHR ''/'' # f @ ''.json''"
  "prematch_key v f = ''prematch'' @ CHR ''/'' # v @ CHR ''/'' # f @ ''.json''"
  "match_key v f = ''match'' @ CHR ''/'' # v @ CHR ''/'' # f @ ''.json''"
  "layer_manifest_key v f = ''layer_preview'' @ CHR ''/'' # v @ CHR ''/'' # f @ ''/layers.json''"
  "layer_preview_svg_key v f n = ''layer_preview'' @ CHR ''/'' # v @ CHR ''/'' # f @ ''/'' @ n @ ''.svg''"
  "layer_preview_primitives_key v f = ''layer_preview'' @ CHR ''/'' # v @ CHR ''/'' # f @ ''/primitives.json''"
  "layout_manifest_key v f = ''layer_preview'' @ CHR ''/'' # v @ CHR ''/'' # f @ ''/layouts/layouts.json''"
  "layout_preview_svg_key v f n = ''layer_preview'' @ CHR ''/'' # v @ CHR ''/'' # f @ ''/layouts/'' @ n @ ''.svg''"
  "rule_check_key v = ''rule_check'' @ CHR ''/'' # (v @ ''.json'')"
  "sign_off_evidence_key v = ''sign_off_evidence'' @ CHR ''/'' # v"
  by (simp_all add: parsed_key_def prematch_key_def match_key_def layer_manifest_key_def layer_preview_svg_key_def
      layer_preview_primitives_key_def layout_manifest_key_def layout_preview_svg_key_def layer_preview_prefix_def
      rule_check_key_def sign_off_evidence_key_def)

lemma key_segments_of:
  assumes "CHR ''/'' \<notin> set v"
  shows "key_segments (parsed_key v f) \<in> owned_segments v" "key_segments (prematch_key v f) \<in> owned_segments v"
    "key_segments (match_key v f) \<in> owned_segments v" "key_segments (layer_manifest_key v f) \<in> owned_segments v"
    "key_segments (layer_preview_svg_key v f n) \<in> owned_segments v"
    "key_segments (layer_preview_primitives_key v f) \<in> owned_segments v"
    "key_segments (layout_manifest_key v f) \<in> owned_segments v"
    "key_segments (layout_preview_svg_key v f n) \<in> owned_segments v"
    "key_segments (rule_check_key v) \<in> owned_segments v" "key_segments (sign_off_evidence_key v) \<in> owned_segments v"
  using assms unfolding key_shapes by (simp_all add: key_segments_nested key_segments_flat owned_segments_def del: append_Cons)

lemma manifest_keys_in:
  "manifest_keys fs mk field svg = Inr ks \<Longrightarrow> k \<in> set ks \<Longrightarrow> k = mk \<or> (\<exists>n. k = svg n)"
  by (auto simp: manifest_keys_def split: sum.splits blob_error.splits)

lemma file_artifact_keys_owned:
  assumes "CHR ''/'' \<notin> set v" "file_artifact_keys fs v f = Inr ks" "k \<in> set ks"
  shows "key_segments k \<in> owned_segments v"
  using assms(2,3) manifest_keys_in[of fs] key_segments_of[OF assms(1)]
  by (auto simp: file_artifact_keys_def split: sum.splits dest!: manifest_keys_in)

lemma version_artifact_keys_owned:
  assumes "CHR ''/'' \<notin> set v" "version_artifact_keys fs v fids = Inr ks" "k \<in> set ks"
  shows "key_segments k \<in> owned_segments v"
proof -
  have "key_segments k \<in> owned_segments v" if "files_artifact_keys fs v fids = Inr ks" "k \<in> set ks" for ks
    using that file_artifact_keys_owned[OF assms(1)] by (induction fids arbitrary: ks) (auto split: sum.splits)
  then show ?thesis using assms(2,3) key_segments_of[OF assms(1)]
    by (auto simp: version_artifact_keys_def split: sum.splits)
qed

lemma owned_segments_disjoint: "v \<noteq> v' \<Longrightarrow> owned_segments v \<inter> owned_segments v' = {}"
  by (auto simp: owned_segments_def)

lemma upload_not_owned: "key_segments (upload_key f) \<notin> owned_segments v"
proof -
  have "upload_key f = ''uploads'' @ CHR ''/'' # (f @ ''.dxf'')" by (simp add: upload_key_def)
  then have "split_on (CHR ''/'') (upload_key f) = ''uploads'' # split_on (CHR ''/'') (f @ ''.dxf'')"
    by (simp only: split_on_append_sep) (simp add: split_on_append_sep[of _ "''uploads''", simplified])
  then show ?thesis by (auto simp: key_segments_def owned_segments_def split: list.splits)
qed

text \<open>C32. Deleting the artifacts of one version, with the keys enumerated from its files and manifests,
  leaves every artifact of every other version and every upload readable as before.\<close>

theorem artifact_deletion_isolated:
  assumes "version_artifact_keys fs v fids = Inr ks" "version_artifact_keys fs v' fids' = Inr ks'" "v \<noteq> v'"
    and "CHR ''/'' \<notin> set v" "CHR ''/'' \<notin> set v'"
    and "k \<in> set ks' \<or> k = upload_key f"
  shows "local_get k (local_remove ks fs) = local_get k fs"
proof -
  have "k \<notin> set ks"
    using assms(6) version_artifact_keys_owned[OF assms(4,1)] version_artifact_keys_owned[OF assms(5,2)]
      owned_segments_disjoint[OF assms(3)] upload_not_owned[of f v] by blast
  then show ?thesis by (simp add: local.get_remove)
qed

definition two_versions :: local_files where
  "two_versions =
     [(layer_manifest_key ''v1'' ''f'', (Json (JObj [(''layers'', JList [JObj [(''safe_name'', JStr ''pads'')]])]), 1)),
      (layer_preview_svg_key ''v1'' ''f'' ''pads'', (Raw ''<svg/>'', 2)),
      (parsed_key ''v2'' ''f'', (Json JNull, 3))]"

lemma artifact_deletion_isolated_witness:
  "\<exists>ks. version_artifact_keys two_versions ''v1'' [''f''] = Inr ks \<and> layer_preview_svg_key ''v1'' ''f'' ''pads'' \<in> set ks \<and>
     local_get (parsed_key ''v2'' ''f'') (local_remove ks two_versions) = Inr (Json JNull)"
proof -
  have 1: "\<exists>ks. version_artifact_keys two_versions ''v1'' [''f''] = Inr ks \<and> layer_preview_svg_key ''v1'' ''f'' ''pads'' \<in> set ks"
    by (simp add: version_artifact_keys_def file_artifact_keys_def manifest_keys_def local_get_json_def local_get_def
        two_versions_def key_shapes parse_json_def manifest_safe_names_def)
  then obtain ks where ks: "version_artifact_keys two_versions ''v1'' [''f''] = Inr ks"
    "layer_preview_svg_key ''v1'' ''f'' ''pads'' \<in> set ks" by blast
  have 2: "\<exists>ks. version_artifact_keys two_versions ''v2'' [''f''] = Inr ks \<and> parsed_key ''v2'' ''f'' \<in> set ks"
    by (simp add: version_artifact_keys_def file_artifact_keys_def manifest_keys_def local_get_json_def local_get_def
        two_versions_def key_shapes)
  then obtain ks' where ks': "version_artifact_keys two_versions ''v2'' [''f''] = Inr ks'" "parsed_key ''v2'' ''f'' \<in> set ks'"
    by blast
  have "local_get (parsed_key ''v2'' ''f'') two_versions = Inr (Json JNull)"
    by (simp add: local_get_def two_versions_def key_shapes)
  then show ?thesis using artifact_deletion_isolated[OF ks(1) ks'(1), of "parsed_key ''v2'' ''f''" "[]"] ks ks'(2) by auto
qed

end
