(* ===== verification/Layers.thy ===== *)
theory Layers
  imports Dxf Blobs
begin

text \<open>
  The layer part of \<^verbatim>\<open>app/dxf.py\<close>: file names of layers, grouping and filtering of primitives
  and the SVG thumbnails.  Strings are their UTF-8 bytes, as \<^verbatim>\<open>urllib.parse.quote\<close> sees them.
\<close>

section \<open>Names\<close>

definition unreserved :: "char \<Rightarrow> bool" where
  "unreserved c \<longleftrightarrow>
     (let n = of_char c :: nat in
      (48 \<le> n \<and> n \<le> 57) \<or> (65 \<le> n \<and> n \<le> 90) \<or> (97 \<le> n \<and> n \<le> 122) \<or> c \<in> set ''_.-~'')"

definition hex_digit :: "nat \<Rightarrow> char" where
  "hex_digit n = (if n < 10 then char_of (48 + n) else char_of (55 + n))"

definition quote_char :: "char \<Rightarrow> string" where
  "quote_char c =
     (if unreserved c then [c]
      else [CHR ''%'', hex_digit (of_char c div 16), hex_digit (of_char c mod 16)])"

definition quote :: "string \<Rightarrow> string" where
  "quote s = concat (map quote_char s)"

definition sanitize_layer_name :: "string \<Rightarrow> string" where
  "sanitize_layer_name name = (if quote name = [] then ''_unnamed'' else quote name)"

section \<open>Grouping and filtering\<close>

definition layer_of :: "primitive \<Rightarrow> string" where
  "layer_of p = (if pr_layer (style p) = [] then ''0'' else pr_layer (style p))"

definition group_primitives_by_layer :: "primitive list \<Rightarrow> (string, nat list) dict" where
  "group_primitives_by_layer primitives = fold (\<lambda>(i, p). dict_push (layer_of p) i) (enumerate 0 primitives) []"

definition filter_primitives :: "primitive list \<Rightarrow> string list \<Rightarrow> primitive list" where
  "filter_primitives primitives layers = filter (\<lambda>p. layer_of p \<in> set layers) primitives"

section \<open>Thumbnails\<close>

definition strip_right :: "char \<Rightarrow> string \<Rightarrow> string" where
  "strip_right c s = rev (dropWhile (\<lambda>x. x = c) (rev s))"

text \<open>\<^verbatim>\<open>f"{v:.4f}"\<close>, rounded half to even.\<close>

definition fixed4 :: "real \<Rightarrow> string" where
  "fixed4 v =
     (let n = nat (py_round (\<bar>v\<bar> * 10 ^ 4)); frac = str_of_nat (n mod 10 ^ 4)
      in (if v < 0 then ''-'' else '''') @ str_of_nat (n div 10 ^ 4) @ ''.'' @ replicate (4 - length frac) (CHR ''0'') @ frac)"

definition fmt :: "real \<Rightarrow> string" where
  "fmt v = (if v = of_int \<lfloor>v\<rfloor> then str_of_int \<lfloor>v\<rfloor> else strip_right (CHR ''.'') (strip_right (CHR ''0'') (fixed4 v)))"

definition safe_color :: "string \<Rightarrow> string" where
  "safe_color c = (if py_starts_with ''#'' c \<and> length c \<in> {7, 9} then take 7 c else ''#000000'')"

text \<open>\<^verbatim>\<open>int(k * stride)\<close> with \<^verbatim>\<open>stride = len / cap\<close>.\<close>

definition stride_index :: "nat \<Rightarrow> nat \<Rightarrow> nat \<Rightarrow> nat" where
  "stride_index len cap k = nat \<lfloor>real k * (real len / real cap)\<rfloor>"

text \<open>\<^verbatim>\<open>out[-1] is not pts[-1]\<close>: the last index taken is not the last of the list.\<close>

definition decimate_pts :: "point list \<Rightarrow> nat \<Rightarrow> point list" where
  "decimate_pts pts cap =
     (if length pts \<le> cap then pts
      else map (\<lambda>k. pts ! stride_index (length pts) cap k) [0..<cap] @
           (if stride_index (length pts) cap (cap - 1) \<noteq> length pts - 1 then [last pts] else []))"

definition points_attr :: "point list \<Rightarrow> string" where
  "points_attr pts = join_on '' '' (map (\<lambda>p. fmt (fst p) @ '','' @ fmt (snd p)) pts)"

definition quoted :: "string \<Rightarrow> string \<Rightarrow> string" where
  "quoted name val = name @ ''='' @ [CHR 0x22] @ val @ [CHR 0x22]"

definition prim_to_svg :: "dxf_tunables \<Rightarrow> primitive \<Rightarrow> string" where
  "prim_to_svg dt p =
     (let color = safe_color (pr_color (style p)); cap = MAX_VERTICES_PER_POLYLINE dt in
      case geom p of
        PLine s e \<Rightarrow>
          ''<line '' @ quoted ''x1'' (fmt (fst s)) @ '' '' @ quoted ''y1'' (fmt (snd s)) @ '' '' @
          quoted ''x2'' (fmt (fst e)) @ '' '' @ quoted ''y2'' (fmt (snd e)) @ '' '' @ quoted ''stroke'' color @ ''/>''
      | PPolyline ps cl \<Rightarrow>
          ''<'' @ (if cl then ''polygon'' else ''polyline'') @ '' '' @
          quoted ''points'' (points_attr (decimate_pts ps cap)) @ '' '' @ quoted ''stroke'' color @ ''/>''
      | PFilled rings \<Rightarrow>
          concat (map (\<lambda>ring. ''<polygon '' @ quoted ''points'' (points_attr (decimate_pts ring cap)) @ '' '' @
            quoted ''stroke'' color @ '' '' @ quoted ''fill'' color @ '' '' @ quoted ''fill-opacity'' ''0.5'' @ ''/>'') rings)
      | PPoint q \<Rightarrow>
          ''<circle '' @ quoted ''cx'' (fmt (fst q)) @ '' '' @ quoted ''cy'' (fmt (snd q)) @ '' '' @
          quoted ''r'' ''0'' @ '' '' @ quoted ''stroke'' color @ ''/>''
      | PCircle _ _ _ \<Rightarrow> [])"

text \<open>The primitives a thumbnail shows: not the decorative ones, evenly subsampled above the cap.\<close>

definition visible_indices :: "primitive list \<Rightarrow> nat list \<Rightarrow> nat \<Rightarrow> nat list" where
  "visible_indices primitives layer_indices max_prims =
     (let visible = filter (\<lambda>i. \<not> decorative (primitives ! i)) layer_indices
      in if length visible > max_prims
         then map (\<lambda>k. visible ! stride_index (length visible) max_prims k) [0..<max_prims]
         else visible)"

definition render_layer_svg :: "dxf_tunables \<Rightarrow> primitive list \<Rightarrow> nat list \<Rightarrow> bbox option \<Rightarrow> string \<Rightarrow> string" where
  "render_layer_svg dt primitives layer_indices bb background =
     (let (xmin, ymin, xmax, ymax) = (case bb of None \<Rightarrow> (0, 0, 1, 1) | Some b \<Rightarrow> b);
          width = max (xmax - xmin) (1 / 10 ^ 9);
          height = max (ymax - ymin) (1 / 10 ^ 9);
          stroke_w = max width height * (25/10000);
          visible = visible_indices primitives layer_indices (MAX_PRIMS_PER_THUMB dt)
      in ''<svg '' @ quoted ''xmlns'' ''http://www.w3.org/2000/svg'' @ '' '' @
         quoted ''viewBox'' (fmt xmin @ '' '' @ fmt ymin @ '' '' @ fmt width @ '' '' @ fmt height) @ '' '' @
         quoted ''preserveAspectRatio'' ''xMidYMid meet'' @ ''>'' @
         ''<rect '' @ quoted ''x'' (fmt xmin) @ '' '' @ quoted ''y'' (fmt ymin) @ '' '' @ quoted ''width'' (fmt width) @ '' '' @
         quoted ''height'' (fmt height) @ '' '' @ quoted ''fill'' (safe_color background) @ ''/>'' @
         ''<g '' @ quoted ''transform'' (''translate(0,'' @ fmt (ymin + ymax) @ '') scale(1,-1)'') @ '' '' @
         quoted ''fill'' ''none'' @ '' '' @ quoted ''stroke-width'' (fmt stroke_w) @ '' '' @
         quoted ''stroke-linecap'' ''round'' @ '' '' @ quoted ''stroke-linejoin'' ''round'' @ ''>'' @
         concat (map (\<lambda>i. prim_to_svg dt (primitives ! i)) visible) @ ''</g></svg>'')"

section \<open>Layer names and file names\<close>

fun hex_val :: "char \<Rightarrow> nat" where
  "hex_val c = (if of_char c < (58 :: nat) then of_char c - 48 else of_char c - 55)"

fun unquote :: "string \<Rightarrow> string" where
  "unquote [] = []"
| "unquote (c # cs) =
     (if c = CHR ''%'' then (case cs of a # b # rest \<Rightarrow> char_of (16 * hex_val a + hex_val b) # unquote rest | _ \<Rightarrow> [c])
      else c # unquote cs)"

lemma hex_digit_val: "n < 16 \<Longrightarrow> hex_val (hex_digit n) = n"
  by (simp add: hex_digit_def)

lemma unquote_quote_char: "unquote (quote_char c @ s) = c # unquote s"
proof (cases "unreserved c")
  case True
  then have "c \<noteq> CHR ''%''" by (auto simp: unreserved_def)
  then show ?thesis using True by (simp add: quote_char_def)
next
  case False
  have "(of_char c :: nat) div 16 < 16" using nat_of_char_less_256[of c] by (intro less_mult_imp_div_less) simp
  then have "hex_val (hex_digit (of_char c div 16)) = of_char c div 16" "hex_val (hex_digit (of_char c mod 16)) = of_char c mod 16"
    by (simp_all only: hex_digit_val mod_less_divisor zero_less_numeral)
  then show ?thesis using False by (simp add: quote_char_def del: hex_val.simps)
qed

lemma unquote_quote: "unquote (quote s) = s"
  by (induction s) (simp_all add: quote_def unquote_quote_char)

lemma quote_empty: "quote s = [] \<longleftrightarrow> s = []"
  by (cases s) (simp_all add: quote_def quote_char_def)

lemma hex_digit_unreserved: "n < 16 \<Longrightarrow> unreserved (hex_digit n)"
  by (auto simp: hex_digit_def unreserved_def Let_def)

lemma quote_chars: "c \<in> set (quote s) \<Longrightarrow> unreserved c \<or> c = CHR ''%''"
proof -
  assume "c \<in> set (quote s)"
  then obtain x where "c \<in> set (quote_char x)" by (auto simp: quote_def)
  moreover have "(of_char x :: nat) div 16 < 16" using nat_of_char_less_256[of x] by (intro less_mult_imp_div_less) simp
  ultimately show ?thesis by (auto simp: quote_char_def hex_digit_unreserved split: if_splits)
qed

lemma sanitize_inj: "a \<noteq> [] \<Longrightarrow> b \<noteq> [] \<Longrightarrow> sanitize_layer_name a = sanitize_layer_name b \<longleftrightarrow> a = b"
  by (metis quote_empty sanitize_layer_name_def unquote_quote)

lemma sanitize_no_slash: "CHR ''/'' \<notin> set (sanitize_layer_name a)"
  using quote_chars[of "CHR ''/''" a] by (auto simp: sanitize_layer_name_def unreserved_def)

lemma svg_key_split:
  "layer_preview_svg_key v f s = layer_preview_prefix v f @ ''/'' @ s @ ''.svg''"
  "layout_preview_svg_key v f s = layer_preview_prefix v f @ ''/'' @ (''layouts/'' @ s) @ ''.svg''"
  by (simp_all add: layer_preview_svg_key_def layout_preview_svg_key_def)

text \<open>Thumbnails never overwrite each other: within one file two layers, or two layouts, of different
  non-empty names have different keys, and no layer's thumbnail has the key of a layout's.\<close>

theorem layer_files_distinct:
  assumes "a \<noteq> []" "b \<noteq> []" "a \<noteq> b"
  shows "layer_preview_svg_key v f (sanitize_layer_name a) \<noteq> layer_preview_svg_key v f (sanitize_layer_name b) \<and>
    layout_preview_svg_key v f (sanitize_layer_name a) \<noteq> layout_preview_svg_key v f (sanitize_layer_name b) \<and>
    layer_preview_svg_key v f (sanitize_layer_name a) \<noteq> layout_preview_svg_key v f (sanitize_layer_name b)"
proof -
  have "sanitize_layer_name a \<noteq> ''layouts/'' @ sanitize_layer_name b"
  proof
    assume "sanitize_layer_name a = ''layouts/'' @ sanitize_layer_name b"
    then have "CHR ''/'' \<in> set (sanitize_layer_name a)" by simp
    then show False using sanitize_no_slash by blast
  qed
  then show ?thesis using assms sanitize_inj unfolding svg_key_split by simp
qed

lemma layer_files_distinct_witness:
  "layer_preview_svg_key ''v1'' ''f'' (sanitize_layer_name ''PADS/TOP'') \<noteq>
     layer_preview_svg_key ''v1'' ''f'' (sanitize_layer_name ''PADS%2FTOP'')"
  using layer_files_distinct[of "''PADS/TOP''" "''PADS%2FTOP''" "''v1''" "''f''"] by simp

text \<open>The empty name and its placeholder share a file.\<close>

lemma empty_name_collides: "sanitize_layer_name [] = sanitize_layer_name ''_unnamed''"
  by (simp add: sanitize_layer_name_def quote_def quote_char_def unreserved_def)

section \<open>Selecting layers\<close>

lemma dict_list_group_enumerate:
  "dict_list (fold (\<lambda>(i, p). dict_push (layer_of p) i) (enumerate n ps) d) l =
     dict_list d l @ map fst (filter (\<lambda>(i, p). layer_of p = l) (enumerate n ps))"
  by (induction ps arbitrary: n d) (simp_all add: case_prod_beta)

lemma layer_group: "dict_list (group_primitives_by_layer ps) l = filter (\<lambda>i. layer_of (ps ! i) = l) [0..<length ps]"
proof -
  have "map fst (filter (\<lambda>(i, p). layer_of p = l) (enumerate 0 ps)) =
      filter (\<lambda>i. layer_of (ps ! i) = l) [0..<length ps]"
    by (induction ps rule: rev_induct) (auto simp: enumerate_append_eq nth_append intro!: filter_cong)
  then show ?thesis by (simp add: group_primitives_by_layer_def dict_list_group_enumerate)
qed

lemma filter_by_index: "filter P ps = map (\<lambda>i. ps ! i) (filter (\<lambda>i. P (ps ! i)) [0..<length ps])"
proof (induction ps rule: rev_induct)
  case (snoc p ps)
  have "filter (\<lambda>i. P ((ps @ [p]) ! i)) [0..<length ps] = filter (\<lambda>i. P (ps ! i)) [0..<length ps]"
    by (rule filter_cong) (auto simp: nth_append)
  moreover have "map (\<lambda>i. (ps @ [p]) ! i) (filter (\<lambda>i. P (ps ! i)) [0..<length ps]) =
      map (\<lambda>i. ps ! i) (filter (\<lambda>i. P (ps ! i)) [0..<length ps])"
    by (rule map_cong) (auto simp: nth_append)
  ultimately show ?case using snoc by (simp add: nth_append)
qed simp

text \<open>Phase 2 keeps what phase 1 offered: the primitives that survive the operator's layer selection
  are exactly those the layer discovery listed under one of the chosen layers, in drawing order,
  and every primitive is listed under exactly one layer.\<close>

theorem layer_selection_agrees:
  "filter_primitives ps chosen =
     map (\<lambda>i. ps ! i) (filter (\<lambda>i. \<exists>l\<in>set chosen. i \<in> set (dict_list (group_primitives_by_layer ps) l)) [0..<length ps]) \<and>
   (\<forall>i<length ps. \<exists>!l. i \<in> set (dict_list (group_primitives_by_layer ps) l))"
proof -
  have m: "i \<in> set (dict_list (group_primitives_by_layer ps) l) \<longleftrightarrow> i < length ps \<and> layer_of (ps ! i) = l" for i l
    by (auto simp: layer_group)
  have "filter (\<lambda>i. \<exists>l\<in>set chosen. i < length ps \<and> layer_of (ps ! i) = l) [0..<length ps] =
      filter (\<lambda>i. layer_of (ps ! i) \<in> set chosen) [0..<length ps]"
    by (rule filter_cong) auto
  then show ?thesis unfolding m filter_primitives_def filter_by_index[of _ ps] by auto
qed

lemma layer_selection_agrees_witness:
  "filter_primitives [\<lparr>geom = PPoint (0, 0), style = black, decorative = False\<rparr>] [''0''] =
     [\<lparr>geom = PPoint (0, 0), style = black, decorative = False\<rparr>]"
  using layer_selection_agrees[of "[\<lparr>geom = PPoint (0, 0), style = black, decorative = False\<rparr>]" "[''0'']"]
  by (simp add: layer_group layer_of_def black_def)

section \<open>Thumbnails are bounded\<close>

lemma stride_index_less:
  assumes "k < cap" "cap < len"
  shows "stride_index len cap k < len - 1"
proof -
  have "real k * (real len / real cap) \<le> (real cap - 1) * (real len / real cap)"
    using assms(1) by (intro mult_right_mono) simp_all
  also have "\<dots> = real len - real len / real cap" using assms(1) by (simp add: field_simps)
  also have "\<dots> < real len - 1" using assms by (simp add: field_simps)
  finally show ?thesis using assms unfolding stride_index_def by (simp add: nat_less_iff floor_less_iff of_nat_diff)
qed

lemma decimate_length: "length (decimate_pts pts cap) \<le> cap + 1"
  by (simp add: decimate_pts_def)

text \<open>The cap is exceeded by one as soon as anything is dropped: the last point is always added.\<close>

lemma decimate_exceeds_cap: "0 < cap \<Longrightarrow> cap < length pts \<Longrightarrow> length (decimate_pts pts cap) = cap + 1"
  using stride_index_less[of "cap - 1" cap "length pts"] by (simp add: decimate_pts_def)

lemma visible_bounded:
  "length (visible_indices ps is m) \<le> m \<and>
   set (visible_indices ps is m) \<subseteq> {i \<in> set is. \<not> decorative (ps ! i)}"
proof -
  let ?v = "filter (\<lambda>i. \<not> decorative (ps ! i)) is"
  have "?v ! stride_index (length ?v) m k \<in> set ?v" if "k < m" "m < length ?v" for k
    using stride_index_less[OF that] by (intro nth_mem) linarith
  then show ?thesis unfolding visible_indices_def Let_def by (cases "m < length ?v") auto
qed

text \<open>A layer of circles only has an empty thumbnail.\<close>

lemma circles_missing_from_thumbnail: "geom p = PCircle c r filled \<Longrightarrow> prim_to_svg dt p = []"
  by (simp add: prim_to_svg_def)

end
