(* ===== verification/EntityIndex.thy ===== *)
theory EntityIndex
  imports Dxf Matching
begin

text \<open>
  From primitives to shapes: the entity index helpers of \<^verbatim>\<open>app/library.py\<close> and
  \<^verbatim>\<open>build_entity_shapes\<close> of \<^verbatim>\<open>app/matching.py\<close>.  All primitives of one DXF handle form one
  entity; decorative primitives and primitives without a handle belong to none.
\<close>

definition build_handle_index :: "primitive list \<Rightarrow> (handle, nat list) dict" where
  "build_handle_index primitives =
     fold (\<lambda>(i, p) idx. if decorative p then idx
             else if pr_handle (style p) = [] then idx
             else dict_push (pr_handle (style p)) i idx) (enumerate 0 primitives) []"

definition collect_entity_kinds :: "primitive list \<Rightarrow> (handle, nat list) dict \<Rightarrow> handle \<Rightarrow> string option" where
  "collect_entity_kinds primitives idx h =
     (case remdups (map (\<lambda>i. geom_type (geom (primitives ! i))) (dict_list idx h)) of
        [t] \<Rightarrow> Some t
      | _ \<Rightarrow> None)"

definition geometry_points :: "geometry \<Rightarrow> point list" where
  "geometry_points g =
     (case g of
        PLine s e \<Rightarrow> [s, e]
      | PPolyline ps _ \<Rightarrow> ps
      | PFilled rings \<Rightarrow> concat rings
      | PPoint p \<Rightarrow> [p]
      | PCircle c r _ \<Rightarrow> circle_points c r)"

definition collect_entity_points :: "primitive list \<Rightarrow> (handle, nat list) dict \<Rightarrow> handle \<Rightarrow> point list" where
  "collect_entity_points primitives idx h =
     concat (map (\<lambda>i. geometry_points (geom (primitives ! i))) (dict_list idx h))"

text \<open>One entity's shape, none when it has no points.\<close>

definition entity_shape ::
  "numerics \<Rightarrow> primitive list \<Rightarrow> (handle, nat list) dict \<Rightarrow> handle \<Rightarrow> nat list \<Rightarrow> shape option" where
  "entity_shape nm primitives idx h pi_list =
     (case (case pi_list of [i] \<Rightarrow> Some (geom (primitives ! i)) | _ \<Rightarrow> None) of
        Some (PCircle c r _) \<Rightarrow> Some (from_circle h c r)
      | _ \<Rightarrow>
          (let pts = collect_entity_points primitives idx h in
           if pts = [] then None
           else Some (from_points nm h pts (collect_entity_kinds primitives idx h))))"

definition build_entity_shapes :: "numerics \<Rightarrow> primitive list \<Rightarrow> (handle, nat list) dict \<Rightarrow> drawing" where
  "build_entity_shapes nm primitives idx =
     List.map_filter (\<lambda>(h, pi_list). map_option (Pair h) (entity_shape nm primitives idx h pi_list)) idx"

section \<open>What is indexed\<close>

definition selectable :: "primitive \<Rightarrow> bool" where
  "selectable p \<longleftrightarrow> \<not> decorative p \<and> pr_handle (style p) \<noteq> []"

lemma handle_index_filter:
  "build_handle_index ps =
     fold (\<lambda>x. dict_push (pr_handle (style (snd x))) (fst x)) (filter (\<lambda>x. selectable (snd x)) (enumerate 0 ps)) []"
proof -
  have "fold (\<lambda>(i, p) idx. if decorative p then idx else if pr_handle (style p) = [] then idx
          else dict_push (pr_handle (style p)) i idx) xs d =
      fold (\<lambda>x. dict_push (pr_handle (style (snd x))) (fst x)) (filter (\<lambda>x. selectable (snd x)) xs) d" for xs d
    by (induction xs arbitrary: d) (simp_all add: case_prod_beta selectable_def)
  then show ?thesis by (simp add: build_handle_index_def)
qed

lemma handle_index_ok: "dict_ok (build_handle_index ps)"
  unfolding handle_index_filter by (rule fold_push_ok) simp

lemma snd_enumerate_image: "(\<lambda>x. f (snd x)) ` set (filter (\<lambda>x. P (snd x)) (enumerate n ps)) = f ` {p \<in> set ps. P p}"
proof (induction ps arbitrary: n)
  case (Cons p ps)
  have "{q \<in> set (p # ps). P q} = (if P p then insert p {q \<in> set ps. P q} else {q \<in> set ps. P q})" by auto
  then show ?case using Cons by simp
qed simp

lemma handle_index_keys: "fst ` set (build_handle_index ps) = (\<lambda>p. pr_handle (style p)) ` {p \<in> set ps. selectable p}"
  unfolding handle_index_filter fold_push_keys
  using snd_enumerate_image[of "\<lambda>p. pr_handle (style p)" selectable 0 ps] by (simp del: set_filter)

lemma shapes_keys: "fst ` set (build_entity_shapes nm ps idx) \<subseteq> fst ` set idx"
  by (force simp: build_entity_shapes_def in_map_filter)

lemma shapes_ok:
  assumes "dict_ok idx"
  shows "dict_ok (build_entity_shapes nm ps idx)"
proof -
  have "map fst (List.map_filter (\<lambda>(h, l). map_option (Pair h) (f h l)) idx) = map fst (filter (\<lambda>(h, l). f h l \<noteq> None) idx)" for f
    by (induction idx) (auto split: option.splits)
  from this[of "entity_shape nm ps idx"] show ?thesis
    using distinct_map_filter[OF assms] unfolding build_entity_shapes_def by simp
qed

section \<open>Matches are entities of the drawing\<close>

definition drawn_in :: "drawing \<Rightarrow> match_output \<Rightarrow> bool" where
  "drawn_in drawing out \<longleftrightarrow> (\<forall>m\<in>set (matches out). set (m_handles m) \<subseteq> fst ` set drawing) \<and>
     (\<forall>n\<in>set (near_misses out). set (n_handles n) \<subseteq> fst ` set drawing)"

lemma within_no_output: "drawn_in drawing no_output"
  by (simp add: drawn_in_def no_output_def)

lemma within_output_of:
  "set ps \<subseteq> set drawing \<Longrightarrow>
     drawn_in drawing (output_of (map (\<lambda>p. judge_candidate nm tn ts tol (fst p) (snd p)) ps))"
  by (auto 4 4 simp: drawn_in_def image_iff Bex_def output_of_def verdict_matches_def verdict_misses_def
      split: candidate_verdict.splits dest!: judge_handles[OF sym])

lemma within_match_single: "dict_ok drawing \<Longrightarrow> drawn_in drawing (match_single nm tn n t drawing skip tol)"
  by (simp add: match_single_parallel match_single_serial_eq within_no_output within_output_of)

lemma within_signature: "drawn_in drawing (match_signature_mode tn t drawing skip r)"
  by (force simp: drawn_in_def match_signature_mode_def no_output_def)

lemma within_circle: "drawn_in drawing (match_single_circle t drawing skip)"
  unfolding drawn_in_def circle_matches_set
  by auto (simp add: match_single_circle_def Let_def no_output_def)

lemma clusters_within: "h \<in> set (dict_list (get_position_clusters drawing) k) \<Longrightarrow> h \<in> fst ` set drawing"
proof -
  have "get_position_clusters drawing = fold (\<lambda>p. dict_push (cluster_key (snd p)) (fst p)) drawing []"
    by (simp add: get_position_clusters_def case_prod_beta')
  then show "h \<in> set (dict_list (get_position_clusters drawing) k) \<Longrightarrow> h \<in> fst ` set drawing"
    by (auto simp: fold_push_list)
qed

lemma pick_mates_sub: "set (pick_mates n skip picked cms) \<subseteq> set picked \<union> set cms"
  by (induction n skip picked cms rule: pick_mates.induct) auto

lemma expand_match_within:
  assumes "set (map fst m) \<subseteq> fst ` set drawing"
  shows "set (expand_match drawing skip m) \<subseteq> fst ` set drawing"
proof
  fix h assume "h \<in> set (expand_match drawing skip m)"
  then obtain g k n where g: "(g, k) \<in> set m"
    "h \<in> set (pick_mates n skip [g] (case map_of (get_position_clusters drawing) (cluster_key (shape_at drawing g)) of
        None \<Rightarrow> [g] | Some members \<Rightarrow> members))"
    by (auto simp: expand_match_def)
  let ?ms = "dict_list (get_position_clusters drawing) (cluster_key (shape_at drawing g))"
  have "h = g \<or> h \<in> set ?ms"
    using pick_mates_sub g(2) by (fastforce simp: dict_list_def split: option.splits)
  moreover have "g \<in> fst ` set drawing" using assms g(1) by force
  ultimately show "h \<in> fst ` set drawing" using clusters_within by blast
qed

lemma dedupe_nonempty:
  assumes "ts \<noteq> []" shows "dedupe_template_shapes ts \<noteq> []"
proof -
  let ?step = "\<lambda>t (seen, unique). if cluster_key t \<in> set seen then (seen, unique) else (cluster_key t # seen, t # unique)"
  have keep: "snd (fold ?step us (seen, unique)) \<noteq> []" if "unique \<noteq> []" for us seen and unique :: "shape list"
    using that by (induction us arbitrary: seen unique) simp_all
  obtain t us where "ts = t # us" using assms by (cases ts) auto
  then show ?thesis using keep[of "[t]" us "[cluster_key t]"] by (simp add: dedupe_template_shapes_def case_prod_beta)
qed

lemma list_all2_left_set: "list_all2 (\<lambda>h _. h \<in> A) hs us \<Longrightarrow> set hs \<subseteq> A"
  by (induction rule: list_all2_induct) auto

lemma within_multi:
  assumes "ball_correct nm" "dict_ok drawing" "2 \<le> length ts" "match_multi nm tn ts drawing skip tol excl = Inr out"
  shows "drawn_in drawing out"
proof (cases "length (dedupe_template_shapes ts) = 1")
  case True
  then show ?thesis using assms within_match_single by (auto simp: match_multi_def Let_def split: if_split_asm)
next
  case False
  let ?ts = "dedupe_template_shapes ts"
  let ?sc = "choose_seed (get_fingerprint_buckets drawing) ?ts"
  have d: "distinct ?ts" using dedupe_template_shapes(1) unfolding distinct_map by (rule conjunct1)
  have "?ts \<noteq> []" using assms(3) by (intro dedupe_nonempty) auto
  note u = choose_seed_mset[OF d this, of "get_fingerprint_buckets drawing"]
  have "length (sc_seed ?sc # sc_others ?sc) = length ?ts" by (rule mset_eq_length[OF u])
  then have others: "sc_others ?sc \<noteq> []" using False \<open>?ts \<noteq> []\<close> by (cases ?ts) auto
  obtain keys where out: "out = no_output\<lparr>matches := expand_all drawing skip (raw_matches nm drawing skip keys ?sc)\<rparr>"
    using assms(3,4) False unfolding match_multi_def Let_def by (auto split: if_split_asm)
  have "set (m_handles r) \<subseteq> fst ` set drawing" if "r \<in> set (matches out)" for r
  proof -
    from that obtain m where m: "m \<in> set (raw_matches nm drawing skip keys ?sc)"
      "r = \<lparr>m_handles = expand_match drawing skip m, m_score = 0, m_scale = 1\<rparr>"
      unfolding out using expand_all_in by (force simp: no_output_def)
    have "list_all2 (fills drawing skip) (map fst m) (sc_seed ?sc # sc_others ?sc)"
      using raw_match_covers[OF assms(1,2) others m(1)] by (simp only: covers_def)
    then have "list_all2 (\<lambda>h _. h \<in> fst ` set drawing) (map fst m) (sc_seed ?sc # sc_others ?sc)"
      by (rule list_all2_mono) (simp add: fills_def)
    then have "set (map fst m) \<subseteq> fst ` set drawing" by (rule list_all2_left_set)
    then show ?thesis using m(2) expand_match_within by simp
  qed
  then show ?thesis by (simp add: drawn_in_def out no_output_def)
qed

lemma within_dispatch:
  assumes "ball_correct nm" "dict_ok drawing" "dispatch nm tn n ts drawing skip tol strategy r excl = Inr out"
  shows "drawn_in drawing out"
proof -
  consider "ts = []" | "length ts = 1" | "2 \<le> length ts" by (cases ts; cases "tl ts") auto
  then show ?thesis
    using assms within_match_single within_signature within_circle within_no_output within_multi[OF assms(1,2)]
    by cases (auto simp: dispatch_def Let_def split: if_split_asm)
qed

text \<open>The matcher answers with entities: whatever the template, the strategy and the tolerance, every
  handle of a match or near miss in a drawing built from a file's primitives is the handle of a
  primitive of that file that is not decorative, so text and dimensions are never matched.\<close>

theorem matches_are_selectable:
  assumes "ball_correct nm"
    and "find_matches_from_pointsets nm tn n sets (build_entity_shapes nm ps (build_handle_index ps)) tol kinds strategy r = Inr out"
    and "(\<exists>m\<in>set (matches out). h \<in> set (m_handles m)) \<or> (\<exists>m\<in>set (near_misses out). h \<in> set (n_handles m))"
  shows "\<exists>p\<in>set ps. pr_handle (style p) = h \<and> \<not> decorative p \<and> h \<noteq> []"
proof -
  let ?d = "build_entity_shapes nm ps (build_handle_index ps)"
  have "drawn_in ?d out"
    using assms(2) within_dispatch[OF assms(1) shapes_ok[OF handle_index_ok]]
    by (auto simp: find_matches_from_pointsets_def split: option.splits if_splits)
  then have "h \<in> fst ` set ?d" using assms(3) by (auto simp: drawn_in_def)
  then have "h \<in> fst ` set (build_handle_index ps)" using shapes_keys by blast
  then show ?thesis unfolding handle_index_keys by (auto simp: selectable_def)
qed

definition two_balls :: "primitive list" where
  "two_balls = [\<lparr>geom = PCircle (0, 0) 1 False, style = black, decorative = False\<rparr>,
     \<lparr>geom = PCircle (9, 9) 1 False, style = black\<lparr>pr_handle := ''T''\<rparr>, decorative = True\<rparr>]"

lemma matches_are_selectable_witness:
  "\<exists>out. find_matches_from_pointsets exact_numerics compiled_tunables 1 [[(0, 0), (1, 0), (0, 1)]]
       (build_entity_shapes exact_numerics two_balls (build_handle_index two_balls)) None None ''signature'' (Some 1) = Inr out \<and>
     (\<forall>m\<in>set (matches out). \<forall>h\<in>set (m_handles m). \<exists>p\<in>set two_balls. pr_handle (style p) = h \<and> \<not> decorative p)"
proof -
  let ?run = "find_matches_from_pointsets exact_numerics compiled_tunables 1 [[(0, 0), (1, 0), (0, 1)]]
       (build_entity_shapes exact_numerics two_balls (build_handle_index two_balls)) None None ''signature'' (Some 1)"
  have "\<exists>out. ?run = Inr out" by (simp add: find_matches_from_pointsets_def dispatch_def)
  then obtain out where out: "?run = Inr out" by blast
  note s = matches_are_selectable[OF exact_numerics_ball out]
  show ?thesis using out s by blast
qed

end
