(* ===== verification/DrcBundle.thy ===== *)
theory DrcBundle
  imports VersionStore Blobs Dxf
begin

text \<open>
  \<^verbatim>\<open>app/drc_bundle.py\<close>: the manifest of a version and the two ways its handoff bundle is written, as a
  zip for the download and as a directory for the rule-check worker. A zip is the list of its entries
  in writing order, a directory tree the dict of its files; the time stamp is an argument.
\<close>

definition BUNDLE_VERSION :: string where "BUNDLE_VERSION = ''2.3.0''"
definition MANIFEST_FILENAME :: string where "MANIFEST_FILENAME = ''manifest.json''"

text \<open>The last internal spelling is the UTF-8 encoding of the micrometre sign.\<close>

definition INTERNAL_TO_MANIFEST_UNIT :: "(string, string) dict" where
  "INTERNAL_TO_MANIFEST_UNIT = [(''mm'', ''mm''), (''cm'', ''cm''), (''m'', ''m''), (''inch'', ''inch''),
     (map (\<lambda>n. char_of (n :: nat)) [206, 188, 109], ''um'')]"

definition INSUNITS_TO_MANIFEST_UNIT :: "(int, string) dict" where
  "INSUNITS_TO_MANIFEST_UNIT = [(1, ''inch''), (4, ''mm''), (5, ''cm''), (6, ''m''), (7, ''km''), (13, ''um'')]"

definition SCALE_TO_UNIT :: "(real, string) dict" where
  "SCALE_TO_UNIT = map (\<lambda>(k, v). (v, k)) UNIT_TO_SCALE"

definition original_unit :: "file_record \<Rightarrow> string option" where
  "original_unit rc = (case r_insunits rc of None \<Rightarrow> None | Some u \<Rightarrow> map_of INSUNITS_TO_MANIFEST_UNIT u)"

definition user_unit :: "file_record \<Rightarrow> string option" where
  "user_unit rc =
     (let chosen = b_user_unit_override (r_binding rc);
          internal = (if or_empty chosen \<noteq> [] then chosen else map_of SCALE_TO_UNIT (b_applied_scale (r_binding rc)))
      in case internal of None \<Rightarrow> None | Some u \<Rightarrow> if u = [] then None else map_of INTERNAL_TO_MANIFEST_UNIT u)"

definition views_of :: "file_record \<Rightarrow> string list" where
  "views_of rc =
     map fst (filter (\<lambda>(name, r). r \<noteq> None)
       [(''top'', b_top_view_rect (r_binding rc)), (''bottom'', b_bottom_view_rect (r_binding rc)),
        (''side'', b_side_view_rect (r_binding rc))])"

definition dxf_entry :: "file_record \<Rightarrow> string" where
  "dxf_entry rc = ''dxfs/'' @ r_id rc @ ''.dxf''"

definition match_entry :: "file_record \<Rightarrow> string" where
  "match_entry rc = ''match/'' @ r_id rc @ ''.json''"

definition file_entry :: "file_record \<Rightarrow> json" where
  "file_entry rc =
     JObj [(''role'', JStr (b_role (r_binding rc))), (''file_id'', JStr (r_id rc)), (''dxf'', JStr (dxf_entry rc)),
       (''match_json'', JStr (match_entry rc)), (''user_unit'', json_opt (user_unit rc)),
       (''original_unit'', json_opt (original_unit rc)), (''view'', JList (map JStr (views_of rc)))]"

datatype bundle_error = WrongProduct string string string | VersionMissing string | BundleBlob blob_error

definition build_manifest ::
  "product \<Rightarrow> version \<Rightarrow> file_record list \<Rightarrow> string option \<Rightarrow> string \<Rightarrow> bundle_error + json" where
  "build_manifest p v fs customer_name exported_at =
     (if v_product_id v \<noteq> p_id p then Inl (WrongProduct (v_id v) (v_product_id v) (p_id p))
      else Inr (JObj (
        [(''bundle_version'', JStr BUNDLE_VERSION), (''product_id'', JStr (p_id p)),
         (''customer_id'', JStr (p_customer_id p)), (''version_id'', JStr (v_id v)),
         (''version_label'', JStr (v_label v)), (''check_dam'', JBool (v_check_dam v)),
         (''exported_at'', JStr exported_at), (''files'', JList (map file_entry fs))] @
        (if p_name p \<noteq> [] then [(''product_name'', JStr (p_name p))] else []) @
        (if or_empty customer_name \<noteq> [] then [(''customer'', JStr (or_empty customer_name))] else []))))"

text \<open>Both writers copy the upload and the Match JSON of each file, in order, and stop at the first
  missing blob.\<close>

fun copied_files :: "local_files \<Rightarrow> string \<Rightarrow> file_record list \<Rightarrow> bundle_error + (string \<times> blob) list" where
  "copied_files blobs vid [] = Inr []"
| "copied_files blobs vid (rc # rcs) =
     (case local_get (upload_key (r_id rc)) blobs of
        Inl e \<Rightarrow> Inl (BundleBlob e)
      | Inr dxf \<Rightarrow>
          (case local_get (match_key vid (r_id rc)) blobs of
             Inl e \<Rightarrow> Inl (BundleBlob e)
           | Inr m \<Rightarrow>
               (case copied_files blobs vid rcs of
                  Inl e \<Rightarrow> Inl e
                | Inr es \<Rightarrow> Inr ((dxf_entry rc, dxf) # (match_entry rc, m) # es))))"

definition bundle_filename :: "product \<Rightarrow> version \<Rightarrow> string" where
  "bundle_filename p v = ''drc-bundle-'' @ p_id p @ ''-'' @ v_id v @ ''.zip''"

definition build_bundle ::
  "product \<Rightarrow> version \<Rightarrow> file_record list \<Rightarrow> string option \<Rightarrow> string \<Rightarrow> local_files
     \<Rightarrow> bundle_error + (string \<times> blob) list \<times> string" where
  "build_bundle p v fs customer_name exported_at blobs =
     (case build_manifest p v fs customer_name exported_at of
        Inl e \<Rightarrow> Inl e
      | Inr manifest \<Rightarrow>
          (case copied_files blobs (v_id v) fs of
             Inl e \<Rightarrow> Inl e
           | Inr es \<Rightarrow> Inr ((MANIFEST_FILENAME, Json manifest) # es, bundle_filename p v)))"

text \<open>The directory: files are created in the order of the code and a later write to a path replaces
  an earlier one.\<close>

fun write_files :: "local_files \<Rightarrow> string \<Rightarrow> file_record list \<Rightarrow> (string, blob) dict \<Rightarrow> bundle_error + (string, blob) dict" where
  "write_files blobs vid [] tree = Inr tree"
| "write_files blobs vid (rc # rcs) tree =
     (case local_get (upload_key (r_id rc)) blobs of
        Inl e \<Rightarrow> Inl (BundleBlob e)
      | Inr dxf \<Rightarrow>
          (case local_get (match_key vid (r_id rc)) blobs of
             Inl e \<Rightarrow> Inl (BundleBlob e)
           | Inr m \<Rightarrow> write_files blobs vid rcs (AList.update (match_entry rc) m (AList.update (dxf_entry rc) dxf tree))))"

definition build_bundle_dir ::
  "product \<Rightarrow> version \<Rightarrow> file_record list \<Rightarrow> string option \<Rightarrow> string \<Rightarrow> local_files
     \<Rightarrow> bundle_error + (string, blob) dict" where
  "build_bundle_dir p v fs customer_name exported_at blobs =
     (case build_manifest p v fs customer_name exported_at of
        Inl e \<Rightarrow> Inl e
      | Inr manifest \<Rightarrow> write_files blobs (v_id v) fs [(MANIFEST_FILENAME, Json manifest)])"

text \<open>The version is resolved freshly; the directory lives for the duration of the call and the
  customer name is not passed on.\<close>

definition materialise_bundle ::
  "product \<Rightarrow> string \<Rightarrow> file_record list \<Rightarrow> string \<Rightarrow> core_db \<Rightarrow> local_files \<Rightarrow> bundle_error + (string, blob) dict" where
  "materialise_bundle p version_id fs exported_at db blobs =
     (case get_version version_id db of
        None \<Rightarrow> Inl (VersionMissing version_id)
      | Some v \<Rightarrow> build_bundle_dir p v fs None exported_at blobs)"

section \<open>The two writers agree\<close>

lemma write_files_copied:
  "write_files blobs vid fs tree =
     (case copied_files blobs vid fs of Inl e \<Rightarrow> Inl e | Inr es \<Rightarrow> Inr (fold (\<lambda>(k, b). AList.update k b) es tree))"
  by (induction fs arbitrary: tree) (simp_all split: sum.splits)

lemma entries_of_copied:
  "copied_files blobs vid fs = Inr es \<Longrightarrow> map fst es = concat (map (\<lambda>rc. [dxf_entry rc, match_entry rc]) fs)"
  by (induction fs arbitrary: es) (auto split: sum.splits)

lemma entry_names_distinct:
  "dxf_entry rc = dxf_entry rc' \<longleftrightarrow> r_id rc = r_id rc'" "match_entry rc = match_entry rc' \<longleftrightarrow> r_id rc = r_id rc'"
  "dxf_entry rc \<noteq> match_entry rc'" "dxf_entry rc \<noteq> MANIFEST_FILENAME" "match_entry rc \<noteq> MANIFEST_FILENAME"
  by (auto simp: dxf_entry_def match_entry_def MANIFEST_FILENAME_def)

lemma bundle_names_distinct:
  "distinct (map r_id fs) \<Longrightarrow>
     distinct (MANIFEST_FILENAME # concat (map (\<lambda>rc. [dxf_entry rc, match_entry rc]) fs))"
proof (induction fs)
  case (Cons rc fs)
  then have "r_id rc' \<noteq> r_id rc" if "rc' \<in> set fs" for rc' using that by (auto simp: image_iff)
  then show ?case using Cons entry_names_distinct by (auto dest: sym)
qed simp

lemma fold_update_append:
  "distinct (map fst (tree @ es)) \<Longrightarrow> fold (\<lambda>(k, b). AList.update k b) es tree = tree @ es"
proof (induction es arbitrary: tree)
  case (Cons kb es)
  obtain k b where kb: "kb = (k, b)" by force
  then have "k \<notin> fst ` set tree" using Cons.prems by auto
  then have "AList.update k b tree = tree @ [(k, b)]" by (induction tree) auto
  then show ?case using Cons.IH[of "tree @ [(k, b)]"] Cons.prems kb by simp
qed simp

text \<open>The builders called with one customer name give the same files or the same error.\<close>

lemma built_dir_is_built_zip:
  assumes "distinct (map r_id fs)"
  shows "build_bundle_dir p v fs customer_name exported_at blobs =
    (case build_bundle p v fs customer_name exported_at blobs of Inl e \<Rightarrow> Inl e | Inr (entries, name) \<Rightarrow> Inr entries)"
proof (cases "build_manifest p v fs customer_name exported_at")
  case (Inr manifest)
  show ?thesis
  proof (cases "copied_files blobs (v_id v) fs")
    case (Inr es)
    have "distinct (map fst ([(MANIFEST_FILENAME, Json manifest)] @ es))"
      using bundle_names_distinct[OF assms] by (simp add: entries_of_copied[OF Inr])
    from fold_update_append[OF this] show ?thesis
      using \<open>build_manifest p v fs customer_name exported_at = Inr manifest\<close> Inr
      by (simp add: build_bundle_dir_def build_bundle_def write_files_copied)
  qed (simp add: Inr build_bundle_dir_def build_bundle_def write_files_copied)
qed (simp add: build_bundle_dir_def build_bundle_def)

text \<open>What is copied: per file the upload and the Match JSON, under the names of the manifest.\<close>

lemma copied_contents:
  "copied_files blobs vid fs = Inr es \<Longrightarrow> rc \<in> set fs \<Longrightarrow>
     (\<exists>dxf. local_get (upload_key (r_id rc)) blobs = Inr dxf \<and> (dxf_entry rc, dxf) \<in> set es) \<and>
     (\<exists>m. local_get (match_key vid (r_id rc)) blobs = Inr m \<and> (match_entry rc, m) \<in> set es)"
  by (induction fs arbitrary: es) (auto split: sum.splits)

definition customer_field :: "string option \<Rightarrow> (string \<times> json) list" where
  "customer_field customer_name = (if or_empty customer_name \<noteq> [] then [(''customer'', JStr (or_empty customer_name))] else [])"

lemma manifest_customer:
  "(\<exists>e. \<forall>c. build_manifest p v fs c exported_at = Inl e) \<or>
   (\<exists>fields. ''customer'' \<notin> fst ` set fields \<and> (\<forall>c. build_manifest p v fs c exported_at = Inr (JObj (fields @ customer_field c))))"
proof (cases "v_product_id v = p_id p")
  case True
  show ?thesis
    by (rule disjI2, rule exI[of _ "[(''bundle_version'', JStr BUNDLE_VERSION), (''product_id'', JStr (p_id p)),
         (''customer_id'', JStr (p_customer_id p)), (''version_id'', JStr (v_id v)),
         (''version_label'', JStr (v_label v)), (''check_dam'', JBool (v_check_dam v)),
         (''exported_at'', JStr exported_at), (''files'', JList (map file_entry fs))] @
        (if p_name p \<noteq> [] then [(''product_name'', JStr (p_name p))] else [])"])
      (use True in \<open>auto simp: build_manifest_def customer_field_def\<close>)
qed (simp add: build_manifest_def)

text \<open>C37. The directory the rule-check worker hands to the external checker against the zip a user downloads
  for the same product, version, files and time: the builders fail together, with the same missing blob
  or the same version of another product; otherwise both hold, besides the manifest, the same files in
  the same order with the same contents, namely the upload and the Match JSON of every file under the
  names of the manifest, and the manifests differ in the customer's name only, which the download adds
  as a last field (when it is not empty) and the worker leaves out.\<close>

theorem bundle_dir_is_the_zip:
  assumes "distinct (map r_id fs)" "get_version (v_id v) db = Some v"
  shows "case build_bundle p v fs customer_name exported_at blobs of
      Inl e \<Rightarrow> materialise_bundle p (v_id v) fs exported_at db blobs = Inl e
    | Inr (entries, name) \<Rightarrow>
        (\<exists>fields es. ''customer'' \<notin> fst ` set fields \<and>
           entries = (MANIFEST_FILENAME, Json (JObj (fields @ customer_field customer_name))) # es \<and>
           materialise_bundle p (v_id v) fs exported_at db blobs = Inr ((MANIFEST_FILENAME, Json (JObj fields)) # es) \<and>
           map fst es = concat (map (\<lambda>rc. [dxf_entry rc, match_entry rc]) fs) \<and>
           (\<forall>rc\<in>set fs. \<exists>dxf m. local_get (upload_key (r_id rc)) blobs = Inr dxf \<and> (dxf_entry rc, dxf) \<in> set es \<and>
              local_get (match_key (v_id v) (r_id rc)) blobs = Inr m \<and> (match_entry rc, m) \<in> set es))"
proof -
  have w: "materialise_bundle p (v_id v) fs exported_at db blobs =
      (case build_bundle p v fs None exported_at blobs of Inl e \<Rightarrow> Inl e | Inr (entries, name) \<Rightarrow> Inr entries)"
    by (simp add: materialise_bundle_def assms(2) built_dir_is_built_zip[OF assms(1)])
  have none: "customer_field None = []" by (simp add: customer_field_def or_empty_def)
  from manifest_customer[of p v fs exported_at] show ?thesis
  proof (elim disjE exE conjE)
    fix e assume "\<forall>c. build_manifest p v fs c exported_at = Inl e"
    then show ?thesis by (simp add: w build_bundle_def)
  next
    fix fields assume f: "''customer'' \<notin> fst ` set fields"
      and m: "\<forall>c. build_manifest p v fs c exported_at = Inr (JObj (fields @ customer_field c))"
    show ?thesis
    proof (cases "copied_files blobs (v_id v) fs")
      case (Inr es)
      have "\<forall>rc\<in>set fs. \<exists>dxf m. local_get (upload_key (r_id rc)) blobs = Inr dxf \<and> (dxf_entry rc, dxf) \<in> set es \<and>
          local_get (match_key (v_id v) (r_id rc)) blobs = Inr m \<and> (match_entry rc, m) \<in> set es"
        using copied_contents[OF Inr] by blast
      then show ?thesis using f m none Inr entries_of_copied[OF Inr]
        by (simp add: w build_bundle_def)
    qed (simp add: w build_bundle_def m)
  qed
qed

definition bundled_file :: file_record where
  "bundled_file = \<lparr>r_id = ''f'', r_version_id = ''v1'', r_name = ''a.dxf'', r_size = 3, r_uploaded_at = 1,
     r_insunits = Some 4, r_recover_notes = None, r_binding = new_binding ''v1'' ''SBT'' ''f'' None ReadyToMatch 1\<rparr>"

definition bundle_blobs :: local_files where
  "bundle_blobs = [(upload_key ''f'', (Raw ''dxf'', 1)), (match_key ''v1'' ''f'', (Json (JObj []), 2))]"

lemma bundle_dir_is_the_zip_witness:
  "\<exists>fields es. build_bundle \<lparr>p_id = ''p'', p_name = ''chip'', p_created_at = 1, p_customer_id = ''c''\<rparr> first_version
       [bundled_file] (Some ''acme'') ''2026-05-19T07:30:00Z'' bundle_blobs =
     Inr ((MANIFEST_FILENAME, Json (JObj (fields @ [(''customer'', JStr ''acme'')]))) # es, ''drc-bundle-p-v1.zip'') \<and>
   materialise_bundle \<lparr>p_id = ''p'', p_name = ''chip'', p_created_at = 1, p_customer_id = ''c''\<rparr> ''v1''
       [bundled_file] ''2026-05-19T07:30:00Z'' one_product bundle_blobs = Inr ((MANIFEST_FILENAME, Json (JObj fields)) # es) \<and>
   map fst es = [''dxfs/f.dxf'', ''match/f.json'']"
proof -
  let ?p = "\<lparr>p_id = ''p'', p_name = ''chip'', p_created_at = 1, p_customer_id = ''c''\<rparr>"
  have v: "v_id first_version = ''v1''" by (simp add: first_version_def)
  have g: "get_version (v_id first_version) one_product = Some first_version"
    by (simp add: get_version_def one_product_simps row_by_def)
  have "\<exists>entries. build_bundle ?p first_version [bundled_file] (Some ''acme'') ''2026-05-19T07:30:00Z'' bundle_blobs =
      Inr (entries, ''drc-bundle-p-v1.zip'')"
    by (simp add: bundled_file_def build_bundle_def build_manifest_def first_version_def bundle_blobs_def local_get_def
        upload_key_def match_key_def bundle_filename_def)
  then obtain entries where e: "build_bundle ?p first_version [bundled_file] (Some ''acme'') ''2026-05-19T07:30:00Z'' bundle_blobs =
      Inr (entries, ''drc-bundle-p-v1.zip'')" by blast
  have n: "concat (map (\<lambda>rc. [dxf_entry rc, match_entry rc]) [bundled_file]) = [''dxfs/f.dxf'', ''match/f.json'']"
    by (simp add: dxf_entry_def match_entry_def bundled_file_def)
  have c: "customer_field (Some ''acme'') = [(''customer'', JStr ''acme'')]" by (simp add: customer_field_def or_empty_def)
  have "distinct (map r_id [bundled_file])" by simp
  from bundle_dir_is_the_zip[OF this g, where p = ?p and customer_name = "Some ''acme''" and
      exported_at = "''2026-05-19T07:30:00Z''" and blobs = bundle_blobs]
  obtain fields es where r: "entries = (MANIFEST_FILENAME, Json (JObj (fields @ [(''customer'', JStr ''acme'')]))) # es"
    "materialise_bundle ?p ''v1'' [bundled_file] ''2026-05-19T07:30:00Z'' one_product bundle_blobs =
      Inr ((MANIFEST_FILENAME, Json (JObj fields)) # es)" "map fst es = [''dxfs/f.dxf'', ''match/f.json'']"
    unfolding e sum.case prod.case n c v by (elim exE conjE)
  show ?thesis by (intro exI[of _ fields] exI[of _ es] conjI e[unfolded r(1)] r(2,3))
qed

text \<open>The unit in the manifest is the operator's choice or, failing that, the one the scale stands for.\<close>

lemma user_unit_of_scale: "map_of SCALE_TO_UNIT k = Some u \<Longrightarrow> map_of UNIT_TO_SCALE u = Some k"
  by (auto simp: SCALE_TO_UNIT_def UNIT_TO_SCALE_def split: if_splits)

end
