(* ===== verification/Artifacts.thy ===== *)
theory Artifacts
  imports Layers FileStore
begin

text \<open>
  The JSON artifacts the workers of \<^verbatim>\<open>app/jobs.py\<close> hand to each other through the blob store: the
  primitive dicts of \<^verbatim>\<open>JSONBackend\<close>, the transient cache of the discovery phase, the parsed file,
  the pre-match snapshot and the two manifests. The code has no codec of its own (the dicts are the
  JSON), so the writers here build the dict literals of the code and the readers are the subscripts and
  the \<^verbatim>\<open>get\<close> calls of the consumers; a subscript of a missing key is None.
\<close>

section \<open>Scalars and points\<close>

definition num :: "real \<Rightarrow> json" where
  "num x = JFloat (Fin x)"

definition point_json :: "point \<Rightarrow> json" where
  "point_json p = JList [num (fst p), num (snd p)]"

definition points_json :: "point list \<Rightarrow> json" where
  "points_json ps = JList (map point_json ps)"

definition json_maybe :: "('a \<Rightarrow> json) \<Rightarrow> 'a option \<Rightarrow> json" where
  "json_maybe f x = (case x of None \<Rightarrow> JNull | Some y \<Rightarrow> f y)"

definition bbox_json :: "bbox \<Rightarrow> json" where
  "bbox_json b = (case b of (xmin, ymin, xmax, ymax) \<Rightarrow> JList [num xmin, num ymin, num xmax, num ymax])"

fun real_of_json :: "json \<Rightarrow> real option" where
  "real_of_json (JFloat (Fin x)) = Some x"
| "real_of_json (JInt n) = Some (real_of_int n)"
| "real_of_json _ = None"

fun point_of_json :: "json \<Rightarrow> point option" where
  "point_of_json (JList [a, b]) =
     (case (real_of_json a, real_of_json b) of (Some x, Some y) \<Rightarrow> Some (x, y) | _ \<Rightarrow> None)"
| "point_of_json _ = None"

fun list_of_json :: "(json \<Rightarrow> 'a option) \<Rightarrow> json \<Rightarrow> 'a list option" where
  "list_of_json f (JList js) = those (map f js)"
| "list_of_json f _ = None"

fun str_of_json :: "json \<Rightarrow> string option" where
  "str_of_json (JStr s) = Some s"
| "str_of_json _ = None"

fun bbox_of_json :: "json \<Rightarrow> bbox option" where
  "bbox_of_json (JList [a, b, c, d]) =
     (case (real_of_json a, real_of_json b, real_of_json c, real_of_json d) of
        (Some x, Some y, Some z, Some w) \<Rightarrow> Some (x, y, z, w) | _ \<Rightarrow> None)"
| "bbox_of_json _ = None"

definition field :: "string \<Rightarrow> (json \<Rightarrow> 'a option) \<Rightarrow> json \<Rightarrow> 'a option" where
  "field k f j = Option.bind (json_get k j) f"

lemma those_Some [simp]: "those (map Some xs) = Some xs"
  by (induction xs) simp_all

lemma real_of_num [simp]: "real_of_json (num x) = Some x"
  by (simp add: num_def)

lemma point_of_point_json [simp]: "point_of_json (point_json p) = Some p"
  by (simp add: point_json_def)

lemma points_of_points_json [simp]: "list_of_json point_of_json (points_json ps) = Some ps"
  by (simp add: points_json_def comp_def)

lemma bbox_of_bbox_json [simp]: "bbox_of_json (bbox_json b) = Some b"
  by (cases b) (simp add: bbox_json_def)

section \<open>Primitives\<close>

definition geometry_json :: "geometry \<Rightarrow> (string \<times> json) list" where
  "geometry_json g =
     (case g of
        PPoint p \<Rightarrow> [(''type'', JStr ''point''), (''pos'', point_json p)]
      | PLine s e \<Rightarrow> [(''type'', JStr ''line''), (''start'', point_json s), (''end'', point_json e)]
      | PPolyline ps cl \<Rightarrow> [(''type'', JStr ''polyline''), (''points'', points_json ps), (''closed'', JBool cl)]
      | PCircle c r filled \<Rightarrow>
          [(''type'', JStr ''circle'')] @ (if filled then [(''filled'', JBool True)] else []) @
          [(''center'', point_json c), (''r'', num r)]
      | PFilled rings \<Rightarrow> [(''type'', JStr ''filled_polygon''), (''rings'', JList (map points_json rings))])"

definition props_json :: "props \<Rightarrow> (string \<times> json) list" where
  "props_json p =
     [(''color'', JStr (pr_color p)), (''layer'', JStr (pr_layer p)), (''lineweight'', num (pr_lineweight p)),
      (''handle'', JStr (pr_handle p))]"

definition primitive_json :: "primitive \<Rightarrow> json" where
  "primitive_json p =
     JObj (geometry_json (geom p) @ props_json (style p) @
       (if decorative p then [(''decorative'', JBool True)] else []))"

definition truthy_flag :: "string \<Rightarrow> json \<Rightarrow> bool" where
  "truthy_flag k j \<longleftrightarrow> json_get k j = Some (JBool True)"

definition circle_of_json :: "json \<Rightarrow> geometry option" where
  "circle_of_json j =
     (case (field ''center'' point_of_json j, field ''r'' real_of_json j) of
        (Some c, Some r) \<Rightarrow> Some (PCircle c r (truthy_flag ''filled'' j)) | _ \<Rightarrow> None)"

definition line_of_json :: "json \<Rightarrow> geometry option" where
  "line_of_json j =
     (case (field ''start'' point_of_json j, field ''end'' point_of_json j) of
        (Some s, Some e) \<Rightarrow> Some (PLine s e) | _ \<Rightarrow> None)"

definition geometry_of_json :: "json \<Rightarrow> geometry option" where
  "geometry_of_json j =
     (case field ''type'' str_of_json j of
        None \<Rightarrow> None
      | Some t \<Rightarrow>
          if t = ''line'' then line_of_json j
          else if t = ''polyline'' then
            map_option (\<lambda>ps. PPolyline ps (truthy_flag ''closed'' j)) (field ''points'' (list_of_json point_of_json) j)
          else if t = ''filled_polygon'' then
            map_option PFilled (field ''rings'' (list_of_json (list_of_json point_of_json)) j)
          else if t = ''point'' then map_option PPoint (field ''pos'' point_of_json j)
          else if t = ''circle'' then circle_of_json j
          else None)"

definition props_of_json :: "json \<Rightarrow> props option" where
  "props_of_json j =
     (case (field ''color'' str_of_json j, field ''layer'' str_of_json j, field ''lineweight'' real_of_json j,
            field ''handle'' str_of_json j) of
        (Some c, Some l, Some w, Some h) \<Rightarrow>
          Some \<lparr>pr_color = c, pr_layer = l, pr_lineweight = w, pr_handle = h\<rparr>
      | _ \<Rightarrow> None)"

definition primitive_of_json :: "json \<Rightarrow> primitive option" where
  "primitive_of_json j =
     (case (geometry_of_json j, props_of_json j) of
        (Some g, Some p) \<Rightarrow> Some \<lparr>geom = g, style = p, decorative = truthy_flag ''decorative'' j\<rparr>
      | _ \<Rightarrow> None)"

definition primitives_json :: "primitive list \<Rightarrow> json" where
  "primitives_json ps = JList (map primitive_json ps)"

definition primitives_of_json :: "json \<Rightarrow> primitive list option" where
  "primitives_of_json = list_of_json primitive_of_json"

lemma rings_of_rings_json [simp]:
  "list_of_json (list_of_json point_of_json) (JList (map points_json rings)) = Some rings"
  by (simp add: comp_def)

lemmas codec = field_def truthy_flag_def geometry_json_def props_json_def

lemma primitive_of_primitive_json: "primitive_of_json (primitive_json p) = Some p"
proof (cases "geom p")
  case (PPoint q)
  then show ?thesis
    by (simp add: primitive_of_json_def geometry_of_json_def props_of_json_def primitive_json_def codec)
next
  case (PLine s e)
  then show ?thesis
    by (simp add: primitive_of_json_def geometry_of_json_def line_of_json_def props_of_json_def primitive_json_def codec)
next
  case (PPolyline ps cl)
  then show ?thesis
    by (simp add: primitive_of_json_def geometry_of_json_def props_of_json_def primitive_json_def codec)
next
  case (PCircle c r filled)
  then show ?thesis
    by (simp add: primitive_of_json_def geometry_of_json_def circle_of_json_def props_of_json_def primitive_json_def codec)
next
  case (PFilled rings)
  then show ?thesis
    by (simp add: primitive_of_json_def geometry_of_json_def props_of_json_def primitive_json_def codec
        del: list_of_json.simps)
qed

lemma primitives_round_trip: "primitives_of_json (primitives_json ps) = Some ps"
  by (simp add: primitives_of_json_def primitives_json_def comp_def primitive_of_primitive_json)

section \<open>The transient cache of the discovery phase\<close>

definition notes_json :: "recover_notes \<Rightarrow> json" where
  "notes_json n =
     JObj [(''strict_error'', JStr (rn_strict_error n)), (''n_fixed'', JInt (int (rn_n_fixed n))),
       (''n_unrecoverable'', JInt (int (rn_n_unrecoverable n))),
       (''audit_messages'', JList (map JStr (rn_audit_messages n)))]"

definition cache_json :: "render_output \<Rightarrow> json" where
  "cache_json out =
     JObj [(''primitives'', primitives_json (ro_primitives out)), (''bbox'', json_maybe bbox_json (ro_bbox out)),
       (''background'', JStr (ro_background out)), (''insunits'', json_maybe JInt (ro_insunits out)),
       (''applied_scale'', num (ro_applied_scale out)), (''recover_notes'', json_maybe notes_json (ro_recover_notes out)),
       (''source_layout'', json_opt (ro_source_layout out)), (''source_is_paperspace'', JBool (ro_source_is_paperspace out))]"

text \<open>What the preprocessing phase works on, from the cache or from the file itself.\<close>

record rendered =
  rd_primitives :: "primitive list"
  rd_bbox :: "bbox option"
  rd_background :: string
  rd_insunits :: "int option"
  rd_applied_scale :: real
  rd_notes :: "json option"
  rd_layout :: "string option"
  rd_paperspace :: bool

definition rendered_of_output :: "render_output \<Rightarrow> rendered" where
  "rendered_of_output out =
     \<lparr>rd_primitives = ro_primitives out, rd_bbox = ro_bbox out, rd_background = ro_background out,
      rd_insunits = ro_insunits out, rd_applied_scale = ro_applied_scale out,
      rd_notes = map_option notes_json (ro_recover_notes out), rd_layout = ro_source_layout out,
      rd_paperspace = ro_source_is_paperspace out\<rparr>"

fun int_of_json :: "json \<Rightarrow> int option" where
  "int_of_json (JInt n) = Some n"
| "int_of_json _ = None"

definition or_default :: "'a \<Rightarrow> 'a option \<Rightarrow> 'a" where
  "or_default d x = (case x of None \<Rightarrow> d | Some y \<Rightarrow> y)"

definition rendered_of_cache :: "json \<Rightarrow> rendered option" where
  "rendered_of_cache cached =
     (case field ''primitives'' primitives_of_json cached of
        None \<Rightarrow> None
      | Some ps \<Rightarrow>
          Some \<lparr>rd_primitives = ps, rd_bbox = field ''bbox'' bbox_of_json cached,
            rd_background = or_default ''#ffffff'' (field ''background'' str_of_json cached),
            rd_insunits = field ''insunits'' int_of_json cached,
            rd_applied_scale = or_default 1 (field ''applied_scale'' real_of_json cached),
            rd_notes = (case json_get ''recover_notes'' cached of Some (JObj d) \<Rightarrow> Some (JObj d) | _ \<Rightarrow> None),
            rd_layout = field ''source_layout'' str_of_json cached,
            rd_paperspace = truthy_flag ''source_is_paperspace'' cached\<rparr>)"

text \<open>What the discovery worker leaves in the transient cache is read back by the preprocessing
  worker as exactly the rendering it would get from the file: primitives, bounding box, background,
  unit, scale, audit notes and layout survive the passage through JSON.\<close>

lemma cache_round_trip: "rendered_of_cache (cache_json out) = Some (rendered_of_output out)"
  by (cases "ro_bbox out"; cases "ro_insunits out"; cases "ro_recover_notes out"; cases "ro_source_layout out")
    (simp_all add: rendered_of_cache_def cache_json_def rendered_of_output_def field_def truthy_flag_def
      or_default_def json_maybe_def json_opt_def notes_json_def primitives_round_trip bbox_json_def
      split: prod.splits)

section \<open>Parsed file, snapshot and manifests\<close>

definition layers_json :: "string list option \<Rightarrow> json" where
  "layers_json = json_maybe (\<lambda>ls. JList (map JStr ls))"

definition parsed_json :: "primitive list \<Rightarrow> rendered \<Rightarrow> string list option \<Rightarrow> json" where
  "parsed_json primitives rd selected_layers =
     JObj [(''primitives'', primitives_json primitives), (''bbox'', json_maybe bbox_json (rd_bbox rd)),
       (''background'', JStr (rd_background rd)), (''selected_layers'', layers_json selected_layers),
       (''source_layout'', json_opt (rd_layout rd))]"

definition handles_json :: "string list \<Rightarrow> json" where
  "handles_json hs = JList (map JStr hs)"

definition prematch_json :: "(string, string list) dict \<Rightarrow> nat \<Rightarrow> json" where
  "prematch_json by_class library_revision =
     JObj [(''by_class'', JObj (map (\<lambda>(c, hs). (c, handles_json hs)) by_class)),
       (''total'', JInt (int (sum_list (map (\<lambda>(c, hs). length hs) by_class)))),
       (''library_revision'', JInt (int library_revision))]"

definition match_json :: "(string, string list list) dict \<Rightarrow> json" where
  "match_json out = JObj (map (\<lambda>(k, is). (k, JList (map handles_json is))) out)"

record layer_entry =
  la_name :: string
  la_safe_name :: string
  la_entity_count :: nat

definition layer_entry_json :: "layer_entry \<Rightarrow> (string \<times> json) list" where
  "layer_entry_json e =
     [(''name'', JStr (la_name e)), (''safe_name'', JStr (la_safe_name e)),
      (''svg_filename'', JStr (la_safe_name e @ ''.svg'')), (''entity_count'', JInt (int (la_entity_count e)))]"

definition layer_manifest :: "string \<Rightarrow> layer_entry list \<Rightarrow> render_output \<Rightarrow> json" where
  "layer_manifest file_id es out =
     JObj [(''file_id'', JStr file_id), (''layers'', JList (map (\<lambda>e. JObj (layer_entry_json e)) es)),
       (''bbox'', json_maybe bbox_json (ro_bbox out)), (''background'', JStr (ro_background out)),
       (''source_layout'', json_opt (ro_source_layout out))]"

definition layout_manifest :: "string \<Rightarrow> (layer_entry \<times> bool) list \<Rightarrow> json" where
  "layout_manifest file_id es =
     JObj [(''file_id'', JStr file_id),
       (''layouts'', JList (map (\<lambda>(e, paper). JObj (layer_entry_json e @ [(''is_paperspace'', JBool paper)])) es))]"

lemma primitives_of_parsed [simp]: "field ''primitives'' primitives_of_json (parsed_json ps rd ls) = Some ps"
  by (simp add: field_def parsed_json_def primitives_round_trip)

lemma safe_names_of_entries:
  "entry_safe_names key (map (\<lambda>e. JObj (layer_entry_json e @ f e)) es) = Inr (map la_safe_name es)"
  by (induction es) (simp_all add: layer_entry_json_def)

lemma layer_manifest_names [simp]:
  "manifest_safe_names key ''layers'' (layer_manifest file_id es out) = Inr (map la_safe_name es)"
  using safe_names_of_entries[of key "\<lambda>_. []" es] by (simp add: manifest_safe_names_def layer_manifest_def)

lemma safe_names_of_pairs:
  "entry_safe_names key (map (\<lambda>(e, paper). JObj (layer_entry_json e @ f paper)) es) = Inr (map (la_safe_name \<circ> fst) es)"
  by (induction es) (auto simp: layer_entry_json_def)

lemma layout_manifest_names [simp]:
  "manifest_safe_names key ''layouts'' (layout_manifest file_id es) = Inr (map (la_safe_name \<circ> fst) es)"
  using safe_names_of_pairs[of key "\<lambda>paper. [(''is_paperspace'', JBool paper)]" es]
  by (simp add: manifest_safe_names_def layout_manifest_def)

end
