(* ===== verification/Workers.thy ===== *)
theory Workers
  imports Artifacts EntityIndex DevOverrides VersionStore DrcBundle RuleCheck
begin

text \<open>
  The worker functions of \<^verbatim>\<open>app/jobs.py\<close>: preprocessing, layer discovery with the layout picker, the
  Match JSON and the rule check. A worker runs in a pool process that outlives the job, so the module
  attributes the developer overrides change are state that is passed in and out. A worker reads the
  database more than once while others may write it, so each read has its own database argument. A
  failing worker keeps the blobs it has written so far.
\<close>

section \<open>Environment\<close>

record worker_env =
  we_ezdxf :: ezdxf
  we_solver :: solver
  we_numerics :: numerics
  we_n_jobs :: nat
  we_suppress :: bool
  we_rules :: "string \<Rightarrow> (string, blob) dict \<Rightarrow> pyobj"

datatype worker_error =
    OpenFailed open_error
  | BlobFailed blob_error
  | MatchFailed match_error
  | MissingKey string
  | WorkerRuntime string
  | BundleFailed bundle_error
  | CheckFailed check_error

definition dxf_tunables_of :: "attributes \<Rightarrow> dxf_tunables" where
  "dxf_tunables_of st =
     \<lparr>BASE_TOLERANCE = as_real (attr ''BASE_TOLERANCE'' st), CIRCLE_MIN_VERTS = as_nat (attr ''CIRCLE_MIN_VERTS'' st),
      CIRCLE_RADIAL_TOL = as_real (attr ''CIRCLE_RADIAL_TOL'' st),
      MAX_PRIMS_PER_THUMB = as_nat (attr ''MAX_PRIMS_PER_THUMB'' st),
      MAX_VERTICES_PER_POLYLINE = as_nat (attr ''MAX_VERTICES_PER_POLYLINE'' st)\<rparr>"

lemma dxf_tunables_of_defaults: "dxf_tunables_of DEFAULTS = compiled_dxf"
  by (simp add: dxf_tunables_of_def compiled_dxf_def DEFAULTS_def ALLOW_LIST_def attr_def float_spec_def
      int_spec_def as_real_def as_nat_def)

definition local_input :: "string \<Rightarrow> local_files \<Rightarrow> blob_error + string" where
  "local_input key fs = (if map_of fs key = None then Inl (FileNotFoundError key) else Inr key)"

definition flatten_blob ::
  "worker_env \<Rightarrow> dxf_tunables \<Rightarrow> string \<Rightarrow> string option \<Rightarrow> string option \<Rightarrow> local_files \<Rightarrow> worker_error + render_output" where
  "flatten_blob env dt src unit layout_name fs =
     (case local_input src fs of
        Inl e \<Rightarrow> Inl (BlobFailed e)
      | Inr path \<Rightarrow>
          (case flatten_for_render (we_ezdxf env) (we_solver env) dt path unit layout_name of
             Inl e \<Rightarrow> Inl (OpenFailed e)
           | Inr out \<Rightarrow> Inr out))"

section \<open>Preprocessing\<close>

record preprocess_args =
  pa_version :: string
  pa_file :: string
  pa_src :: string
  pa_parsed_dst :: string
  pa_prematch_dst :: string
  pa_library :: string
  pa_layers :: "string list option"
  pa_transient :: "string option"
  pa_overrides :: "attributes option"
  pa_unit :: "string option"
  pa_layout :: "string option"

text \<open>The cache serves when no unit is chosen and the discovery phase has left one.\<close>

definition cache_usable :: "string option \<Rightarrow> string option \<Rightarrow> local_files \<Rightarrow> bool" where
  "cache_usable unit transient fs \<longleftrightarrow>
     unit = None \<and> or_empty transient \<noteq> [] \<and> local_exists (or_empty transient) fs = Inr True"

definition obtain_rendering ::
  "worker_env \<Rightarrow> dxf_tunables \<Rightarrow> preprocess_args \<Rightarrow> local_files \<Rightarrow> worker_error + rendered \<times> bool" where
  "obtain_rendering env dt a fs =
     (if cache_usable (pa_unit a) (pa_transient a) fs then
        (case local_get_json (or_empty (pa_transient a)) fs of
           Inl e \<Rightarrow> Inl (BlobFailed e)
         | Inr cached \<Rightarrow>
             (case rendered_of_cache cached of
                None \<Rightarrow> Inl (MissingKey ''primitives'')
              | Some rd \<Rightarrow> Inr (rd, True)))
      else
        (case flatten_blob env dt (pa_src a) (pa_unit a) (pa_layout a) fs of
           Inl e \<Rightarrow> Inl e
         | Inr out \<Rightarrow> Inr (rendered_of_output out, False)))"

definition keep_layers :: "string list option \<Rightarrow> primitive list \<Rightarrow> primitive list" where
  "keep_layers layers ps = (case layers of None \<Rightarrow> ps | Some ls \<Rightarrow> filter_primitives ps ls)"

definition class_config :: "(class_name, match_config) dict \<Rightarrow> class_name \<Rightarrow> match_config" where
  "class_config cfgs c =
     (case map_of cfgs c of
        None \<Rightarrow> (''chamfer'', None)
      | Some (strategy, ratio) \<Rightarrow> (if strategy = [] then ''chamfer'' else strategy, ratio))"

definition template_hits ::
  "worker_env \<Rightarrow> tunables \<Rightarrow> drawing \<Rightarrow> match_config \<Rightarrow> template \<Rightarrow> worker_error + handle list list" where
  "template_hits env tn drawing cfg t =
     (case find_matches_from_pointsets (we_numerics env) tn (we_n_jobs env) (t_point_sets t) drawing None
             (Some (t_kinds t)) (fst cfg) (snd cfg) of
        Inl e \<Rightarrow> Inl (MatchFailed e)
      | Inr out \<Rightarrow> Inr (map m_handles (matches out)))"

definition scan_template ::
  "worker_env \<Rightarrow> tunables \<Rightarrow> drawing \<Rightarrow> match_config \<Rightarrow> class_name \<Rightarrow> nat \<times> template \<Rightarrow> match_out
     \<Rightarrow> worker_error + match_out" where
  "scan_template env tn drawing cfg c = (\<lambda>(idx, t) out.
     (case template_hits env tn drawing cfg t of
        Inl e \<Rightarrow> Inl e
      | Inr hits \<Rightarrow> Inr (fold (dict_push (base_match_key (class_json_key c) idx)) hits out)))"

definition scan_class ::
  "worker_env \<Rightarrow> tunables \<Rightarrow> drawing \<Rightarrow> (class_name, match_config) dict \<Rightarrow> (class_name, template list) dict
     \<Rightarrow> class_name \<Rightarrow> match_out \<Rightarrow> worker_error + match_out" where
  "scan_class env tn drawing cfgs ts c out =
     fold_err (scan_template env tn drawing (class_config cfgs c) c) (enumerate 0 (dict_list ts c)) out"

definition scan_library ::
  "worker_env \<Rightarrow> tunables \<Rightarrow> drawing
     \<Rightarrow> class_name list \<times> (class_name, match_config) dict \<times> (class_name, template list) dict
     \<Rightarrow> worker_error + match_out" where
  "scan_library env tn drawing = (\<lambda>(classes, cfgs, ts). fold_err (scan_class env tn drawing cfgs ts) classes [])"

text \<open>The keys of the scan are collapsed to display names: \<^verbatim>\<open>CLASS_JSON_KEY\<close> read backwards.\<close>

definition display_name :: "string \<Rightarrow> class_name" where
  "display_name snake =
     (case map_of (rev (map (\<lambda>(c, k). (k, c)) CLASS_JSON_KEY)) snake of None \<Rightarrow> snake | Some c \<Rightarrow> c)"

definition add_handles :: "class_name \<Rightarrow> handle list \<Rightarrow> (class_name, handle list) dict \<Rightarrow> (class_name, handle list) dict" where
  "add_handles c hs d = AList.map_default c hs (\<lambda>old. old @ hs) d"

definition collapse_key :: "string \<times> handle list list \<Rightarrow> (class_name, handle list) dict \<Rightarrow> (class_name, handle list) dict" where
  "collapse_key = (\<lambda>(key, instances) d.
     (case parse_match_key key of
        None \<Rightarrow> d
      | Some (_, snake, _) \<Rightarrow> add_handles (display_name snake) (concat instances) d))"

text \<open>\<^verbatim>\<open>sorted\<close> of the sets of handles.\<close>

definition sorted_sets :: "(class_name, handle list) dict \<Rightarrow> (class_name, handle list) dict" where
  "sorted_sets d = map (\<lambda>(c, hs). (c, sort (remdups hs))) d"

definition collapse :: "match_out \<Rightarrow> (class_name, handle list) dict" where
  "collapse out = sorted_sets (fold collapse_key out [])"

definition handle_total :: "(class_name, handle list) dict \<Rightarrow> nat" where
  "handle_total by_class = sum_list (map (\<lambda>(c, hs). length hs) by_class)"

text \<open>What the automatic detector would have chosen, for the comparison with the operator's choice.\<close>

definition detector_factor :: "bool \<Rightarrow> rendered \<Rightarrow> real option" where
  "detector_factor use_cache rd =
     (case rd_bbox rd of
        None \<Rightarrow> None
      | Some b \<Rightarrow>
          if \<not> use_cache \<and> 0 < rd_applied_scale rd
          then Some (detect_scale_factor (rd_insunits rd) (bbox_diagonal b / rd_applied_scale rd))
          else None)"

record preprocess_result =
  pp_primitive_count :: nat
  pp_bbox :: "bbox option"
  pp_background :: string
  pp_insunits :: "int option"
  pp_applied_scale :: real
  pp_detector_factor :: "real option"
  pp_requested :: "string option"
  pp_prematch_total :: nat
  pp_notes :: "json option"
  pp_layout :: "string option"
  pp_paperspace :: bool

definition snapshot_applied :: "attributes option \<Rightarrow> attributes \<Rightarrow> attributes" where
  "snapshot_applied overrides attrs =
     (case overrides of None \<Rightarrow> attrs | Some snap \<Rightarrow> if snap = [] then attrs else apply_snapshot snap attrs)"

definition drop_transient :: "string option \<Rightarrow> local_files \<Rightarrow> local_files" where
  "drop_transient transient fs = (if or_empty transient \<noteq> [] then snd (local_delete (or_empty transient) fs) else fs)"

text \<open>\<^verbatim>\<open>db0\<close> is the library when its revision is read, \<^verbatim>\<open>db1\<close> when its templates are.\<close>

definition preprocess_worker ::
  "worker_env \<Rightarrow> preprocess_args \<Rightarrow> nat \<Rightarrow> lib_db \<Rightarrow> lib_db \<Rightarrow> attributes \<Rightarrow> local_files
     \<Rightarrow> (worker_error + preprocess_result) \<times> attributes \<times> local_files" where
  "preprocess_worker env a t db0 db1 attrs fs =
     (let attrs1 = snapshot_applied (pa_overrides a) attrs in
      case obtain_rendering env (dxf_tunables_of attrs1) a fs of
        Inl e \<Rightarrow> (Inl e, attrs1, fs)
      | Inr (rd, use_cache) \<Rightarrow>
          (let primitives = keep_layers (pa_layers a) (rd_primitives rd);
               fs1 = local_put_json t (pa_parsed_dst a) (parsed_json primitives rd (pa_layers a)) fs;
               drawing = build_entity_shapes (we_numerics env) primitives (build_handle_index primitives)
           in case scan_library env (tunables_of attrs1) drawing (load_library (pa_library a) db1) of
                Inl e \<Rightarrow> (Inl e, attrs1, fs1)
              | Inr out \<Rightarrow>
                  (let by_class = collapse out;
                       fs2 = local_put_json t (pa_prematch_dst a)
                               (prematch_json by_class (current_revision (pa_library a) db0)) fs1
                   in (Inr \<lparr>pp_primitive_count = length primitives, pp_bbox = rd_bbox rd,
                            pp_background = rd_background rd, pp_insunits = rd_insunits rd,
                            pp_applied_scale = rd_applied_scale rd,
                            pp_detector_factor = detector_factor use_cache rd, pp_requested = pa_unit a,
                            pp_prematch_total = handle_total by_class, pp_notes = rd_notes rd,
                            pp_layout = rd_layout rd, pp_paperspace = rd_paperspace rd\<rparr>,
                       attrs1, drop_transient (pa_transient a) fs2))))"

section \<open>Layer discovery\<close>

text \<open>Thumbnails the previous manifest names and the new one does not.\<close>

definition drop_stale_manifest_svgs ::
  "string \<Rightarrow> string \<Rightarrow> string list \<Rightarrow> (string \<Rightarrow> string) \<Rightarrow> local_files \<Rightarrow> worker_error + local_files" where
  "drop_stale_manifest_svgs manifest_key entries_field new_names svg_key fs =
     (case local_get_json manifest_key fs of
        Inl (FileNotFoundError _) \<Rightarrow> Inr fs
      | Inl e \<Rightarrow> Inl (BlobFailed e)
      | Inr old \<Rightarrow>
          (case manifest_safe_names manifest_key entries_field old of
             Inl e \<Rightarrow> Inl (BlobFailed e)
           | Inr names \<Rightarrow>
               (let stale = map svg_key (filter (\<lambda>n. n \<notin> set new_names) names)
                in Inr (if stale = [] then fs else snd (local_delete_many stale fs)))))"

definition put_svgs :: "nat \<Rightarrow> (string \<times> string) list \<Rightarrow> local_files \<Rightarrow> local_files" where
  "put_svgs t svgs fs = fold (\<lambda>(key, svg). local_put t key (Raw svg)) svgs fs"

text \<open>The tabs that render something, with their thumbnails.\<close>

fun rendered_entries ::
  "worker_env \<Rightarrow> dxf_tunables \<Rightarrow> string \<Rightarrow> Dxf.layout_entry list \<Rightarrow> worker_error + (string \<times> layer_entry \<times> bool) list" where
  "rendered_entries env dt path [] = Inr []"
| "rendered_entries env dt path (l # ls) =
     (case flatten_for_render (we_ezdxf env) (we_solver env) dt path None (Some (le_name l)) of
        Inl e \<Rightarrow> Inl (OpenFailed e)
      | Inr out \<Rightarrow>
          (case rendered_entries env dt path ls of
             Inl e \<Rightarrow> Inl e
           | Inr es \<Rightarrow>
               if ro_primitives out = [] then Inr es
               else Inr ((render_layer_svg dt (ro_primitives out) [0..<length (ro_primitives out)] (ro_bbox out) (ro_background out),
                          \<lparr>la_name = le_name l, la_safe_name = sanitize_layer_name (le_name l),
                           la_entity_count = le_entity_count l\<rparr>, le_is_paperspace l) # es)))"

definition build_layout_picker ::
  "worker_env \<Rightarrow> dxf_tunables \<Rightarrow> string \<Rightarrow> string \<Rightarrow> string \<Rightarrow> Dxf.layout_entry list \<Rightarrow> nat \<Rightarrow> local_files
     \<Rightarrow> (worker_error + nat) \<times> local_files" where
  "build_layout_picker env dt path vid fid content_layouts t fs =
     (case rendered_entries env dt path content_layouts of
        Inl e \<Rightarrow> (Inl e, fs)
      | Inr es \<Rightarrow>
          if length es < 2 then (Inr (length es), fs)
          else
            (let names = map (la_safe_name \<circ> fst \<circ> snd) es;
                 fs1 = put_svgs t (map (\<lambda>(svg, e, _). (layout_preview_svg_key vid fid (la_safe_name e), svg)) es) fs
             in case drop_stale_manifest_svgs (layout_manifest_key vid fid) ''layouts'' names
                       (layout_preview_svg_key vid fid) fs1 of
                  Inl e \<Rightarrow> (Inl e, fs1)
                | Inr fs2 \<Rightarrow>
                    (Inr (length es),
                     local_put_json t (layout_manifest_key vid fid) (layout_manifest fid (map snd es)) fs2)))"

datatype discover_result =
    NeedsLayoutPick nat
  | LayersFound nat "bbox option" string "string option"

text \<open>The layout gate: with no tab chosen and a paper-space fallback, the candidate tabs.\<close>

definition content_paper :: "Dxf.layout_entry list \<Rightarrow> Dxf.layout_entry list" where
  "content_paper inventory = filter (\<lambda>l. le_is_paperspace l \<and> 0 < le_entity_count l) inventory"

definition layout_gate ::
  "worker_env \<Rightarrow> dxf_tunables \<Rightarrow> string \<Rightarrow> string \<Rightarrow> string \<Rightarrow> string option \<Rightarrow> render_output \<Rightarrow> nat \<Rightarrow> local_files
     \<Rightarrow> (worker_error + nat option) \<times> local_files" where
  "layout_gate env dt path vid fid layout_name out t fs =
     (if layout_name \<noteq> None \<or> \<not> ro_source_is_paperspace out then (Inr None, fs)
      else
        (case enumerate_layouts (we_ezdxf env) path of
           Inl e \<Rightarrow> (Inl (OpenFailed e), fs)
         | Inr inventory \<Rightarrow>
             if length (content_paper inventory) < 2 then (Inr None, fs)
             else
               (case build_layout_picker env dt path vid fid (content_paper inventory) t fs of
                  (Inl e, fs1) \<Rightarrow> (Inl e, fs1)
                | (Inr n, fs1) \<Rightarrow> (Inr (if 2 \<le> n then Some n else None), fs1))))"

definition layer_entries :: "(string, nat list) dict \<Rightarrow> layer_entry list" where
  "layer_entries by_layer =
     map (\<lambda>name. \<lparr>la_name = name, la_safe_name = sanitize_layer_name name,
                  la_entity_count = length (dict_list by_layer name)\<rparr>) (sort (map fst by_layer))"

definition layer_svgs ::
  "dxf_tunables \<Rightarrow> string \<Rightarrow> string \<Rightarrow> render_output \<Rightarrow> (string, nat list) dict \<Rightarrow> (string \<times> string) list" where
  "layer_svgs dt vid fid out by_layer =
     map (\<lambda>name. (layer_preview_svg_key vid fid (sanitize_layer_name name),
            render_layer_svg dt (ro_primitives out) (dict_list by_layer name) (ro_bbox out) (ro_background out)))
       (sort (map fst by_layer))"

definition write_layers ::
  "dxf_tunables \<Rightarrow> string \<Rightarrow> string \<Rightarrow> render_output \<Rightarrow> nat \<Rightarrow> local_files
     \<Rightarrow> (worker_error + discover_result) \<times> local_files" where
  "write_layers dt vid fid out t fs =
     (let by_layer = group_primitives_by_layer (ro_primitives out);
          entries = layer_entries by_layer;
          fs1 = put_svgs t (layer_svgs dt vid fid out by_layer) fs
      in case drop_stale_manifest_svgs (layer_manifest_key vid fid) ''layers'' (map la_safe_name entries)
                (layer_preview_svg_key vid fid) fs1 of
           Inl e \<Rightarrow> (Inl e, fs1)
         | Inr fs2 \<Rightarrow>
             (let fs3 = local_put_json t (layer_manifest_key vid fid) (layer_manifest fid entries out) fs2;
                  fs4 = local_put_json t (layer_preview_primitives_key vid fid) (cache_json out) fs3
              in (Inr (LayersFound (length entries) (ro_bbox out) (ro_background out) (ro_source_layout out)), fs4)))"

definition discover_layers_worker ::
  "worker_env \<Rightarrow> string \<Rightarrow> string \<Rightarrow> string \<Rightarrow> string option \<Rightarrow> nat \<Rightarrow> attributes \<Rightarrow> local_files
     \<Rightarrow> (worker_error + discover_result) \<times> local_files" where
  "discover_layers_worker env vid fid src layout_name t attrs fs =
     (let dt = dxf_tunables_of attrs in
      case flatten_blob env dt src None layout_name fs of
        Inl e \<Rightarrow> (Inl e, fs)
      | Inr out \<Rightarrow>
          (case layout_gate env dt src vid fid layout_name out t fs of
             (Inl e, fs1) \<Rightarrow> (Inl e, fs1)
           | (Inr (Some n), fs1) \<Rightarrow> (Inr (NeedsLayoutPick n), fs1)
           | (Inr None, fs1) \<Rightarrow> write_layers dt vid fid out t fs1))"

section \<open>The Match JSON\<close>

definition rect_for :: "file_record \<Rightarrow> string \<Rightarrow> rect option" where
  "rect_for rc v =
     (if v = ''top_view'' then b_top_view_rect (r_binding rc)
      else if v = ''bottom_view'' then b_bottom_view_rect (r_binding rc)
      else if v = ''side_view'' then b_side_view_rect (r_binding rc) else None)"

definition class_possible :: "file_record \<Rightarrow> class_name \<Rightarrow> bool" where
  "class_possible rc c =
     (case map_of CLASS_VIEW_CONSTRAINTS c of
        None \<Rightarrow> True
      | Some allowed \<Rightarrow> list_ex (\<lambda>v. rect_for rc v \<noteq> None) allowed)"

definition add_counts :: "view_counts \<Rightarrow> view_counts \<Rightarrow> view_counts" where
  "add_counts counts cnts = map (\<lambda>(k, n). (k, n + count_of cnts k)) counts"

definition merge_grouped :: "match_out \<Rightarrow> match_out \<Rightarrow> match_out" where
  "merge_grouped grouped out = fold (\<lambda>(k, v) out. AList.map_default k v (\<lambda>old. old @ v) out) grouped out"

record save_state =
  sv_out :: match_out
  sv_counts :: view_counts
  sv_total :: nat
  sv_prematch :: "(class_name, handle list) dict"

definition start_save :: save_state where
  "start_save = \<lparr>sv_out = [], sv_counts = no_counts, sv_total = 0, sv_prematch = []\<rparr>"

definition record_hits ::
  "file_record \<Rightarrow> shape_points \<Rightarrow> class_name \<Rightarrow> nat \<Rightarrow> handle list list \<Rightarrow> save_state \<Rightarrow> save_state" where
  "record_hits rc pts c idx hits s =
     (case split_matches_by_side (base_match_key (class_json_key c) idx) hits pts
             (rect_for rc ''top_view'') (rect_for rc ''bottom_view'') (rect_for rc ''side_view'') c of
        (grouped, cnts) \<Rightarrow>
          \<lparr>sv_out = merge_grouped grouped (sv_out s), sv_counts = add_counts (sv_counts s) cnts,
           sv_total = sv_total s + length hits,
           sv_prematch = (if hits \<noteq> [] then add_handles c (concat hits) (sv_prematch s) else sv_prematch s)\<rparr>)"

definition save_template ::
  "worker_env \<Rightarrow> tunables \<Rightarrow> drawing \<Rightarrow> file_record \<Rightarrow> match_config \<Rightarrow> class_name \<Rightarrow> nat \<times> template \<Rightarrow> save_state
     \<Rightarrow> worker_error + save_state" where
  "save_template env tn drawing rc cfg c = (\<lambda>(idx, t) s.
     (case template_hits env tn drawing cfg t of
        Inl e \<Rightarrow> Inl e
      | Inr hits \<Rightarrow> Inr (record_hits rc (\<lambda>h. map_option s_points (map_of drawing h)) c idx hits s)))"

definition save_class ::
  "worker_env \<Rightarrow> tunables \<Rightarrow> drawing \<Rightarrow> file_record \<Rightarrow> (class_name, match_config) dict
     \<Rightarrow> (class_name, template list) dict \<Rightarrow> class_name \<Rightarrow> save_state \<Rightarrow> worker_error + save_state" where
  "save_class env tn drawing rc cfgs ts c s =
     (if class_possible rc c
      then fold_err (save_template env tn drawing rc (class_config cfgs c) c) (enumerate 0 (dict_list ts c)) s
      else Inr s)"

definition instance_total :: "match_out \<Rightarrow> nat" where
  "instance_total out = sum_list (map (\<lambda>(k, is). length is) out)"

definition prefix_bucket :: "string \<Rightarrow> string" where
  "prefix_bucket key =
     (case parse_match_key key of Some (Some p, _, _) \<Rightarrow> p | _ \<Rightarrow> ''unassigned'')"

definition recount :: "nat \<Rightarrow> match_out \<Rightarrow> view_counts" where
  "recount dropped out =
     fold (\<lambda>(key, instances). map (\<lambda>(k, n). (k, if k = prefix_bucket key then n + length instances else n))) out
       [(''top_view'', 0), (''bottom_view'', 0), (''side_view'', 0), (''unassigned'', 0), (''dropped'', dropped)]"

record save_result =
  sr_template_keys :: "string list"
  sr_total_matches :: nat
  sr_side_counts :: view_counts
  sr_suppressed_count :: int

definition finish_save :: "bool \<Rightarrow> save_state \<Rightarrow> match_out \<times> save_result" where
  "finish_save enabled s =
     (let out = suppress_contained_matches enabled (sv_out s)
      in (out, \<lparr>sr_template_keys = map fst out, sr_total_matches = sv_total s,
                sr_side_counts = recount (count_of (sv_counts s) ''dropped'') out,
                sr_suppressed_count = int (instance_total (sv_out s)) - int (instance_total out)\<rparr>))"

text \<open>The rows the worker starts from: binding, version and library.\<close>

definition save_inputs :: "string \<Rightarrow> string \<Rightarrow> core_db \<Rightarrow> worker_error + file_record \<times> version" where
  "save_inputs vid fid db =
     (case get_file vid fid (fdb db) of
        None \<Rightarrow> Inl (WorkerRuntime ''binding not found in worker'')
      | Some rc \<Rightarrow>
          (case get_version vid db of
             None \<Rightarrow> Inl (WorkerRuntime ''version not found in worker'')
           | Some v \<Rightarrow>
               if get_library (v_library_id v) (lib db) = None
               then Inl (WorkerRuntime ''library not registered in worker'') else Inr (rc, v)))"

definition read_parsed :: "string \<Rightarrow> local_files \<Rightarrow> worker_error + primitive list" where
  "read_parsed key fs =
     (if local_exists key fs \<noteq> Inr True then Inl (WorkerRuntime ''parsed file missing'')
      else case local_get_json key fs of
             Inl e \<Rightarrow> Inl (BlobFailed e)
           | Inr parsed \<Rightarrow>
               (case field ''primitives'' primitives_of_json parsed of
                  None \<Rightarrow> Inl (MissingKey ''primitives'') | Some ps \<Rightarrow> Inr ps))"

definition save_scan ::
  "worker_env \<Rightarrow> attributes \<Rightarrow> file_record \<Rightarrow> primitive list
     \<Rightarrow> class_name list \<times> (class_name, match_config) dict \<times> (class_name, template list) dict
     \<Rightarrow> worker_error + save_state" where
  "save_scan env attrs rc primitives = (\<lambda>(classes, cfgs, ts).
     fold_err (save_class env (tunables_of attrs)
       (build_entity_shapes (we_numerics env) primitives (build_handle_index primitives)) rc cfgs ts) classes start_save)"

text \<open>\<^verbatim>\<open>db0\<close> when the rows and the revision are read, \<^verbatim>\<open>db1\<close> when the templates are.\<close>

definition save_match_worker ::
  "worker_env \<Rightarrow> string \<Rightarrow> string \<Rightarrow> string \<Rightarrow> nat \<Rightarrow> core_db \<Rightarrow> lib_db \<Rightarrow> attributes \<Rightarrow> local_files
     \<Rightarrow> (worker_error + save_result) \<times> local_files" where
  "save_match_worker env vid fid dst t db0 db1 attrs fs =
     (case save_inputs vid fid db0 of
        Inl e \<Rightarrow> (Inl e, fs)
      | Inr (rc, v) \<Rightarrow>
          (case read_parsed (parsed_key vid fid) fs of
             Inl e \<Rightarrow> (Inl e, fs)
           | Inr primitives \<Rightarrow>
               (case save_scan env attrs rc primitives (load_library (v_library_id v) db1) of
                  Inl e \<Rightarrow> (Inl e, fs)
                | Inr s \<Rightarrow>
                    (case finish_save (we_suppress env) s of
                       (out, result) \<Rightarrow>
                         (let fs1 = local_put_json t dst (match_json out) fs
                          in (Inr result,
                              local_put_json t (prematch_key vid fid)
                                (prematch_json (sorted_sets (sv_prematch s))
                                   (current_revision (v_library_id v) (lib db0))) fs1))))))"

section \<open>The rule check\<close>

fun worker_files :: "string \<Rightarrow> string list \<Rightarrow> file_db \<Rightarrow> worker_error + file_record list" where
  "worker_files vid [] db = Inr []"
| "worker_files vid (fid # fids) db =
     (case get_file vid fid db of
        None \<Rightarrow> Inl (WorkerRuntime ''binding not found in worker'')
      | Some rc \<Rightarrow>
          (case worker_files vid fids db of Inl e \<Rightarrow> Inl e | Inr rcs \<Rightarrow> Inr (rc # rcs)))"

text \<open>\<^verbatim>\<open>json.dumps\<close> of the checker's answer: keys become strings, anything that is not JSON raises.
  The text of a float key is the interpreter's, so it is an argument.\<close>

fun json_key :: "(pyfloat \<Rightarrow> string) \<Rightarrow> pyobj \<Rightarrow> string option" where
  "json_key repr (PStr s) = Some s"
| "json_key repr (PInt n) = Some (str_of_int n)"
| "json_key repr (PFloat x) = Some (repr x)"
| "json_key repr (PBool b) = Some (if b then ''true'' else ''false'')"
| "json_key repr PNone = Some ''null''"
| "json_key repr _ = None"

fun json_dump :: "(pyfloat \<Rightarrow> string) \<Rightarrow> pyobj \<Rightarrow> json option" where
  "json_dump repr PNone = Some JNull"
| "json_dump repr (PBool b) = Some (JBool b)"
| "json_dump repr (PInt n) = Some (JInt n)"
| "json_dump repr (PFloat x) = Some (JFloat x)"
| "json_dump repr (PStr s) = Some (JStr s)"
| "json_dump repr (PList xs) = map_option JList (those (map (json_dump repr) xs))"
| "json_dump repr (PDict d) =
     map_option JObj (those (map (\<lambda>(k, v).
       case json_key repr k of None \<Rightarrow> None | Some key \<Rightarrow> map_option (Pair key) (json_dump repr v)) d))"
| "json_dump repr POther = None"

definition rule_rows :: "pyobj \<Rightarrow> pyobj list" where
  "rule_rows result = (case result of PDict d \<Rightarrow> map snd d | _ \<Rightarrow> [])"

record rule_check_result =
  rc_rule_count :: nat
  rc_pass_count :: nat
  rc_roles_covered :: "string list"

definition passes :: "pyobj \<Rightarrow> bool" where
  "passes v \<longleftrightarrow> (case v of PDict d \<Rightarrow> map_of d (PStr ''pass'') = Some (PBool True) | _ \<Rightarrow> False)"

definition rule_check_worker ::
  "worker_env \<Rightarrow> (pyfloat \<Rightarrow> string) \<Rightarrow> string \<Rightarrow> string \<Rightarrow> string list \<Rightarrow> string \<Rightarrow> string \<Rightarrow> nat \<Rightarrow> core_db \<Rightarrow> local_files
     \<Rightarrow> (worker_error + rule_check_result) \<times> local_files" where
  "rule_check_worker env repr product_id vid file_ids dst exported_at t db fs =
     (case get_product product_id db of
        None \<Rightarrow> (Inl (WorkerRuntime ''product not found in worker''), fs)
      | Some p \<Rightarrow>
          (case worker_files vid file_ids (fdb db) of
             Inl e \<Rightarrow> (Inl e, fs)
           | Inr rcs \<Rightarrow>
               (case materialise_bundle p vid rcs exported_at db fs of
                  Inl e \<Rightarrow> (Inl (BundleFailed e), fs)
                | Inr tree \<Rightarrow>
                    (case check_rules (\<lambda>pid dir. we_rules env pid tree) product_id ''bundle'' of
                       Inl e \<Rightarrow> (Inl (CheckFailed e), fs)
                     | Inr result \<Rightarrow>
                         (case json_dump repr result of
                            None \<Rightarrow> (Inl (WorkerRuntime ''not JSON serializable''), fs)
                          | Some j \<Rightarrow>
                              (Inr \<lparr>rc_rule_count = length (rule_rows result),
                                    rc_pass_count = length (filter passes (rule_rows result)),
                                    rc_roles_covered =
                                      sort (remdups (filter (\<lambda>r. r \<noteq> []) (map (b_role \<circ> r_binding) rcs)))\<rparr>,
                               local_put_json t dst j fs))))))"

section \<open>The counts of a saved Match JSON\<close>

lemma instance_total_simps [simp]:
  "instance_total [] = 0" "instance_total ((k, is) # out) = length is + instance_total out"
  "instance_total (out @ out') = instance_total out + instance_total out'"
  by (simp_all add: instance_total_def)

lemma instance_total_push [simp]: "instance_total (dict_push k x out) = instance_total out + 1"
  unfolding dict_push_def by (induction out) auto

lemma instance_total_default:
  "instance_total (AList.map_default k v (\<lambda>old. old @ v) out) = instance_total out + length v"
  by (induction out) auto

lemma instance_total_merge: "instance_total (merge_grouped g out) = instance_total out + instance_total g"
proof (induction g arbitrary: out)
  case (Cons kv g)
  obtain k v where "kv = (k, v)" by force
  then show ?case
    using Cons.IH[of "AList.map_default k v (\<lambda>old. old @ v) out"]
    by (simp add: merge_grouped_def instance_total_default)
qed (simp add: merge_grouped_def)

lemma bucket_dropped: "''dropped'' = view_bucket c (side_prefix_for hs sh t b s) \<longleftrightarrow>
    \<not> is_allowed_view c (side_prefix_for hs sh t b s)"
  using side_prefix_view[of hs sh t b s] by (auto simp: view_bucket_def VIEW_PREFIXES_def split: option.splits)

lemma split_accounts:
  assumes "fst ` set counts = fst ` set no_counts"
  shows "instance_total (fst (foldl (split_step base sh t b s c) (out, counts) hits)) +
      count_of (snd (foldl (split_step base sh t b s c) (out, counts) hits)) ''dropped'' =
    instance_total out + count_of counts ''dropped'' + length hits"
  using assms
proof (induction hits arbitrary: out counts)
  case (Cons hs hits)
  let ?v = "view_bucket c (side_prefix_for hs sh t b s)"
  have k: "?v \<in> fst ` set counts" using Cons.prems view_bucket_known by metis
  have "fst ` set (count_up ?v counts) = fst ` set no_counts"
    using Cons.prems by (metis count_up_keys list.set_map)
  from Cons.IH[OF this] show ?case
    by (simp add: split_step_bucket count_of_up[OF k] bucket_dropped)
qed simp

definition save_accounts :: "save_state \<Rightarrow> bool" where
  "save_accounts s \<longleftrightarrow> map fst (sv_counts s) = map fst no_counts \<and>
     instance_total (sv_out s) + count_of (sv_counts s) ''dropped'' = sv_total s"

lemma count_of_add: "k \<in> fst ` set counts \<Longrightarrow> count_of (add_counts counts cnts) k = count_of counts k + count_of cnts k"
  by (induction counts) (auto simp: add_counts_def count_of_def)

lemma record_hits_accounts: "save_accounts s \<Longrightarrow> save_accounts (record_hits rc pts c idx hits s)"
proof -
  assume s: "save_accounts s"
  let ?r = "split_matches_by_side (base_match_key (class_json_key c) idx) hits pts
     (rect_for rc ''top_view'') (rect_for rc ''bottom_view'') (rect_for rc ''side_view'') c"
  have "instance_total (fst ?r) + count_of (snd ?r) ''dropped'' = length hits"
    unfolding split_matches_by_side_def
    by (subst split_accounts) (simp_all add: count_of_def no_counts_def)
  moreover have "fst ` set (sv_counts s) = fst ` set no_counts"
    using s unfolding save_accounts_def by (metis list.set_map)
  then have "''dropped'' \<in> fst ` set (sv_counts s)" by (simp add: no_counts_def)
  moreover have "map fst (add_counts (sv_counts s) (snd ?r)) = map fst no_counts"
    using s by (simp add: save_accounts_def add_counts_def case_prod_beta comp_def)
  ultimately show ?thesis
    using s by (simp add: save_accounts_def record_hits_def case_prod_beta instance_total_merge count_of_add)
qed

lemma save_scan_accounts:
  assumes "save_scan env attrs rc primitives loaded = Inr s"
  shows "save_accounts s"
proof -
  obtain classes cfgs ts where loaded: "loaded = (classes, cfgs, ts)" by (metis prod.exhaust)
  have start: "save_accounts start_save"
    by (simp add: save_accounts_def start_save_def count_of_def no_counts_def)
  show ?thesis
    using assms unfolding save_scan_def loaded prod.case
  proof (rule fold_err_invariant[where P = save_accounts, OF _ start])
    fix c and u v :: save_state
    let ?cls = "save_class env (tunables_of attrs)
       (build_entity_shapes (we_numerics env) primitives (build_handle_index primitives)) rc cfgs ts c"
    assume u: "save_accounts u" and "?cls u = Inr v"
    then show "save_accounts v"
      unfolding save_class_def
      by (cases "class_possible rc c")
        (auto split: sum.splits simp: save_template_def intro: record_hits_accounts
          elim!: fold_err_invariant[where P = save_accounts])
  qed
qed

lemma suppress_shrinks: "instance_total (suppress_contained_matches enabled out) \<le> instance_total out"
proof -
  have "instance_total (drop_removed removed out) \<le> instance_total out" for removed
  proof (induction out)
    case (Cons kv out)
    obtain k ins where kv: "kv = (k, ins)" by force
    have "length (map snd (filter (\<lambda>(pos, hs). (k, pos) \<notin> set removed) (enumerate 0 ins))) \<le> length ins"
      using length_filter_le[of _ "enumerate 0 ins"] by simp
    then show ?case using Cons by (simp add: kv drop_removed_def)
  qed (simp add: drop_removed_def)
  then show ?thesis by (simp add: suppress_contained_matches_def Let_def)
qed

lemma prefix_bucket_known: "prefix_bucket key \<in> fst ` set no_counts"
  by (auto simp: prefix_bucket_def parse_match_key_def Let_def VIEW_PREFIXES_def no_counts_def
      split: option.splits if_splits)

lemma recount_total: "sum_list (map snd (recount d out)) = d + instance_total out"
proof -
  have add: "dict_ok c \<Longrightarrow> b \<in> fst ` set c \<Longrightarrow>
      sum_list (map snd (map (\<lambda>(k, n). (k, if k = b then n + m else n)) c)) = sum_list (map snd c) + m"
    for b and m :: nat and c :: view_counts
  proof (induction c)
    case (Cons a c)
    obtain k n where a: "a = (k, n)" by force
    have same: "map (\<lambda>(k, n). (k, if k = b then n + m else n)) c = c" if "b \<notin> fst ` set c"
      by (rule map_idI) (use that in force)
    show ?case using Cons same unfolding a by (cases "k = b") auto
  qed simp
  have fold: "sum_list (map snd (fold (\<lambda>(key, ins). map (\<lambda>(k, n). (k, if k = prefix_bucket key then n + length ins else n))) out c))
      = sum_list (map snd c) + instance_total out"
    if "map fst c = map fst no_counts" for c :: view_counts
    using that
  proof (induction out arbitrary: c)
    case (Cons kv out)
    obtain key ins where kv: "kv = (key, ins)" by force
    let ?c = "map (\<lambda>(k, n). (k, if k = prefix_bucket key then n + length ins else n)) c"
    have "fst ` set c = fst ` set no_counts" using Cons.prems by (metis list.set_map)
    then have "prefix_bucket key \<in> fst ` set c" by (simp add: prefix_bucket_known)
    moreover have "dict_ok c" unfolding Cons.prems by (simp add: no_counts_def)
    moreover have "map fst ?c = map fst no_counts" using Cons.prems by (simp add: case_prod_beta comp_def)
    ultimately show ?case using Cons.IH[of ?c] add by (simp add: kv)
  qed simp
  show ?thesis unfolding recount_def by (subst fold) (simp_all add: no_counts_def)
qed

lemma local_get_put: "local_get k (local_put t k' b fs) = (if k' = k then Inr b else local_get k fs)"
  by (simp add: local_get_def local_put_def update_conv')

lemma local_get_json_put:
  "local_get_json k (local_put_json t k' j fs) = (if k' = k then Inr j else local_get_json k fs)"
  by (simp add: local_get_json_def local_put_json_def local_get_put parse_json_def)

lemma match_prematch_keys: "match_key v f \<noteq> prematch_key v' f'" "parsed_key v f \<noteq> prematch_key v' f'"
  "parsed_key v f \<noteq> match_key v' f'"
  by (simp_all add: match_key_def prematch_key_def parsed_key_def)

text \<open>A successful save, taken apart.\<close>

lemma save_match_success:
  assumes "save_match_worker env vid fid dst t db0 db1 attrs fs = (Inr r, fs')"
  obtains rc v primitives s where "save_inputs vid fid db0 = Inr (rc, v)"
    "read_parsed (parsed_key vid fid) fs = Inr primitives"
    "save_scan env attrs rc primitives (load_library (v_library_id v) db1) = Inr s"
    "r = snd (finish_save (we_suppress env) s)"
    "fs' = local_put_json t (prematch_key vid fid)
      (prematch_json (sorted_sets (sv_prematch s)) (current_revision (v_library_id v) (lib db0)))
      (local_put_json t dst (match_json (fst (finish_save (we_suppress env) s))) fs)"
proof -
  obtain rc v where i: "save_inputs vid fid db0 = Inr (rc, v)"
    using assms by (cases "save_inputs vid fid db0") (auto simp: save_match_worker_def)
  obtain primitives where p: "read_parsed (parsed_key vid fid) fs = Inr primitives"
    using assms i by (cases "read_parsed (parsed_key vid fid) fs") (auto simp: save_match_worker_def)
  obtain s where s: "save_scan env attrs rc primitives (load_library (v_library_id v) db1) = Inr s"
    using assms i p by (cases "save_scan env attrs rc primitives (load_library (v_library_id v) db1)")
      (auto simp: save_match_worker_def)
  show ?thesis
    by (rule that[OF i p s]) (use assms in \<open>simp_all add: save_match_worker_def i p s Let_def case_prod_beta\<close>)
qed

text \<open>C13. The numbers reported with a saved Match JSON account for every raw match: the matches found are
  the instances of the persisted JSON, the contained instances suppressed and the instances dropped
  because their view is not allowed for the class; the per-view counts add up to the persisted
  instances and the dropped ones.\<close>

theorem save_match_accounting:
  assumes "save_match_worker env vid fid (match_key vid fid) t db0 db1 attrs fs = (Inr r, fs')"
  shows "\<exists>out. local_get_json (match_key vid fid) fs' = Inr (match_json out) \<and> sr_template_keys r = map fst out \<and>
    0 \<le> sr_suppressed_count r \<and>
    (\<exists>dropped. int (sr_total_matches r) = int (instance_total out) + sr_suppressed_count r + int dropped \<and>
       sum_list (map snd (sr_side_counts r)) = instance_total out + dropped)"
proof -
  obtain rc v primitives s where i: "save_inputs vid fid db0 = Inr (rc, v)"
    and p: "read_parsed (parsed_key vid fid) fs = Inr primitives"
    and s: "save_scan env attrs rc primitives (load_library (v_library_id v) db1) = Inr s"
    and r: "r = snd (finish_save (we_suppress env) s)"
    and fs': "fs' = local_put_json t (prematch_key vid fid)
      (prematch_json (sorted_sets (sv_prematch s)) (current_revision (v_library_id v) (lib db0)))
      (local_put_json t (match_key vid fid) (match_json (fst (finish_save (we_suppress env) s))) fs)"
    by (rule save_match_success[OF assms])
  let ?out = "suppress_contained_matches (we_suppress env) (sv_out s)"
  have total: "instance_total (sv_out s) + count_of (sv_counts s) ''dropped'' = sv_total s"
    using save_scan_accounts[OF s] by (simp add: save_accounts_def)
  have "local_get_json (match_key vid fid) fs' = Inr (match_json ?out)"
    by (simp add: fs' local_get_json_put match_prematch_keys(1)[symmetric] finish_save_def Let_def)
  moreover have "sum_list (map snd (sr_side_counts r)) = instance_total ?out + count_of (sv_counts s) ''dropped''"
    by (simp add: r finish_save_def Let_def recount_total)
  moreover have "int (sr_total_matches r) = int (instance_total ?out) + sr_suppressed_count r +
      int (count_of (sv_counts s) ''dropped'')"
    using total by (simp add: r finish_save_def Let_def)
  moreover have "0 \<le> sr_suppressed_count r"
    using suppress_shrinks[of "we_suppress env" "sv_out s"] by (simp add: r finish_save_def Let_def)
  ultimately show ?thesis by (intro exI[of _ ?out]) (auto simp: r finish_save_def Let_def)
qed

section \<open>Views of the saved instances\<close>

text \<open>A key of the Match JSON of a class that is scanned, under a view the class may have.\<close>

definition proper_key :: "file_record \<Rightarrow> class_name list \<Rightarrow> string \<Rightarrow> bool" where
  "proper_key rc names k \<longleftrightarrow>
     (\<exists>c\<in>set names. class_possible rc c \<and>
        (\<exists>idx prefix. k = prefixed_key prefix (base_match_key (class_json_key c) idx) \<and> is_allowed_view c prefix))"

lemma split_keys_allowed:
  assumes "k \<in> fst ` set (fst (split_matches_by_side base hits pts t b s c))"
  shows "\<exists>prefix. k = prefixed_key prefix base \<and> is_allowed_view c prefix"
proof -
  obtain v where v: "(k, v) \<in> set (fst (split_matches_by_side base hits pts t b s c))" using assms by force
  note P = split_fold[of no_counts "[]" base pts t b s c hits k "''x''", simplified, folded split_matches_by_side_def]
  have "v \<noteq> []" "dict_list (fst (split_matches_by_side base hits pts t b s c)) k = v"
    using P v dict_list_eqI[of _ k v] by fastforce+
  then have "filter (\<lambda>hs. is_allowed_view c (side_prefix_for hs pts t b s) \<and>
      prefixed_key (side_prefix_for hs pts t b s) base = k) hits \<noteq> []" using P by simp
  then show ?thesis unfolding filter_empty_conv by auto
qed

lemma merge_grouped_keys: "fst ` set (merge_grouped g out) = fst ` set out \<union> fst ` set g"
proof (induction g arbitrary: out)
  case (Cons kv g)
  obtain k v where kv: "kv = (k, v)" by force
  have "fst ` set (AList.map_default k v (\<lambda>old. old @ v) out) = insert k (fst ` set out)" by (simp add: dom_map_default)
  then show ?case using Cons.IH[of "AList.map_default k v (\<lambda>old. old @ v) out"] by (simp add: merge_grouped_def kv)
qed (simp add: merge_grouped_def)

lemma suppress_keys: "fst ` set (suppress_contained_matches enabled out) \<subseteq> fst ` set out"
  by (auto simp: suppress_contained_matches_def drop_removed_def Let_def image_iff) force

lemma record_hits_proper:
  assumes "c \<in> set names" "class_possible rc c" "\<forall>k\<in>fst ` set (sv_out u). proper_key rc names k"
  shows "\<forall>k\<in>fst ` set (sv_out (record_hits rc pts c idx hits u)). proper_key rc names k"
proof
  fix k assume k: "k \<in> fst ` set (sv_out (record_hits rc pts c idx hits u))"
  let ?base = "base_match_key (class_json_key c) idx"
  show "proper_key rc names k"
  proof (cases "k \<in> fst ` set (sv_out u)")
    case False
    then have "k \<in> fst ` set (fst (split_matches_by_side ?base hits pts
       (rect_for rc ''top_view'') (rect_for rc ''bottom_view'') (rect_for rc ''side_view'') c))"
      using k by (simp add: record_hits_def case_prod_beta merge_grouped_keys)
    from split_keys_allowed[OF this] show ?thesis using assms(1,2) unfolding proper_key_def by blast
  qed (use assms(3) in blast)
qed

lemma save_scan_proper:
  assumes "save_scan env attrs rc primitives (names, cfgs, ts) = Inr s"
  shows "\<forall>k\<in>fst ` set (sv_out s). proper_key rc names k"
  using assms unfolding save_scan_def prod.case
proof (rule fold_err_invariant[where P = "\<lambda>s. \<forall>k\<in>fst ` set (sv_out s). proper_key rc names k"])
  show "\<forall>k\<in>fst ` set (sv_out start_save). proper_key rc names k" by (simp add: start_save_def)
next
  fix c and u v :: save_state
  let ?P = "\<lambda>s. \<forall>k\<in>fst ` set (sv_out s). proper_key rc names k"
  assume c: "c \<in> set names" and u: "?P u" and
    v: "save_class env (tunables_of attrs)
       (build_entity_shapes (we_numerics env) primitives (build_handle_index primitives)) rc cfgs ts c u = Inr v"
  show "?P v"
  proof (cases "class_possible rc c")
    case True
    let ?f = "save_template env (tunables_of attrs)
         (build_entity_shapes (we_numerics env) primitives (build_handle_index primitives)) rc (class_config cfgs c) c"
    have "fold_err ?f (enumerate 0 (dict_list ts c)) u = Inr v" using v True by (simp add: save_class_def)
    then show ?thesis
    proof (rule fold_err_invariant[where P = ?P, OF _ u])
      fix it and x y :: save_state
      assume x: "?P x" and y: "?f it x = Inr y"
      show "?P y"
        using y record_hits_proper[OF c True x]
        by (auto simp: save_template_def split: sum.splits prod.splits)
    qed
  qed (use v u in \<open>simp add: save_class_def\<close>)
qed

text \<open>Every key of a saved Match JSON belongs to a class of the version's library that has a drawn view
  it may appear in, and its view prefix is one the class allows: a ball of the bottom side is never
  reported on top, whatever the matcher found.\<close>

theorem match_json_respects_views:
  assumes "save_match_worker env vid fid (match_key vid fid) t db0 db1 attrs fs = (Inr r, fs')"
  shows "\<exists>rc v out. get_file vid fid (fdb db0) = Some rc \<and> get_version vid db0 = Some v \<and>
    local_get_json (match_key vid fid) fs' = Inr (match_json out) \<and>
    (\<forall>k\<in>fst ` set out. proper_key rc (fst (load_library (v_library_id v) db1)) k)"
proof -
  obtain rc v primitives s where i: "save_inputs vid fid db0 = Inr (rc, v)"
    and p: "read_parsed (parsed_key vid fid) fs = Inr primitives"
    and s: "save_scan env attrs rc primitives (load_library (v_library_id v) db1) = Inr s"
    and r: "r = snd (finish_save (we_suppress env) s)"
    and fs': "fs' = local_put_json t (prematch_key vid fid)
      (prematch_json (sorted_sets (sv_prematch s)) (current_revision (v_library_id v) (lib db0)))
      (local_put_json t (match_key vid fid) (match_json (fst (finish_save (we_suppress env) s))) fs)"
    by (rule save_match_success[OF assms])
  let ?out = "suppress_contained_matches (we_suppress env) (sv_out s)"
  obtain names cfgs ts where l: "load_library (v_library_id v) db1 = (names, cfgs, ts)" by (metis prod.exhaust)
  have "local_get_json (match_key vid fid) fs' = Inr (match_json ?out)"
    by (simp add: fs' local_get_json_put match_prematch_keys(1)[symmetric] finish_save_def Let_def)
  moreover have "\<forall>k\<in>fst ` set ?out. proper_key rc names k"
    using save_scan_proper[OF s[unfolded l]] suppress_keys[of "we_suppress env" "sv_out s"] by blast
  moreover have "get_file vid fid (fdb db0) = Some rc \<and> get_version vid db0 = Some v"
    using i by (auto simp: save_inputs_def split: option.splits if_splits)
  ultimately show ?thesis using l by auto
qed

definition saving_core :: core_db where
  "saving_core = one_product\<lparr>fdb := \<lparr>
     files = [\<lparr>f_id = ''f'', f_name = ''a.dxf'', f_size = 3, f_uploaded_at = 1, f_insunits = None, f_recover_notes = None\<rparr>],
     version_files = [new_binding ''v1'' ''SBT'' ''f'' None ReadyToMatch 1]\<rparr>\<rparr>"

definition saving_blobs :: local_files where
  "saving_blobs = [(parsed_key ''v1'' ''f'', (Json (JObj [(''primitives'', JList [])]), 1))]"

lemma saving_run:
  "\<exists>r fs'. save_match_worker env ''v1'' ''f'' (match_key ''v1'' ''f'') 2 saving_core (lib saving_core) attrs saving_blobs =
     (Inr r, fs') \<and> sr_total_matches r = 0"
proof -
  have core: "get_version ''v1'' saving_core = Some first_version" "lib saving_core = lib one_product"
    by (simp_all add: saving_core_def get_version_def one_product_def create_product_def in_transaction_def first_ids_def
        insert_version_locked_def create_library_def empty_core_def empty_lib_db_def Let_def py_strip_def py_is_space_def
        row_by_def first_version_def)
  have lib: "get_library ''l1'' (lib one_product) \<noteq> None" "load_library ''l1'' (lib one_product) = ([], [], [])"
    by (simp_all add: one_product_def create_product_def in_transaction_def first_ids_def insert_version_locked_def
        create_library_def empty_core_def empty_lib_db_def Let_def py_strip_def py_is_space_def get_library_def row_by_def
        load_library_def library_class_rows_def library_template_rows_def)
  have bound: "\<exists>rc. get_file ''v1'' ''f'' (fdb saving_core) = Some rc"
    by (simp add: saving_core_def get_file_def binding_select_def new_binding_def row_by_def row_to_record_def List.map_filter_simps)
  then obtain rc where i: "save_inputs ''v1'' ''f'' saving_core = Inr (rc, first_version)"
    using core lib(1) by (auto simp: save_inputs_def first_version_def)
  have p: "read_parsed (parsed_key ''v1'' ''f'') saving_blobs = Inr []"
    by (simp add: read_parsed_def saving_blobs_def local_exists_def local_get_json_def local_get_def parse_json_def
        field_def primitives_of_json_def)
  have "v_library_id first_version = ''l1''" by (simp add: first_version_def)
  then show ?thesis
    by (simp add: save_match_worker_def i p core(2) lib(2) save_scan_def finish_save_def start_save_def Let_def)
qed

definition idle_worker :: worker_env where
  "idle_worker = \<lparr>we_ezdxf = line_ezdxf, we_solver = no_solver,
     we_numerics = \<lparr>eigvalsh = (\<lambda>_ _ _. (0, 0)), eigh = (\<lambda>_ _ _. ((0, 0), ((1, 0), (0, 1)))),
       nearest = (\<lambda>_ _. 0), ball_points = (\<lambda>_ _ _. [])\<rparr>,
     we_n_jobs = 1, we_suppress = True, we_rules = (\<lambda>_ _. PDict [])\<rparr>"

lemma save_match_accounting_witness:
  "\<exists>r fs' out. save_match_worker idle_worker ''v1'' ''f'' (match_key ''v1'' ''f'') 2 saving_core (lib saving_core) DEFAULTS
     saving_blobs = (Inr r, fs') \<and> local_get_json (match_key ''v1'' ''f'') fs' = Inr (match_json out) \<and> instance_total out = 0"
proof -
  obtain r fs' where r: "save_match_worker idle_worker ''v1'' ''f'' (match_key ''v1'' ''f'') 2 saving_core (lib saving_core)
      DEFAULTS saving_blobs = (Inr r, fs')" "sr_total_matches r = 0"
    using saving_run by blast
  from save_match_accounting[OF r(1)] r show ?thesis by (intro exI[of _ r] exI[of _ fs']) auto
qed

lemma match_json_respects_views_witness:
  "\<exists>r fs' out. save_match_worker idle_worker ''v1'' ''f'' (match_key ''v1'' ''f'') 2 saving_core (lib saving_core) DEFAULTS
     saving_blobs = (Inr r, fs') \<and> local_get_json (match_key ''v1'' ''f'') fs' = Inr (match_json out)"
proof -
  obtain r fs' where r: "save_match_worker idle_worker ''v1'' ''f'' (match_key ''v1'' ''f'') 2 saving_core (lib saving_core)
      DEFAULTS saving_blobs = (Inr r, fs')"
    using saving_run by blast
  from match_json_respects_views[OF r] r show ?thesis by blast
qed

end
