(* ===== verification/Pipeline.thy ===== *)
theory Pipeline
  imports Workers
begin

text \<open>
  Properties of the workers of \<^verbatim>\<open>app/jobs.py\<close> across runs: the staleness stamp of the pre-match snapshot
  against concurrent library changes, the equivalence of the cached and the parsed rendering, the
  module attributes a pool process keeps from one job to the next, and the blobs a binding owns.
\<close>

section \<open>The staleness stamp\<close>

fun store_ops_ok :: "store_op list \<Rightarrow> lib_db \<Rightarrow> bool" where
  "store_ops_ok [] db \<longleftrightarrow> True"
| "store_ops_ok (op # ops) db \<longleftrightarrow>
     (case op of StoreInsert l t now \<Rightarrow> t_id t \<notin> tr_id ` set (templates db) | _ \<Rightarrow> True) \<and> store_ops_ok ops (store_do op db)"

lemma templates_bump [simp]: "templates (bump_revision l db) = templates db" "classes (bump_revision l db) = classes db"
  by (simp_all add: bump_revision_def)

lemma store_do_distinct:
  assumes "distinct (map tr_id (templates db))" "store_ops_ok [op] db"
  shows "distinct (map tr_id (templates (store_do op db)))"
proof (cases op)
  case (StoreInsert l t now)
  then show ?thesis using assms by (auto simp: insert_template_def)
next
  case (StoreDelete i)
  then show ?thesis using assms(1)
    by (auto simp: store_delete_template_def Let_def distinct_sql_delete split: option.splits)
next
  case (StoreMove i c)
  have "map tr_id (sql_update P (\<lambda>t. t\<lparr>tr_class_name := c\<rparr>) ts) = map tr_id ts" for P ts
    by (induction ts) (simp_all add: sql_update_def)
  note ids = this
  show ?thesis using assms(1) StoreMove
    by (auto simp: update_template_class_def Let_def ids split: option.splits)
next
  case (StoreStrategy l c st r)
  then show ?thesis using assms(1) by (auto simp: update_class_strategy_def Let_def)
qed

lemma bump_monotone:
  "get_library lid db \<noteq> None \<Longrightarrow> get_library lid (bump_revision l db) \<noteq> None"
  "current_revision lid db \<le> current_revision lid (bump_revision l db)"
proof -
  show "current_revision lid db \<le> current_revision lid (bump_revision l db)" by (simp add: revision_bump)
  have "get_library lid (bump_revision l db) =
      map_option (\<lambda>x. if lb_id x = l then x\<lparr>lb_revision := Suc (lb_revision x)\<rparr> else x) (get_library lid db)"
    unfolding get_library_def bump_revision_def by (simp add: row_by_update_same)
  then show "get_library lid db \<noteq> None \<Longrightarrow> get_library lid (bump_revision l db) \<noteq> None" by simp
qed

lemma store_do_monotone:
  "get_library lid db \<noteq> None \<Longrightarrow> get_library lid (store_do op db) \<noteq> None"
  "current_revision lid db \<le> current_revision lid (store_do op db)"
proof -
  have b: "current_revision lid db' \<le> current_revision lid (bump_revision l db')" for db' l by (rule bump_monotone)
  note defs = insert_template_def store_delete_template_def update_template_class_def update_class_strategy_def
  show "get_library lid db \<noteq> None \<Longrightarrow> get_library lid (store_do op db) \<noteq> None"
    by (cases op) (simp_all add: defs Let_def bump_monotone(1) del: not_None_eq split: option.splits)
  show "current_revision lid db \<le> current_revision lid (store_do op db)"
    by (cases op) (auto simp: defs Let_def revision_bump split: option.splits)
qed

lemma store_run_facts:
  assumes "distinct (map tr_id (templates db))" "get_library lid db \<noteq> None" "store_ops_ok ops db"
  shows "distinct (map tr_id (templates (fold store_do ops db))) \<and> get_library lid (fold store_do ops db) \<noteq> None \<and>
    current_revision lid db \<le> current_revision lid (fold store_do ops db)"
  using assms
proof (induction ops arbitrary: db)
  case (Cons op ops)
  have "distinct (map tr_id (templates (store_do op db)))" "get_library lid (store_do op db) \<noteq> None"
    using Cons.prems store_do_distinct[of db op] store_do_monotone(1)[of lid db op] by simp_all
  from Cons.IH[OF this] show ?case
    using Cons.prems(3) store_do_monotone(2)[of lid db op] by simp
qed simp

lemma store_run_same_rows:
  assumes "distinct (map tr_id (templates db))" "get_library lid db \<noteq> None" "store_ops_ok ops db"
    and "current_revision lid (fold store_do ops db) = current_revision lid db"
  shows "scan_rows lid (fold store_do ops db) = scan_rows lid db"
  using assms
proof (induction ops arbitrary: db)
  case (Cons op ops)
  let ?db = "store_do op db"
  have d: "distinct (map tr_id (templates ?db))" "get_library lid ?db \<noteq> None"
    using Cons.prems store_do_distinct[of db op] store_do_monotone(1)[of lid db op] by simp_all
  have ok: "store_ops_ok ops ?db" using Cons.prems(3) by simp
  have "current_revision lid ?db \<le> current_revision lid (fold store_do ops ?db)"
    using store_run_facts[OF d ok] by blast
  then have same: "current_revision lid ?db = current_revision lid db"
    using Cons.prems(4) store_do_monotone(2)[of lid db op] by simp
  then have "scan_rows lid (fold store_do ops ?db) = scan_rows lid ?db"
    using Cons.IH[OF d ok] Cons.prems(4) by simp
  then show ?case using revision_same_rows[OF Cons.prems(1,2) same] by simp
qed simp

lemma load_library_rows: "scan_rows lid db = scan_rows lid db' \<Longrightarrow> load_library lid db = load_library lid db'"
  by (simp add: scan_rows_def load_library_def library_class_rows_def library_template_rows_def)

lemma preprocess_stamp:
  assumes "preprocess_worker env a t db0 db1 attrs fs = (Inr r, attrs', fs')"
    and "or_empty (pa_transient a) \<noteq> pa_prematch_dst a"
  shows "\<exists>by_class. local_get_json (pa_prematch_dst a) fs' =
    Inr (prematch_json by_class (current_revision (pa_library a) db0))"
proof -
  have drop: "local_get_json k (drop_transient tr fs) = local_get_json k fs" if "or_empty tr \<noteq> k" for tr k fs
    using that by (simp add: drop_transient_def local_get_json_def local_get_def local_delete_def delete_conv')
  show ?thesis
    using assms by (auto simp: preprocess_worker_def Let_def drop local_get_json_put split: sum.splits prod.splits)
qed

lemma preprocess_same_library:
  assumes "load_library (pa_library a) db1 = load_library (pa_library a) db1'"
    and "current_revision (pa_library a) db0 = current_revision (pa_library a) db0'"
  shows "preprocess_worker env a t db0 db1 attrs fs = preprocess_worker env a t db0' db1' attrs fs"
  unfolding preprocess_worker_def assms ..


definition plain_args :: preprocess_args where
  "plain_args = \<lparr>pa_version = ''v'', pa_file = ''f'', pa_src = upload_key ''f'', pa_parsed_dst = parsed_key ''v'' ''f'',
     pa_prematch_dst = prematch_key ''v'' ''f'', pa_library = ''M'', pa_layers = None,
     pa_transient = Some (layer_preview_primitives_key ''v'' ''f''), pa_overrides = None, pa_unit = None, pa_layout = None\<rparr>"

definition two_libraries :: lib_db where
  "two_libraries = empty_lib_db\<lparr>libraries :=
     [\<lparr>lb_id = ''L'', lb_name = [], lb_created_at = 0, lb_revision = 0\<rparr>,
      \<lparr>lb_id = ''M'', lb_name = [], lb_created_at = 0, lb_revision = 4\<rparr>]\<rparr>"

definition cached_blobs :: local_files where
  "cached_blobs = [(layer_preview_primitives_key ''v'' ''f'', (Json (JObj [(''primitives'', JList [])]), 1))]"

lemma plain_rendering: "\<exists>rd. obtain_rendering idle_worker dt plain_args cached_blobs = Inr (rd, True)"
  by (simp add: obtain_rendering_def cache_usable_def plain_args_def cached_blobs_def local_exists_def or_empty_def
      local_get_json_def local_get_def parse_json_def rendered_of_cache_def field_def primitives_of_json_def
      layer_preview_primitives_key_def layer_preview_prefix_def)

lemma plain_scan: "scan_library idle_worker tn drawing (load_library ''M'' two_libraries) = Inr []"
  by (simp add: load_library_def library_class_rows_def library_template_rows_def two_libraries_def empty_lib_db_def
      scan_library_def)

lemma plain_preprocess:
  "\<exists>r fs'. preprocess_worker idle_worker plain_args 2 two_libraries two_libraries DEFAULTS cached_blobs = (Inr r, DEFAULTS, fs') \<and>
     (\<exists>by_class. local_get_json (prematch_key ''v'' ''f'') fs' = Inr (prematch_json by_class 4))"
proof -
  obtain rd where rd: "obtain_rendering idle_worker (dxf_tunables_of DEFAULTS) plain_args cached_blobs = Inr (rd, True)"
    using plain_rendering by blast
  have a: "pa_overrides plain_args = None" "pa_library plain_args = ''M''" "pa_prematch_dst plain_args = prematch_key ''v'' ''f''"
    "or_empty (pa_transient plain_args) \<noteq> prematch_key ''v'' ''f''"
    by (simp_all add: plain_args_def or_empty_def layer_preview_primitives_key_def layer_preview_prefix_def prematch_key_def)
  have r: "current_revision ''M'' two_libraries = 4"
    by (simp add: current_revision_def get_library_def two_libraries_def row_by_def empty_lib_db_def)
  have c: "collapse [] = []" by (simp add: collapse_def sorted_sets_def)
  obtain res attrs' fs' where run: "preprocess_worker idle_worker plain_args 2 two_libraries two_libraries DEFAULTS cached_blobs =
      (res, attrs', fs')" by (metis prod.exhaust)
  from run have "attrs' = DEFAULTS" "\<exists>r. res = Inr r"
    unfolding preprocess_worker_def Let_def a snapshot_applied_def option.case rd sum.case prod.case plain_scan by auto
  moreover from this run have "\<exists>by_class. local_get_json (prematch_key ''v'' ''f'') fs' = Inr (prematch_json by_class 4)"
    using preprocess_stamp[of idle_worker plain_args 2 two_libraries two_libraries DEFAULTS cached_blobs _ DEFAULTS fs'] a r by auto
  ultimately show ?thesis using run by auto
qed


section \<open>Attributes that survive a job\<close>

lemma obtain_rendering_overrides [simp]:
  "obtain_rendering env dt (b\<lparr>pa_overrides := x\<rparr>) fs = obtain_rendering env dt b fs"
  by (simp add: obtain_rendering_def cong: if_cong)

lemma preprocess_overrides:
  "snapshot_applied (pa_overrides b) attrs = snapshot_applied x attrs' \<Longrightarrow>
   preprocess_worker env b t db0 db1 attrs fs = preprocess_worker env (b\<lparr>pa_overrides := x\<rparr>) t db0 db1 attrs' fs"
  by (simp add: preprocess_worker_def Let_def cong: sum.case_cong prod.case_cong)

text \<open>C36. A pool process keeps the overrides of the jobs it has run: a job submitted without overrides (all
  of them reset) on a process that has run a job with overrides still computes with the old ones, and
  ends exactly as a job that asks for them.\<close>

theorem overrides_outlive_the_job:
  assumes "pa_overrides a = Some snap" "snap \<noteq> []" "pa_overrides b = None"
    and "preprocess_worker env a t db0 db1 DEFAULTS fs = (res, attrs, fs1)"
  shows "attrs = apply_snapshot snap DEFAULTS \<and>
    preprocess_worker env b t' db2 db3 attrs fs1 =
      preprocess_worker env (b\<lparr>pa_overrides := Some snap\<rparr>) t' db2 db3 DEFAULTS fs1"
proof -
  have "attrs = snapshot_applied (pa_overrides a) DEFAULTS"
    using assms(4) by (auto simp: preprocess_worker_def Let_def split: sum.splits prod.splits)
  then have "attrs = apply_snapshot snap DEFAULTS" using assms(1,2) by (simp add: snapshot_applied_def)
  then show ?thesis
    using assms(2,3) preprocess_overrides[of b attrs "Some snap" DEFAULTS] by (simp add: snapshot_applied_def)
qed

lemma overrides_outlive_the_job_witness:
  "fst (snd (preprocess_worker idle_worker (plain_args\<lparr>pa_overrides := Some [(''RESAMPLE_N'', TInt 8)]\<rparr>) 1
      two_libraries two_libraries DEFAULTS [])) = apply_snapshot [(''RESAMPLE_N'', TInt 8)] DEFAULTS \<and>
   RESAMPLE_N (tunables_of (apply_snapshot [(''RESAMPLE_N'', TInt 8)] DEFAULTS)) = 8"
proof -
  let ?a = "plain_args\<lparr>pa_overrides := Some [(''RESAMPLE_N'', TInt 8)]\<rparr>"
  obtain res attrs fs1 where "preprocess_worker idle_worker ?a 1 two_libraries two_libraries DEFAULTS [] = (res, attrs, fs1)"
    by (metis prod.exhaust)
  from overrides_outlive_the_job[OF _ _ _ this, of "[(''RESAMPLE_N'', TInt 8)]" plain_args] this
  have "fst (snd (preprocess_worker idle_worker ?a 1 two_libraries two_libraries DEFAULTS [])) =
      apply_snapshot [(''RESAMPLE_N'', TInt 8)] DEFAULTS"
    by (simp add: plain_args_def)
  moreover have "RESAMPLE_N (tunables_of (apply_snapshot [(''RESAMPLE_N'', TInt 8)] DEFAULTS)) = 8"
    by (simp add: apply_snapshot_def BY_NAME_def row_by_def ALLOW_LIST_def int_spec_def float_spec_def set_attrs_def
        tunables_of_def attr_def as_nat_def DEFAULTS_def)
  ultimately show ?thesis by simp
qed

section \<open>The blobs a binding owns\<close>

definition binding_prefix :: "string \<Rightarrow> string \<Rightarrow> string" where
  "binding_prefix v f = layer_preview_prefix v f @ ''/''"

definition owned_key :: "string \<Rightarrow> string \<Rightarrow> string \<Rightarrow> bool" where
  "owned_key v f k \<longleftrightarrow> k = parsed_key v f \<or> k = prematch_key v f \<or> k = match_key v f \<or>
     py_starts_with (binding_prefix v f) k"

definition names_at :: "local_files \<Rightarrow> string \<Rightarrow> string \<Rightarrow> blob_error + string list" where
  "names_at fs mk entries =
     (case local_get_json mk fs of
        Inl (FileNotFoundError _) \<Rightarrow> Inr []
      | Inl e \<Rightarrow> Inl e
      | Inr m \<Rightarrow> manifest_safe_names mk entries m)"

text \<open>Every owned blob that exists is one of the fixed ones or named by a manifest.\<close>

definition fixed_keys :: "string \<Rightarrow> string \<Rightarrow> string set" where
  "fixed_keys v f = {parsed_key v f, prematch_key v f, match_key v f, layer_preview_primitives_key v f,
     layer_manifest_key v f, layout_manifest_key v f}"

definition tracked :: "string \<Rightarrow> string \<Rightarrow> (string \<Rightarrow> blob option) \<Rightarrow> string list \<Rightarrow> string list \<Rightarrow> bool" where
  "tracked v f c ns ms \<longleftrightarrow> (\<forall>k. owned_key v f k \<longrightarrow> c k \<noteq> None \<longrightarrow>
     k \<in> fixed_keys v f \<union> layer_preview_svg_key v f ` set ns \<union> layout_preview_svg_key v f ` set ms)"

definition blobs_tracked :: "string \<Rightarrow> string \<Rightarrow> local_files \<Rightarrow> bool" where
  "blobs_tracked v f fs \<longleftrightarrow>
     (\<exists>ns ms. names_at fs (layer_manifest_key v f) ''layers'' = Inr ns \<and>
        names_at fs (layout_manifest_key v f) ''layouts'' = Inr ms \<and> tracked v f (local_content fs) ns ms)"

lemmas preview_keys = layer_manifest_key_def layout_manifest_key_def layer_preview_primitives_key_def
  layer_preview_svg_key_def layout_preview_svg_key_def layer_preview_prefix_def

lemma key_ends [simp]:
  "last (layer_preview_svg_key v f n) = CHR ''g''" "last (layout_preview_svg_key v f n) = CHR ''g''"
  "last (layer_manifest_key v f) = CHR ''n''" "last (layout_manifest_key v f) = CHR ''n''"
  "last (layer_preview_primitives_key v f) = CHR ''n''" "last (parsed_key v f) = CHR ''n''"
  "last (prematch_key v f) = CHR ''n''" "last (match_key v f) = CHR ''n''" "last (upload_key f) = CHR ''f''"
  by (simp_all add: preview_keys parsed_key_def prematch_key_def match_key_def upload_key_def)

lemma keys_differ_by_end: "last k \<noteq> last k' \<Longrightarrow> k \<noteq> k'"
  by auto

lemma fixed_keys_distinct:
  "layer_manifest_key v f \<noteq> layout_manifest_key v f" "layer_preview_primitives_key v f \<noteq> layer_manifest_key v f"
  "layer_preview_primitives_key v f \<noteq> layout_manifest_key v f"
  "k \<in> {parsed_key v f, prematch_key v f, match_key v f} \<Longrightarrow> k \<noteq> layer_manifest_key v f \<and> k \<noteq> layout_manifest_key v f"
  by (auto simp: preview_keys parsed_key_def prematch_key_def match_key_def)

lemma svg_keys_inj [simp]:
  "layer_preview_svg_key v f n = layer_preview_svg_key v f m \<longleftrightarrow> n = m"
  "layout_preview_svg_key v f n = layout_preview_svg_key v f m \<longleftrightarrow> n = m"
  by (simp_all add: preview_keys)

lemma content_put_simp [simp]: "local_content (local_put t k b fs) = (local_content fs)(k \<mapsto> b)"
  by (rule local.content_put)

lemma content_put_json [simp]: "local_content (local_put_json t k j fs) = (local_content fs)(k \<mapsto> Json j)"
  by (simp add: local_put_json_def)

lemma content_delete [simp]: "local_content (snd (local_delete k fs)) = (local_content fs)(k := None)"
  using local_content_del[of k fs] by (simp add: local_del_def)

lemma content_delete_many [simp]: "local_content (snd (local_delete_many ks fs)) = local_content fs |` (- set ks)"
  using local_content_remove[of ks fs] by (simp add: local_remove_def)

lemma content_put_svgs: "local_content (put_svgs t svgs fs) k =
    (if k \<in> fst ` set svgs then local_content (put_svgs t svgs fs) k else local_content fs k)"
proof -
  have "k \<notin> fst ` set svgs \<Longrightarrow> local_content (put_svgs t svgs fs) k = local_content fs k"
    by (induction svgs arbitrary: fs) (auto simp: put_svgs_def)
  then show ?thesis by simp
qed

lemma get_json_content:
  "local_content fs k = local_content fs' k \<Longrightarrow> local_get_json k fs = local_get_json k fs'"
  by (simp add: local_get_json_def local.get_content)

lemma names_at_content:
  "local_content fs mk = local_content fs' mk \<Longrightarrow> names_at fs mk e = names_at fs' mk e"
  using get_json_content[of fs mk fs'] by (simp add: names_at_def)

lemma manifest_keys_names:
  assumes "names_at fs mk e = Inr ns"
  shows "\<exists>ks. manifest_keys fs mk e svg = Inr ks \<and> svg ` set ns \<subseteq> set ks \<and> (local_content fs mk \<noteq> None \<longrightarrow> mk \<in> set ks)"
proof (cases "local_content fs mk")
  case None
  then have "local_get_json mk fs = Inl (FileNotFoundError mk)" by (simp add: local_get_json_def local.get_content)
  then show ?thesis using assms None by (auto simp: names_at_def manifest_keys_def)
next
  case (Some b)
  then have g: "local_get_json mk fs = parse_json mk b" by (simp add: local_get_json_def local.get_content)
  then show ?thesis
    using assms by (cases b) (auto simp: names_at_def manifest_keys_def parse_json_def split: sum.splits)
qed

lemma tracked_enumerated:
  assumes "blobs_tracked v f fs"
  shows "\<exists>ks. file_artifact_keys fs v f = Inr ks \<and> (\<forall>k. owned_key v f k \<longrightarrow> local_content fs k \<noteq> None \<longrightarrow> k \<in> set ks)"
proof -
  obtain ns ms where n: "names_at fs (layer_manifest_key v f) ''layers'' = Inr ns"
    "names_at fs (layout_manifest_key v f) ''layouts'' = Inr ms" and t: "tracked v f (local_content fs) ns ms"
    using assms unfolding blobs_tracked_def by blast
  obtain ks where ks: "manifest_keys fs (layer_manifest_key v f) ''layers'' (layer_preview_svg_key v f) = Inr ks"
    "layer_preview_svg_key v f ` set ns \<subseteq> set ks" "local_content fs (layer_manifest_key v f) \<noteq> None \<longrightarrow> layer_manifest_key v f \<in> set ks"
    using manifest_keys_names[OF n(1)] by blast
  obtain ls where ls: "manifest_keys fs (layout_manifest_key v f) ''layouts'' (layout_preview_svg_key v f) = Inr ls"
    "layout_preview_svg_key v f ` set ms \<subseteq> set ls" "local_content fs (layout_manifest_key v f) \<noteq> None \<longrightarrow> layout_manifest_key v f \<in> set ls"
    using manifest_keys_names[OF n(2)] by blast
  let ?all = "[parsed_key v f, prematch_key v f, match_key v f, layer_preview_primitives_key v f] @ ks @ ls"
  have "file_artifact_keys fs v f = Inr ?all" by (simp add: file_artifact_keys_def ks(1) ls(1))
  moreover have "k \<in> set ?all" if "owned_key v f k" "local_content fs k \<noteq> None" for k
  proof -
    have "k \<in> fixed_keys v f \<union> layer_preview_svg_key v f ` set ns \<union> layout_preview_svg_key v f ` set ms"
      using t that unfolding tracked_def by blast
    then show ?thesis using ks(2,3) ls(2,3) that(2) unfolding fixed_keys_def by auto
  qed
  ultimately show ?thesis by blast
qed

lemma tracked_same_manifests:
  assumes "blobs_tracked v f fs"
    and "\<And>k. k = layer_manifest_key v f \<or> k = layout_manifest_key v f \<Longrightarrow> local_content fs' k = local_content fs k"
    and "\<And>k. owned_key v f k \<Longrightarrow> local_content fs' k \<noteq> None \<Longrightarrow> k \<in> fixed_keys v f \<or> local_content fs k \<noteq> None"
  shows "blobs_tracked v f fs'"
proof -
  have "names_at fs' (layer_manifest_key v f) e = names_at fs (layer_manifest_key v f) e"
    "names_at fs' (layout_manifest_key v f) e = names_at fs (layout_manifest_key v f) e" for e
    by (rule names_at_content; simp add: assms(2))+
  then show ?thesis using assms(1,3) unfolding blobs_tracked_def tracked_def by fastforce
qed

lemma tracked_put_fixed:
  assumes "blobs_tracked v f fs" "k \<in> {parsed_key v f, prematch_key v f, match_key v f, layer_preview_primitives_key v f}"
  shows "blobs_tracked v f (local_put_json t k j fs)" "blobs_tracked v f (snd (local_delete k fs))"
proof -
  have k: "k \<noteq> layer_manifest_key v f" "k \<noteq> layout_manifest_key v f" "k \<in> fixed_keys v f"
    using assms(2) fixed_keys_distinct[of v f] fixed_keys_distinct(4)[of k v f] by (auto simp: fixed_keys_def)
  show "blobs_tracked v f (local_put_json t k j fs)"
    by (rule tracked_same_manifests[OF assms(1)]) (use k in \<open>auto split: if_splits\<close>)
  show "blobs_tracked v f (snd (local_delete k fs))"
    by (rule tracked_same_manifests[OF assms(1)]) (use k in \<open>auto split: if_splits\<close>)
qed

lemma restrict_UNIV: "m |` UNIV = m"
  by (rule ext) simp

text \<open>Rewriting thumbnails: afterwards every owned blob is fixed, new, or one of the rest.\<close>

lemma svgs_rewritten:
  assumes names: "names_at fs mk e = Inr ns" and "inj svg" and ends: "\<And>n. svg n \<noteq> mk" "\<And>n. svg n \<noteq> mk'"
    and keys: "fst ` set svgs = svg ` set new"
    and old: "\<And>k. own k \<Longrightarrow> local_content fs k \<noteq> None \<Longrightarrow> k \<in> F \<union> svg ` set ns \<union> R"
  shows "\<exists>fs2. drop_stale_manifest_svgs mk e new svg (put_svgs t svgs fs) = Inr fs2 \<and>
    local_content fs2 mk' = local_content fs mk' \<and>
    (\<forall>k. own k \<longrightarrow> local_content fs2 k \<noteq> None \<longrightarrow> k \<in> F \<union> svg ` set new \<union> R)"
proof -
  let ?fs1 = "put_svgs t svgs fs"
  have c1: "local_content ?fs1 k = local_content fs k" if "k \<notin> svg ` set new" for k
    using content_put_svgs[of t svgs fs k] that keys by simp
  have m: "mk \<notin> svg ` set new" "mk' \<notin> svg ` set new" using ends by auto
  have n1: "names_at ?fs1 mk e = Inr ns" using names_at_content[OF c1[OF m(1)]] names by simp
  define stale where "stale = map svg (filter (\<lambda>n. n \<notin> set new) ns)"
  have d: "\<exists>fs2. drop_stale_manifest_svgs mk e new svg ?fs1 = Inr fs2 \<and> local_content fs2 = local_content ?fs1 |` (- set stale)"
  proof (cases "local_get_json mk ?fs1")
    case (Inl err)
    then obtain k where err: "err = FileNotFoundError k" using n1 by (cases err) (auto simp: names_at_def)
    then have "ns = []" using n1 Inl by (simp add: names_at_def)
    then show ?thesis using Inl err by (simp add: drop_stale_manifest_svgs_def stale_def restrict_UNIV)
  next
    case (Inr j)
    then have "manifest_safe_names mk e j = Inr ns" using n1 by (simp add: names_at_def)
    then show ?thesis using Inr by (auto simp: drop_stale_manifest_svgs_def stale_def[symmetric] Let_def restrict_UNIV)
  qed
  then obtain fs2 where fs2: "drop_stale_manifest_svgs mk e new svg ?fs1 = Inr fs2"
    "local_content fs2 = local_content ?fs1 |` (- set stale)" by blast
  have "mk' \<notin> set stale" using ends(2) by (auto simp: stale_def)
  then have "local_content fs2 mk' = local_content fs mk'" using fs2(2) c1[OF m(2)] by simp
  moreover have "k \<in> F \<union> svg ` set new \<union> R" if k: "own k" "local_content fs2 k \<noteq> None" for k
  proof (cases "k \<in> svg ` set new")
    case False
    have ns: "k \<notin> set stale" using k(2) fs2(2) by (auto simp: restrict_map_def split: if_splits)
    then have "local_content fs k \<noteq> None" using k(2) fs2(2) c1[OF False] by simp
    then have "k \<in> F \<union> svg ` set ns \<union> R" by (rule old[OF k(1)])
    then show ?thesis using ns by (auto simp: stale_def)
  qed simp
  ultimately show ?thesis using fs2(1) by blast
qed

lemma write_layers_tracked:
  assumes "blobs_tracked v f fs"
  shows "blobs_tracked v f (snd (write_layers dt v f out t fs))"
    and "\<exists>n bb bg sl. fst (write_layers dt v f out t fs) = Inr (LayersFound n bb bg sl)"
proof -
  obtain ns ms where n: "names_at fs (layer_manifest_key v f) ''layers'' = Inr ns"
    "names_at fs (layout_manifest_key v f) ''layouts'' = Inr ms" and tr: "tracked v f (local_content fs) ns ms"
    using assms unfolding blobs_tracked_def by blast
  let ?by = "group_primitives_by_layer (ro_primitives out)"
  let ?new = "map la_safe_name (layer_entries ?by)"
  let ?svgs = "layer_svgs dt v f out ?by"
  have keys: "fst ` set ?svgs = layer_preview_svg_key v f ` set ?new"
    by (simp add: layer_svgs_def layer_entries_def image_image)
  have inj: "inj (layer_preview_svg_key v f)" by (simp add: inj_def)
  have ends: "layer_preview_svg_key v f n \<noteq> layer_manifest_key v f" "layer_preview_svg_key v f n \<noteq> layout_manifest_key v f" for n
    by (rule keys_differ_by_end; simp)+
  have old: "k \<in> fixed_keys v f \<union> layer_preview_svg_key v f ` set ns \<union> layout_preview_svg_key v f ` set ms"
    if "owned_key v f k" "local_content fs k \<noteq> None" for k
    using tr that unfolding tracked_def by blast
  obtain fs2 where fs2: "drop_stale_manifest_svgs (layer_manifest_key v f) ''layers'' ?new (layer_preview_svg_key v f)
      (put_svgs t ?svgs fs) = Inr fs2" "local_content fs2 (layout_manifest_key v f) = local_content fs (layout_manifest_key v f)"
    and own: "\<forall>k. owned_key v f k \<longrightarrow> local_content fs2 k \<noteq> None \<longrightarrow>
      k \<in> fixed_keys v f \<union> layer_preview_svg_key v f ` set ?new \<union> layout_preview_svg_key v f ` set ms"
    using svgs_rewritten[where own = "owned_key v f" and t = t, OF n(1) inj ends keys old] by blast
  let ?fs3 = "local_put_json t (layer_manifest_key v f) (layer_manifest f (layer_entries ?by) out) fs2"
  have "names_at ?fs3 (layer_manifest_key v f) ''layers'' = Inr ?new"
    by (simp add: names_at_def local_get_json_put)
  moreover have "names_at ?fs3 (layout_manifest_key v f) ''layouts'' = Inr ms"
    using names_at_content[of ?fs3 "layout_manifest_key v f" fs] fs2(2) fixed_keys_distinct(1)[of v f] n(2) by simp
  moreover have "tracked v f (local_content ?fs3) ?new ms"
    using own unfolding tracked_def by (auto simp: fixed_keys_def)
  ultimately have "blobs_tracked v f ?fs3" unfolding blobs_tracked_def by blast
  then have "blobs_tracked v f (local_put_json t (layer_preview_primitives_key v f) (cache_json out) ?fs3)"
    by (rule tracked_put_fixed(1)) simp
  then show "blobs_tracked v f (snd (write_layers dt v f out t fs))"
    and "\<exists>n bb bg sl. fst (write_layers dt v f out t fs) = Inr (LayersFound n bb bg sl)"
    by (simp_all add: write_layers_def Let_def fs2(1))
qed

lemma build_layout_picker_tracked:
  assumes "blobs_tracked v f fs"
  shows "blobs_tracked v f (snd (build_layout_picker env dt path v f ls t fs))"
proof (cases "\<exists>es. rendered_entries env dt path ls = Inr es \<and> \<not> length es < 2")
  case True
  then obtain es where es: "rendered_entries env dt path ls = Inr es" "\<not> length es < 2" by blast
  obtain ns ms where n: "names_at fs (layer_manifest_key v f) ''layers'' = Inr ns"
    "names_at fs (layout_manifest_key v f) ''layouts'' = Inr ms" and tr: "tracked v f (local_content fs) ns ms"
    using assms unfolding blobs_tracked_def by blast
  let ?new = "map (la_safe_name \<circ> fst \<circ> snd) es"
  let ?svgs = "map (\<lambda>(svg, e, _). (layout_preview_svg_key v f (la_safe_name e), svg)) es"
  have keys: "fst ` set ?svgs = layout_preview_svg_key v f ` set ?new" by (auto simp: image_iff) force+
  have inj: "inj (layout_preview_svg_key v f)" by (simp add: inj_def)
  have ends: "layout_preview_svg_key v f n \<noteq> layout_manifest_key v f" "layout_preview_svg_key v f n \<noteq> layer_manifest_key v f" for n
    by (rule keys_differ_by_end; simp)+
  have old: "k \<in> fixed_keys v f \<union> layout_preview_svg_key v f ` set ms \<union> layer_preview_svg_key v f ` set ns"
    if "owned_key v f k" "local_content fs k \<noteq> None" for k
    using tr that unfolding tracked_def by blast
  obtain fs2 where fs2: "drop_stale_manifest_svgs (layout_manifest_key v f) ''layouts'' ?new (layout_preview_svg_key v f)
      (put_svgs t ?svgs fs) = Inr fs2" "local_content fs2 (layer_manifest_key v f) = local_content fs (layer_manifest_key v f)"
    and own: "\<forall>k. owned_key v f k \<longrightarrow> local_content fs2 k \<noteq> None \<longrightarrow>
      k \<in> fixed_keys v f \<union> layout_preview_svg_key v f ` set ?new \<union> layer_preview_svg_key v f ` set ns"
    using svgs_rewritten[where own = "owned_key v f" and t = t, OF n(2) inj ends keys old] by blast
  let ?fs3 = "local_put_json t (layout_manifest_key v f) (layout_manifest f (map snd es)) fs2"
  have "names_at ?fs3 (layout_manifest_key v f) ''layouts'' = Inr ?new"
    by (simp add: names_at_def local_get_json_put comp_assoc)
  moreover have "names_at ?fs3 (layer_manifest_key v f) ''layers'' = Inr ns"
    using names_at_content[of ?fs3 "layer_manifest_key v f" fs] fs2(2) fixed_keys_distinct(1)[of v f] n(1) by simp
  moreover have "tracked v f (local_content ?fs3) ns ?new"
    using own unfolding tracked_def by (auto simp: fixed_keys_def)
  ultimately have "blobs_tracked v f ?fs3" unfolding blobs_tracked_def by blast
  then show ?thesis using es(2) by (simp add: build_layout_picker_def es(1) Let_def fs2(1))
next
  case False
  then have "snd (build_layout_picker env dt path v f ls t fs) = fs"
    by (auto simp: build_layout_picker_def split: sum.splits)
  then show ?thesis using assms by simp
qed

lemma discover_tracked:
  assumes "blobs_tracked v f fs"
  shows "blobs_tracked v f (snd (discover_layers_worker env v f src layout_name t attrs fs))"
proof -
  let ?dt = "dxf_tunables_of attrs"
  have gate: "blobs_tracked v f (snd (layout_gate env ?dt src v f layout_name out t fs))" for out
    using build_layout_picker_tracked[OF assms, of env ?dt src _ t] assms
    by (auto simp: layout_gate_def split: sum.splits prod.splits) (metis snd_conv)+
  show ?thesis
  proof (cases "flatten_blob env ?dt src None layout_name fs")
    case (Inr out)
    obtain res fs1 where g: "layout_gate env ?dt src v f layout_name out t fs = (res, fs1)" by force
    have "blobs_tracked v f fs1" using gate[of out] g by simp
    then show ?thesis
      using Inr g write_layers_tracked(1)[of v f fs1 ?dt out t]
      by (auto simp: discover_layers_worker_def split: sum.splits option.splits)
  qed (simp add: discover_layers_worker_def assms)
qed

lemma preprocess_tracked:
  assumes "blobs_tracked v f fs" "pa_parsed_dst a = parsed_key v f" "pa_prematch_dst a = prematch_key v f"
    and "or_empty (pa_transient a) \<in> {[], layer_preview_primitives_key v f}"
  shows "blobs_tracked v f (snd (snd (preprocess_worker env a t db0 db1 attrs fs)))"
proof -
  have put: "blobs_tracked v f x \<Longrightarrow> blobs_tracked v f (local_put_json t (pa_parsed_dst a) j x)"
    "blobs_tracked v f x \<Longrightarrow> blobs_tracked v f (local_put_json t (pa_prematch_dst a) j x)" for x j
    unfolding assms(2,3) by (rule tracked_put_fixed(1); simp)+
  have drop: "blobs_tracked v f x \<Longrightarrow> blobs_tracked v f (drop_transient (pa_transient a) x)" for x
    using assms(4) tracked_put_fixed(2)[of v f x "layer_preview_primitives_key v f"] by (auto simp: drop_transient_def)
  show ?thesis
    using assms(1) put drop by (auto simp: preprocess_worker_def Let_def split: sum.splits prod.splits)
qed

lemma save_match_tracked:
  assumes "blobs_tracked v f fs"
  shows "blobs_tracked v f (snd (save_match_worker env v f (match_key v f) t db0 db1 attrs fs))"
proof (cases "fst (save_match_worker env v f (match_key v f) t db0 db1 attrs fs)")
  case (Inl e)
  then have "snd (save_match_worker env v f (match_key v f) t db0 db1 attrs fs) = fs"
    by (auto simp: save_match_worker_def Let_def split: sum.splits prod.splits)
  then show ?thesis using assms by simp
next
  case (Inr r)
  then have "save_match_worker env v f (match_key v f) t db0 db1 attrs fs =
      (Inr r, snd (save_match_worker env v f (match_key v f) t db0 db1 attrs fs))" by (metis prod.collapse)
  then obtain m p where fs': "snd (save_match_worker env v f (match_key v f) t db0 db1 attrs fs) =
      local_put_json t (prematch_key v f) p (local_put_json t (match_key v f) m fs)"
    by (rule save_match_success) blast
  have "blobs_tracked v f (local_put_json t (match_key v f) m fs)" by (rule tracked_put_fixed(1)[OF assms]) simp
  then show ?thesis unfolding fs' by (rule tracked_put_fixed(1)) simp
qed

text \<open>The stores a binding can reach: its own workers with the keys of the execution plan, whether they
  succeed or fail, the invalidation of its Match JSON, and anything that leaves its blobs alone.\<close>

inductive binding_blobs :: "worker_env \<Rightarrow> string \<Rightarrow> string \<Rightarrow> local_files \<Rightarrow> bool" for env v f where
  untouched: "\<forall>k. owned_key v f k \<longrightarrow> local_content fs k = None \<Longrightarrow> binding_blobs env v f fs"
| discovered: "binding_blobs env v f fs \<Longrightarrow>
     binding_blobs env v f (snd (discover_layers_worker env v f src layout_name t attrs fs))"
| preprocessed: "binding_blobs env v f fs \<Longrightarrow> pa_parsed_dst a = parsed_key v f \<Longrightarrow>
     pa_prematch_dst a = prematch_key v f \<Longrightarrow> or_empty (pa_transient a) \<in> {[], layer_preview_primitives_key v f} \<Longrightarrow>
     binding_blobs env v f (snd (snd (preprocess_worker env a t db0 db1 attrs fs)))"
| saved: "binding_blobs env v f fs \<Longrightarrow>
     binding_blobs env v f (snd (save_match_worker env v f (match_key v f) t cdb0 cdb1 attrs fs))"
| invalidated: "binding_blobs env v f fs \<Longrightarrow> binding_blobs env v f (snd (local_delete (match_key v f) fs))"
| elsewhere: "binding_blobs env v f fs \<Longrightarrow> \<forall>k. owned_key v f k \<longrightarrow> local_content fs' k = local_content fs k \<Longrightarrow>
     binding_blobs env v f fs'"

lemma owned_fixed: "k \<in> fixed_keys v f \<Longrightarrow> owned_key v f k"
proof -
  have pre: "py_starts_with p (p @ s)" for p s by (induction p) simp_all
  show "k \<in> fixed_keys v f \<Longrightarrow> owned_key v f k"
    using pre[of "binding_prefix v f" "''layers.json''"] pre[of "binding_prefix v f" "''layouts/layouts.json''"]
      pre[of "binding_prefix v f" "''primitives.json''"]
    by (auto simp: fixed_keys_def owned_key_def binding_prefix_def layer_manifest_key_def layout_manifest_key_def
        layer_preview_primitives_key_def)
qed

lemma binding_blobs_tracked: "binding_blobs env v f fs \<Longrightarrow> blobs_tracked v f fs"
proof (induction rule: binding_blobs.induct)
  case (untouched fs)
  have own: "owned_key v f (layer_manifest_key v f)" "owned_key v f (layout_manifest_key v f)"
    by (rule owned_fixed; simp add: fixed_keys_def)+
  have "names_at fs (layer_manifest_key v f) ''layers'' = Inr []" "names_at fs (layout_manifest_key v f) ''layouts'' = Inr []"
    using untouched own by (simp_all add: names_at_def local_get_json_def local.get_content)
  then show ?case using untouched by (auto simp: blobs_tracked_def tracked_def)
next
  case (elsewhere fs fs')
  have "local_content fs' k = local_content fs k" if "k = layer_manifest_key v f \<or> k = layout_manifest_key v f" for k
    using elsewhere.hyps(2) owned_fixed[of k v f] that by (auto simp: fixed_keys_def)
  then show ?case by (rule tracked_same_manifests[OF elsewhere.IH]) (use elsewhere.hyps(2) in auto)
qed (auto intro: discover_tracked preprocess_tracked save_match_tracked tracked_put_fixed(2))

text \<open>C9. No artifact is ever orphaned: after any history of worker runs of a binding, failed ones included,
  the keys that the deletion of a version enumerates without listing the store are all the blobs the
  binding owns, so deleting them leaves none behind.\<close>

theorem no_orphaned_artifacts:
  assumes "binding_blobs env v f fs"
  shows "\<exists>ks. file_artifact_keys fs v f = Inr ks \<and>
    (\<forall>k. owned_key v f k \<longrightarrow> local_content (snd (local_delete_many ks fs)) k = None)"
proof -
  obtain ks where "file_artifact_keys fs v f = Inr ks"
    "\<forall>k. owned_key v f k \<longrightarrow> local_content fs k \<noteq> None \<longrightarrow> k \<in> set ks"
    using tracked_enumerated[OF binding_blobs_tracked[OF assms]] by blast
  then show ?thesis by (intro exI[of _ ks]) (auto simp: restrict_map_def)
qed

lemma no_orphaned_artifacts_witness:
  "\<exists>ks. file_artifact_keys (snd (discover_layers_worker idle_worker ''v'' ''f'' (upload_key ''f'') None 3 DEFAULTS
      [(upload_key ''f'', (Raw ''dxf'', 1))])) ''v'' ''f'' = Inr ks \<and>
    (\<forall>k. owned_key ''v'' ''f'' k \<longrightarrow> local_content (snd (local_delete_many ks
      (snd (discover_layers_worker idle_worker ''v'' ''f'' (upload_key ''f'') None 3 DEFAULTS
        [(upload_key ''f'', (Raw ''dxf'', 1))])))) k = None)"
proof (rule no_orphaned_artifacts[of idle_worker], rule binding_blobs.discovered, rule binding_blobs.untouched)
  show "\<forall>k. owned_key ''v'' ''f'' k \<longrightarrow> local_content [(upload_key ''f'', (Raw ''dxf'', 1))] k = None"
    by (auto simp: owned_key_def binding_prefix_def layer_preview_prefix_def local_content_def upload_key_def
        parsed_key_def prematch_key_def match_key_def)
qed

section \<open>The cached rendering is the parsed one\<close>

lemma drop_stale_keeps:
  assumes "drop_stale_manifest_svgs mk e new svg fs = Inr fs2" "\<And>n. svg n \<noteq> k"
  shows "local_content fs2 k = local_content fs k"
proof -
  have "k \<notin> set (map svg ns)" for ns using assms(2) by (metis ex_map_conv)
  then show ?thesis using assms(1)
    by (auto simp only: drop_stale_manifest_svgs_def Let_def content_delete_many restrict_map_def Inr_Inl_False Inl_Inr_False
        sum.inject ComplI split: sum.splits blob_error.splits if_splits)
qed

lemma layer_svgs_keys: "fst ` set (layer_svgs dt v f out by) = layer_preview_svg_key v f ` sanitize_layer_name ` fst ` set by"
  by (simp add: layer_svgs_def image_image)

lemma write_layers_result:
  assumes "write_layers dt v f out t fs = (Inr d, fs')"
  shows "d \<noteq> NeedsLayoutPick n \<and> local_get_json (layer_preview_primitives_key v f) fs' = Inr (cache_json out) \<and>
    local_content fs' (upload_key g) = local_content fs (upload_key g)"
proof -
  let ?by = "group_primitives_by_layer (ro_primitives out)"
  let ?fs1 = "put_svgs t (layer_svgs dt v f out ?by) fs"
  obtain fs2 where fs2: "drop_stale_manifest_svgs (layer_manifest_key v f) ''layers'' (map la_safe_name (layer_entries ?by))
      (layer_preview_svg_key v f) ?fs1 = Inr fs2" and fs': "fs' = local_put_json t (layer_preview_primitives_key v f) (cache_json out)
      (local_put_json t (layer_manifest_key v f) (layer_manifest f (layer_entries ?by) out) fs2)"
    and d: "d = LayersFound (length (layer_entries ?by)) (ro_bbox out) (ro_background out) (ro_source_layout out)"
    using assms by (auto simp: write_layers_def Let_def split: sum.splits)
  have up: "layer_preview_svg_key v f n \<noteq> upload_key g" "upload_key g \<noteq> layer_manifest_key v f"
    "upload_key g \<noteq> layer_preview_primitives_key v f" for n
    by (rule keys_differ_by_end; simp)+
  then have "upload_key g \<notin> fst ` set (layer_svgs dt v f out ?by)" unfolding layer_svgs_keys by (metis imageE)
  then have "local_content ?fs1 (upload_key g) = local_content fs (upload_key g)"
    using content_put_svgs[of t "layer_svgs dt v f out ?by" fs "upload_key g"] by simp
  then have "local_content fs' (upload_key g) = local_content fs (upload_key g)"
    using drop_stale_keeps[OF fs2 up(1)] up(2,3) by (simp add: fs')
  then show ?thesis by (simp add: fs' d local_get_json_put)
qed

lemma layout_gate_keeps_upload:
  assumes "layout_gate env dt src v f layout_name out t fs = (res, fs1)"
  shows "local_content fs1 (upload_key g) = local_content fs (upload_key g)"
proof -
  have up: "layout_preview_svg_key v f n \<noteq> upload_key g" "upload_key g \<noteq> layout_manifest_key v f" for n
    by (rule keys_differ_by_end; simp)+
  have "upload_key g \<noteq> layout_preview_svg_key v f n" for n by (rule keys_differ_by_end) simp
  then have "upload_key g \<notin> fst ` set (map (\<lambda>(svg, e, _). (layout_preview_svg_key v f (la_safe_name e), svg)) es)"
    for es :: "(string \<times> layer_entry \<times> bool) list" by (simp add: image_iff case_prod_beta)
  then have put: "local_content (put_svgs t (map (\<lambda>(svg, e, _). (layout_preview_svg_key v f (la_safe_name e), svg)) es) fs) (upload_key g)
      = local_content fs (upload_key g)" for es :: "(string \<times> layer_entry \<times> bool) list"
    using content_put_svgs[of t "map (\<lambda>(svg, e, _). (layout_preview_svg_key v f (la_safe_name e), svg)) es" fs "upload_key g"]
    by presburger
  have "local_content (snd (build_layout_picker env dt src v f ls t fs)) (upload_key g) = local_content fs (upload_key g)" for ls
    using put drop_stale_keeps[OF _ up(1)] up(2)
    by (auto simp: build_layout_picker_def Let_def split: sum.splits)
  then show ?thesis using assms by (auto simp: layout_gate_def split: if_splits sum.splits prod.splits) (metis snd_conv)+
qed

text \<open>The cache holds what the discovery rendered under its own module attributes; a job that uses it gets that
  rendering whatever its overrides say.\<close>

lemma discovered_rendering:
  assumes "discover_layers_worker env v f (upload_key f) layout_name t attrs fs = (Inr (LayersFound n bb bg sl), fs')"
    and "pa_src a = upload_key f" "pa_transient a = Some (layer_preview_primitives_key v f)" "pa_unit a = None"
    and "pa_layout a = layout_name"
  shows "\<exists>rd. (\<forall>dt. obtain_rendering env dt a fs' = Inr (rd, True)) \<and>
    obtain_rendering env (dxf_tunables_of attrs) (a\<lparr>pa_transient := None\<rparr>) fs' = Inr (rd, False)"
proof -
  let ?dt = "dxf_tunables_of attrs"
  obtain out where out: "flatten_blob env ?dt (upload_key f) None layout_name fs = Inr out"
    using assms(1) by (cases "flatten_blob env ?dt (upload_key f) None layout_name fs") (auto simp: discover_layers_worker_def)
  obtain res fs1 where g: "layout_gate env ?dt (upload_key f) v f layout_name out t fs = (res, fs1)" by force
  have w: "write_layers ?dt v f out t fs1 = (Inr (LayersFound n bb bg sl), fs')"
    using assms(1) g by (auto simp: discover_layers_worker_def out split: sum.splits option.splits)
  from write_layers_result[OF w, where g = f] have c: "local_get_json (layer_preview_primitives_key v f) fs' = Inr (cache_json out)"
    and u: "local_content fs' (upload_key f) = local_content fs1 (upload_key f)" by blast+
  have u: "local_content fs' (upload_key f) = local_content fs (upload_key f)"
    using u layout_gate_keeps_upload[OF g, of f] by simp
  have some: "map_of gs k = None \<longleftrightarrow> local_content gs k = None" for gs k by (simp add: local_content_def)
  have nonempty: "layer_preview_primitives_key v f \<noteq> []" by (simp add: layer_preview_primitives_key_def)
  have "local_content fs' (layer_preview_primitives_key v f) \<noteq> None"
    using c by (auto simp: local_get_json_def local.get_content split: option.splits)
  then have "cache_usable (pa_unit a) (pa_transient a) fs'"
    using assms(3,4) by (simp add: cache_usable_def local.has_content or_empty_def nonempty)
  then have "obtain_rendering env dt a fs' = Inr (rendered_of_output out, True)" for dt
    using c assms(3) by (simp add: obtain_rendering_def cache_round_trip or_empty_def)
  moreover have "flatten_blob env ?dt (upload_key f) None layout_name fs' = Inr out"
    using out by (simp add: flatten_blob_def local_input_def some u)
  then have "obtain_rendering env ?dt (a\<lparr>pa_transient := None\<rparr>) fs' = Inr (rendered_of_output out, False)"
    using assms(2,4,5) by (simp add: obtain_rendering_def cache_usable_def or_empty_def)
  ultimately show ?thesis by blast
qed

text \<open>With a unit override the worker parses in any case.\<close>

lemma unit_override_parses:
  "pa_unit a \<noteq> None \<Longrightarrow> obtain_rendering env dt a fs = obtain_rendering env dt (a\<lparr>pa_transient := None\<rparr>) fs"
  by (cases "pa_unit a") (simp_all add: obtain_rendering_def cache_usable_def)

text \<open>C35. Preprocessing with the cache the discovery phase left, under whatever unit override, layer selection
  and override snapshot the job carries, gives the same parsed file, the same pre-match snapshot and the
  same report as parsing the DXF file again, up to the detector factor that only a parse can supply,
  provided the job sees the DXF module's tunables the discovery saw.  The proviso is needed: a discovery
  never receives the override snapshot, and the cache keeps its rendering.\<close>

theorem cached_preprocess_is_reparse:
  assumes "discover_layers_worker env v f (upload_key f) layout_name t attrs fs = (Inr (LayersFound n bb bg sl), fs')"
    and "a = \<lparr>pa_version = v, pa_file = f, pa_src = upload_key f, pa_parsed_dst = parsed_key v f,
           pa_prematch_dst = prematch_key v f, pa_library = lid, pa_layers = ls,
           pa_transient = Some (layer_preview_primitives_key v f), pa_overrides = overrides, pa_unit = unit,
           pa_layout = layout_name\<rparr>"
    and "dxf_tunables_of (snapshot_applied overrides attrs') = dxf_tunables_of attrs"
    and "preprocess_worker env a t' db0 db1 attrs' fs' = (res, attrs1, fs1)"
    and "preprocess_worker env (a\<lparr>pa_transient := None\<rparr>) t' db0 db1 attrs' fs' = (res', attrs2, fs2)"
  shows "map_sum id (\<lambda>r. r\<lparr>pp_detector_factor := None\<rparr>) res = map_sum id (\<lambda>r. r\<lparr>pp_detector_factor := None\<rparr>) res' \<and>
    attrs1 = attrs2 \<and> local_get_json (parsed_key v f) fs1 = local_get_json (parsed_key v f) fs2 \<and>
    local_get_json (prematch_key v f) fs1 = local_get_json (prematch_key v f) fs2"
proof -
  let ?dt = "dxf_tunables_of attrs"
  have "\<exists>r c. obtain_rendering env ?dt a fs' = map_sum id (\<lambda>rd. (rd, c)) r \<and>
      obtain_rendering env ?dt (a\<lparr>pa_transient := None\<rparr>) fs' = map_sum id (\<lambda>rd. (rd, False)) r"
  proof (cases unit)
    case None
    then obtain rd where "obtain_rendering env ?dt a fs' = Inr (rd, True)"
      "obtain_rendering env ?dt (a\<lparr>pa_transient := None\<rparr>) fs' = Inr (rd, False)"
      using discovered_rendering[OF assms(1), of a] assms(2) by auto
    then show ?thesis by (intro exI[of _ "Inr rd"] exI[of _ True]) simp
  next
    case (Some x)
    then have "obtain_rendering env ?dt a fs' = obtain_rendering env ?dt (a\<lparr>pa_transient := None\<rparr>) fs'"
      using unit_override_parses[of a env ?dt fs'] assms(2) by simp
    moreover obtain r where "obtain_rendering env ?dt (a\<lparr>pa_transient := None\<rparr>) fs' = map_sum id (\<lambda>rd. (rd, False)) r"
    proof
      show "obtain_rendering env ?dt (a\<lparr>pa_transient := None\<rparr>) fs' =
          map_sum id (\<lambda>rd. (rd, False)) (map_sum id fst (obtain_rendering env ?dt (a\<lparr>pa_transient := None\<rparr>) fs'))"
        by (auto simp: obtain_rendering_def cache_usable_def or_empty_def split: sum.split)
    qed
    ultimately show ?thesis by metis
  qed
  then obtain r c where rd: "obtain_rendering env ?dt a fs' = map_sum id (\<lambda>rd. (rd, c)) r"
    "obtain_rendering env ?dt (a\<lparr>pa_transient := None\<rparr>) fs' = map_sum id (\<lambda>rd. (rd, False)) r" by blast
  have tr: "layer_preview_primitives_key v f \<noteq> parsed_key v f" "layer_preview_primitives_key v f \<noteq> prematch_key v f"
    by (simp_all add: layer_preview_primitives_key_def layer_preview_prefix_def parsed_key_def prematch_key_def)
  have drop: "local_get_json k (drop_transient (Some (layer_preview_primitives_key v f)) gs) = local_get_json k gs"
    "local_get_json k (drop_transient None gs) = local_get_json k gs"
    if "layer_preview_primitives_key v f \<noteq> k" for k gs
    using that by (simp_all add: drop_transient_def local_get_json_def local.get_content or_empty_def)
  have a: "pa_overrides a = overrides" "pa_overrides (a\<lparr>pa_transient := None\<rparr>) = overrides"
    "pa_layers (a\<lparr>pa_transient := None\<rparr>) = pa_layers a"
    "pa_parsed_dst (a\<lparr>pa_transient := None\<rparr>) = pa_parsed_dst a" "pa_prematch_dst (a\<lparr>pa_transient := None\<rparr>) = pa_prematch_dst a"
    "pa_library (a\<lparr>pa_transient := None\<rparr>) = pa_library a" "pa_unit (a\<lparr>pa_transient := None\<rparr>) = pa_unit a"
    "pa_transient (a\<lparr>pa_transient := None\<rparr>) = None" "pa_transient a = Some (layer_preview_primitives_key v f)"
    "pa_parsed_dst a = parsed_key v f" "pa_prematch_dst a = prematch_key v f"
    by (simp_all add: assms(2))
  show ?thesis
    using assms(4,5)
    unfolding preprocess_worker_def Let_def a(1-9) assms(3) rd
    by (cases r) (auto simp: drop[OF tr(1)] drop[OF tr(2)] a(10,11) split: sum.splits)
qed

lemma rescale_keeps_space: "ro_source_is_paperspace (fst (maybe_rescale r u)) = ro_source_is_paperspace r"
  by (simp add: maybe_rescale_def Let_def split: option.splits)

lemma idle_discovery:
  "\<exists>n bb bg sl fs'. discover_layers_worker idle_worker ''v'' ''f'' (upload_key ''f'') None 3 DEFAULTS
     [(upload_key ''f'', (Raw ''dxf'', 1))] = (Inr (LayersFound n bb bg sl), fs')"
proof -
  let ?fs = "[(upload_key ''f'', (Raw ''dxf'', 1))] :: local_files"
  obtain out where out: "flatten_blob idle_worker (dxf_tunables_of DEFAULTS) (upload_key ''f'') None None ?fs = Inr out"
    "\<not> ro_source_is_paperspace out"
    by (simp add: flatten_blob_def local_input_def idle_worker_def flatten_for_render_def open_dxf_def line_ezdxf_def
        line_doc_def resolve_layout_def or_empty_def auto_layout_def Let_def rescale_keeps_space)
  have "blobs_tracked ''v'' ''f'' ?fs"
    by (rule binding_blobs_tracked[of idle_worker], rule binding_blobs.untouched)
      (auto simp: owned_key_def binding_prefix_def layer_preview_prefix_def local_content_def upload_key_def
        parsed_key_def prematch_key_def match_key_def)
  from write_layers_tracked(2)[OF this, of "dxf_tunables_of DEFAULTS" out 3] obtain n bb bg sl fs' where
    "write_layers (dxf_tunables_of DEFAULTS) ''v'' ''f'' out 3 ?fs = (Inr (LayersFound n bb bg sl), fs')"
    by (metis prod.collapse)
  then show ?thesis using out by (simp add: discover_layers_worker_def layout_gate_def)
qed

definition phase2_args :: preprocess_args where
  "phase2_args = \<lparr>pa_version = ''v'', pa_file = ''f'', pa_src = upload_key ''f'', pa_parsed_dst = parsed_key ''v'' ''f'',
     pa_prematch_dst = prematch_key ''v'' ''f'', pa_library = ''M'', pa_layers = Some [''0''],
     pa_transient = Some (layer_preview_primitives_key ''v'' ''f''), pa_overrides = Some [(''RESAMPLE_N'', TInt 8)],
     pa_unit = None, pa_layout = None\<rparr>"

text \<open>An override of a matching tunable leaves the proviso true.\<close>

lemma resample_override_keeps_dxf:
  "dxf_tunables_of (snapshot_applied (Some [(''RESAMPLE_N'', TInt 8)]) DEFAULTS) = dxf_tunables_of DEFAULTS"
  by (simp add: snapshot_applied_def apply_snapshot_def BY_NAME_def row_by_def ALLOW_LIST_def int_spec_def float_spec_def
      set_attrs_def dxf_tunables_of_def attr_def update_conv')

lemma cached_preprocess_is_reparse_witness:
  "let fs = snd (discover_layers_worker idle_worker ''v'' ''f'' (upload_key ''f'') None 3 DEFAULTS
       [(upload_key ''f'', (Raw ''dxf'', 1))]);
     run = (\<lambda>a. snd (snd (preprocess_worker idle_worker a 4 two_libraries two_libraries DEFAULTS fs)))
   in local_get_json (parsed_key ''v'' ''f'') (run phase2_args) =
      local_get_json (parsed_key ''v'' ''f'') (run (phase2_args\<lparr>pa_transient := None\<rparr>))"
proof -
  obtain n bb bg sl fs' where d: "discover_layers_worker idle_worker ''v'' ''f'' (upload_key ''f'') None 3 DEFAULTS
     [(upload_key ''f'', (Raw ''dxf'', 1))] = (Inr (LayersFound n bb bg sl), fs')"
    using idle_discovery by blast
  obtain res attrs1 fs1 where c: "preprocess_worker idle_worker phase2_args 4 two_libraries two_libraries DEFAULTS fs' = (res, attrs1, fs1)"
    by (metis prod.exhaust)
  obtain res' attrs2 fs2 where p: "preprocess_worker idle_worker (phase2_args\<lparr>pa_transient := None\<rparr>) 4 two_libraries two_libraries
      DEFAULTS fs' = (res', attrs2, fs2)"
    by (metis prod.exhaust)
  from cached_preprocess_is_reparse[OF d phase2_args_def resample_override_keeps_dxf c p]
  have "local_get_json (parsed_key ''v'' ''f'') fs1 = local_get_json (parsed_key ''v'' ''f'') fs2" by blast
  then show ?thesis unfolding Let_def d snd_conv c p .
qed

end
