(* ===== verification/JobSubmit.thy ===== *)
theory JobSubmit
  imports Pipeline Guards
begin

text \<open>
  Submission of jobs in \<^verbatim>\<open>app/jobs.py\<close>: each submit function as an update of the
  system, which is the server of the web process (core database, job queue, authorization) with the
  local blob store. Job ids and times are arguments.
\<close>

record system =
  sy_server :: server
  sy_blobs :: local_files

definition files_of :: "system \<Rightarrow> file_db" where
  "files_of sys = fdb (core (sy_server sys))"

definition on_files :: "(file_db \<Rightarrow> file_db) \<Rightarrow> system \<Rightarrow> system" where
  "on_files f sys = sys\<lparr>sy_server := (sy_server sys)\<lparr>core := (core (sy_server sys))\<lparr>fdb := f (files_of sys)\<rparr>\<rparr>\<rparr>"

definition jobs_of :: "system \<Rightarrow> jobs" where
  "jobs_of sys = queue (sy_server sys)"

definition on_jobs :: "(jobs \<Rightarrow> jobs) \<Rightarrow> system \<Rightarrow> system" where
  "on_jobs f sys = sys\<lparr>sy_server := (sy_server sys)\<lparr>queue := f (jobs_of sys)\<rparr>\<rparr>"

definition on_blobs :: "(local_files \<Rightarrow> local_files) \<Rightarrow> system \<Rightarrow> system" where
  "on_blobs f sys = sys\<lparr>sy_blobs := f (sy_blobs sys)\<rparr>"

lemma system_updates [simp]:
  "files_of (on_files f sys) = f (files_of sys)" "jobs_of (on_files f sys) = jobs_of sys"
  "sy_blobs (on_files f sys) = sy_blobs sys" "files_of (on_jobs g sys) = files_of sys"
  "jobs_of (on_jobs g sys) = g (jobs_of sys)" "sy_blobs (on_jobs g sys) = sy_blobs sys"
  "files_of (on_blobs h sys) = files_of sys" "jobs_of (on_blobs h sys) = jobs_of sys"
  "sy_blobs (on_blobs h sys) = h (sy_blobs sys)"
  by (simp_all add: files_of_def on_files_def jobs_of_def on_jobs_def on_blobs_def)

section \<open>Submission\<close>

fun tuned_json :: "tuned \<Rightarrow> json" where
  "tuned_json (TInt n) = JInt n"
| "tuned_json (TFloat x) = JFloat x"

fun tuned_of_json :: "json \<Rightarrow> tuned option" where
  "tuned_of_json (JInt n) = Some (TInt n)"
| "tuned_of_json (JFloat x) = Some (TFloat x)"
| "tuned_of_json _ = None"

definition overrides_json :: "attributes \<Rightarrow> json" where
  "overrides_json st = JObj (map (\<lambda>(n, v). (n, tuned_json v)) st)"

definition overrides_of_json :: "json \<Rightarrow> attributes option" where
  "overrides_of_json j =
     (case j of JObj d \<Rightarrow> those (map (\<lambda>(n, v). map_option (Pair n) (tuned_of_json v)) d) | _ \<Rightarrow> None)"

definition current_dev_overrides :: "attributes \<Rightarrow> json" where
  "current_dev_overrides st = (let snap = snapshot_non_default st in if snap = [] then JNull else overrides_json snap)"

definition preprocess_payload ::
  "string \<Rightarrow> string list option \<Rightarrow> string option \<Rightarrow> attributes \<Rightarrow> string option \<Rightarrow> string option \<Rightarrow> (string \<times> json) list" where
  "preprocess_payload library_id selected_layers transient attrs unit layout_name =
     [(''library_id'', JStr library_id), (''selected_layers'', layers_json selected_layers),
      (''transient'', json_opt transient), (''dev_overrides'', current_dev_overrides attrs),
      (''user_unit_override'', json_opt unit), (''layout_name'', json_opt layout_name)]"

definition file_job :: "string \<Rightarrow> string \<Rightarrow> string \<Rightarrow> (string \<times> json) list \<Rightarrow> job_request" where
  "file_job kind version_id file_id payload =
     \<lparr>jr_kind = kind, jr_payload = payload, jr_version_id = Some version_id, jr_file_id = Some file_id,
      jr_product_id = None, jr_parent_id = None, jr_total = None, jr_done = None, jr_status = Queued,
      jr_submitted_by = None\<rparr>"

definition submit :: "string \<Rightarrow> real \<Rightarrow> job_request \<Rightarrow> system \<Rightarrow> system" where
  "submit job_id now rq = on_jobs (\<lambda>js. snd (insert_job job_id now rq js))"

definition or_else :: "'a option \<Rightarrow> 'a option \<Rightarrow> 'a option" where
  "or_else a b = (case a of None \<Rightarrow> b | Some x \<Rightarrow> Some x)"

text \<open>A missing unit or layout falls back to the binding's.\<close>

definition submit_preprocess ::
  "string \<Rightarrow> real \<Rightarrow> attributes \<Rightarrow> string \<Rightarrow> string \<Rightarrow> string \<Rightarrow> string list option \<Rightarrow> string option \<Rightarrow> string option
     \<Rightarrow> system \<Rightarrow> system" where
  "submit_preprocess job_id now attrs version_id file_id library_id selected_layers unit layout_name sys =
     (let b = map_option r_binding (get_file version_id file_id (files_of sys));
          unit' = or_else unit (Option.bind b b_user_unit_override);
          layout' = or_else layout_name (Option.bind b b_chosen_layout)
      in submit job_id now
           (file_job ''preprocess'' version_id file_id
              (preprocess_payload library_id selected_layers (Some (layer_preview_primitives_key version_id file_id))
                 attrs unit' layout')) sys)"

definition find_inflight_preprocess_job :: "string \<Rightarrow> string \<Rightarrow> system \<Rightarrow> string option" where
  "find_inflight_preprocess_job version_id file_id sys = find_inflight ''preprocess'' version_id file_id (jobs_of sys)"

datatype submit_error = UnknownBinding string string | UnknownVersion string

definition library_of_version :: "string \<Rightarrow> system \<Rightarrow> submit_error + string" where
  "library_of_version version_id sys =
     (case get_version version_id (core (sy_server sys)) of
        None \<Rightarrow> Inl (UnknownVersion version_id) | Some v \<Rightarrow> Inr (v_library_id v))"

text \<open>The writes before the library lookup stay when it fails.\<close>

definition submit_unit_override_preprocess ::
  "string \<Rightarrow> real \<Rightarrow> attributes \<Rightarrow> string \<Rightarrow> string \<Rightarrow> string \<Rightarrow> system \<Rightarrow> (submit_error + string) \<times> system" where
  "submit_unit_override_preprocess job_id now attrs version_id file_id unit sys =
     (case get_file version_id file_id (files_of sys) of
        None \<Rightarrow> (Inl (UnknownBinding version_id file_id), sys)
      | Some rc \<Rightarrow>
          (let sys1 = on_files (update_status version_id file_id Preprocessing None)
                        (on_files (set_user_unit_override version_id file_id (Some unit)) sys)
           in case library_of_version version_id sys1 of
                Inl e \<Rightarrow> (Inl e, sys1)
              | Inr library_id \<Rightarrow>
                  (Inr job_id,
                   submit_preprocess job_id now attrs version_id file_id library_id (b_selected_layers (r_binding rc))
                     (Some unit) (b_chosen_layout (r_binding rc)) sys1)))"

definition submit_discover_layers :: "string \<Rightarrow> real \<Rightarrow> string \<Rightarrow> string \<Rightarrow> string option \<Rightarrow> system \<Rightarrow> system" where
  "submit_discover_layers job_id now version_id file_id layout_name sys =
     (let b = map_option r_binding (get_file version_id file_id (files_of sys))
      in submit job_id now
           (file_job ''discover'' version_id file_id
              [(''layout_name'', json_opt (or_else layout_name (Option.bind b b_chosen_layout)))]) sys)"

definition submit_rule_check :: "string \<Rightarrow> real \<Rightarrow> string \<Rightarrow> string \<Rightarrow> string list \<Rightarrow> system \<Rightarrow> system" where
  "submit_rule_check job_id now product_id version_id file_ids =
     submit job_id now
       \<lparr>jr_kind = ''rule_check'', jr_payload = [(''file_ids'', JList (map JStr file_ids))],
        jr_version_id = Some version_id, jr_file_id = None, jr_product_id = Some product_id, jr_parent_id = None,
        jr_total = None, jr_done = None, jr_status = Queued, jr_submitted_by = None\<rparr>"

definition submit_save_match :: "string \<Rightarrow> real \<Rightarrow> string \<Rightarrow> string \<Rightarrow> system \<Rightarrow> system" where
  "submit_save_match job_id now version_id file_id = submit job_id now (file_job ''save_match'' version_id file_id [])"

text \<open>Re-preprocessing everything: bindings past the layer selection of versions that are not signed off.\<close>

definition REPROCESS_SKIP_STATUSES :: "file_status list" where
  "REPROCESS_SKIP_STATUSES = [DiscoveringLayers, AwaitingLayout, AwaitingLayers, FileError]"

definition open_library_of :: "core_db \<Rightarrow> string \<Rightarrow> string option" where
  "open_library_of db version_id =
     (case get_version version_id db of
        None \<Rightarrow> None | Some v \<Rightarrow> if is_signed_off v then None else Some (v_library_id v))"

definition eligible :: "core_db \<Rightarrow> file_record \<Rightarrow> bool" where
  "eligible db r \<longleftrightarrow> b_status (r_binding r) \<notin> set REPROCESS_SKIP_STATUSES \<and> open_library_of db (r_version_id r) \<noteq> None"

definition reprocess_parent :: "string \<Rightarrow> nat \<Rightarrow> nat \<Rightarrow> job_request" where
  "reprocess_parent kind skipped tot =
     \<lparr>jr_kind = kind, jr_payload = [(''skipped'', JInt (int skipped)), (''errors'', JList [])], jr_version_id = None,
      jr_file_id = None, jr_product_id = None, jr_parent_id = None, jr_total = Some tot, jr_done = Some 0,
      jr_status = (if 0 < tot then Running else JobDone), jr_submitted_by = None\<rparr>"

definition reprocess_child :: "string \<Rightarrow> attributes \<Rightarrow> core_db \<Rightarrow> file_record \<Rightarrow> job_request" where
  "reprocess_child parent_id attrs db r =
     (file_job ''preprocess'' (r_version_id r) (r_id r)
        (preprocess_payload (or_empty (open_library_of db (r_version_id r))) (b_selected_layers (r_binding r)) None
           attrs (b_user_unit_override (r_binding r)) (b_chosen_layout (r_binding r))))\<lparr>jr_parent_id := Some parent_id\<rparr>"

definition submit_reprocess_all ::
  "string \<Rightarrow> (nat \<Rightarrow> string) \<Rightarrow> real \<Rightarrow> string \<Rightarrow> attributes \<Rightarrow> system \<Rightarrow> system" where
  "submit_reprocess_all parent_id child_id now kind attrs sys =
     (let db = core (sy_server sys);
          bindings = list_all_files (fdb db);
          chosen = filter (eligible db) bindings;
          sys1 = submit parent_id now (reprocess_parent kind (length bindings - length chosen) (length chosen)) sys
      in fold (\<lambda>(n, r). submit (child_id n) now (reprocess_child parent_id attrs db r)) (enumerate 0 chosen) sys1)"

end
