(* ===== verification/WorkerLoop.thy ===== *)
theory WorkerLoop
  imports JobSubmit
begin

text \<open>
  The execution plan and the side effects of success and failure of \<^verbatim>\<open>app/jobs.py\<close>, and the tick of
  \<^verbatim>\<open>app/worker_loop.py\<close>: reap the finished futures, claim while slots are free, heartbeat and maintain.
  Which futures have finished and with what outcome is an argument of a tick, as are the clock and the
  writes of a success callback that the stores refuse.
\<close>

section \<open>The execution plan\<close>

text \<open>The worker a job runs and its positional arguments, JSON values as the queue holds them.\<close>

datatype worker_fn = PreprocessWorker | DiscoverWorker | SaveMatchWorker | RuleCheckWorker

type_synonym plan = "worker_fn \<times> json list"

datatype plan_error = KeyError string | UnknownKind string

definition json_opt_text :: "string option \<Rightarrow> string" where
  "json_opt_text s = (case s of None \<Rightarrow> ''None'' | Some t \<Rightarrow> t)"

definition payload_key :: "string \<Rightarrow> job \<Rightarrow> plan_error + json" where
  "payload_key k j = (case map_of (j_payload j) k of None \<Rightarrow> Inl (KeyError k) | Some v \<Rightarrow> Inr v)"

definition payload_get :: "string \<Rightarrow> job \<Rightarrow> json" where
  "payload_get k j = (case map_of (j_payload j) k of None \<Rightarrow> JNull | Some v \<Rightarrow> v)"

definition execution_plan :: "job \<Rightarrow> plan_error + plan" where
  "execution_plan j =
     (let vid = json_opt_text (j_version_id j); fid = json_opt_text (j_file_id j);
          ids = [json_opt (j_version_id j), json_opt (j_file_id j)]
      in if j_kind j = ''preprocess'' then
           (case payload_key ''library_id'' j of
              Inl e \<Rightarrow> Inl e
            | Inr library_id \<Rightarrow>
                Inr (PreprocessWorker, ids @
                  [JStr (upload_key fid), JStr (parsed_key vid fid), JStr (prematch_key vid fid), library_id,
                   payload_get ''selected_layers'' j, payload_get ''transient'' j, payload_get ''dev_overrides'' j,
                   payload_get ''user_unit_override'' j, payload_get ''layout_name'' j]))
         else if j_kind j = ''discover'' then
           Inr (DiscoverWorker, ids @ [JStr (upload_key fid), payload_get ''layout_name'' j])
         else if j_kind j = ''save_match'' then
           Inr (SaveMatchWorker, ids @ [JStr (match_key vid fid)])
         else if j_kind j = ''rule_check'' then
           (case payload_key ''file_ids'' j of
              Inl e \<Rightarrow> Inl e
            | Inr file_ids \<Rightarrow>
                Inr (RuleCheckWorker,
                  [json_opt (j_product_id j), json_opt (j_version_id j), file_ids, JStr (rule_check_key vid)]))
         else Inl (UnknownKind (j_kind j)))"

text \<open>How the preprocessing worker reads its arguments.\<close>

fun opt_str_of_json :: "json \<Rightarrow> string option option" where
  "opt_str_of_json JNull = Some None"
| "opt_str_of_json (JStr s) = Some (Some s)"
| "opt_str_of_json _ = None"

fun layers_of_json :: "json \<Rightarrow> string list option option" where
  "layers_of_json JNull = Some None"
| "layers_of_json (JList js) = map_option Some (those (map str_of_json js))"
| "layers_of_json _ = None"

definition snapshot_of_json :: "json \<Rightarrow> attributes option option" where
  "snapshot_of_json j = (if j = JNull then Some None else map_option Some (overrides_of_json j))"

definition preprocess_args_of :: "json list \<Rightarrow> preprocess_args option" where
  "preprocess_args_of args =
     (case args of
        [vid, fid, src, parsed, prematch, library_id, layers, transient, overrides, unit, layout] \<Rightarrow>
          (case (those (map str_of_json [vid, fid, src, parsed, prematch, library_id]), layers_of_json layers,
                 opt_str_of_json transient, snapshot_of_json overrides, opt_str_of_json unit, opt_str_of_json layout) of
             (Some strs, Some ls, Some tr, Some ov, Some u, Some lo) \<Rightarrow>
               Some \<lparr>pa_version = strs ! 0, pa_file = strs ! 1, pa_src = strs ! 2, pa_parsed_dst = strs ! 3,
                     pa_prematch_dst = strs ! 4, pa_library = strs ! 5, pa_layers = ls, pa_transient = tr,
                     pa_overrides = ov, pa_unit = u, pa_layout = lo\<rparr>
           | _ \<Rightarrow> None)
      | _ \<Rightarrow> None)"

section \<open>Results\<close>

text \<open>What a worker returns; a job's kind fixes the constructor, because the plan picks the worker by kind.\<close>

datatype job_result =
    PreprocessDone preprocess_result
  | DiscoverDone discover_result
  | SaveDone string string save_result  \<comment> \<open>library id, destination\<close>
  | RuleCheckDone string string rule_check_result  \<comment> \<open>product id, destination\<close>

fun discover_json :: "json \<Rightarrow> discover_result \<Rightarrow> json" where
  "discover_json fid (NeedsLayoutPick n) =
     JObj [(''file_id'', fid), (''needs_layout_pick'', JBool True), (''layout_count'', JInt (int n))]"
| "discover_json fid (LayersFound n bbox bg layout) =
     JObj [(''file_id'', fid), (''layer_count'', JInt (int n)), (''bbox'', json_maybe bbox_json bbox),
           (''background'', JStr bg), (''source_layout'', json_opt layout)]"

definition strings_json :: "string list \<Rightarrow> json" where
  "strings_json ss = JList (map JStr ss)"

fun result_json :: "job \<Rightarrow> job_result \<Rightarrow> json" where
  "result_json j (PreprocessDone r) =
     JObj [(''version_id'', json_opt (j_version_id j)), (''file_id'', json_opt (j_file_id j)),
           (''primitive_count'', JInt (int (pp_primitive_count r))), (''bbox'', json_maybe bbox_json (pp_bbox r)),
           (''background'', JStr (pp_background r)), (''insunits'', json_maybe JInt (pp_insunits r)),
           (''applied_scale'', num (pp_applied_scale r)), (''detector_factor'', json_maybe num (pp_detector_factor r)),
           (''user_unit_override_requested'', json_opt (pp_requested r)),
           (''prematch_total'', JInt (int (pp_prematch_total r))),
           (''dxf_recover_notes'', json_maybe (\<lambda>n. n) (pp_notes r)), (''source_layout'', json_opt (pp_layout r)),
           (''source_is_paperspace'', JBool (pp_paperspace r))]"
| "result_json j (DiscoverDone r) = discover_json (json_opt (j_file_id j)) r"
| "result_json j (SaveDone library_id saved_to r) =
     JObj [(''version_id'', json_opt (j_version_id j)), (''file_id'', json_opt (j_file_id j)),
           (''library_id'', JStr library_id), (''template_keys'', strings_json (sr_template_keys r)),
           (''total_matches'', JInt (int (sr_total_matches r))),
           (''side_counts'', JObj (map (\<lambda>(k, n). (k, JInt (int n))) (sr_side_counts r))),
           (''suppressed_count'', JInt (sr_suppressed_count r)), (''saved_to'', JStr saved_to),
           (''match_saved'', JBool True)]"
| "result_json j (RuleCheckDone product_id saved_to r) =
     JObj [(''product_id'', JStr product_id), (''version_id'', json_opt (j_version_id j)), (''saved_to'', JStr saved_to),
           (''rule_count'', JInt (int (rc_rule_count r))), (''pass_count'', JInt (int (rc_pass_count r))),
           (''fail_count'', JInt (int (rc_rule_count r) - int (rc_pass_count r))),
           (''roles_covered'', strings_json (rc_roles_covered r))]"

section \<open>Side effects of success and failure\<close>

definition persist_source_layout :: "string \<Rightarrow> string \<Rightarrow> preprocess_result \<Rightarrow> system \<Rightarrow> system" where
  "persist_source_layout vid fid r =
     (if pp_paperspace r \<and> or_empty (pp_layout r) \<noteq> [] then on_files (set_chosen_layout vid fid (pp_layout r)) else id)"

text \<open>The two writes that drop a Match JSON made in the old coordinates.\<close>

definition invalidate_match_after_rescale :: "string \<Rightarrow> string \<Rightarrow> (system \<Rightarrow> system) list" where
  "invalidate_match_after_rescale vid fid =
     [on_blobs (\<lambda>fs. snd (local_delete (match_key vid fid) fs)), on_files (set_match_saved vid fid False)]"

definition maybe_clear_redundant_unit_override :: "string \<Rightarrow> string \<Rightarrow> preprocess_result \<Rightarrow> system \<Rightarrow> system" where
  "maybe_clear_redundant_unit_override vid fid r =
     (if or_empty (pp_requested r) = [] then id
      else (case pp_detector_factor r of
              None \<Rightarrow> id
            | Some d \<Rightarrow> if \<bar>d - pp_applied_scale r\<bar> < 1 / 10 ^ 12 then on_files (set_user_unit_override vid fid None) else id))"

definition store_parsed :: "string \<Rightarrow> string \<Rightarrow> real \<Rightarrow> preprocess_result \<Rightarrow> file_db \<Rightarrow> bool \<times> file_db" where
  "store_parsed vid fid now r =
     update_parsed vid fid (pp_primitive_count r) (case pp_bbox r of None \<Rightarrow> (0, 0, 0, 0) | Some b \<Rightarrow> b)
       (pp_background r) (pp_insunits r) (pp_applied_scale r) now"

text \<open>The writes of the callback, in order.\<close>

definition apply_preprocess_result :: "string \<Rightarrow> string \<Rightarrow> real \<Rightarrow> preprocess_result \<Rightarrow> file_db \<Rightarrow> (system \<Rightarrow> system) list" where
  "apply_preprocess_result vid fid now r db =
     [on_files (\<lambda>db. snd (store_parsed vid fid now r db)), on_files (set_dxf_recover_notes fid (pp_notes r)),
      persist_source_layout vid fid r] @
     (if fst (store_parsed vid fid now r db) then invalidate_match_after_rescale vid fid else []) @
     [maybe_clear_redundant_unit_override vid fid r]"

fun success_writes :: "string \<Rightarrow> string \<Rightarrow> real \<Rightarrow> job_result \<Rightarrow> file_db \<Rightarrow> (system \<Rightarrow> system) list" where
  "success_writes vid fid now (PreprocessDone r) db = apply_preprocess_result vid fid now r db"
| "success_writes vid fid now (DiscoverDone r) db =
     [on_files (update_status vid fid
        (case r of NeedsLayoutPick _ \<Rightarrow> AwaitingLayout | LayersFound _ _ _ _ \<Rightarrow> AwaitingLayers) None)]"
| "success_writes vid fid now (SaveDone _ _ _) db = [on_files (set_match_saved vid fid True)]"
| "success_writes vid fid now (RuleCheckDone _ _ _) db = []"

definition parent_of :: "job \<Rightarrow> string option" where
  "parent_of j = (if or_empty (j_parent_id j) = [] then None else j_parent_id j)"

definition bump :: "real \<Rightarrow> job \<Rightarrow> system \<Rightarrow> system" where
  "bump now j = (case parent_of j of None \<Rightarrow> id | Some pid \<Rightarrow> on_jobs (\<lambda>js. snd (bump_parent_done pid now js)))"

definition report_error :: "string \<Rightarrow> job \<Rightarrow> system \<Rightarrow> system" where
  "report_error e j =
     (case parent_of j of
        None \<Rightarrow> id
      | Some pid \<Rightarrow>
          on_jobs (append_parent_error pid
            (JObj [(''version_id'', json_opt (j_version_id j)), (''file_id'', json_opt (j_file_id j)), (''error'', JStr e)])))"

text \<open>A write that fails: how many went through before it, the exception and its traceback.\<close>

record fault =
  ft_after :: nat
  ft_error :: string
  ft_traceback :: string

definition with_traceback :: "string \<Rightarrow> string \<Rightarrow> string" where
  "with_traceback e tb = e @ ''\<newline>'' @ tb"

definition apply_success :: "fault option \<Rightarrow> real \<Rightarrow> job \<Rightarrow> job_result \<Rightarrow> system \<Rightarrow> string option \<times> system" where
  "apply_success flt now j r sys =
     (let writes = success_writes (json_opt_text (j_version_id j)) (json_opt_text (j_file_id j)) now r (files_of sys)
      in case flt of
           Some ft \<Rightarrow>
             (if ft_after ft < length writes then
                (Some (with_traceback (ft_error ft) (ft_traceback ft)),
                 bump now j (report_error (ft_error ft) j (fold id (take (ft_after ft) writes) sys)))
              else (None, bump now j (fold id writes sys)))
         | None \<Rightarrow> (None, bump now j (fold id writes sys)))"

text \<open>An update of a binding by a NULL id matches no row.\<close>

definition flag_binding :: "job \<Rightarrow> string \<Rightarrow> file_db \<Rightarrow> file_db" where
  "flag_binding j error_text db =
     (case (j_version_id j, j_file_id j) of
        (Some vid, Some fid) \<Rightarrow> update_status vid fid FileError (Some error_text) db
      | _ \<Rightarrow> db)"

definition apply_failure :: "real \<Rightarrow> job \<Rightarrow> string \<Rightarrow> string \<Rightarrow> system \<Rightarrow> system" where
  "apply_failure now j e tb sys =
     (let sys1 = (if j_kind j \<in> {''preprocess'', ''discover''}
                  then on_files (flag_binding j (with_traceback e tb)) sys
                  else sys)
      in bump now j (report_error e j sys1))"

section \<open>The loop\<close>

datatype outcome = Raised string string | Returned job_result

record loop =
  wl_identity :: string
  wl_max_workers :: nat
  wl_inflight :: "(string, job \<times> plan) dict"
  wl_last_heartbeat :: real
  wl_last_maintenance :: real

text \<open>What one tick meets: the clock at its three phases, the outcome of every future that is done, the
  callback writes that fail, the tracebacks of plan errors, and whether the loop was asked to stop.\<close>

record tick =
  tk_reap :: real
  tk_claim :: real
  tk_now :: real
  tk_done :: "string \<Rightarrow> outcome option"
  tk_fault :: "string \<Rightarrow> fault option"
  tk_traceback :: "string \<Rightarrow> string"
  tk_stop :: bool

definition settle :: "tick \<Rightarrow> string \<Rightarrow> job \<Rightarrow> outcome \<Rightarrow> system \<Rightarrow> system" where
  "settle tk job_id j oc sys =
     (case oc of
        Raised e tb \<Rightarrow> on_jobs (fail_job job_id (tk_reap tk) (with_traceback e tb)) (apply_failure (tk_reap tk) j e tb sys)
      | Returned r \<Rightarrow>
          (case apply_success (tk_fault tk job_id) (tk_reap tk) j r sys of
             (Some callback_error, sys1) \<Rightarrow> on_jobs (fail_job job_id (tk_reap tk) callback_error) sys1
           | (None, sys1) \<Rightarrow> on_jobs (complete_job job_id (tk_reap tk) (Some (result_json j r))) sys1))"

definition finished :: "tick \<Rightarrow> string \<times> job \<times> plan \<Rightarrow> bool" where
  "finished tk = (\<lambda>(job_id, _). tk_done tk job_id \<noteq> None)"

definition reap_one :: "tick \<Rightarrow> string \<times> job \<times> plan \<Rightarrow> system \<Rightarrow> system" where
  "reap_one tk = (\<lambda>(job_id, j, _) sys.
     case tk_done tk job_id of None \<Rightarrow> sys | Some oc \<Rightarrow> settle tk job_id j oc sys)"

definition reap :: "tick \<Rightarrow> loop \<times> system \<Rightarrow> loop \<times> system" where
  "reap tk = (\<lambda>(lp, sys).
     (lp\<lparr>wl_inflight := filter (\<lambda>e. \<not> finished tk e) (wl_inflight lp)\<rparr>,
      fold (reap_one tk) (filter (finished tk) (wl_inflight lp)) sys))"

definition py_repr :: "string \<Rightarrow> string" where
  "py_repr s = CHR 0x27 # s @ [CHR 0x27]"

fun plan_error_text :: "plan_error \<Rightarrow> string" where
  "plan_error_text (KeyError k) = py_repr k"
| "plan_error_text (UnknownKind k) = ''unknown job kind '' @ py_repr k"

definition reject_job :: "tick \<Rightarrow> job \<Rightarrow> plan_error \<Rightarrow> system \<Rightarrow> system" where
  "reject_job tk j e sys =
     on_jobs (fail_job (j_id j) (tk_claim tk) (with_traceback (plan_error_text e) (tk_traceback tk (j_id j))))
       (apply_failure (tk_claim tk) j (plan_error_text e) (tk_traceback tk (j_id j)) sys)"

text \<open>\<^verbatim>\<open>while len(self._inflight) < self.max_workers\<close>; every round takes a job off the queue, so
  one more round than there are queued jobs is enough.\<close>

fun claim_slots :: "nat \<Rightarrow> tick \<Rightarrow> loop \<times> system \<Rightarrow> loop \<times> system" where
  "claim_slots 0 tk s = s"
| "claim_slots (Suc n) tk (lp, sys) =
     (if wl_max_workers lp \<le> length (wl_inflight lp) \<or> tk_stop tk then (lp, sys)
      else (case claim_next (wl_identity lp) (tk_claim tk) (jobs_of sys) of
              (None, js) \<Rightarrow> (lp, sys)
            | (Some j, js) \<Rightarrow>
                (case execution_plan j of
                   Inl e \<Rightarrow> claim_slots n tk (lp, reject_job tk j e (on_jobs (\<lambda>_. js) sys))
                 | Inr pl \<Rightarrow>
                     claim_slots n tk
                       (lp\<lparr>wl_inflight := AList.update (j_id j) (j, pl) (wl_inflight lp)\<rparr>, on_jobs (\<lambda>_. js) sys))))"

definition queued_count :: "jobs \<Rightarrow> nat" where
  "queued_count js = rowcount (\<lambda>j. j_status j = Queued) js"

definition claim_phase :: "tick \<Rightarrow> loop \<times> system \<Rightarrow> loop \<times> system" where
  "claim_phase tk s = claim_slots (Suc (queued_count (jobs_of (snd s)))) tk s"

definition heartbeat_phase :: "tick \<Rightarrow> loop \<times> system \<Rightarrow> loop \<times> system" where
  "heartbeat_phase tk = (\<lambda>(lp, sys).
     if wl_inflight lp \<noteq> [] \<and> 25 \<le> tk_now tk - wl_last_heartbeat lp
     then (lp\<lparr>wl_last_heartbeat := tk_now tk\<rparr>,
           on_jobs (\<lambda>js. snd (heartbeat_jobs (wl_identity lp) (tk_now tk) js)) sys)
     else (lp, sys))"

definition worker_died :: string where
  "worker_died = ''worker died (heartbeat stale, attempts exhausted)''"

definition fail_exhausted :: "tick \<Rightarrow> job \<Rightarrow> system \<Rightarrow> system" where
  "fail_exhausted tk j sys =
     on_jobs (fail_job (j_id j) (tk_now tk) worker_died) (apply_failure (tk_now tk) j worker_died '''' sys)"

definition prune_auth :: "real \<Rightarrow> system \<Rightarrow> system" where
  "prune_auth now sys = sys\<lparr>sy_server := (sy_server sys)\<lparr>auth := snd (prune_sessions now (auth (sy_server sys)))\<rparr>\<rparr>"

definition maintenance_phase :: "tick \<Rightarrow> loop \<times> system \<Rightarrow> loop \<times> system" where
  "maintenance_phase tk = (\<lambda>(lp, sys).
     if 60 \<le> tk_now tk - wl_last_maintenance lp then
       (let sys1 = on_jobs (\<lambda>js. snd (requeue_stale (tk_now tk) js)) sys;
            sys2 = fold (fail_exhausted tk) (stale_exhausted (tk_now tk) (jobs_of sys1)) sys1;
            sys3 = on_jobs (\<lambda>js. snd (prune_jobs (tk_now tk) js)) sys2
        in (lp\<lparr>wl_last_maintenance := tk_now tk\<rparr>, prune_auth (tk_now tk) sys3))
     else (lp, sys))"

definition run_once :: "tick \<Rightarrow> loop \<times> system \<Rightarrow> loop \<times> system" where
  "run_once tk s = maintenance_phase tk (heartbeat_phase tk (claim_phase tk (reap tk s)))"

text \<open>The states of \<^verbatim>\<open>run_forever\<close>.\<close>

fun run_loop :: "(nat \<Rightarrow> tick) \<Rightarrow> nat \<Rightarrow> loop \<times> system \<Rightarrow> loop \<times> system" where
  "run_loop tks 0 s = s"
| "run_loop tks (Suc n) s = run_once (tks n) (run_loop tks n s)"

section \<open>Reads\<close>

definition strip_payload :: "job \<Rightarrow> job" where
  "strip_payload j = j\<lparr>j_payload := filter (\<lambda>(k, _). k = ''skipped'' \<or> k = ''errors'') (j_payload j)\<rparr>"

definition get_public :: "string \<Rightarrow> system \<Rightarrow> job option" where
  "get_public job_id sys = map_option strip_payload (get_job job_id (jobs_of sys))"

definition list_jobs :: "system \<Rightarrow> job list" where
  "list_jobs sys = map strip_payload (list_all_jobs (jobs_of sys))"

definition latest_rule_check_job :: "string \<Rightarrow> system \<Rightarrow> job option" where
  "latest_rule_check_job version_id sys = map_option strip_payload (latest_for_version ''rule_check'' version_id (jobs_of sys))"

end
