(* ===== verification/WorkerRun.thy ===== *)
theory WorkerRun
  imports WorkerLoop
begin

text \<open>
  Runs of the worker loop: every tick's effect on the queue is a sequence of queue operations, which
  never increase the work that is left, keep the queue's invariant and the fact that the loop holds
  every claimed job; a tick that finds something to do decreases the work.
\<close>

section \<open>Ticks as queue operations\<close>

definition bump_ops :: "real \<Rightarrow> job \<Rightarrow> job_op list" where
  "bump_ops now j = (case parent_of j of None \<Rightarrow> [] | Some pid \<Rightarrow> [OpBump pid now])"

definition error_ops :: "string \<Rightarrow> job \<Rightarrow> job_op list" where
  "error_ops e j =
     (case parent_of j of
        None \<Rightarrow> []
      | Some pid \<Rightarrow> [OpParentError pid
            (JObj [(''version_id'', json_opt (j_version_id j)), (''file_id'', json_opt (j_file_id j)), (''error'', JStr e)])])"

fun bookkeeping :: "job_op \<Rightarrow> bool" where
  "bookkeeping (OpBump _ _) \<longleftrightarrow> True"
| "bookkeeping (OpParentError _ _) \<longleftrightarrow> True"
| "bookkeeping _ \<longleftrightarrow> False"

lemma bookkeeping_ops [simp]: "list_all bookkeeping (bump_ops now j)" "list_all bookkeeping (error_ops e j)"
  by (simp_all add: bump_ops_def error_ops_def split: option.split)

lemma jobs_of_bump [simp]: "jobs_of (bump now j sys) = fold job_do (bump_ops now j) (jobs_of sys)"
  by (simp add: bump_def bump_ops_def split: option.split)

lemma jobs_of_report [simp]: "jobs_of (report_error e j sys) = fold job_do (error_ops e j) (jobs_of sys)"
  by (simp add: report_error_def error_ops_def split: option.split)

definition leaves_queue :: "(system \<Rightarrow> system) \<Rightarrow> bool" where
  "leaves_queue f \<longleftrightarrow> (\<forall>sys. jobs_of (f sys) = jobs_of sys)"

lemma success_writes_leave_queue: "list_all leaves_queue (success_writes vid fid now r db)"
  by (cases r) (simp_all add: leaves_queue_def apply_preprocess_result_def persist_source_layout_def
      invalidate_match_after_rescale_def maybe_clear_redundant_unit_override_def split: option.split)

lemma fold_leaves_queue: "list_all leaves_queue fs \<Longrightarrow> jobs_of (fold id fs sys) = jobs_of sys"
  by (induction fs arbitrary: sys) (simp_all add: leaves_queue_def)

lemma fold_some_writes: "jobs_of (fold id (take n (success_writes vid fid now r db)) sys) = jobs_of sys"
  by (rule fold_leaves_queue) (use success_writes_leave_queue in \<open>auto simp: list_all_iff dest: in_set_takeD\<close>)

lemmas fold_all_writes = fold_leaves_queue[OF success_writes_leave_queue]

lemma jobs_of_failure:
  "jobs_of (apply_failure now j e tb sys) = fold job_do (error_ops e j @ bump_ops now j) (jobs_of sys)"
  by (simp add: apply_failure_def Let_def)

lemma jobs_of_success:
  "\<exists>ops. list_all bookkeeping ops \<and> jobs_of (snd (apply_success flt now j r sys)) = fold job_do ops (jobs_of sys)"
proof (cases flt)
  case None
  then have "jobs_of (snd (apply_success flt now j r sys)) = fold job_do (bump_ops now j) (jobs_of sys)"
    by (simp add: apply_success_def Let_def fold_all_writes)
  then show ?thesis by (intro exI[of _ "bump_ops now j"]) simp
next
  case (Some ft)
  then have "jobs_of (snd (apply_success flt now j r sys)) = fold job_do (bump_ops now j) (jobs_of sys) \<or>
      jobs_of (snd (apply_success flt now j r sys)) = fold job_do (error_ops (ft_error ft) j @ bump_ops now j) (jobs_of sys)"
    by (simp add: apply_success_def Let_def fold_all_writes fold_some_writes)
  then show ?thesis
  proof
    assume "jobs_of (snd (apply_success flt now j r sys)) = fold job_do (bump_ops now j) (jobs_of sys)"
    then show ?thesis by (intro exI[of _ "bump_ops now j"]) simp
  next
    assume "jobs_of (snd (apply_success flt now j r sys)) = fold job_do (error_ops (ft_error ft) j @ bump_ops now j) (jobs_of sys)"
    then show ?thesis by (intro exI[of _ "error_ops (ft_error ft) j @ bump_ops now j"]) simp
  qed
qed

text \<open>Settling a job: bookkeeping on its parent, then its own row.\<close>

definition settles :: "string \<Rightarrow> job_op \<Rightarrow> bool" where
  "settles jid op \<longleftrightarrow> (\<exists>t r. op = OpComplete jid t r) \<or> (\<exists>t e. op = OpFail jid t e)"

definition settling :: "string \<Rightarrow> jobs \<Rightarrow> jobs \<Rightarrow> bool" where
  "settling jid js js' \<longleftrightarrow> (\<exists>ops op. list_all bookkeeping ops \<and> settles jid op \<and> js' = job_do op (fold job_do ops js))"

lemma settlingI: "list_all bookkeeping ops \<Longrightarrow> settles jid op \<Longrightarrow> settling jid js (job_do op (fold job_do ops js))"
  by (auto simp: settling_def)

lemma fail_settling: "settling jid js (fail_job jid t e (fold job_do (error_ops e' j @ bump_ops now j) js))"
  using settlingI[of "error_ops e' j @ bump_ops now j" jid "OpFail jid t e" js] by (simp add: settles_def)

lemma settle_settling: "settling jid (jobs_of sys) (jobs_of (settle tk jid j oc sys))"
proof (cases oc)
  case (Raised e tb)
  then show ?thesis using fail_settling by (simp add: settle_def jobs_of_failure)
next
  case (Returned r)
  let ?s = "apply_success (tk_fault tk jid) (tk_reap tk) j r sys"
  obtain ops where ops: "list_all bookkeeping ops" "jobs_of (snd ?s) = fold job_do ops (jobs_of sys)"
    using jobs_of_success by blast
  obtain e sys1 where s: "?s = (e, sys1)" by force
  show ?thesis
  proof (cases e)
    case None
    then show ?thesis
      using Returned s ops settlingI[OF ops(1), of jid "OpComplete jid (tk_reap tk) (Some (result_json j r))" "jobs_of sys"]
      by (simp add: settle_def settles_def)
  next
    case (Some err)
    then show ?thesis
      using Returned s ops settlingI[OF ops(1), of jid "OpFail jid (tk_reap tk) err" "jobs_of sys"]
      by (simp add: settle_def settles_def)
  qed
qed

lemma reject_settling: "settling (j_id j) (jobs_of sys) (jobs_of (reject_job tk j e sys))"
  using fail_settling by (simp add: reject_job_def jobs_of_failure)

lemma exhausted_settling: "settling (j_id j) (jobs_of sys) (jobs_of (fail_exhausted tk j sys))"
  using fail_settling by (simp add: fail_exhausted_def jobs_of_failure)

section \<open>The work that is left\<close>

fun work_of :: "job_status \<Rightarrow> nat \<Rightarrow> nat" where
  "work_of Queued a = 2 * (MAX_ATTEMPTS - a)"
| "work_of Running a = 2 * (MAX_ATTEMPTS - a) + 1"
| "work_of _ a = 0"

definition work :: "jobs \<Rightarrow> nat" where
  "work js = sum_list (map (\<lambda>j. work_of (j_status j) (j_attempts j)) js)"

lemma work_sql_update:
  assumes "\<And>j. P j \<Longrightarrow> work_of (j_status (f j)) (j_attempts (f j)) \<le> work_of (j_status j) (j_attempts j)"
  shows "work (sql_update P f js) \<le> work js"
  using assms by (induction js) (auto simp: work_def sql_update_def intro: add_mono)

lemma work_bookkeeping: "bookkeeping op \<Longrightarrow> work (job_do op js) \<le> work js"
proof (induction op rule: bookkeeping.induct)
  case (1 pid t)
  let ?js = "sql_update (\<lambda>j. j_id j = pid) (\<lambda>j. j\<lparr>j_done := Some (or_zero (j_done j) + 1)\<rparr>) js"
  have "work ?js \<le> work js" by (rule work_sql_update) simp
  moreover have "work (sql_update (\<lambda>j. j_id j = pid \<and> j_status j = Running)
      (\<lambda>j. j\<lparr>j_status := JobDone, j_completed_at := Some t\<rparr>) ?js) \<le> work ?js"
    by (rule work_sql_update) simp
  ultimately show ?case by (simp add: bump_parent_done_def Let_def split: option.split)
next
  case (2 pid e)
  then show ?case
    by (auto simp: append_parent_error_def update_payload_def split: option.split intro!: work_sql_update)
qed simp_all

lemma work_settles: "settles jid op \<Longrightarrow> work (job_do op js) \<le> work js"
  unfolding settles_def by (elim disjE exE; simp add: complete_job_def fail_job_def; rule work_sql_update; simp)

lemma work_fold_bookkeeping: "list_all bookkeeping ops \<Longrightarrow> work (fold job_do ops js) \<le> work js"
proof (induction ops arbitrary: js)
  case (Cons op ops)
  then have "work (fold job_do ops (job_do op js)) \<le> work (job_do op js)" "work (job_do op js) \<le> work js"
    by (simp_all add: work_bookkeeping)
  then show ?case by simp
qed simp

lemma work_settling: "settling jid js js' \<Longrightarrow> work js' \<le> work js"
  unfolding settling_def using work_fold_bookkeeping work_settles le_trans by metis

section \<open>Claimed jobs are the loop's\<close>

definition held :: "string set \<Rightarrow> jobs \<Rightarrow> bool" where
  "held ids js \<longleftrightarrow> (\<forall>j\<in>set js. j_status j = Running \<longrightarrow> j_claimed_by j \<noteq> None \<longrightarrow> j_id j \<in> ids)"

lemma held_sql_update:
  assumes "held ids js" "\<And>j. P j \<Longrightarrow> j_id (f j) = j_id j"
    and "\<And>j. P j \<Longrightarrow> j_status (f j) = Running \<Longrightarrow> j_claimed_by (f j) \<noteq> None \<Longrightarrow>
      j_status j = Running \<and> j_claimed_by j \<noteq> None"
  shows "held ids (sql_update P f js)"
  using assms by (auto simp: held_def ball_sql_update)

lemma held_bookkeeping: "bookkeeping op \<Longrightarrow> held ids js \<Longrightarrow> held ids (job_do op js)"
proof (induction op rule: bookkeeping.induct)
  case (1 pid t)
  let ?js = "sql_update (\<lambda>j. j_id j = pid) (\<lambda>j. j\<lparr>j_done := Some (or_zero (j_done j) + 1)\<rparr>) js"
  have "held ids ?js" by (rule held_sql_update[OF 1(2)]) auto
  moreover from this have "held ids (sql_update (\<lambda>j. j_id j = pid \<and> j_status j = Running)
      (\<lambda>j. j\<lparr>j_status := JobDone, j_completed_at := Some t\<rparr>) ?js)"
    by (rule held_sql_update) auto
  ultimately show ?case by (simp add: bump_parent_done_def Let_def split: option.split)
next
  case (2 pid e)
  then show ?case
    by (auto simp: append_parent_error_def update_payload_def split: option.split intro!: held_sql_update)
qed simp_all

lemma held_fold_bookkeeping: "list_all bookkeeping ops \<Longrightarrow> held ids js \<Longrightarrow> held ids (fold job_do ops js)"
  by (induction ops arbitrary: js) (simp_all add: held_bookkeeping)

lemma held_sql_settle:
  assumes "held ids js" "\<And>j. j_status (f j) \<noteq> Running"
  shows "held (ids - {jid}) (sql_update (\<lambda>j. j_id j = jid) f js)"
  unfolding held_def ball_sql_update using assms by (simp add: held_def)

lemma held_settles: "settles jid op \<Longrightarrow> held ids js \<Longrightarrow> held (ids - {jid}) (job_do op js)"
  unfolding settles_def
  by (elim disjE exE; simp add: complete_job_def fail_job_def; rule held_sql_settle; simp)

lemma held_mono: "held ids js \<Longrightarrow> ids \<subseteq> ids' \<Longrightarrow> held ids' js"
  by (auto simp: held_def)

lemma held_settling: "settling jid js js' \<Longrightarrow> held ids js \<Longrightarrow> held (ids - {jid}) js'"
  unfolding settling_def by (elim exE conjE) (simp add: held_settles held_fold_bookkeeping)

lemma inv_fold_bookkeeping: "list_all bookkeeping ops \<Longrightarrow> jobs_inv js \<Longrightarrow> jobs_inv (fold job_do ops js)"
proof (induction ops arbitrary: js)
  case (Cons op ops)
  then have "op_ok op" by (cases op) auto
  then show ?case using Cons jobs_inv_do by simp
qed simp

lemma inv_settling: "settling jid js js' \<Longrightarrow> jobs_inv js \<Longrightarrow> jobs_inv js'"
  unfolding settling_def settles_def
  by (elim exE conjE disjE) (simp_all add: inv_fold_bookkeeping jobs_inv_complete jobs_inv_fail)

text \<open>The queue does not grow while jobs are settled.\<close>

lemma queued_sql_update:
  "(\<And>j. P j \<Longrightarrow> j_status (f j) = Queued \<Longrightarrow> j_status j = Queued) \<Longrightarrow>
   queued_count (sql_update P f js) \<le> queued_count js"
  by (induction js) (auto simp: queued_count_def rowcount_def sql_update_def)

lemma queued_bookkeeping: "bookkeeping op \<Longrightarrow> queued_count (job_do op js) \<le> queued_count js"
proof (induction op rule: bookkeeping.induct)
  case (1 pid t)
  let ?js = "sql_update (\<lambda>j. j_id j = pid) (\<lambda>j. j\<lparr>j_done := Some (or_zero (j_done j) + 1)\<rparr>) js"
  have "queued_count ?js \<le> queued_count js" by (rule queued_sql_update) simp
  moreover have "queued_count (sql_update (\<lambda>j. j_id j = pid \<and> j_status j = Running)
      (\<lambda>j. j\<lparr>j_status := JobDone, j_completed_at := Some t\<rparr>) ?js) \<le> queued_count ?js"
    by (rule queued_sql_update) simp
  ultimately show ?case by (simp add: bump_parent_done_def Let_def split: option.split)
next
  case (2 pid e)
  then show ?case
    by (auto simp: append_parent_error_def update_payload_def split: option.split intro!: queued_sql_update)
qed simp_all

lemma queued_fold_bookkeeping: "list_all bookkeeping ops \<Longrightarrow> queued_count (fold job_do ops js) \<le> queued_count js"
proof (induction ops arbitrary: js)
  case (Cons op ops)
  then have "queued_count (fold job_do ops (job_do op js)) \<le> queued_count (job_do op js)"
    "queued_count (job_do op js) \<le> queued_count js" by (simp_all add: queued_bookkeeping)
  then show ?case by simp
qed simp

lemma queued_settles: "settles jid op \<Longrightarrow> queued_count (job_do op js) \<le> queued_count js"
  unfolding settles_def by (elim disjE exE; simp add: complete_job_def fail_job_def; rule queued_sql_update; simp)

lemma queued_settling: "settling jid js js' \<Longrightarrow> queued_count js' \<le> queued_count js"
  unfolding settling_def using queued_fold_bookkeeping queued_settles le_trans by metis

section \<open>One tick\<close>

definition loop_ok :: "loop \<times> system \<Rightarrow> bool" where
  "loop_ok s \<longleftrightarrow> jobs_inv (jobs_of (snd s)) \<and> held (fst ` set (wl_inflight (fst s))) (jobs_of (snd s))"

definition potential :: "loop \<times> system \<Rightarrow> nat" where
  "potential s = 2 * work (jobs_of (snd s)) + length (wl_inflight (fst s))"

definition idle :: "loop \<times> system \<Rightarrow> bool" where
  "idle s \<longleftrightarrow> wl_inflight (fst s) = [] \<and> queued_ids (jobs_of (snd s)) = {}"

lemma reap_one_settling: "finished tk e \<Longrightarrow> settling (fst e) (jobs_of sys) (jobs_of (reap_one tk e sys))"
  using settle_settling by (cases e) (auto simp: finished_def reap_one_def)

lemma fold_reap:
  assumes "list_all (finished tk) es" "jobs_inv (jobs_of sys)" "held (fst ` set es \<union> ids) (jobs_of sys)"
  shows "jobs_inv (jobs_of (fold (reap_one tk) es sys)) \<and> held ids (jobs_of (fold (reap_one tk) es sys)) \<and>
    work (jobs_of (fold (reap_one tk) es sys)) \<le> work (jobs_of sys)"
  using assms
proof (induction es arbitrary: sys)
  case (Cons e es)
  let ?sys = "reap_one tk e sys"
  have s: "settling (fst e) (jobs_of sys) (jobs_of ?sys)" using Cons.prems reap_one_settling by simp
  have "held (fst ` set es \<union> ids) (jobs_of ?sys)"
    using held_settling[OF s Cons.prems(3)] by (rule held_mono) auto
  then show ?case
    using Cons.IH[of ?sys] Cons.prems inv_settling[OF s] work_settling[OF s] by simp
qed simp

lemma reap_ok:
  assumes "loop_ok s"
  shows "loop_ok (reap tk s)" "potential (reap tk s) \<le> potential s"
    "list_ex (finished tk) (wl_inflight (fst s)) \<Longrightarrow> potential (reap tk s) < potential s"
proof -
  obtain lp sys where s: "s = (lp, sys)" by force
  let ?es = "filter (finished tk) (wl_inflight lp)" and ?rest = "filter (\<lambda>e. \<not> finished tk e) (wl_inflight lp)"
  have "fst ` set ?es \<union> fst ` set ?rest = fst ` set (wl_inflight lp)" by (auto simp: image_iff)
  then have "held (fst ` set ?es \<union> fst ` set ?rest) (jobs_of sys)" "jobs_inv (jobs_of sys)"
    using assms by (simp_all add: loop_ok_def s)
  then have f: "jobs_inv (jobs_of (fold (reap_one tk) ?es sys))" "held (fst ` set ?rest) (jobs_of (fold (reap_one tk) ?es sys))"
    "work (jobs_of (fold (reap_one tk) ?es sys)) \<le> work (jobs_of sys)"
    using fold_reap[of tk ?es sys "fst ` set ?rest"] by (simp_all add: list_all_iff)
  then show "loop_ok (reap tk s)" by (simp add: loop_ok_def reap_def s)
  show "potential (reap tk s) \<le> potential s"
    using f(3) by (simp add: potential_def reap_def s add_mono)
  assume "list_ex (finished tk) (wl_inflight (fst s))"
  then have "length ?rest < length (wl_inflight lp)"
    by (auto simp: s list_ex_iff intro: length_filter_less)
  then show "potential (reap tk s) < potential s"
    using f(3) by (simp add: potential_def reap_def s)
qed

lemma claim_next_empty: "claim_next w now js = (None, js') \<Longrightarrow> jobs_inv js \<Longrightarrow> queued_ids js = {} \<and> js' = js"
  using claim_next_spec[of js w now] by simp

lemma sum_list_map_less:
  assumes "x \<in> set xs" "f x < (g x :: nat)" "\<And>y. y \<in> set xs \<Longrightarrow> f y \<le> g y"
  shows "sum_list (map f xs) < sum_list (map g xs)"
  using assms
proof (induction xs)
  case (Cons y ys)
  have "sum_list (map f ys) \<le> sum_list (map g ys)" using Cons.prems(3) by (intro sum_list_mono) simp
  then show ?case using Cons by (cases "x = y") (auto intro: add_less_le_mono add_le_less_mono)
qed simp

lemma queued_count_map: "queued_count js = sum_list (map (\<lambda>j. if j_status j = Queued then 1 else 0) js)"
  by (induction js) (simp_all add: queued_count_def rowcount_def)

lemma claim_next_claims:
  assumes "claim_next w now js = (Some j', js')" "jobs_inv js" "held ids js"
  shows "jobs_inv js' \<and> held (insert (j_id j') ids) js' \<and> work js' < work js \<and> queued_count js' < queued_count js"
proof -
  obtain j where j: "j \<in> set js" "j_status j = Queued" "j' = claimed_by w now j"
      "js' = map (\<lambda>i. if j_id i = j_id j then claimed_by w now i else i) js"
    using claim_next_spec[OF assms(2), of w now] assms(1) by auto
  have q: "j_status i = Queued" if "i \<in> set js" "j_id i = j_id j" for i
    using row_by_unique[of j_id js] assms(2) that j by (metis jobs_inv_def option.inject)
  have a: "j_attempts i < MAX_ATTEMPTS" if "i \<in> set js" "j_status i = Queued" for i
    using assms(2) that by (simp add: jobs_inv_def list_all_iff job_ok_def)
  let ?f = "\<lambda>i. if j_id i = j_id j then claimed_by w now i else i"
  have c: "j_status (claimed_by w now i) = Running" "j_attempts (claimed_by w now i) = j_attempts i + 1"
    "j_id (claimed_by w now i) = j_id i" for i by (simp_all add: claimed_by_def)
  have less: "work_of (j_status (?f i)) (j_attempts (?f i)) < work_of (j_status i) (j_attempts i)"
    if "i \<in> set js" "j_id i = j_id j" for i
    using q[OF that] a[OF that(1) q[OF that]] that(2) by (simp add: c)
  have "work js' < work js"
    unfolding work_def j(4) map_map comp_def
    by (rule sum_list_map_less[OF j(1)]) (use less[OF j(1)] in simp, metis less less_imp_le order_refl)
  moreover have "queued_count js' < queued_count js"
    unfolding queued_count_map j(4) map_map comp_def
    by (rule sum_list_map_less[OF j(1)]) (use j(2) in \<open>auto simp: c\<close>)
  moreover have "held (insert (j_id j') ids) js'"
    using assms(3) by (auto simp: held_def j(3,4) c)
  moreover have "jobs_inv js'"
  proof -
    have "job_ok (?f i)" if "i \<in> set js" for i
      using assms(2) that a[OF that] q[OF that] by (auto simp: jobs_inv_def list_all_iff job_ok_def claimed_by_def)
    then have "list_all job_ok js'" unfolding j(4) list_all_iff set_map by blast
    moreover have "map j_id js' = map j_id js" unfolding j(4) by (simp add: c(3))
    ultimately show ?thesis using assms(2) by (simp add: jobs_inv_def)
  qed
  ultimately show ?thesis by blast
qed

lemma length_update_le: "length (AList.update k v d) \<le> length d + 1"
  by (induction d) auto

text \<open>One round of the claim loop: the job taken is in flight, or failed at once.\<close>

lemma claim_round:
  assumes "claim_next w now (jobs_of sys) = (Some j, js)" "loop_ok (lp, sys)"
  shows "execution_plan j = Inl e \<Longrightarrow> loop_ok (lp, reject_job tk j e (on_jobs (\<lambda>_. js) sys)) \<and>
      potential (lp, reject_job tk j e (on_jobs (\<lambda>_. js) sys)) < potential (lp, sys) \<and>
      queued_count (jobs_of (reject_job tk j e (on_jobs (\<lambda>_. js) sys))) < queued_count (jobs_of sys)"
    and "loop_ok (lp\<lparr>wl_inflight := AList.update (j_id j) (j, pl) (wl_inflight lp)\<rparr>, on_jobs (\<lambda>_. js) sys) \<and>
      potential (lp\<lparr>wl_inflight := AList.update (j_id j) (j, pl) (wl_inflight lp)\<rparr>, on_jobs (\<lambda>_. js) sys) < potential (lp, sys) \<and>
      queued_count js < queued_count (jobs_of sys)"
proof -
  let ?ids = "fst ` set (wl_inflight lp)"
  have c: "jobs_inv js" "held (insert (j_id j) ?ids) js" "work js < work (jobs_of sys)"
    "queued_count js < queued_count (jobs_of sys)"
    using claim_next_claims[OF assms(1), of ?ids] assms(2) by (simp_all add: loop_ok_def)
  {
    assume "execution_plan j = Inl e"
    have s: "settling (j_id j) js (jobs_of (reject_job tk j e (on_jobs (\<lambda>_. js) sys)))"
      using reject_settling[of j "on_jobs (\<lambda>_. js) sys"] by simp
    have "held ?ids (jobs_of (reject_job tk j e (on_jobs (\<lambda>_. js) sys)))"
      using held_settling[OF s c(2)] by (rule held_mono) auto
    then show "loop_ok (lp, reject_job tk j e (on_jobs (\<lambda>_. js) sys)) \<and>
      potential (lp, reject_job tk j e (on_jobs (\<lambda>_. js) sys)) < potential (lp, sys) \<and>
      queued_count (jobs_of (reject_job tk j e (on_jobs (\<lambda>_. js) sys))) < queued_count (jobs_of sys)"
      using inv_settling[OF s c(1)] work_settling[OF s] queued_settling[OF s] c(3,4)
      by (simp add: loop_ok_def potential_def)
  }
  have "fst ` set (AList.update (j_id j) (j, pl) (wl_inflight lp)) = insert (j_id j) ?ids"
    by (simp add: dom_update)
  moreover have "length (AList.update (j_id j) (j, pl) (wl_inflight lp)) \<le> length (wl_inflight lp) + 1"
    by (rule length_update_le)
  ultimately show "loop_ok (lp\<lparr>wl_inflight := AList.update (j_id j) (j, pl) (wl_inflight lp)\<rparr>, on_jobs (\<lambda>_. js) sys) \<and>
      potential (lp\<lparr>wl_inflight := AList.update (j_id j) (j, pl) (wl_inflight lp)\<rparr>, on_jobs (\<lambda>_. js) sys) < potential (lp, sys) \<and>
      queued_count js < queued_count (jobs_of sys)"
    using c by (simp add: loop_ok_def potential_def)
qed

lemma claim_slots_ok:
  "loop_ok s \<Longrightarrow> loop_ok (claim_slots n tk s) \<and> potential (claim_slots n tk s) \<le> potential s"
proof (induction n tk s rule: claim_slots.induct)
  case (2 n tk lp sys)
  show ?case
  proof (cases "wl_max_workers lp \<le> length (wl_inflight lp) \<or> tk_stop tk")
    case False
    obtain r js where c: "claim_next (wl_identity lp) (tk_claim tk) (jobs_of sys) = (r, js)" by force
    show ?thesis
    proof (cases r)
      case None
      then show ?thesis using False c 2 by simp
    next
      case (Some j)
      note round = claim_round[OF c[unfolded Some] 2(3)]
      show ?thesis
      proof (cases "execution_plan j")
        case (Inl e)
        then show ?thesis
          using 2(1)[OF False c[symmetric] Some Inl] round(1)[OF Inl, of tk] False c Some by simp
      next
        case (Inr pl)
        then show ?thesis
          using 2(2)[OF False c[symmetric] Some Inr] round(2)[of pl] False c Some by simp
      qed
    qed
  qed (use 2 in auto)
qed simp

lemma claim_slots_progress:
  assumes "loop_ok (lp, sys)" "length (wl_inflight lp) < wl_max_workers lp" "\<not> tk_stop tk"
    "queued_ids (jobs_of sys) \<noteq> {}"
  shows "potential (claim_slots (Suc n) tk (lp, sys)) < potential (lp, sys)"
proof -
  obtain r js where c: "claim_next (wl_identity lp) (tk_claim tk) (jobs_of sys) = (r, js)" by force
  have "r \<noteq> None" using claim_next_empty[of _ _ _ js] c assms(1,4) by (auto simp: loop_ok_def)
  then obtain j where r: "r = Some j" by blast
  note round = claim_round[OF c[unfolded r] assms(1)]
  show ?thesis
  proof (cases "execution_plan j")
    case (Inl e)
    then show ?thesis
      using round(1)[OF Inl, of tk] claim_slots_ok[of "(lp, reject_job tk j e (on_jobs (\<lambda>_. js) sys))" n tk] assms(2,3) c r
      by simp
  next
    case (Inr pl)
    let ?s = "(lp\<lparr>wl_inflight := AList.update (j_id j) (j, pl) (wl_inflight lp)\<rparr>, on_jobs (\<lambda>_. js) sys)"
    show ?thesis
      using round(2)[of pl] claim_slots_ok[of ?s n tk] Inr assms(2,3) c r by simp
  qed
qed

text \<open>The fuel is enough: the loop ends with every slot taken, with an empty queue or stopped.\<close>

lemma claim_slots_exit:
  assumes "loop_ok s" "queued_count (jobs_of (snd s)) < n"
  shows "case claim_slots n tk s of (lp, sys) \<Rightarrow>
    wl_max_workers lp \<le> length (wl_inflight lp) \<or> tk_stop tk \<or> queued_ids (jobs_of sys) = {}"
  using assms
proof (induction n tk s rule: claim_slots.induct)
  case (2 n tk lp sys)
  show ?case
  proof (cases "wl_max_workers lp \<le> length (wl_inflight lp) \<or> tk_stop tk")
    case False
    obtain r js where c: "claim_next (wl_identity lp) (tk_claim tk) (jobs_of sys) = (r, js)" by force
    show ?thesis
    proof (cases r)
      case None
      then show ?thesis using False c claim_next_empty[of _ _ _ js] 2(3) by (auto simp: loop_ok_def)
    next
      case (Some j)
      note round = claim_round[OF c[unfolded Some] 2(3)]
      show ?thesis
      proof (cases "execution_plan j")
        case (Inl e)
        then show ?thesis
          using 2(1)[OF False c[symmetric] Some Inl] round(1)[OF Inl, of tk] False c Some 2(4) by simp
      next
        case (Inr pl)
        then show ?thesis
          using 2(2)[OF False c[symmetric] Some Inr] round(2)[of pl] False c Some 2(4) by simp
      qed
    qed
  qed (use 2 in auto)
qed simp

lemma heartbeat_ok:
  assumes "loop_ok s"
  shows "loop_ok (heartbeat_phase tk s)" "potential (heartbeat_phase tk s) \<le> potential s"
proof -
  obtain lp sys where s: "s = (lp, sys)" by force
  let ?js = "snd (heartbeat_jobs (wl_identity lp) (tk_now tk) (jobs_of sys))"
  have "jobs_inv ?js" using assms by (simp add: loop_ok_def s jobs_inv_heartbeat)
  moreover have "held (fst ` set (wl_inflight lp)) ?js"
    unfolding heartbeat_jobs_def Let_def snd_conv
    by (rule held_sql_update) (use assms in \<open>auto simp: loop_ok_def s\<close>)
  moreover have "work ?js \<le> work (jobs_of sys)"
    unfolding heartbeat_jobs_def Let_def snd_conv by (rule work_sql_update) simp
  ultimately show "loop_ok (heartbeat_phase tk s)" "potential (heartbeat_phase tk s) \<le> potential s"
    using assms by (auto simp: heartbeat_phase_def s loop_ok_def potential_def)
qed

lemma requeue_held: "held ids js \<Longrightarrow> held ids (snd (requeue_stale now js))"
  unfolding requeue_stale_def Let_def snd_conv by (rule held_sql_update) auto

lemma requeue_work: "work (snd (requeue_stale now js)) \<le> work js"
  unfolding requeue_stale_def Let_def snd_conv by (rule work_sql_update) (simp add: heartbeat_stale_def)

lemma prune_work: "work (snd (prune_jobs now js)) \<le> work js"
  by (induction js) (auto simp: prune_jobs_def Let_def work_def sql_delete_def)

lemma prune_held: "held ids js \<Longrightarrow> held ids (snd (prune_jobs now js))"
  by (auto simp: held_def prune_jobs_def Let_def sql_delete_def)

lemma fold_exhausted:
  assumes "jobs_inv (jobs_of sys)" "held ids (jobs_of sys)"
  shows "jobs_inv (jobs_of (fold (fail_exhausted tk) es sys)) \<and> held ids (jobs_of (fold (fail_exhausted tk) es sys)) \<and>
    work (jobs_of (fold (fail_exhausted tk) es sys)) \<le> work (jobs_of sys)"
  using assms
proof (induction es arbitrary: sys)
  case (Cons e es)
  have s: "settling (j_id e) (jobs_of sys) (jobs_of (fail_exhausted tk e sys))" by (rule exhausted_settling)
  have "held ids (jobs_of (fail_exhausted tk e sys))"
    using held_settling[OF s Cons.prems(2)] by (rule held_mono) auto
  then show ?case
    using Cons.IH[of "fail_exhausted tk e sys"] inv_settling[OF s Cons.prems(1)] work_settling[OF s] by simp
qed simp

lemma jobs_of_prune_auth [simp]: "jobs_of (prune_auth now sys) = jobs_of sys"
  by (simp add: prune_auth_def jobs_of_def)

lemma maintenance_ok:
  assumes "loop_ok s"
  shows "loop_ok (maintenance_phase tk s)" "potential (maintenance_phase tk s) \<le> potential s"
proof -
  obtain lp sys where s: "s = (lp, sys)" by force
  let ?ids = "fst ` set (wl_inflight lp)"
  let ?sys1 = "on_jobs (\<lambda>js. snd (requeue_stale (tk_now tk) js)) sys"
  let ?sys2 = "fold (fail_exhausted tk) (stale_exhausted (tk_now tk) (jobs_of ?sys1)) ?sys1"
  let ?js3 = "snd (prune_jobs (tk_now tk) (jobs_of ?sys2))"
  have 0: "jobs_inv (jobs_of sys)" "held ?ids (jobs_of sys)" using assms by (simp_all add: loop_ok_def s)
  have 1: "jobs_inv (jobs_of ?sys1)" "held ?ids (jobs_of ?sys1)" "work (jobs_of ?sys1) \<le> work (jobs_of sys)"
    using jobs_inv_requeue[OF 0(1)] requeue_held[OF 0(2)] requeue_work by simp_all
  note 2 = fold_exhausted[OF 1(1,2), of tk "stale_exhausted (tk_now tk) (jobs_of ?sys1)"]
  have 3: "jobs_inv ?js3" "held ?ids ?js3" "work ?js3 \<le> work (jobs_of sys)"
    using 2 1(3) prune_work[of "tk_now tk" "jobs_of ?sys2"] by (simp_all add: jobs_inv_prune prune_held)
  show "loop_ok (maintenance_phase tk s)" "potential (maintenance_phase tk s) \<le> potential s"
    unfolding maintenance_phase_def s prod.case Let_def
    using 3 0 by (simp_all add: loop_ok_def potential_def)
qed

lemma claim_phase_ok: "loop_ok s \<Longrightarrow> loop_ok (claim_phase tk s) \<and> potential (claim_phase tk s) \<le> potential s"
  unfolding claim_phase_def by (rule claim_slots_ok)

lemma run_once_ok:
  assumes "loop_ok s"
  shows "loop_ok (run_once tk s)" "potential (run_once tk s) \<le> potential s"
  using reap_ok[OF assms, of tk] claim_phase_ok[of "reap tk s" tk] heartbeat_ok[of "claim_phase tk (reap tk s)" tk]
    maintenance_ok[of "heartbeat_phase tk (claim_phase tk (reap tk s))" tk]
  unfolding run_once_def by auto

definition pool_answers :: "tick \<Rightarrow> loop \<times> system \<Rightarrow> bool" where
  "pool_answers tk s \<longleftrightarrow> \<not> tk_stop tk \<and> list_all (\<lambda>e. finished tk e) (wl_inflight (fst s))"

lemma run_once_progress:
  assumes "loop_ok s" "pool_answers tk s" "0 < wl_max_workers (fst s)" "\<not> idle s"
  shows "potential (run_once tk s) < potential s"
proof -
  let ?r = "reap tk s"
  have r: "loop_ok ?r" "potential ?r \<le> potential s" using reap_ok[OF assms(1)] by simp_all
  have rest: "potential (run_once tk s) \<le> potential (claim_phase tk ?r)"
    using heartbeat_ok[of "claim_phase tk ?r" tk] maintenance_ok[of "heartbeat_phase tk (claim_phase tk ?r)" tk]
      claim_phase_ok[OF r(1), of tk] unfolding run_once_def by auto
  show ?thesis
  proof (cases "wl_inflight (fst s) = []")
    case True
    then have e: "?r = s" by (cases s) (auto simp: reap_def intro: loop.equality)
    then have "potential (claim_phase tk ?r) < potential s"
      unfolding claim_phase_def e
      using claim_slots_progress[of "fst s" "snd s" tk "queued_count (jobs_of (snd s))"] assms True
      by (simp add: idle_def pool_answers_def)
    then show ?thesis using rest by simp
  next
    case False
    then have "list_ex (finished tk) (wl_inflight (fst s))"
      using assms(2) by (cases "wl_inflight (fst s)") (auto simp: pool_answers_def)
    then have "potential ?r < potential s" using reap_ok(3)[OF assms(1)] by blast
    then show ?thesis using rest claim_phase_ok[OF r(1), of tk] by simp
  qed
qed

section \<open>Properties\<close>

lemma reap_max [simp]: "wl_max_workers (fst (reap tk s)) = wl_max_workers (fst s)"
  by (cases s) (simp add: reap_def)

lemma claim_slots_max: "wl_max_workers (fst (claim_slots n tk s)) = wl_max_workers (fst s)"
  by (induction n tk s rule: claim_slots.induct) (auto split: prod.splits option.splits sum.splits)

lemma heartbeat_max [simp]: "wl_max_workers (fst (heartbeat_phase tk s)) = wl_max_workers (fst s)"
  by (cases s) (simp add: heartbeat_phase_def)

lemma maintenance_max [simp]: "wl_max_workers (fst (maintenance_phase tk s)) = wl_max_workers (fst s)"
  by (cases s) (simp add: maintenance_phase_def Let_def)

lemma run_once_max [simp]: "wl_max_workers (fst (run_once tk s)) = wl_max_workers (fst s)"
  by (simp add: run_once_def claim_phase_def claim_slots_max)

lemma run_loop_max [simp]: "wl_max_workers (fst (run_loop tks n s)) = wl_max_workers (fst s)"
  by (induction n) simp_all

lemma run_loop_ok: "loop_ok s \<Longrightarrow> loop_ok (run_loop tks n s)"
  by (induction n) (simp_all add: run_once_ok)

lemma busy_run_uses_potential:
  assumes "loop_ok s" "0 < wl_max_workers (fst s)" "\<And>i. pool_answers (tks i) (run_loop tks i s)"
    "\<And>i. i < n \<Longrightarrow> \<not> idle (run_loop tks i s)"
  shows "potential (run_loop tks n s) + n \<le> potential s"
  using assms(4)
proof (induction n)
  case (Suc n)
  have "potential (run_loop tks (Suc n) s) < potential (run_loop tks n s)"
    using run_once_progress[OF run_loop_ok[OF assms(1)] assms(3)[of n]] assms(2) Suc.prems[of n] by simp
  then show ?case using Suc by fastforce
qed simp

lemma idle_settled:
  assumes "loop_ok s" "idle s" "j \<in> set (jobs_of (snd s))"
  shows "j_status j \<in> {JobDone, JobError} \<or> j_status j = Running \<and> j_claimed_by j = None"
proof (cases "j_status j")
  case Queued
  then show ?thesis using assms by (auto simp: idle_def queued_ids_def)
next
  case Running
  then show ?thesis using assms by (auto simp: idle_def loop_ok_def held_def)
qed simp_all

text \<open>C2. The worker loop drains the queue: if the pool answers every future by the next tick and nothing
  new is submitted, then within as many ticks as there is work left the loop is idle, and then every
  job is done or failed, apart from fan-out parents, which no worker claims. No assumption is made on
  the clock, so requeueing and the attempt limit are included.\<close>

theorem worker_loop_drains:
  assumes "loop_ok s" "0 < wl_max_workers (fst s)" "\<And>i. pool_answers (tks i) (run_loop tks i s)"
  shows "\<exists>n \<le> potential s. idle (run_loop tks n s) \<and>
    (\<forall>j\<in>set (jobs_of (snd (run_loop tks n s))).
       j_status j \<in> {JobDone, JobError} \<or> j_status j = Running \<and> j_claimed_by j = None)"
proof -
  have "\<exists>n \<le> potential s. idle (run_loop tks n s)"
  proof (rule ccontr)
    assume "\<not> ?thesis"
    then have "\<not> idle (run_loop tks i s)" if "i < Suc (potential s)" for i using that by auto
    from busy_run_uses_potential[where n = "Suc (potential s)", OF assms this] show False by simp
  qed
  then show ?thesis using idle_settled[OF run_loop_ok[OF assms(1)]] by blast
qed

definition broken_tick :: tick where
  "broken_tick = \<lparr>tk_reap = 10, tk_claim = 10, tk_now = 10, tk_done = (\<lambda>_. Some (Raised ''boom'' ''trace'')),
     tk_fault = (\<lambda>_. None), tk_traceback = (\<lambda>_. ''''), tk_stop = False\<rparr>"

definition one_job_system :: system where
  "one_job_system = \<lparr>sy_server = ann_server\<lparr>queue := one_queued\<rparr>, sy_blobs = []\<rparr>"

definition fresh_loop :: loop where
  "fresh_loop = \<lparr>wl_identity = ''host:1'', wl_max_workers = 1, wl_inflight = [], wl_last_heartbeat = 0,
     wl_last_maintenance = 0\<rparr>"

lemma one_job_ok: "loop_ok (fresh_loop, one_job_system)"
  using one_queued_inv
  by (simp add: loop_ok_def jobs_of_def one_job_system_def fresh_loop_def held_def one_queued_def job_of_request_def
      plain_request_def)

lemma worker_loop_drains_witness:
  "\<exists>n \<le> potential (fresh_loop, one_job_system). idle (run_loop (\<lambda>_. broken_tick) n (fresh_loop, one_job_system))"
proof -
  have "pool_answers broken_tick t" for t
    by (simp add: pool_answers_def broken_tick_def finished_def list_all_iff case_prod_beta)
  then show ?thesis
    using worker_loop_drains[OF one_job_ok, of "\<lambda>_. broken_tick"] by (auto simp: fresh_loop_def)
qed

lemma claim_slots_bounded:
  "length (wl_inflight (fst s)) \<le> wl_max_workers (fst s) \<Longrightarrow>
   length (wl_inflight (fst (claim_slots n tk s))) \<le> wl_max_workers (fst s)"
proof (induction n tk s rule: claim_slots.induct)
  case (2 n tk lp sys)
  show ?case
  proof (cases "wl_max_workers lp \<le> length (wl_inflight lp) \<or> tk_stop tk")
    case False
    obtain r js where c: "claim_next (wl_identity lp) (tk_claim tk) (jobs_of sys) = (r, js)" by force
    show ?thesis
    proof (cases r)
      case (Some j)
      show ?thesis
      proof (cases "execution_plan j")
        case (Inl e)
        then show ?thesis using 2(1)[OF False c[symmetric] Some Inl] 2(3) False c Some by simp
      next
        case (Inr pl)
        have "length (AList.update (j_id j) (j, pl) (wl_inflight lp)) \<le> wl_max_workers lp"
          using length_update_le[of "j_id j" "(j, pl)" "wl_inflight lp"] False by linarith
        then show ?thesis using 2(2)[OF False c[symmetric] Some Inr] False c Some Inr by simp
      qed
    qed (use 2 False c in simp)
  qed (use 2 in auto)
qed simp

text \<open>C38. The claim phase uses the pool fully and never oversubscribes it: it ends with at most
  \<^verbatim>\<open>max_workers\<close> futures in flight, and unless the loop was stopped it leaves a slot free only if no
  job is queued.\<close>

theorem claim_phase_fills_pool:
  assumes "loop_ok (lp, sys)" "length (wl_inflight lp) \<le> wl_max_workers lp" "claim_phase tk (lp, sys) = (lp', sys')"
  shows "length (wl_inflight lp') \<le> wl_max_workers lp \<and>
    (\<not> tk_stop tk \<longrightarrow> queued_ids (jobs_of sys') \<noteq> {} \<longrightarrow> length (wl_inflight lp') = wl_max_workers lp)"
proof -
  let ?n = "Suc (queued_count (jobs_of sys))"
  have r: "claim_slots ?n tk (lp, sys) = (lp', sys')" using assms(3) by (simp add: claim_phase_def del: claim_slots.simps)
  have "length (wl_inflight lp') \<le> wl_max_workers lp"
    using claim_slots_bounded[of "(lp, sys)" ?n tk] assms(2) r by (simp del: claim_slots.simps)
  moreover have "wl_max_workers lp' = wl_max_workers lp"
    using claim_slots_max[of ?n tk "(lp, sys)"] r by (simp del: claim_slots.simps)
  moreover have "wl_max_workers lp' \<le> length (wl_inflight lp') \<or> tk_stop tk \<or> queued_ids (jobs_of sys') = {}"
    using claim_slots_exit[OF assms(1), of ?n tk] r by (simp del: claim_slots.simps)
  ultimately show ?thesis by auto
qed

lemma claim_phase_fills_pool_witness:
  "\<exists>lp' sys'. claim_phase broken_tick (fresh_loop, one_job_system) = (lp', sys') \<and> length (wl_inflight lp') \<le> 1"
proof -
  obtain lp' sys' where c: "claim_phase broken_tick (fresh_loop, one_job_system) = (lp', sys')" by force
  show ?thesis
    using claim_phase_fills_pool[OF one_job_ok _ c] c by (simp add: fresh_loop_def)
qed

section \<open>The preprocess callback\<close>

definition override_redundant :: "preprocess_result \<Rightarrow> bool" where
  "override_redundant r \<longleftrightarrow> or_empty (pp_requested r) \<noteq> [] \<and>
     (case pp_detector_factor r of None \<Rightarrow> False | Some d \<Rightarrow> \<bar>d - pp_applied_scale r\<bar> < 1 / 10 ^ 12)"

definition layout_stamped :: "preprocess_result \<Rightarrow> bool" where
  "layout_stamped r \<longleftrightarrow> pp_paperspace r \<and> or_empty (pp_layout r) \<noteq> []"

definition parsed_binding :: "real \<Rightarrow> preprocess_result \<Rightarrow> binding \<Rightarrow> binding" where
  "parsed_binding now r b =
     b\<lparr>b_status := ReadyToMatch, b_parsed_at := Some now, b_primitive_count := Some (pp_primitive_count r),
       b_bbox := Some (case pp_bbox r of None \<Rightarrow> (0, 0, 0, 0) | Some bb \<Rightarrow> bb), b_background := Some (pp_background r),
       b_applied_scale := pp_applied_scale r, b_error := None,
       b_chosen_layout := (if layout_stamped r then pp_layout r else b_chosen_layout b),
       b_match_saved := (b_match_saved b \<and> b_applied_scale b = pp_applied_scale r),
       b_user_unit_override := (if override_redundant r then None else b_user_unit_override b)\<rparr>"

lemma files_of_bookkeeping [simp]:
  "files_of (bump now j sys) = files_of sys" "files_of (report_error e j sys) = files_of sys"
  "sy_blobs (bump now j sys) = sy_blobs sys" "sy_blobs (report_error e j sys) = sy_blobs sys"
  by (simp_all add: bump_def report_error_def split: option.split)

lemma get_binding_notes [simp]: "get_binding k (set_dxf_recover_notes i n db) = get_binding k db"
  by (simp add: set_dxf_recover_notes_def)



text \<open>C20. After a preprocess job the binding is ready with the parse's outputs; the tab it was rendered from is
  kept only for a paper-space source; a changed scale deletes the Match JSON, which is in the old
  coordinates, and clears its flag, and an unchanged scale keeps both; the operator's unit is cleared
  exactly when the detector would have chosen the same factor.\<close>

theorem preprocess_callback_spec:
  assumes "get_binding (vid, fid) (files_of sys) = Some b" "j_version_id j = Some vid" "j_file_id j = Some fid"
  shows "case apply_success None now j (PreprocessDone r) sys of (e, sys') \<Rightarrow>
    e = None \<and> get_binding (vid, fid) (files_of sys') = Some (parsed_binding now r b) \<and>
    sy_blobs sys' = (if b_applied_scale b = pp_applied_scale r then sy_blobs sys
      else snd (local_delete (match_key vid fid) (sy_blobs sys)))"
proof -
  let ?db = "files_of sys"
  let ?u = "store_parsed vid fid now r ?db"
  let ?b1 = "b\<lparr>b_status := ReadyToMatch, b_parsed_at := Some now, b_primitive_count := Some (pp_primitive_count r),
       b_bbox := Some (case pp_bbox r of None \<Rightarrow> (0, 0, 0, 0) | Some bb \<Rightarrow> bb), b_background := Some (pp_background r),
       b_applied_scale := pp_applied_scale r, b_error := None\<rparr>"
  have u: "fst ?u = (b_applied_scale b \<noteq> pp_applied_scale r)" "get_binding (vid, fid) (snd ?u) = Some ?b1"
    using update_parsed_spec[OF assms(1), where n = "pp_primitive_count r" and sc = "pp_applied_scale r" and now = now
        and bb = "case pp_bbox r of None \<Rightarrow> (0, 0, 0, 0) | Some bb \<Rightarrow> bb" and bg = "pp_background r" and iu = "pp_insunits r"]
    by (simp_all add: store_parsed_def case_prod_beta)
  have g: "get_binding (vid, fid) (set_chosen_layout vid fid x db) = map_option (\<lambda>b. b\<lparr>b_chosen_layout := x\<rparr>) (get_binding (vid, fid) db)"
    "get_binding (vid, fid) (set_match_saved vid fid m db) = map_option (\<lambda>b. b\<lparr>b_match_saved := m\<rparr>) (get_binding (vid, fid) db)"
    "get_binding (vid, fid) (set_user_unit_override vid fid y db) = map_option (\<lambda>b. b\<lparr>b_user_unit_override := y\<rparr>) (get_binding (vid, fid) db)"
    for x m y db
    by (simp_all add: set_chosen_layout_def set_match_saved_def set_user_unit_override_def get_binding_update binding_key_def)
  have w: "apply_success None now j (PreprocessDone r) sys =
      (None, bump now j (fold id (apply_preprocess_result vid fid now r ?db) sys))"
    using assms(2,3) by (simp add: apply_success_def json_opt_text_def)
  have upd: "files_of ((if c then on_files f else id) s) = (if c then f (files_of s) else files_of s)"
    "sy_blobs ((if c then on_files f else id) s) = sy_blobs s" for c f s by simp_all
  have cl: "maybe_clear_redundant_unit_override vid fid r =
      (if override_redundant r then on_files (set_user_unit_override vid fid None) else id)"
    by (simp add: maybe_clear_redundant_unit_override_def override_redundant_def split: option.split)
  have ps: "persist_source_layout vid fid r = (if layout_stamped r then on_files (set_chosen_layout vid fid (pp_layout r)) else id)"
    by (simp add: persist_source_layout_def layout_stamped_def)
  show ?thesis
    unfolding w prod.case apply_preprocess_result_def cl ps invalidate_match_after_rescale_def
    by (cases "b_applied_scale b = pp_applied_scale r"; cases "layout_stamped r"; cases "override_redundant r")
       (simp_all add: u upd g parsed_binding_def)
qed

definition parsed_result :: preprocess_result where
  "parsed_result = \<lparr>pp_primitive_count = 3, pp_bbox = None, pp_background = ''#fff'', pp_insunits = Some 4,
     pp_applied_scale = 25, pp_detector_factor = Some 25, pp_requested = Some ''inch'', pp_prematch_total = 0,
     pp_notes = None, pp_layout = None, pp_paperspace = False\<rparr>"

definition bound_system :: system where
  "bound_system = on_files (\<lambda>_. \<lparr>files = [],
     version_files = [(new_binding ''v'' ''SBT'' ''f'' None Preprocessing 1)\<lparr>b_match_saved := True\<rparr>]\<rparr>) one_job_system"

lemma preprocess_callback_spec_witness:
  "case apply_success None 9 (job_of_request ''j'' 1 plain_request) (PreprocessDone parsed_result) bound_system of (e, sys') \<Rightarrow>
     get_binding (''v'', ''f'') (files_of sys') \<noteq> None \<and>
     (\<forall>b. get_binding (''v'', ''f'') (files_of sys') = Some b \<longrightarrow> \<not> b_match_saved b \<and> b_user_unit_override b = None)"
proof -
  let ?b = "(new_binding ''v'' ''SBT'' ''f'' None Preprocessing 1)\<lparr>b_match_saved := True\<rparr>"
  have "get_binding (''v'', ''f'') (files_of bound_system) = Some ?b"
    by (simp add: bound_system_def get_binding_def binding_key_def new_binding_def)
  from preprocess_callback_spec[OF this, of "job_of_request ''j'' 1 plain_request" 9 parsed_result] show ?thesis
    by (simp add: job_of_request_def plain_request_def case_prod_beta)
      (simp add: parsed_binding_def parsed_result_def new_binding_def override_redundant_def or_empty_def)
qed

section \<open>From submission to the worker\<close>

lemma tuned_round_trip [simp]: "tuned_of_json (tuned_json v) = Some v"
  by (cases v) simp_all

lemma overrides_round_trip: "overrides_of_json (overrides_json st) = Some st"
  by (simp add: overrides_of_json_def overrides_json_def comp_def case_prod_beta)

definition overrides_sent :: "attributes \<Rightarrow> attributes option" where
  "overrides_sent attrs = (let snap = snapshot_non_default attrs in if snap = [] then None else Some snap)"

lemma overrides_payload_round_trip: "snapshot_of_json (current_dev_overrides attrs) = Some (overrides_sent attrs)"
proof (cases "snapshot_non_default attrs = []")
  case False
  then have "current_dev_overrides attrs = overrides_json (snapshot_non_default attrs)"
    by (simp add: current_dev_overrides_def)
  moreover have "overrides_json st \<noteq> JNull" for st by (simp add: overrides_json_def)
  ultimately show ?thesis
    using False by (simp add: snapshot_of_json_def overrides_sent_def overrides_round_trip)
qed (simp add: current_dev_overrides_def snapshot_of_json_def overrides_sent_def)

lemma opt_str_round_trip [simp]: "opt_str_of_json (json_opt s) = Some s"
  by (cases s) (simp_all add: json_opt_def)

lemma layers_round_trip [simp]: "layers_of_json (layers_json ls) = Some ls"
  by (cases ls) (simp_all add: layers_json_def json_maybe_def comp_def)

lemma json_opt_Some: "json_opt (Some s) = JStr s"
  by (simp add: json_opt_def)

lemma preprocess_plan:
  assumes "j_kind j = ''preprocess''" "j_version_id j = Some vid" "j_file_id j = Some fid"
    "j_payload j = preprocess_payload library_id layers transient attrs unit layout"
  shows "\<exists>args. execution_plan j = Inr (PreprocessWorker, args) \<and>
    preprocess_args_of args = Some \<lparr>pa_version = vid, pa_file = fid, pa_src = upload_key fid,
      pa_parsed_dst = parsed_key vid fid, pa_prematch_dst = prematch_key vid fid, pa_library = library_id,
      pa_layers = layers, pa_transient = transient, pa_overrides = overrides_sent attrs, pa_unit = unit,
      pa_layout = layout\<rparr>"
  using assms
  by (simp add: execution_plan_def payload_key_def payload_get_def preprocess_payload_def json_opt_text_def
      preprocess_args_of_def json_opt_Some overrides_payload_round_trip)

text \<open>C18. What the web process submits is what the worker gets: the job a preprocess submission queues is
  planned as a preprocessing run whose arguments, read back from the queue's JSON, are the submitted
  ones with the binding's unit and tab where none was given, the developer overrides of the moment of
  submission, and the blob keys of the job's own binding.\<close>

theorem submitted_preprocess_reaches_worker:
  assumes "job_id \<notin> j_id ` set (jobs_of sys)" "get_file vid fid (files_of sys) = Some rc"
  shows "\<exists>j args. get_job job_id (jobs_of (submit_preprocess job_id now attrs vid fid library_id layers unit layout sys)) = Some j \<and>
    j_status j = Queued \<and> execution_plan j = Inr (PreprocessWorker, args) \<and>
    preprocess_args_of args = Some \<lparr>pa_version = vid, pa_file = fid, pa_src = upload_key fid,
      pa_parsed_dst = parsed_key vid fid, pa_prematch_dst = prematch_key vid fid, pa_library = library_id,
      pa_layers = layers, pa_transient = Some (layer_preview_primitives_key vid fid),
      pa_overrides = overrides_sent attrs, pa_unit = or_else unit (b_user_unit_override (r_binding rc)),
      pa_layout = or_else layout (b_chosen_layout (r_binding rc))\<rparr>"
proof -
  let ?u = "or_else unit (b_user_unit_override (r_binding rc))" and ?l = "or_else layout (b_chosen_layout (r_binding rc))"
  let ?rq = "file_job ''preprocess'' vid fid
      (preprocess_payload library_id layers (Some (layer_preview_primitives_key vid fid)) attrs ?u ?l)"
  let ?j = "job_of_request job_id now ?rq"
  have s: "submit_preprocess job_id now attrs vid fid library_id layers unit layout sys = submit job_id now ?rq sys"
    using assms(2) by (simp add: submit_preprocess_def Let_def)
  have "get_job job_id (jobs_of sys) = None"
    using assms(1) by (cases "get_job job_id (jobs_of sys)") (auto simp: get_job_def dest: row_by_SomeD)
  then have g: "get_job job_id (jobs_of (submit job_id now ?rq sys)) = Some ?j"
    using assms(1) by (simp add: submit_def insert_job_def get_job_def row_by_snoc job_of_request_def)
  have f: "j_kind ?j = ''preprocess''" "j_version_id ?j = Some vid" "j_file_id ?j = Some fid" "j_status ?j = Queued"
    "j_payload ?j = preprocess_payload library_id layers (Some (layer_preview_primitives_key vid fid)) attrs ?u ?l"
    by (simp_all add: job_of_request_def file_job_def)
  show ?thesis
    using g s f(4) preprocess_plan[OF f(1-3,5)] by auto
qed

lemma submitted_preprocess_reaches_worker_witness:
  "\<exists>j. get_job ''k'' (jobs_of (submit_preprocess ''k'' 5 DEFAULTS ''v'' ''f'' ''lib'' (Some [''0'']) None None
      (on_files (\<lambda>db. db\<lparr>files := [\<lparr>f_id = ''f'', f_name = ''f.dxf'', f_size = 1, f_uploaded_at = 1, f_insunits = None,
         f_recover_notes = None\<rparr>]\<rparr>) bound_system))) = Some j \<and> j_status j = Queued"
proof -
  let ?sys = "on_files (\<lambda>db. db\<lparr>files := [\<lparr>f_id = ''f'', f_name = ''f.dxf'', f_size = 1, f_uploaded_at = 1,
      f_insunits = None, f_recover_notes = None\<rparr>]\<rparr>) bound_system"
  have "get_file ''v'' ''f'' (files_of ?sys) \<noteq> None"
    by (simp add: get_file_def binding_select_def List.map_filter_def bound_system_def row_by_def new_binding_def row_to_record_def)
  then obtain rc where "get_file ''v'' ''f'' (files_of ?sys) = Some rc" by blast
  moreover have "''k'' \<notin> j_id ` set (jobs_of ?sys)"
    by (simp add: bound_system_def one_job_system_def jobs_of_def one_queued_def job_of_request_def)
      (simp add: on_files_def job_of_request_def)?
  ultimately show ?thesis
    using submitted_preprocess_reaches_worker[of "''k''" ?sys "''v''" "''f''" rc 5 DEFAULTS "''lib''" "Some [''0'']" None None]
    by blast
qed

section \<open>Reprocessing everything\<close>

definition reprocessed :: "core_db \<Rightarrow> file_record list" where
  "reprocessed db = filter (eligible db) (list_all_files (fdb db))"

definition child_rows :: "string \<Rightarrow> (nat \<Rightarrow> string) \<Rightarrow> real \<Rightarrow> attributes \<Rightarrow> core_db \<Rightarrow> (nat \<times> file_record) list \<Rightarrow> job list" where
  "child_rows parent_id child_id now attrs db ers =
     map (\<lambda>(n, r). job_of_request (child_id n) now (reprocess_child parent_id attrs db r)) ers"

lemma job_of_request_id [simp]: "j_id (job_of_request jid now rq) = jid"
  by (simp add: job_of_request_def)

lemma submit_fresh: "jid \<notin> j_id ` set (jobs_of sys) \<Longrightarrow> jobs_of (submit jid now rq sys) = jobs_of sys @ [job_of_request jid now rq]"
  by (simp add: submit_def insert_job_def)

lemma submit_children:
  assumes "inj child_id" "distinct (map fst ers)" "child_id ` fst ` set ers \<inter> j_id ` set (jobs_of sys) = {}"
  shows "jobs_of (fold (\<lambda>(n, r). submit (child_id n) now (reprocess_child parent_id attrs db r)) ers sys) =
    jobs_of sys @ child_rows parent_id child_id now attrs db ers"
  using assms(2,3)
proof (induction ers arbitrary: sys)
  case (Cons er ers)
  obtain n r where er: "er = (n, r)" by force
  let ?sys = "submit (child_id n) now (reprocess_child parent_id attrs db r) sys"
  have 1: "jobs_of ?sys = jobs_of sys @ [job_of_request (child_id n) now (reprocess_child parent_id attrs db r)]"
    using Cons.prems(2) by (intro submit_fresh) (auto simp: er)
  have "child_id ` fst ` set ers \<inter> j_id ` set (jobs_of ?sys) = {}"
    using Cons.prems assms(1) unfolding 1 by (auto simp: er dest: injD)
  with Cons.IH[of ?sys] Cons.prems(1) show ?case
    by (simp add: er 1 child_rows_def)
qed (simp add: child_rows_def)

lemma map_snd_enumerate [simp]: "map snd (enumerate k xs) = xs"
  by (induction xs arbitrary: k) simp_all

lemma submit_reprocess_rows:
  assumes "inj child_id" "parent_id \<notin> range child_id"
    "insert parent_id (range child_id) \<inter> j_id ` set (jobs_of sys) = {}"
  shows "jobs_of (submit_reprocess_all parent_id child_id now kind attrs sys) =
    jobs_of sys @ job_of_request parent_id now
        (reprocess_parent kind (length (list_all_files (fdb (core (sy_server sys)))) - length (reprocessed (core (sy_server sys))))
          (length (reprocessed (core (sy_server sys))))) #
      child_rows parent_id child_id now attrs (core (sy_server sys)) (enumerate 0 (reprocessed (core (sy_server sys))))"
proof -
  let ?db = "core (sy_server sys)"
  let ?p = "reprocess_parent kind (length (list_all_files (fdb ?db)) - length (reprocessed ?db)) (length (reprocessed ?db))"
  have 1: "jobs_of (submit parent_id now ?p sys) = jobs_of sys @ [job_of_request parent_id now ?p]"
    using assms(3) by (intro submit_fresh) auto
  have "child_id ` fst ` set (enumerate 0 (reprocessed ?db)) \<inter> j_id ` set (jobs_of (submit parent_id now ?p sys)) = {}"
    using assms(2,3) unfolding 1 by (auto simp: disjoint_iff)
  from submit_children[OF assms(1) _ this, of now parent_id attrs ?db] show ?thesis
    by (simp add: submit_reprocess_all_def reprocessed_def[symmetric] Let_def 1)
qed

text \<open>C39. Re-processing everything redoes exactly what may be redone: it adds one parent job and, in the order
  of the bindings, exactly one preprocess job for every binding that is past its layer selection and not in
  error and whose version exists and is not signed off; no other binding gets a job.  Each child names its
  binding, its parent and the version's own library, re-parses the file (no cache) and keeps the operator's
  layers, unit and tab.  The parent expects exactly that many completions and reports the other bindings as
  skipped.\<close>

theorem reprocess_spares_frozen:
  assumes "inj child_id" "parent_id \<notin> range child_id"
    "insert parent_id (range child_id) \<inter> j_id ` set (jobs_of sys) = {}"
  shows "\<exists>parent children redone. jobs_of (submit_reprocess_all parent_id child_id now kind attrs sys) = jobs_of sys @ parent # children \<and>
    redone = filter (\<lambda>r. b_status (r_binding r) \<notin> {DiscoveringLayers, AwaitingLayout, AwaitingLayers, FileError} \<and>
        (\<exists>v. get_version (r_version_id r) (core (sy_server sys)) = Some v \<and> \<not> is_signed_off v)) (list_all_files (files_of sys)) \<and>
    j_id parent = parent_id \<and> j_total parent = Some (length redone) \<and> (j_status parent = JobDone \<longleftrightarrow> redone = []) \<and>
    map_of (j_payload parent) ''skipped'' = Some (JInt (int (length (list_all_files (files_of sys)) - length redone))) \<and>
    list_all2 (\<lambda>j r. j_kind j = ''preprocess'' \<and> j_status j = Queued \<and> j_parent_id j = Some parent_id \<and>
       j_version_id j = Some (r_version_id r) \<and> j_file_id j = Some (r_id r) \<and>
       (\<exists>v. get_version (r_version_id r) (core (sy_server sys)) = Some v \<and>
          j_payload j = preprocess_payload (v_library_id v) (b_selected_layers (r_binding r)) None attrs
            (b_user_unit_override (r_binding r)) (b_chosen_layout (r_binding r)))) children redone"
proof -
  let ?db = "core (sy_server sys)"
  let ?parent = "job_of_request parent_id now
        (reprocess_parent kind (length (list_all_files (fdb ?db)) - length (reprocessed ?db)) (length (reprocessed ?db)))"
  let ?children = "child_rows parent_id child_id now attrs ?db (enumerate 0 (reprocessed ?db))"
  have same: "files_of sys = fdb ?db" by (simp add: files_of_def)
  have open_v: "open_library_of ?db vid \<noteq> None \<longleftrightarrow> (\<exists>v. get_version vid ?db = Some v \<and> \<not> is_signed_off v)"
    "open_library_of ?db vid = Some l \<Longrightarrow> \<exists>v. get_version vid ?db = Some v \<and> l = v_library_id v" for vid l
    by (auto simp: open_library_of_def split: option.splits if_splits)
  have redone: "reprocessed ?db = filter (\<lambda>r. b_status (r_binding r) \<notin> {DiscoveringLayers, AwaitingLayout, AwaitingLayers, FileError} \<and>
      (\<exists>v. get_version (r_version_id r) ?db = Some v \<and> \<not> is_signed_off v)) (list_all_files (fdb ?db))"
    by (simp add: reprocessed_def eligible_def[abs_def] open_v(1) REPROCESS_SKIP_STATUSES_def del: not_None_eq)
  have "list_all2 (\<lambda>j r. j_kind j = ''preprocess'' \<and> j_status j = Queued \<and> j_parent_id j = Some parent_id \<and>
       j_version_id j = Some (r_version_id r) \<and> j_file_id j = Some (r_id r) \<and>
       (\<exists>v. get_version (r_version_id r) ?db = Some v \<and>
          j_payload j = preprocess_payload (v_library_id v) (b_selected_layers (r_binding r)) None attrs
            (b_user_unit_override (r_binding r)) (b_chosen_layout (r_binding r)))) ?children (reprocessed ?db)"
    unfolding list_all2_conv_all_nth
  proof (intro conjI allI impI)
    show "length ?children = length (reprocessed ?db)" by (simp add: child_rows_def)
  next
    fix i assume "i < length ?children"
    then have i: "i < length (reprocessed ?db)" by (simp add: child_rows_def)
    let ?r = "reprocessed ?db ! i"
    have c: "?children ! i = job_of_request (child_id i) now (reprocess_child parent_id attrs ?db ?r)"
      using i by (simp add: child_rows_def nth_enumerate_eq)
    have "eligible ?db ?r" using nth_mem[OF i] by (simp add: reprocessed_def)
    then obtain l where l: "open_library_of ?db (r_version_id ?r) = Some l" by (auto simp: eligible_def)
    show "j_kind (?children ! i) = ''preprocess''" "j_status (?children ! i) = Queued"
      "j_parent_id (?children ! i) = Some parent_id" "j_version_id (?children ! i) = Some (r_version_id ?r)"
      "j_file_id (?children ! i) = Some (r_id ?r)"
      by (simp_all add: c job_of_request_def reprocess_child_def file_job_def)
    show "\<exists>v. get_version (r_version_id ?r) ?db = Some v \<and>
        j_payload (?children ! i) = preprocess_payload (v_library_id v) (b_selected_layers (r_binding ?r)) None attrs
            (b_user_unit_override (r_binding ?r)) (b_chosen_layout (r_binding ?r))"
      using open_v(2)[OF l] by (auto simp: c job_of_request_def reprocess_child_def file_job_def l or_empty_def)
  qed
  moreover have "j_id ?parent = parent_id" "j_total ?parent = Some (length (reprocessed ?db))"
    "j_status ?parent = JobDone \<longleftrightarrow> reprocessed ?db = []"
    "map_of (j_payload ?parent) ''skipped'' = Some (JInt (int (length (list_all_files (fdb ?db)) - length (reprocessed ?db))))"
    by (auto simp: job_of_request_def reprocess_parent_def)
  moreover note submit_reprocess_rows[OF assms, of now kind attrs]
  ultimately show ?thesis unfolding same redone[symmetric] by blast
qed

definition numbered_id :: "nat \<Rightarrow> string" where
  "numbered_id n = CHR ''c'' # replicate n CHR ''x''"

text \<open>A version with a file that is ready and one whose discovery is still running.\<close>

definition redo_system :: system where
  "redo_system = one_job_system\<lparr>sy_server := (sy_server one_job_system)\<lparr>core := one_product\<lparr>fdb := \<lparr>
     files = [\<lparr>f_id = ''f'', f_name = ''a.dxf'', f_size = 3, f_uploaded_at = 1, f_insunits = None, f_recover_notes = None\<rparr>,
       \<lparr>f_id = ''g'', f_name = ''b.dxf'', f_size = 3, f_uploaded_at = 1, f_insunits = None, f_recover_notes = None\<rparr>],
     version_files = [new_binding ''v1'' ''SBT'' ''f'' None ReadyToMatch 1, new_binding ''v1'' ''BD'' ''g'' None DiscoveringLayers 1]\<rparr>\<rparr>\<rparr>\<rparr>"

lemma reprocess_spares_frozen_witness:
  "\<exists>parent child. jobs_of (submit_reprocess_all ''p'' numbered_id 3 ''reprocess-all'' DEFAULTS redo_system) =
     one_queued @ [parent, child] \<and> j_total parent = Some 1 \<and> j_version_id child = Some ''v1'' \<and> j_file_id child = Some ''f''"
proof -
  have inj: "inj numbered_id"
    by (rule injI) (simp add: numbered_id_def)
  have new: "''p'' \<notin> range numbered_id" by (auto simp: numbered_id_def)
  have j: "jobs_of redo_system = one_queued" by (simp add: jobs_of_def redo_system_def one_job_system_def)
  have fresh: "insert ''p'' (range numbered_id) \<inter> j_id ` set (jobs_of redo_system) = {}"
    unfolding j by (auto simp: one_queued_def numbered_id_def)
  obtain parent children redone where r:
    "jobs_of (submit_reprocess_all ''p'' numbered_id 3 ''reprocess-all'' DEFAULTS redo_system) = one_queued @ parent # children"
    "redone = filter (\<lambda>r. b_status (r_binding r) \<notin> {DiscoveringLayers, AwaitingLayout, AwaitingLayers, FileError} \<and>
        (\<exists>v. get_version (r_version_id r) (core (sy_server redo_system)) = Some v \<and> \<not> is_signed_off v)) (list_all_files (files_of redo_system))"
    "j_total parent = Some (length redone)"
    and children: "list_all2 (\<lambda>j r. j_kind j = ''preprocess'' \<and> j_status j = Queued \<and> j_parent_id j = Some ''p'' \<and>
       j_version_id j = Some (r_version_id r) \<and> j_file_id j = Some (r_id r) \<and>
       (\<exists>v. get_version (r_version_id r) (core (sy_server redo_system)) = Some v \<and>
          j_payload j = preprocess_payload (v_library_id v) (b_selected_layers (r_binding r)) None DEFAULTS
            (b_user_unit_override (r_binding r)) (b_chosen_layout (r_binding r)))) children redone"
    using reprocess_spares_frozen[OF inj new fresh, of 3 "''reprocess-all''" DEFAULTS] unfolding j by (elim exE conjE)
  have c: "list_all2 (\<lambda>j r. j_version_id j = Some (r_version_id r) \<and> j_file_id j = Some (r_id r)) children redone"
    using children by (rule list_all2_mono) blast
  have v: "get_version ''v1'' (core (sy_server redo_system)) = Some first_version"
    by (simp add: redo_system_def get_version_def one_product_simps first_version_def)
  have "map (\<lambda>r. (r_version_id r, r_id r, b_status (r_binding r))) (list_all_files (files_of redo_system)) =
      [(''v1'', ''f'', ReadyToMatch), (''v1'', ''g'', DiscoveringLayers)]"
    by (simp add: list_all_files_def binding_select_def redo_system_def files_of_def new_binding_def row_to_record_def
        List.map_filter_simps)
  then obtain r1 r2 where l: "list_all_files (files_of redo_system) = [r1, r2]" "r_version_id r1 = ''v1''" "r_id r1 = ''f''"
    "b_status (r_binding r1) = ReadyToMatch" "r_version_id r2 = ''v1''" "b_status (r_binding r2) = DiscoveringLayers"
    by (auto simp: map_eq_Cons_conv)
  have "redone = [r1]" using v by (simp add: r(2) l) (simp add: first_version_def is_signed_off_def)
  then show ?thesis using r(1,3) c l(2,3) by (auto simp: list_all2_Cons2)
qed

section \<open>Failing jobs\<close>

lemma flagged_binding:
  "get_binding (vid, fid) (flag_binding j text db) =
     (if j_version_id j = Some vid \<and> j_file_id j = Some fid
      then map_option (\<lambda>b. b\<lparr>b_status := FileError, b_error := Some text\<rparr>) (get_binding (vid, fid) db) else get_binding (vid, fid) db)"
  by (auto simp: flag_binding_def update_status_def get_binding_update binding_key_def split: option.split)

text \<open>C40. A worker's exception is never lost: whatever the job (rule checks, which have no file, and jobs
  whose binding is gone included), its row ends in error with the exception and its traceback; if the
  job is a preprocessing or a discovery, the binding it names, as long as it exists, is flagged with the
  same text, and no other binding is touched.\<close>

theorem raised_job_is_reported:
  assumes "get_job jid (jobs_of sys) = Some row"
  shows "(\<exists>row'. get_job jid (jobs_of (settle tk jid j (Raised e tb) sys)) = Some row' \<and> j_status row' = JobError \<and>
      j_error row' = Some (with_traceback e tb) \<and> j_completed_at row' = Some (tk_reap tk)) \<and>
    (\<forall>vid fid. get_binding (vid, fid) (files_of (settle tk jid j (Raised e tb) sys)) =
      (if j_kind j \<in> {''preprocess'', ''discover''} \<and> j_version_id j = Some vid \<and> j_file_id j = Some fid
       then map_option (\<lambda>b. b\<lparr>b_status := FileError, b_error := Some (with_traceback e tb)\<rparr>) (get_binding (vid, fid) (files_of sys))
       else get_binding (vid, fid) (files_of sys)))"
proof -
  have ids: "map j_id (job_do op js) = map j_id js" if "bookkeeping op" for op js
    using that
    by (cases op) (auto simp: bump_parent_done_def append_parent_error_def update_payload_def Let_def map_sql_update split: option.split)
  have fold_ids: "map j_id (fold job_do ops js) = map j_id js" if "list_all bookkeeping ops" for ops js
    using that by (induction ops arbitrary: js) (simp_all add: ids)
  let ?ops = "error_ops e j @ bump_ops (tk_reap tk) j"
  let ?js = "fold job_do ?ops (jobs_of sys)"
  have "jid \<in> set (map j_id (jobs_of sys))" using assms(1) by (auto simp: get_job_def dest: row_by_SomeD)
  then have "jid \<in> set (map j_id ?js)" by (subst fold_ids) simp_all
  then have "get_job jid ?js \<noteq> None" unfolding get_job_def by (auto simp: row_by_def find_None_iff)
  then obtain r where r: "get_job jid ?js = Some r" by blast
  have "get_job jid (fail_job jid (tk_reap tk) (with_traceback e tb) ?js) =
      Some (r\<lparr>j_status := JobError, j_completed_at := Some (tk_reap tk), j_error := Some (with_traceback e tb)\<rparr>)"
    unfolding fail_job_def get_job_def
    using r by (subst row_by_update_same) (auto simp: get_job_def dest: row_by_SomeD)
  moreover have "jobs_of (settle tk jid j (Raised e tb) sys) = fail_job jid (tk_reap tk) (with_traceback e tb) ?js"
    by (simp add: settle_def jobs_of_failure)
  moreover have "files_of (settle tk jid j (Raised e tb) sys) =
      (if j_kind j \<in> {''preprocess'', ''discover''} then flag_binding j (with_traceback e tb) (files_of sys) else files_of sys)"
    by (simp add: settle_def apply_failure_def Let_def)
  ultimately show ?thesis by (simp add: flagged_binding)
qed

lemma raised_job_is_reported_witness:
  "\<exists>row'. get_job ''j'' (jobs_of (settle broken_tick ''j''
       (job_of_request ''j'' 1 (plain_request\<lparr>jr_kind := ''rule_check'', jr_file_id := None\<rparr>)) (Raised ''e'' ''tb'') bound_system)) = Some row' \<and>
     j_status row' = JobError \<and>
     map_option b_status (get_binding (''v'', ''f'') (files_of (settle broken_tick ''j'' (job_of_request ''j'' 1 plain_request)
       (Raised ''e'' ''tb'') bound_system))) = Some FileError"
proof -
  have row: "get_job ''j'' (jobs_of bound_system) = Some (job_of_request ''j'' 1 plain_request)"
    by (simp add: bound_system_def jobs_of_def on_files_def one_job_system_def one_queued_def get_job_def)
  have b: "get_binding (''v'', ''f'') (files_of bound_system) =
      Some ((new_binding ''v'' ''SBT'' ''f'' None Preprocessing 1)\<lparr>b_match_saved := True\<rparr>)"
    by (simp add: bound_system_def get_binding_def binding_key_def new_binding_def)
  have f: "j_version_id (job_of_request ''j'' 1 plain_request) = Some ''v''"
    "j_file_id (job_of_request ''j'' 1 plain_request) = Some ''f''" "j_kind (job_of_request ''j'' 1 plain_request) = ''preprocess''"
    by (simp_all add: job_of_request_def plain_request_def)
  have "map_option b_status (get_binding (''v'', ''f'') (files_of (settle broken_tick ''j'' (job_of_request ''j'' 1 plain_request)
       (Raised ''e'' ''tb'') bound_system))) = Some FileError"
    using conjunct2[OF raised_job_is_reported[OF row, where j = "job_of_request ''j'' 1 plain_request" and tk = broken_tick
        and e = "''e''" and tb = "''tb''"], rule_format, of "''v''" "''f''"] by (simp add: f b)
  then show ?thesis
    using conjunct1[OF raised_job_is_reported[OF row, where tk = broken_tick and e = "''e''" and tb = "''tb''" and
        j = "job_of_request ''j'' 1 (plain_request\<lparr>jr_kind := ''rule_check'', jr_file_id := None\<rparr>)"]] by blast
qed

end
