(* ===== verification/Api.thy ===== *)
theory Api
  imports WorkerLoop
begin

text \<open>
  What the route handlers of \<^verbatim>\<open>app/main.py\<close> share: the context of a request, error responses,
  the order of checks, and the lookups of versions, files and parsed artifacts. A handler answers with a
  reply and the new system; a raised exception is a left value and the writes before it stay. All clock
  reads of one request give one time, and ids are arguments.
\<close>

record request_ctx =
  cx_dev :: bool                  \<comment> \<open>\<^verbatim>\<open>dev_resolve_grants\<close>\<close>
  cx_ident :: identity
  cx_query :: "(string, string) dict"  \<comment> \<open>query parameters the route does not declare\<close>
  cx_now :: real
  cx_mtime :: nat
  cx_job :: "nat \<Rightarrow> string"
  cx_ids :: fresh_ids
  cx_row :: string
  cx_attrs :: attributes

datatype api_error =
    HTTP nat string
  | FrozenVersion string "real option"
  | GuardFailed guard_error
  | PreprocessInFlight string
  | LockOccupied string real

definition api_status :: "api_error \<Rightarrow> nat" where
  "api_status e =
     (case e of HTTP n _ \<Rightarrow> n | FrozenVersion _ _ \<Rightarrow> 409 | GuardFailed g \<Rightarrow> status_code g
      | PreprocessInFlight _ \<Rightarrow> 409 | LockOccupied _ _ \<Rightarrow> 423)"

type_synonym 'a reply = "(api_error + 'a) \<times> system"

text \<open>Early returns: a failed step or a failed check answers with its error and the state so far.\<close>

definition attempt :: "api_error + 'a \<Rightarrow> system \<Rightarrow> ('a \<Rightarrow> 'b reply) \<Rightarrow> 'b reply" where
  "attempt r sys k = (case r of Inl e \<Rightarrow> (Inl e, sys) | Inr x \<Rightarrow> k x)"

definition ensure :: "bool \<Rightarrow> api_error \<Rightarrow> system \<Rightarrow> 'b reply \<Rightarrow> 'b reply" where
  "ensure ok e sys k = (if ok then k else (Inl e, sys))"

lemma attempt_simps [simp]: "attempt (Inl e) sys k = (Inl e, sys)" "attempt (Inr x) sys k = k x"
  by (simp_all add: attempt_def)

lemma ensure_simps [simp]: "ensure True e sys k = k" "ensure False e sys k = (Inl e, sys)"
  by (simp_all add: ensure_def)

section \<open>Guards of a route\<close>

definition core_of :: "system \<Rightarrow> core_db" where
  "core_of sys = core (sy_server sys)"

definition lib_of :: "system \<Rightarrow> lib_db" where
  "lib_of sys = lib (core_of sys)"

definition on_core :: "(core_db \<Rightarrow> core_db) \<Rightarrow> system \<Rightarrow> system" where
  "on_core f sys = sys\<lparr>sy_server := (sy_server sys)\<lparr>core := f (core_of sys)\<rparr>\<rparr>"

definition on_lib :: "(lib_db \<Rightarrow> lib_db) \<Rightarrow> system \<Rightarrow> system" where
  "on_lib f = on_core (\<lambda>db. db\<lparr>lib := f (lib db)\<rparr>)"

definition auth_of :: "system \<Rightarrow> auth_db" where
  "auth_of sys = auth (sy_server sys)"

definition on_auth :: "(auth_db \<Rightarrow> auth_db) \<Rightarrow> system \<Rightarrow> system" where
  "on_auth f sys = sys\<lparr>sy_server := (sy_server sys)\<lparr>auth := f (auth_of sys)\<rparr>\<rparr>"

definition version_route :: "request_ctx \<Rightarrow> string \<Rightarrow> route" where
  "version_route cx vid = \<lparr>path_params = [(''version_id'', vid)], query_params = cx_query cx\<rparr>"

definition product_route :: "request_ctx \<Rightarrow> string \<Rightarrow> route" where
  "product_route cx pid = \<lparr>path_params = [(''product_id'', pid)], query_params = cx_query cx\<rparr>"

definition file_route :: "request_ctx \<Rightarrow> string \<Rightarrow> string \<Rightarrow> route" where
  "file_route cx vid fid =
     \<lparr>path_params = [(''file_id'', fid)], query_params = (''version_id'', vid) # cx_query cx\<rparr>"

definition plain_route :: "request_ctx \<Rightarrow> route" where
  "plain_route cx = \<lparr>path_params = [], query_params = cx_query cx\<rparr>"

type_synonym guard = "bool \<Rightarrow> identity \<Rightarrow> route \<Rightarrow> real \<Rightarrow> server \<Rightarrow> guard_error + identity"

definition guarded :: "guard \<Rightarrow> request_ctx \<Rightarrow> route \<Rightarrow> system \<Rightarrow> 'b reply \<Rightarrow> 'b reply" where
  "guarded g cx rq sys k =
     (case g (cx_dev cx) (cx_ident cx) rq (cx_now cx) (sy_server sys) of
        Inl e \<Rightarrow> (Inl (GuardFailed e), sys) | Inr _ \<Rightarrow> k)"

section \<open>Lookups\<close>

definition resolve_version :: "string \<Rightarrow> system \<Rightarrow> api_error + version" where
  "resolve_version vid sys =
     (case get_version vid (core_of sys) of None \<Rightarrow> Inl (HTTP 404 ''version not found'') | Some v \<Rightarrow> Inr v)"

definition require_unsigned :: "string \<Rightarrow> system \<Rightarrow> api_error + version" where
  "require_unsigned vid sys =
     (case resolve_version vid sys of
        Inl e \<Rightarrow> Inl e
      | Inr v \<Rightarrow> (case v_signed_off_by v of
                    Some who \<Rightarrow> Inl (FrozenVersion who (v_signed_off_at v)) | None \<Rightarrow> Inr v))"

definition find_binding :: "string \<Rightarrow> string \<Rightarrow> system \<Rightarrow> api_error + file_record" where
  "find_binding vid fid sys =
     (case get_file vid fid (files_of sys) of
        None \<Rightarrow> Inl (HTTP 404 ''file not found in this version'') | Some rc \<Rightarrow> Inr rc)"

definition resolve_file :: "string \<Rightarrow> string \<Rightarrow> system \<Rightarrow> api_error + file_record" where
  "resolve_file vid fid sys =
     (case find_binding vid fid sys of
        Inl e \<Rightarrow> Inl e
      | Inr rc \<Rightarrow>
          if b_status (r_binding rc) \<in> {ReadyToMatch, CheckingRules, Report} then Inr rc
          else Inl (HTTP 425 ''file not ready''))"

definition resolve_product :: "string \<Rightarrow> system \<Rightarrow> api_error + product" where
  "resolve_product pid sys =
     (case get_product pid (core_of sys) of None \<Rightarrow> Inl (HTTP 404 ''product not found'') | Some p \<Rightarrow> Inr p)"

text \<open>The caches are keyed by the blob's token, so they give what the blob store holds. A blob that is
  not JSON is a 400; an exception no handler catches is a 500.\<close>

definition parsed_for :: "string \<Rightarrow> string \<Rightarrow> system \<Rightarrow> api_error + json" where
  "parsed_for vid fid sys =
     (case local_get_json (parsed_key vid fid) (sy_blobs sys) of
        Inr j \<Rightarrow> Inr j
      | Inl (FileNotFoundError _) \<Rightarrow> Inl (HTTP 500 ''parsed file missing on disk'')
      | Inl _ \<Rightarrow> Inl (HTTP 400 ''parsed file is unreadable/corrupt''))"

definition parsed_primitives :: "string \<Rightarrow> string \<Rightarrow> system \<Rightarrow> api_error + primitive list" where
  "parsed_primitives vid fid sys =
     (case local_get_json (parsed_key vid fid) (sy_blobs sys) of
        Inl (FileNotFoundError _) \<Rightarrow> Inl (HTTP 500 ''parsed file missing on disk'')
      | Inl _ \<Rightarrow> Inl (HTTP 500 ''Internal Server Error'')
      | Inr j \<Rightarrow>
          (case field ''primitives'' primitives_of_json j of
             None \<Rightarrow> Inl (HTTP 500 ''Internal Server Error'') | Some ps \<Rightarrow> Inr ps))"

definition shapes_for :: "numerics \<Rightarrow> string \<Rightarrow> string \<Rightarrow> system \<Rightarrow> api_error + (handle, nat list) dict \<times> drawing" where
  "shapes_for nm vid fid sys =
     (case parsed_primitives vid fid sys of
        Inl e \<Rightarrow> Inl e
      | Inr ps \<Rightarrow> (let hi = build_handle_index ps in Inr (hi, build_entity_shapes nm ps hi)))"

definition load_json_or_http :: "string \<Rightarrow> system \<Rightarrow> api_error + json" where
  "load_json_or_http key sys =
     (case local_get_json key (sy_blobs sys) of
        Inl _ \<Rightarrow> Inl (HTTP 400 ''file is unreadable/corrupt'') | Inr j \<Rightarrow> Inr j)"

text \<open>\<^verbatim>\<open>LIBRARIES.get\<close> hydrates the library, which seeds the default classes it lacks.\<close>

definition library_for_version :: "version \<Rightarrow> request_ctx \<Rightarrow> system \<Rightarrow> (api_error + library) \<times> system" where
  "library_for_version v cx sys =
     (case registry_get (v_library_id v) (cx_now cx) (lib_of sys) of
        (Inl _, db) \<Rightarrow> (Inl (HTTP 500 ''library missing''), on_lib (\<lambda>_. db) sys)
      | (Inr l, db) \<Rightarrow> (Inr l, on_lib (\<lambda>_. db) sys))"

definition blob_there :: "string \<Rightarrow> system \<Rightarrow> bool" where
  "blob_there key sys \<longleftrightarrow> local_exists key (sy_blobs sys) = Inr True"

definition drop_blob :: "string \<Rightarrow> system \<Rightarrow> system" where
  "drop_blob key = on_blobs (\<lambda>fs. snd (local_delete key fs))"

definition audit_now ::
  "request_ctx \<Rightarrow> string \<Rightarrow> string \<Rightarrow> string \<Rightarrow> string option \<Rightarrow> string option \<Rightarrow> json option \<Rightarrow> system \<Rightarrow> system" where
  "audit_now cx action target_type target_id product_id version_id detail =
     on_auth (audit (cx_now cx) (i_userid (cx_ident cx)) action target_type target_id product_id version_id detail)"

end
