(* ===== verification/FileApi.thy ===== *)
theory FileApi
  imports Api
begin

text \<open>
  The endpoints of \<^verbatim>\<open>app/main.py\<close> on the files of a version: upload and removal, unit override,
  side regions, layer and tab selection, and their reads.
\<close>

section \<open>Upload and removal\<close>

record upload =
  up_filename :: string
  up_content :: string
  up_role :: string
  up_replace :: "string option"
  up_skip_layer_pick :: bool

text \<open>\<^verbatim>\<open>sha256(data).hexdigest()[:16]\<close>, the hash an argument.\<close>

definition file_id_from_bytes :: "(string \<Rightarrow> string) \<Rightarrow> string \<Rightarrow> string" where
  "file_id_from_bytes sha data = take 16 (sha data)"

definition MAX_UPLOAD_BYTES :: nat where
  "MAX_UPLOAD_BYTES = 300 * 1024 * 1024"

text \<open>The targeted eviction of \<^verbatim>\<open>replace_file_id\<close>.\<close>

definition evict_binding :: "string \<Rightarrow> string \<Rightarrow> string option \<Rightarrow> system \<Rightarrow> unit reply" where
  "evict_binding vid dxf_role replace sys =
     (if or_empty replace = [] then (Inr (), sys)
      else
        (let old = or_empty replace in
         case get_file vid old (files_of sys) of
           None \<Rightarrow> (Inl (HTTP 400 ''replace_file_id does not match''), sys)
         | Some evictee \<Rightarrow>
             ensure (b_role (r_binding evictee) = dxf_role) (HTTP 400 ''replace_file_id does not match'') sys
               (Inr (), drop_blob (match_key vid old) (on_files (\<lambda>db. snd (unbind_file vid old db)) sys))))"

record uploaded =
  ud_file_id :: string
  ud_status :: file_status
  ud_deduped :: bool
  ud_job :: string

definition store_upload :: "(string \<Rightarrow> string) \<Rightarrow> request_ctx \<Rightarrow> version \<Rightarrow> upload \<Rightarrow> system \<Rightarrow> uploaded reply" where
  "store_upload sha cx v up sys =
     (let fid = file_id_from_bytes sha (up_content up);
          sys1 = (if blob_there (upload_key fid) sys then sys
                  else on_blobs (local_put (cx_mtime cx) (upload_key fid) (Raw (up_content up))) sys);
          deduped = content_exists fid (files_of sys1);
          initial_status = (if up_skip_layer_pick up then Preprocessing else DiscoveringLayers);
          sys2 = on_files (register_content fid (up_filename up) (length (up_content up)) (cx_now cx)) sys1;
          sys3 = on_files (bind_file (v_id v) (up_role up) fid (Some ''multi'') initial_status (cx_now cx)) sys2;
          sys4 = (if up_skip_layer_pick up
                  then submit_preprocess (cx_job cx 0) (cx_now cx) (cx_attrs cx) (v_id v) fid (v_library_id v) None None None sys3
                  else submit_discover_layers (cx_job cx 0) (cx_now cx) (v_id v) fid None sys3)
      in (Inr \<lparr>ud_file_id = fid, ud_status = initial_status, ud_deduped = deduped, ud_job = cx_job cx 0\<rparr>, sys4))"

definition upload_version_file ::
  "(string \<Rightarrow> string) \<Rightarrow> request_ctx \<Rightarrow> string \<Rightarrow> upload \<Rightarrow> system \<Rightarrow> uploaded reply" where
  "upload_version_file sha cx vid up sys =
     guarded editor_guard cx (version_route cx vid) sys
       (attempt (require_unsigned vid sys) sys (\<lambda>v.
        ensure (up_role up \<in> set VALID_ROLES) (HTTP 400 ''bad role'') sys
        (ensure (py_ends_with ''.dxf'' (py_lower (up_filename up))) (HTTP 400 ''expected a .dxf file'') sys
        (ensure (up_content up \<noteq> []) (HTTP 400 ''empty upload'') sys
        (ensure (length (up_content up) \<le> MAX_UPLOAD_BYTES) (HTTP 413 ''upload too large'') sys
        (case evict_binding vid (up_role up) (up_replace up) sys of
           (Inl e, sys1) \<Rightarrow> (Inl e, sys1)
         | (Inr _, sys1) \<Rightarrow> store_upload sha cx v up sys1))))))"

definition delete_version_file :: "request_ctx \<Rightarrow> string \<Rightarrow> string \<Rightarrow> system \<Rightarrow> unit reply" where
  "delete_version_file cx vid fid sys =
     guarded editor_guard cx \<lparr>path_params = [(''version_id'', vid), (''file_id'', fid)], query_params = cx_query cx\<rparr> sys
       (attempt (require_unsigned vid sys) sys (\<lambda>_.
        attempt (find_binding vid fid sys) sys (\<lambda>_.
          (Inr (), drop_blob (match_key vid fid) (on_files (\<lambda>db. snd (unbind_file vid fid db)) sys)))))"

section \<open>Unit override and side regions\<close>

definition affected_product_for_version :: "string \<Rightarrow> system \<Rightarrow> (string \<times> string \<times> string) list" where
  "affected_product_for_version vid sys =
     (case get_version vid (core_of sys) of
        None \<Rightarrow> []
      | Some v \<Rightarrow>
          (case get_product (v_product_id v) (core_of sys) of
             None \<Rightarrow> [] | Some p \<Rightarrow> [(p_id p, p_name p, v_label v)]))"

definition post_unit_override ::
  "request_ctx \<Rightarrow> string \<Rightarrow> string \<Rightarrow> string \<Rightarrow> system \<Rightarrow> (string \<times> (string \<times> string \<times> string) list) reply" where
  "post_unit_override cx vid fid unit sys =
     guarded editor_guard cx (file_route cx vid fid) sys
       (ensure (unit \<in> fst ` set UNIT_TO_SCALE) (HTTP 400 ''unknown unit'') sys
        (attempt (require_unsigned vid sys) sys (\<lambda>_.
         attempt (find_binding vid fid sys) sys (\<lambda>rc.
         ensure (b_status (r_binding rc) \<noteq> AwaitingLayout) (HTTP 409 ''file is awaiting an AutoCAD-tab pick'') sys
         (case find_inflight_preprocess_job vid fid sys of
            Some job \<Rightarrow> (Inl (PreprocessInFlight job), sys)
          | None \<Rightarrow>
              (case submit_unit_override_preprocess (cx_job cx 0) (cx_now cx) (cx_attrs cx) vid fid unit sys of
                 (Inl _, sys1) \<Rightarrow> (Inl (HTTP 500 ''Internal Server Error''), sys1)
               | (Inr job, sys1) \<Rightarrow> (Inr (job, affected_product_for_version vid sys1), sys1)))))))"

definition patch_side_regions ::
  "request_ctx \<Rightarrow> string \<Rightarrow> string \<Rightarrow> rect option \<Rightarrow> rect option \<Rightarrow> rect option \<Rightarrow> system
     \<Rightarrow> (rect option \<times> rect option \<times> rect option) reply" where
  "patch_side_regions cx vid fid tv bv sv sys =
     guarded editor_guard cx (file_route cx vid fid) sys
       (attempt (require_unsigned vid sys) sys (\<lambda>_.
        attempt (find_binding vid fid sys) sys (\<lambda>_.
          (let t = map_option normalise_rect tv; b = map_option normalise_rect bv; s = map_option normalise_rect sv;
               sys1 = on_files (update_side_regions vid fid t b s) sys;
               sys2 = drop_blob (match_key vid fid) sys1
           in (Inr (t, b, s), on_files (set_match_saved vid fid False) sys2)))))"

section \<open>Reads\<close>

definition list_files :: "request_ctx \<Rightarrow> system \<Rightarrow> file_record list reply" where
  "list_files cx sys = guarded admin_guard cx (plain_route cx) sys (Inr (list_all_files (files_of sys)), sys)"

definition get_file_endpoint :: "request_ctx \<Rightarrow> string \<Rightarrow> string \<Rightarrow> system \<Rightarrow> file_record reply" where
  "get_file_endpoint cx vid fid sys =
     guarded viewer_guard cx (file_route cx vid fid) sys
       (attempt (find_binding vid fid sys) sys (\<lambda>rc. (Inr rc, sys)))"

definition get_job_endpoint :: "request_ctx \<Rightarrow> string \<Rightarrow> system \<Rightarrow> job reply" where
  "get_job_endpoint cx job_id sys =
     (case job_viewer_guard (cx_dev cx) (cx_ident cx) job_id (sy_server sys) of
        Inl e \<Rightarrow> (Inl (GuardFailed e), sys)
      | Inr _ \<Rightarrow> (case get_public job_id sys of None \<Rightarrow> (Inl (HTTP 404 ''job not found''), sys) | Some j \<Rightarrow> (Inr j, sys)))"

section \<open>Layer selection\<close>

text \<open>A missing manifest is a 404, one that is not JSON an uncaught exception.\<close>

definition read_manifest :: "string \<Rightarrow> string \<Rightarrow> system \<Rightarrow> api_error + json" where
  "read_manifest key what sys =
     (case local_get_json key (sy_blobs sys) of
        Inr j \<Rightarrow> Inr j
      | Inl (FileNotFoundError _) \<Rightarrow> Inl (HTTP 404 what)
      | Inl _ \<Rightarrow> Inl (HTTP 500 ''Internal Server Error''))"

definition read_layer_manifest :: "string \<Rightarrow> string \<Rightarrow> system \<Rightarrow> api_error + json" where
  "read_layer_manifest vid fid = read_manifest (layer_manifest_key vid fid) ''layer manifest not available''"

definition read_layout_manifest :: "string \<Rightarrow> string \<Rightarrow> system \<Rightarrow> api_error + json" where
  "read_layout_manifest vid fid = read_manifest (layout_manifest_key vid fid) ''layout manifest not available''"

text \<open>The \<^verbatim>\<open>name\<close> or \<^verbatim>\<open>safe_name\<close> of every entry of a manifest's list.\<close>

definition entry_field :: "string \<Rightarrow> string \<Rightarrow> json \<Rightarrow> api_error + string list" where
  "entry_field entries key manifest =
     (case field entries (list_of_json (field key str_of_json)) manifest of
        None \<Rightarrow> Inl (HTTP 500 ''Internal Server Error'') | Some names \<Rightarrow> Inr names)"

definition get_file_layers :: "request_ctx \<Rightarrow> string \<Rightarrow> string \<Rightarrow> system \<Rightarrow> (json \<times> string list option \<times> file_status) reply" where
  "get_file_layers cx vid fid sys =
     guarded viewer_guard cx (file_route cx vid fid) sys
       (attempt (find_binding vid fid sys) sys (\<lambda>rc.
        attempt (read_layer_manifest vid fid sys) sys (\<lambda>manifest.
          (Inr (manifest, b_selected_layers (r_binding rc), b_status (r_binding rc)), sys))))"

definition confirm_layers ::
  "request_ctx \<Rightarrow> string \<Rightarrow> string \<Rightarrow> string list \<Rightarrow> system \<Rightarrow> (string list \<times> string) reply" where
  "confirm_layers cx vid fid layers sys =
     guarded editor_guard cx (file_route cx vid fid) sys
       (attempt (require_unsigned vid sys) sys (\<lambda>v.
        attempt (find_binding vid fid sys) sys (\<lambda>_.
        ensure (layers \<noteq> []) (HTTP 400 ''at least one layer required'') sys
        (attempt (read_layer_manifest vid fid sys) sys (\<lambda>manifest.
         attempt (entry_field ''layers'' ''name'' manifest) sys (\<lambda>names.
         ensure (set layers \<subseteq> set names) (HTTP 400 ''unknown layers for this file'') sys
         (let ordered = filter (\<lambda>n. n \<in> set layers) names;
              sys1 = on_files (update_selected_layers vid fid ordered) sys;
              sys2 = on_files (update_status vid fid Preprocessing None) sys1
          in (Inr (ordered, cx_job cx 0),
              submit_preprocess (cx_job cx 0) (cx_now cx) (cx_attrs cx) vid fid (v_library_id v) (Some ordered) None None sys2))))))))"

definition get_preview_svg :: "string \<Rightarrow> system \<Rightarrow> api_error + blob" where
  "get_preview_svg key sys =
     (case local_get key (sy_blobs sys) of
        Inl _ \<Rightarrow> Inl (HTTP 404 ''preview SVG missing on disk'') | Inr b \<Rightarrow> Inr b)"

definition get_layer_preview_svg :: "request_ctx \<Rightarrow> string \<Rightarrow> string \<Rightarrow> string \<Rightarrow> system \<Rightarrow> blob reply" where
  "get_layer_preview_svg cx vid fid safe_name sys =
     guarded viewer_guard cx (file_route cx vid fid) sys
       (attempt (find_binding vid fid sys) sys (\<lambda>_.
        attempt (read_layer_manifest vid fid sys) sys (\<lambda>manifest.
        attempt (entry_field ''layers'' ''safe_name'' manifest) sys (\<lambda>names.
        ensure (safe_name \<in> set names) (HTTP 404 ''unknown layer for this file'') sys
        (attempt (get_preview_svg (layer_preview_svg_key vid fid safe_name) sys) sys (\<lambda>b. (Inr b, sys)))))))"

definition trigger_discover_layers :: "request_ctx \<Rightarrow> string \<Rightarrow> string \<Rightarrow> system \<Rightarrow> string reply" where
  "trigger_discover_layers cx vid fid sys =
     guarded editor_guard cx (file_route cx vid fid) sys
       (attempt (require_unsigned vid sys) sys (\<lambda>_.
        attempt (find_binding vid fid sys) sys (\<lambda>_.
          (Inr (cx_job cx 0),
           submit_discover_layers (cx_job cx 0) (cx_now cx) vid fid None
             (on_files (update_status vid fid DiscoveringLayers None) sys)))))"

section \<open>Tab selection\<close>

definition get_file_layouts :: "request_ctx \<Rightarrow> string \<Rightarrow> string \<Rightarrow> system \<Rightarrow> (json \<times> string option \<times> file_status) reply" where
  "get_file_layouts cx vid fid sys =
     guarded viewer_guard cx (file_route cx vid fid) sys
       (attempt (find_binding vid fid sys) sys (\<lambda>rc.
        attempt (read_layout_manifest vid fid sys) sys (\<lambda>manifest.
          (Inr (manifest, b_chosen_layout (r_binding rc), b_status (r_binding rc)), sys))))"

definition confirm_layout :: "request_ctx \<Rightarrow> string \<Rightarrow> string \<Rightarrow> string \<Rightarrow> system \<Rightarrow> string reply" where
  "confirm_layout cx vid fid layout_name sys =
     guarded editor_guard cx (file_route cx vid fid) sys
       (attempt (require_unsigned vid sys) sys (\<lambda>_.
        attempt (find_binding vid fid sys) sys (\<lambda>rc.
        attempt (read_layout_manifest vid fid sys) sys (\<lambda>manifest.
        attempt (entry_field ''layouts'' ''name'' manifest) sys (\<lambda>names.
        ensure (layout_name \<in> set names) (HTTP 400 ''unknown layout for this file'') sys
        (let sys1 = on_files (set_chosen_layout vid fid (Some layout_name)) sys;
             sys2 = (if Some layout_name \<noteq> b_chosen_layout (r_binding rc)
                     then on_files (set_match_saved vid fid False) (drop_blob (match_key vid fid) sys1) else sys1);
             sys3 = on_files (update_status vid fid DiscoveringLayers None) sys2
         in (Inr (cx_job cx 0),
             submit_discover_layers (cx_job cx 0) (cx_now cx) vid fid (Some layout_name) sys3)))))))"

definition get_layout_preview_svg :: "request_ctx \<Rightarrow> string \<Rightarrow> string \<Rightarrow> string \<Rightarrow> system \<Rightarrow> blob reply" where
  "get_layout_preview_svg cx vid fid safe_name sys =
     guarded viewer_guard cx (file_route cx vid fid) sys
       (attempt (find_binding vid fid sys) sys (\<lambda>_.
        attempt (read_layout_manifest vid fid sys) sys (\<lambda>manifest.
        attempt (entry_field ''layouts'' ''safe_name'' manifest) sys (\<lambda>names.
        ensure (safe_name \<in> set names) (HTTP 404 ''unknown layout for this file'') sys
        (attempt (get_preview_svg (layout_preview_svg_key vid fid safe_name) sys) sys (\<lambda>b. (Inr b, sys)))))))"

end
