(* ===== verification/VersionApi.thy ===== *)
theory VersionApi
  imports FileApi VersionDiff
begin

text \<open>
  The endpoints of \<^verbatim>\<open>app/main.py\<close> on products and versions: the dashboard payloads, creation, cloning,
  deletion, sign-off with its evidence image, and the version diff.
\<close>

section \<open>Dashboard payloads\<close>

definition file_payload :: "system \<Rightarrow> file_record \<Rightarrow> file_record \<times> bool" where
  "file_payload sys rc = (rc, blob_there (layout_manifest_key (r_version_id rc) (r_id rc)) sys)"

definition view_order :: "string option \<Rightarrow> nat" where
  "view_order v =
     (case map_of [(Some ''multi'', 0), (Some ''top'', 1), (Some ''bottom'', 2), (Some ''side'', 3), (None, 4)] v of
        None \<Rightarrow> 9 | Some n \<Rightarrow> n)"

definition files_by_role_all :: "system \<Rightarrow> file_record list \<Rightarrow> (string, (file_record \<times> bool) list) dict" where
  "files_by_role_all sys fs =
     map (\<lambda>role. (role, map (file_payload sys)
            (sort_key (\<lambda>r. view_order (b_dxf_view (r_binding r))) (filter (\<lambda>f. b_role (r_binding f) = role) fs))))
       VALID_ROLES"

definition group_files_by_role ::
  "system \<Rightarrow> file_record list
     \<Rightarrow> (string, (file_record \<times> bool) option) dict \<times> (string, (file_record \<times> bool) list) dict" where
  "group_files_by_role sys fs =
     (let all = files_by_role_all sys fs
      in (map (\<lambda>(role, l). (role, case l of [] \<Rightarrow> None | f # _ \<Rightarrow> Some f)) all, all))"

record rule_check_job_view =
  jv_id :: string
  jv_status :: job_status
  jv_submitted_at :: real
  jv_completed_at :: "real option"
  jv_error :: "string option"
  jv_result :: "json option"

definition project_rule_check_job :: "job option \<Rightarrow> rule_check_job_view option" where
  "project_rule_check_job =
     map_option (\<lambda>j. \<lparr>jv_id = j_id j, jv_status = j_status j, jv_submitted_at = j_submitted_at j,
                      jv_completed_at = j_completed_at j, jv_error = j_error j, jv_result = j_result j\<rparr>)"

record version_view =
  vv_version :: version
  vv_by_role :: "(string, (file_record \<times> bool) option) dict"
  vv_by_role_all :: "(string, (file_record \<times> bool) list) dict"
  vv_saved :: nat
  vv_total :: nat
  vv_ready :: bool
  vv_rule_check_available :: bool
  vv_latest_job :: "rule_check_job_view option"

definition version_payload :: "system \<Rightarrow> version \<Rightarrow> version_view" where
  "version_payload sys v =
     (let fs = list_by_version (v_id v) (files_of sys);
          (by_role, by_role_all) = group_files_by_role sys fs
      in \<lparr>vv_version = v, vv_by_role = by_role, vv_by_role_all = by_role_all,
          vv_saved = length (filter (b_match_saved \<circ> r_binding) fs), vv_total = length fs,
          vv_ready = (fs \<noteq> [] \<and> list_all (b_match_saved \<circ> r_binding) fs),
          vv_rule_check_available = blob_there (rule_check_key (v_id v)) sys,
          vv_latest_job = project_rule_check_job (latest_rule_check_job (v_id v) sys)\<rparr>)"

record product_view =
  pv_product :: product
  pv_customer :: string
  pv_versions :: "version_view list"
  pv_effective_role :: "role option"

definition customer_label :: "system \<Rightarrow> product \<Rightarrow> string" where
  "customer_label sys p =
     (case get_customer (p_customer_id p) (auth_of sys) of
        None \<Rightarrow> p_customer_id p | Some c \<Rightarrow> if c_name c = [] then p_customer_id p else c_name c)"

definition customer_name :: "system \<Rightarrow> product \<Rightarrow> string" where
  "customer_name sys p =
     (case get_customer (p_customer_id p) (auth_of sys) of None \<Rightarrow> p_customer_id p | Some c \<Rightarrow> c_name c)"

definition product_payload :: "request_ctx \<Rightarrow> system \<Rightarrow> string \<Rightarrow> product \<Rightarrow> product_view" where
  "product_payload cx sys label p =
     \<lparr>pv_product = p, pv_customer = label,
      pv_versions = map (version_payload sys) (list_by_product (p_id p) (core_of sys)),
      pv_effective_role = product_role (cx_dev cx) (cx_ident cx) (Some (p_id p)) (sy_server sys)\<rparr>"

definition list_products_endpoint :: "request_ctx \<Rightarrow> system \<Rightarrow> product_view list" where
  "list_products_endpoint cx sys =
     map (\<lambda>p. product_payload cx sys (customer_label sys p) p)
       (visible_products (cx_dev cx) (cx_ident cx) (list_products (core_of sys)) (auth_of sys))"

definition get_product_endpoint :: "request_ctx \<Rightarrow> string \<Rightarrow> system \<Rightarrow> product_view reply" where
  "get_product_endpoint cx pid sys =
     guarded viewer_guard cx (product_route cx pid) sys
       (attempt (resolve_product pid sys) sys (\<lambda>p. (Inr (product_payload cx sys (customer_name sys p) p), sys)))"

definition list_versions :: "request_ctx \<Rightarrow> string \<Rightarrow> system \<Rightarrow> version_view list reply" where
  "list_versions cx pid sys =
     guarded viewer_guard cx (product_route cx pid) sys
       (attempt (resolve_product pid sys) sys (\<lambda>_.
          (Inr (map (version_payload sys) (list_by_product pid (core_of sys))), sys)))"

definition get_version_diff :: "request_ctx \<Rightarrow> string \<Rightarrow> string \<Rightarrow> string \<Rightarrow> system \<Rightarrow> version_diff reply" where
  "get_version_diff cx pid from_id to_id sys =
     guarded viewer_guard cx (product_route cx pid) sys
       (attempt (resolve_product pid sys) sys (\<lambda>_.
        attempt (resolve_version from_id sys) sys (\<lambda>v_from.
        attempt (resolve_version to_id sys) sys (\<lambda>v_to.
        ensure (v_product_id v_from = pid \<and> v_product_id v_to = pid) (HTTP 400 ''version does not belong to product'') sys
          (Inr (diff_versions v_from v_to (core_of sys)), sys)))))"

section \<open>Creation\<close>

definition create_product_endpoint ::
  "request_ctx \<Rightarrow> string \<Rightarrow> string \<Rightarrow> string \<Rightarrow> system \<Rightarrow> (product \<times> version_view) reply" where
  "create_product_endpoint cx raw_name raw_label raw_customer sys =
     guarded admin_guard cx (plain_route cx) sys
       (let name = py_strip raw_name; label = py_strip raw_label;
            customer_id = py_strip (if raw_customer = [] then ''uncategorized'' else raw_customer)
        in ensure (name \<noteq> []) (HTTP 400 ''name required'') sys
          (ensure (label \<noteq> []) (HTTP 422 ''version_label required'') sys
          (ensure (get_customer customer_id (auth_of sys) \<noteq> None) (HTTP 400 ''unknown customer'') sys
          (case create_product (cx_ids cx) (cx_now cx) name label customer_id (core_of sys) of
             (Inl _, db) \<Rightarrow> (Inl (HTTP 500 ''Internal Server Error''), on_core (\<lambda>_. db) sys)
           | (Inr (p, v), db) \<Rightarrow>
               (case library_for_version v cx (on_core (\<lambda>_. db) sys) of
                  (Inl e, sys1) \<Rightarrow> (Inl e, sys1)
                | (Inr _, sys1) \<Rightarrow>
                    (let sys2 = audit_now cx ''product.create'' ''product'' (p_id p) (Some (p_id p)) None
                                  (Some (JObj [(''name'', JStr name), (''customer_id'', JStr customer_id)])) sys1
                     in (Inr (p, version_payload sys2 v), sys2)))))))"

definition clone_source :: "string \<Rightarrow> string option \<Rightarrow> system \<Rightarrow> api_error + version" where
  "clone_source pid clone_from sys =
     (if or_empty clone_from \<noteq> [] then
        (case get_version (or_empty clone_from) (core_of sys) of
           None \<Rightarrow> Inl (HTTP 400 ''clone_from must reference a version of this product'')
         | Some v \<Rightarrow> if v_product_id v = pid then Inr v
                     else Inl (HTTP 400 ''clone_from must reference a version of this product''))
      else
        (case latest_for_product pid (core_of sys) of
           None \<Rightarrow> Inl (HTTP 500 ''product has no versions'') | Some v \<Rightarrow> Inr v))"

text \<open>Every carried-over binding is preprocessed again.\<close>

definition submit_carried_over :: "request_ctx \<Rightarrow> version \<Rightarrow> system \<Rightarrow> system" where
  "submit_carried_over cx ver sys =
     fold (\<lambda>(n, rc). submit_preprocess (cx_job cx n) (cx_now cx) (cx_attrs cx) (v_id ver) (r_id rc) (v_library_id ver)
             (b_selected_layers (r_binding rc)) None None)
       (enumerate 0 (list_by_version (v_id ver) (files_of sys))) sys"

definition create_version ::
  "request_ctx \<Rightarrow> string \<Rightarrow> string \<Rightarrow> string option \<Rightarrow> system \<Rightarrow> version_view reply" where
  "create_version cx pid raw_label clone_from sys =
     guarded editor_guard cx (product_route cx pid) sys
       (attempt (resolve_product pid sys) sys (\<lambda>_.
        ensure (py_strip raw_label \<noteq> []) (HTTP 422 ''label required'') sys
        (attempt (clone_source pid clone_from sys) sys (\<lambda>source.
         (case create_clone (cx_ids cx) (cx_now cx) pid (py_strip raw_label) source (core_of sys) of
            (Inl DuplicateLabel, db) \<Rightarrow> (Inl (HTTP 409 ''version label already exists''), on_core (\<lambda>_. db) sys)
          | (Inl _, db) \<Rightarrow> (Inl (HTTP 500 ''Internal Server Error''), on_core (\<lambda>_. db) sys)
          | (Inr ver, db) \<Rightarrow>
              (case library_for_version ver cx (on_core (\<lambda>_. db) sys) of
                 (Inl e, sys1) \<Rightarrow> (Inl e, sys1)
               | (Inr _, sys1) \<Rightarrow>
                   (let sys2 = submit_carried_over cx ver sys1 in (Inr (version_payload sys2 ver), sys2))))))))"

section \<open>Deletion\<close>

text \<open>The artifacts of the removed versions, version by version; an unreadable manifest raises.\<close>

fun delete_artifacts :: "(string \<times> string list) list \<Rightarrow> system \<Rightarrow> unit reply" where
  "delete_artifacts [] sys = (Inr (), sys)"
| "delete_artifacts ((vid, fids) # rest) sys =
     (case version_artifact_keys (sy_blobs sys) vid fids of
        Inl _ \<Rightarrow> (Inl (HTTP 500 ''Internal Server Error''), sys)
      | Inr keys \<Rightarrow> delete_artifacts rest (on_blobs (\<lambda>fs. snd (local_delete_many keys fs)) sys))"

definition delete_product_endpoint :: "request_ctx \<Rightarrow> string \<Rightarrow> system \<Rightarrow> nat reply" where
  "delete_product_endpoint cx pid sys =
     guarded admin_guard cx (product_route cx pid) sys
       (attempt (resolve_product pid sys) sys (\<lambda>_.
         (let sys1 = audit_now cx ''product.delete'' ''product'' pid (Some pid) None None sys;
              owned = map (\<lambda>v. (v_id v, map r_id (list_by_version (v_id v) (files_of sys1))))
                        (list_by_product pid (core_of sys1));
              removed = fst (delete_for_product pid (core_of sys1));
              sys2 = on_core (\<lambda>db. snd (delete_for_product pid db)) sys1
          in case delete_artifacts owned sys2 of
               (Inl e, sys3) \<Rightarrow> (Inl e, sys3)
             | (Inr _, sys3) \<Rightarrow>
                 (Inr (length removed), on_core (\<lambda>db. snd (delete_product_row pid db)) sys3))))"

section \<open>Sign-off\<close>

definition EVIDENCE_MAX_BYTES :: nat where
  "EVIDENCE_MAX_BYTES = 10 * 1024 * 1024"

definition bytes :: "nat list \<Rightarrow> string" where
  "bytes ns = map char_of ns"

definition sniff_image_type :: "string \<Rightarrow> string option" where
  "sniff_image_type data =
     (if py_starts_with (bytes [137, 80, 78, 71, 13, 10, 26, 10]) data then Some ''image/png''
      else if py_starts_with (bytes [255, 216, 255]) data then Some ''image/jpeg''
      else if take 4 data = ''RIFF'' \<and> take 4 (drop 8 data) = ''WEBP'' then Some ''image/webp''
      else None)"

text \<open>The name and type of an attached image; an empty part counts as not attached.\<close>

definition check_evidence :: "(string option \<times> string) option \<Rightarrow> api_error + (string \<times> string) option" where
  "check_evidence evidence =
     (case evidence of
        None \<Rightarrow> Inr None
      | Some (filename, data) \<Rightarrow>
          if EVIDENCE_MAX_BYTES < length data then Inl (HTTP 413 ''evidence over 10MB'')
          else if data = [] then Inr None
          else (case sniff_image_type data of
                  None \<Rightarrow> Inl (HTTP 415 ''evidence must be a PNG/JPEG/WebP image'')
                | Some t \<Rightarrow> Inr (Some (if or_empty filename = [] then ''evidence'' else or_empty filename, t))))"

definition sign_off_version ::
  "request_ctx \<Rightarrow> string \<Rightarrow> (string option \<times> string) option \<Rightarrow> system \<Rightarrow> version reply" where
  "sign_off_version cx vid evidence sys =
     guarded editor_guard cx (version_route cx vid) sys
       (attempt (resolve_version vid sys) sys (\<lambda>v0.
        attempt (check_evidence evidence) sys (\<lambda>image.
         (let sys1 = (case image of None \<Rightarrow> sys
                      | Some _ \<Rightarrow> on_blobs (local_put (cx_mtime cx) (sign_off_evidence_key vid) (Raw (snd (the evidence)))) sys)
          in case sign_off vid (i_userid (cx_ident cx)) (map_option fst image) (map_option snd image) (cx_now cx) (core_of sys1) of
               (Inl (SignedOff who since), db) \<Rightarrow>
                 (Inl (FrozenVersion who since), if image = None then sys1 else drop_blob (sign_off_evidence_key vid) sys1)
             | (Inl _, db) \<Rightarrow> (Inl (HTTP 500 ''Internal Server Error''), sys1)
             | (Inr v, db) \<Rightarrow>
                 (Inr v, audit_now cx ''version.sign_off'' ''version'' vid (Some (v_product_id v0)) (Some vid)
                           (Some (JObj [(''evidence'', json_opt (map_option fst image))])) (on_core (\<lambda>_. db) sys1))))))"

definition set_version_check_dam :: "request_ctx \<Rightarrow> string \<Rightarrow> bool \<Rightarrow> system \<Rightarrow> version reply" where
  "set_version_check_dam cx vid value sys =
     guarded editor_guard cx (version_route cx vid) sys
       (attempt (resolve_version vid sys) sys (\<lambda>v0.
         (case set_check_dam vid value (core_of sys) of
            (Inl (SignedOff who since), db) \<Rightarrow> (Inl (FrozenVersion who since), sys)
          | (Inl _, db) \<Rightarrow> (Inl (HTTP 500 ''Internal Server Error''), sys)
          | (Inr v, db) \<Rightarrow>
              (Inr v, audit_now cx ''version.set_check_dam'' ''version'' vid (Some (v_product_id v0)) (Some vid)
                        (Some (JObj [(''check_dam'', JBool value)])) (on_core (\<lambda>_. db) sys)))))"

definition get_sign_off_evidence :: "request_ctx \<Rightarrow> string \<Rightarrow> system \<Rightarrow> (blob \<times> string \<times> string) reply" where
  "get_sign_off_evidence cx vid sys =
     guarded viewer_guard cx (version_route cx vid) sys
       (attempt (resolve_version vid sys) sys (\<lambda>v.
        ensure (or_empty (v_evidence_name v) \<noteq> []) (HTTP 404 ''no sign-off evidence'') sys
        (case local_get (sign_off_evidence_key vid) (sy_blobs sys) of
           Inl _ \<Rightarrow> (Inl (HTTP 404 ''no sign-off evidence''), sys)
         | Inr b \<Rightarrow>
             (Inr (b, if or_empty (v_evidence_type v) = [] then ''application/octet-stream'' else or_empty (v_evidence_type v),
                   or_empty (v_evidence_name v)), sys))))"

definition unsign_version :: "request_ctx \<Rightarrow> string \<Rightarrow> system \<Rightarrow> version reply" where
  "unsign_version cx vid sys =
     guarded admin_guard cx (version_route cx vid) sys
       (attempt (resolve_version vid sys) sys (\<lambda>v0.
         (case unsign vid (core_of sys) of
            (Inl _, db) \<Rightarrow> (Inl (HTTP 500 ''Internal Server Error''), sys)
          | (Inr v, db) \<Rightarrow>
              (Inr v, audit_now cx ''version.unsign'' ''version'' vid (Some (v_product_id v0)) (Some vid) None
                        (drop_blob (sign_off_evidence_key vid) (on_core (\<lambda>_. db) sys))))))"

end
