(* ===== verification/LibraryApi.thy ===== *)
theory LibraryApi
  imports VersionApi
begin

text \<open>
  The endpoints of \<^verbatim>\<open>app/main.py\<close> on classes, templates and matching: strategies, template edits,
  the match preview, committing a template and the overlay scan.
\<close>

section \<open>Classes and templates\<close>

definition classes_by_version :: "request_ctx \<Rightarrow> string \<Rightarrow> system \<Rightarrow> class_summary list reply" where
  "classes_by_version cx vid sys =
     guarded viewer_guard cx (version_route cx vid) sys
       (attempt (resolve_version vid sys) sys (\<lambda>v.
          (case library_for_version v cx sys of
             (Inl e, sys1) \<Rightarrow> (Inl e, sys1) | (Inr l, sys1) \<Rightarrow> (Inr (lib_summary l), sys1))))"

definition SIGNATURE_DEFAULT_BBOX_RATIO :: real where
  "SIGNATURE_DEFAULT_BBOX_RATIO = 5 / 100"

text \<open>\<^verbatim>\<open>math.isfinite(val)\<close> and \<^verbatim>\<open>0 < val <= 1\<close> on a float.\<close>

fun ratio_in_range :: "pyfloat \<Rightarrow> real option" where
  "ratio_in_range (Fin x) = (if 0 < x \<and> x \<le> 1 then Some x else None)"
| "ratio_in_range _ = None"

definition check_strategy :: "string \<Rightarrow> pyfloat option \<Rightarrow> api_error + real option" where
  "check_strategy strategy ratio =
     (if strategy \<noteq> ''chamfer'' \<and> strategy \<noteq> ''signature''
      then Inl (HTTP 400 ''strategy must be chamfer or signature'')
      else if strategy = ''chamfer'' then Inr None
      else (case ratio of
              None \<Rightarrow> Inr (Some SIGNATURE_DEFAULT_BBOX_RATIO)
            | Some val \<Rightarrow>
                (case ratio_in_range val of
                   None \<Rightarrow> Inl (HTTP 400 ''bbox_ratio must be in (0, 1] or null'') | Some x \<Rightarrow> Inr (Some x))))"

definition strategy_detail :: "string \<Rightarrow> real option \<Rightarrow> json" where
  "strategy_detail strategy ratio = JObj [(''strategy'', JStr strategy), (''bbox_ratio'', json_maybe num ratio)]"

definition set_class_strategy ::
  "request_ctx \<Rightarrow> string \<Rightarrow> class_name \<Rightarrow> string \<Rightarrow> pyfloat option \<Rightarrow> system \<Rightarrow> (string \<times> real option) reply" where
  "set_class_strategy cx vid c strategy ratio sys =
     guarded editor_guard cx (version_route cx vid) sys
       (attempt (require_unsigned vid sys) sys (\<lambda>v.
        attempt (check_strategy strategy ratio) sys (\<lambda>bbox_ratio.
          (case library_for_version v cx sys of
             (Inl e, sys1) \<Rightarrow> (Inl e, sys1)
           | (Inr l, sys1) \<Rightarrow>
               (case set_strategy c strategy bbox_ratio (l, lib_of sys1) of
                  (False, _, _) \<Rightarrow> (Inl (HTTP 404 ''class not found''), sys1)
                | (True, _, db) \<Rightarrow>
                    (Inr (strategy, bbox_ratio),
                     audit_now cx ''class.strategy_change'' ''class'' c (Some (v_product_id v)) (Some vid)
                       (Some (strategy_detail strategy bbox_ratio)) (on_lib (\<lambda>_. db) sys1)))))))"

record template_view =
  tv_index :: nat
  tv_key :: string
  tv_entity_count :: nat
  tv_vertex_count :: nat
  tv_template :: template

definition template_view_of :: "class_name \<times> nat \<times> template \<Rightarrow> template_view" where
  "template_view_of = (\<lambda>(c, idx, t).
     \<lparr>tv_index = idx, tv_key = c @ ''.'' @ str_of_nat idx, tv_entity_count = length (t_point_sets t),
      tv_vertex_count = sum_list (map length (t_point_sets t)), tv_template = t\<rparr>)"

definition list_templates_for_version :: "request_ctx \<Rightarrow> string \<Rightarrow> system \<Rightarrow> template_view list reply" where
  "list_templates_for_version cx vid sys =
     guarded viewer_guard cx (version_route cx vid) sys
       (attempt (resolve_version vid sys) sys (\<lambda>v.
          (case library_for_version v cx sys of
             (Inl e, sys1) \<Rightarrow> (Inl e, sys1)
           | (Inr l, sys1) \<Rightarrow> (Inr (map template_view_of (all_templates l)), sys1))))"

text \<open>Every library is hydrated until the one with the template is found; \<^verbatim>\<open>list_summaries\<close> has
  hydrated all of them before.\<close>

fun find_owner_in :: "string \<Rightarrow> real \<Rightarrow> string list \<Rightarrow> lib_db \<Rightarrow> (api_error + library option) \<times> lib_db" where
  "find_owner_in tid now [] db = (Inr None, db)"
| "find_owner_in tid now (l # ls) db =
     (case registry_get l now db of
        (Inl _, db1) \<Rightarrow> (Inl (HTTP 500 ''Internal Server Error''), db1)
      | (Inr lb, db1) \<Rightarrow> if find_template tid lb \<noteq> None then (Inr (Some lb), db1) else find_owner_in tid now ls db1)"

definition find_template_owner :: "string \<Rightarrow> request_ctx \<Rightarrow> system \<Rightarrow> (library \<times> version option) reply" where
  "find_template_owner tid cx sys =
     (case list_summaries (cx_now cx) (lib_of sys) of
        (summaries, db) \<Rightarrow>
          (case find_owner_in tid (cx_now cx) (map lsu_id summaries) db of
             (Inl e, db1) \<Rightarrow> (Inl e, on_lib (\<lambda>_. db1) sys)
           | (Inr None, db1) \<Rightarrow> (Inl (HTTP 404 ''template not found''), on_lib (\<lambda>_. db1) sys)
           | (Inr (Some l), db1) \<Rightarrow>
               (Inr (l, get_by_library (l_id l) (core_of sys)), on_lib (\<lambda>_. db1) sys)))"

text \<open>The freeze check applies when a version owns the library.\<close>

definition owner_unsigned :: "version option \<Rightarrow> system \<Rightarrow> api_error + unit" where
  "owner_unsigned owner sys =
     (case owner of
        None \<Rightarrow> Inr ()
      | Some v \<Rightarrow> (case require_unsigned (v_id v) sys of Inl e \<Rightarrow> Inl e | Inr _ \<Rightarrow> Inr ()))"

definition template_guarded :: "request_ctx \<Rightarrow> string \<Rightarrow> system \<Rightarrow> 'b reply \<Rightarrow> 'b reply" where
  "template_guarded cx tid sys k =
     (case template_editor_guard (cx_dev cx) (cx_ident cx) tid (cx_now cx) (sy_server sys) of
        Inl e \<Rightarrow> (Inl (GuardFailed e), sys) | Inr _ \<Rightarrow> k)"

definition delete_template :: "request_ctx \<Rightarrow> string \<Rightarrow> system \<Rightarrow> string reply" where
  "delete_template cx tid sys =
     template_guarded cx tid sys
       (case find_template_owner tid cx sys of
          (Inl e, sys1) \<Rightarrow> (Inl e, sys1)
        | (Inr (l, owner), sys1) \<Rightarrow>
            attempt (owner_unsigned owner sys1) sys1 (\<lambda>_.
              (Inr (l_id l),
               audit_now cx ''template.delete'' ''template'' tid (map_option v_product_id owner) (map_option v_id owner) None
                 (on_lib (\<lambda>db. snd (snd (lib_delete_template tid (l, db)))) sys1))))"

definition known_class :: "real \<Rightarrow> class_name \<Rightarrow> library \<times> lib_db \<Rightarrow> library \<times> lib_db" where
  "known_class now c s = (if c \<in> cs_name ` set (lib_summary (fst s)) then s else lib_add_class now c s)"

definition patch_template :: "request_ctx \<Rightarrow> string \<Rightarrow> class_name \<Rightarrow> system \<Rightarrow> string reply" where
  "patch_template cx tid c sys =
     template_guarded cx tid sys
       (ensure (c \<noteq> []) (HTTP 400 ''class_name required'') sys
          (case find_template_owner tid cx sys of
             (Inl e, sys1) \<Rightarrow> (Inl e, sys1)
           | (Inr (l, owner), sys1) \<Rightarrow>
               attempt (owner_unsigned owner sys1) sys1 (\<lambda>_.
                 (Inr (l_id l),
                  audit_now cx ''template.modify'' ''template'' tid (map_option v_product_id owner) (map_option v_id owner)
                    (Some (JObj [(''moved_to'', JStr c)]))
                    (on_lib (\<lambda>db. snd (snd (move_template (cx_now cx) tid c (known_class (cx_now cx) c (l, db))))) sys1)))))"

section \<open>Matching\<close>

definition known_handles :: "handle list \<Rightarrow> (handle, 'a) dict \<Rightarrow> api_error + unit" where
  "known_handles hs d = (if set hs \<subseteq> fst ` set d then Inr () else Inl (HTTP 400 ''unknown handles''))"

text \<open>The strategy of the class hint, if there is one; hydrating the library seeds its defaults.\<close>

definition hinted_strategy :: "class_name option \<Rightarrow> version \<Rightarrow> request_ctx \<Rightarrow> system \<Rightarrow> match_config reply" where
  "hinted_strategy hint v cx sys =
     (if or_empty hint = [] then (Inr (''chamfer'', None), sys)
      else (case library_for_version v cx sys of
              (Inl e, sys1) \<Rightarrow> (Inl e, sys1) | (Inr l, sys1) \<Rightarrow> (Inr (strategy_of (or_empty hint) l), sys1)))"

definition match_endpoint ::
  "worker_env \<Rightarrow> request_ctx \<Rightarrow> string \<Rightarrow> string \<Rightarrow> handle list \<Rightarrow> class_name option \<Rightarrow> system \<Rightarrow> match_output reply" where
  "match_endpoint env cx vid fid hs hint sys =
     guarded editor_guard cx (file_route cx vid fid) sys
       (ensure (hs \<noteq> []) (HTTP 400 ''empty template'') sys
       (attempt (resolve_file vid fid sys) sys (\<lambda>_.
        attempt (resolve_version vid sys) sys (\<lambda>v.
        attempt (shapes_for (we_numerics env) vid fid sys) sys (\<lambda>(_, shapes).
        attempt (known_handles hs shapes) sys (\<lambda>_.
          (case hinted_strategy hint v cx sys of
             (Inl e, sys1) \<Rightarrow> (Inl e, sys1)
           | (Inr (strategy, ratio), sys1) \<Rightarrow>
               (case find_matches (we_numerics env) (tunables_of (cx_attrs cx)) (we_n_jobs env) hs shapes None strategy ratio of
                  Inl _ \<Rightarrow> (Inl (HTTP 500 ''Internal Server Error''), sys1)
                | Inr out \<Rightarrow> (Inr out, sys1)))))))))"

record committed =
  cm_template_id :: string
  cm_class :: class_name
  cm_count :: nat
  cm_existed :: bool

definition committed_template ::
  "request_ctx \<Rightarrow> class_name \<Rightarrow> handle list \<Rightarrow> primitive list \<Rightarrow> (handle, nat list) dict \<Rightarrow> library_error + template" where
  "committed_template cx c hs ps hi =
     template_from_entities (cx_row cx) c (map (collect_entity_points ps hi) hs)
       (Some (map (collect_entity_kinds ps hi) hs))"

text \<open>The class is added before the handles are checked, so a refused commit may leave it behind.\<close>

definition commit_endpoint ::
  "request_ctx \<Rightarrow> string \<Rightarrow> string \<Rightarrow> class_name \<Rightarrow> handle list \<Rightarrow> system \<Rightarrow> committed reply" where
  "commit_endpoint cx vid fid c hs sys =
     guarded editor_guard cx (file_route cx vid fid) sys
       (ensure (hs \<noteq> []) (HTTP 400 ''empty template'') sys
       (attempt (require_unsigned vid sys) sys (\<lambda>v.
        attempt (resolve_file vid fid sys) sys (\<lambda>_.
          (case library_for_version v cx sys of
             (Inl e, sys1) \<Rightarrow> (Inl e, sys1)
           | (Inr l0, sys1) \<Rightarrow>
               (case known_class (cx_now cx) c (l0, lib_of sys1) of
                  (l, db) \<Rightarrow>
                    (let sys2 = on_lib (\<lambda>_. db) sys1 in
                     attempt (parsed_for vid fid sys2) sys2 (\<lambda>_.
                     attempt (parsed_primitives vid fid sys2) sys2 (\<lambda>ps.
                     attempt (known_handles hs (build_handle_index ps)) sys2 (\<lambda>_.
                       (case committed_template cx c hs ps (build_handle_index ps) of
                          Inl _ \<Rightarrow> (Inl (HTTP 500 ''Internal Server Error''), sys2)
                        | Inr t \<Rightarrow>
                            (case add_template_for_file (cx_now cx) t (l, lib_of sys2) of
                               ((stored, existed), l', db') \<Rightarrow>
                                 (let sys3 = on_lib (\<lambda>_. db') sys2;
                                      sys4 = (if existed then sys3
                                              else audit_now cx ''template.add'' ''template'' (t_id stored)
                                                     (Some (v_product_id v)) (Some vid)
                                                     (Some (JObj [(''class_name'', JStr (t_class_name stored))])) sys3)
                                  in (Inr \<lparr>cm_template_id = t_id stored, cm_class = t_class_name stored,
                                          cm_count = lib_count (t_class_name stored) l', cm_existed = existed\<rparr>, sys4))))))))))))))"

section \<open>The overlay scan\<close>

definition overlay_template ::
  "worker_env \<Rightarrow> tunables \<Rightarrow> drawing \<Rightarrow> file_record \<Rightarrow> match_config \<Rightarrow> class_name \<Rightarrow> nat \<times> template \<Rightarrow> match_out
     \<Rightarrow> worker_error + match_out" where
  "overlay_template env tn drawing rc cfg c = (\<lambda>(idx, t) out.
     (case template_hits env tn drawing cfg t of
        Inl e \<Rightarrow> Inl e
      | Inr hits \<Rightarrow>
          Inr (merge_grouped
                 (fst (split_matches_by_side (base_match_key (class_json_key c) idx) hits
                         (\<lambda>h. map_option s_points (map_of drawing h))
                         (b_top_view_rect (r_binding rc)) (b_bottom_view_rect (r_binding rc))
                         (b_side_view_rect (r_binding rc)) c)) out)))"

definition overlay_class ::
  "worker_env \<Rightarrow> tunables \<Rightarrow> drawing \<Rightarrow> file_record \<Rightarrow> (class_name, match_config) dict
     \<Rightarrow> (class_name, template list) dict \<Rightarrow> class_name \<Rightarrow> match_out \<Rightarrow> worker_error + match_out" where
  "overlay_class env tn drawing rc cfgs ts c out =
     (if class_possible rc c
      then fold_err (overlay_template env tn drawing rc (class_config cfgs c) c) (enumerate 0 (dict_list ts c)) out
      else Inr out)"

definition overlay_scan ::
  "worker_env \<Rightarrow> tunables \<Rightarrow> drawing \<Rightarrow> file_record
     \<Rightarrow> class_name list \<times> (class_name, match_config) dict \<times> (class_name, template list) dict
     \<Rightarrow> worker_error + match_out" where
  "overlay_scan env tn drawing rc = (\<lambda>(classes, cfgs, ts). fold_err (overlay_class env tn drawing rc cfgs ts) classes [])"

definition scan_all ::
  "worker_env \<Rightarrow> request_ctx \<Rightarrow> string \<Rightarrow> string \<Rightarrow> system \<Rightarrow> (class_name, handle list) dict reply" where
  "scan_all env cx vid fid sys =
     guarded viewer_guard cx (file_route cx vid fid) sys
       (attempt (require_unsigned vid sys) sys (\<lambda>v.
        attempt (resolve_file vid fid sys) sys (\<lambda>rc.
        attempt (shapes_for (we_numerics env) vid fid sys) sys (\<lambda>(_, shapes).
          (case overlay_scan env (tunables_of (cx_attrs cx)) shapes rc (load_library (v_library_id v) (lib_of sys)) of
             Inl _ \<Rightarrow> (Inl (HTTP 500 ''Internal Server Error''), sys)
           | Inr out \<Rightarrow> (Inr (collapse out), sys))))))"

section \<open>The pre-match snapshot\<close>

definition warm_shapes :: "worker_env \<Rightarrow> request_ctx \<Rightarrow> string \<Rightarrow> string \<Rightarrow> system \<Rightarrow> nat reply" where
  "warm_shapes env cx vid fid sys =
     guarded viewer_guard cx (file_route cx vid fid) sys
       (attempt (resolve_file vid fid sys) sys (\<lambda>_.
        attempt (shapes_for (we_numerics env) vid fid sys) sys (\<lambda>(_, shapes). (Inr (length shapes), sys))))"

text \<open>The stamp of a snapshot counts as fresh only if it is the library's current revision.\<close>

definition prematch_stale :: "json \<Rightarrow> nat \<Rightarrow> bool" where
  "prematch_stale j current = (json_get ''library_revision'' j \<noteq> Some (JInt (int current)))"

definition set_field :: "string \<Rightarrow> json \<Rightarrow> json \<Rightarrow> json" where
  "set_field k v j = (case j of JObj d \<Rightarrow> JObj (AList.update k v d) | _ \<Rightarrow> j)"

definition prematch_endpoint :: "request_ctx \<Rightarrow> string \<Rightarrow> string \<Rightarrow> system \<Rightarrow> json reply" where
  "prematch_endpoint cx vid fid sys =
     guarded viewer_guard cx (file_route cx vid fid) sys
       (attempt (resolve_file vid fid sys) sys (\<lambda>_.
        attempt (resolve_version vid sys) sys (\<lambda>v.
          if \<not> blob_there (prematch_key vid fid) sys
          then (Inr (JObj [(''by_class'', JObj []), (''total'', JInt 0), (''stale'', JBool True)]), sys)
          else attempt (load_json_or_http (prematch_key vid fid) sys) sys (\<lambda>data.
                 (Inr (set_field ''stale'' (JBool (prematch_stale data (current_revision (v_library_id v) (lib_of sys)))) data),
                  sys)))))"

end
