(* ===== verification/CheckApi.thy ===== *)
theory CheckApi
  imports LibraryApi
begin

text \<open>
  The endpoints of \<^verbatim>\<open>app/main.py\<close> on Match JSON, rule checks, the handoff bundle and the developer
  tools.
\<close>

section \<open>Match JSON\<close>

definition save_match_json :: "request_ctx \<Rightarrow> string \<Rightarrow> string \<Rightarrow> system \<Rightarrow> string reply" where
  "save_match_json cx vid fid sys =
     guarded editor_guard cx (file_route cx vid fid) sys
       (attempt (require_unsigned vid sys) sys (\<lambda>_.
        attempt (resolve_file vid fid sys) sys (\<lambda>_.
        ensure (blob_there (parsed_key vid fid) sys) (HTTP 500 ''parsed file missing on disk'') sys
          (Inr (cx_job cx 0), submit_save_match (cx_job cx 0) (cx_now cx) vid fid sys))))"

definition get_match_json :: "request_ctx \<Rightarrow> string \<Rightarrow> string \<Rightarrow> system \<Rightarrow> json reply" where
  "get_match_json cx vid fid sys =
     guarded viewer_guard cx (file_route cx vid fid) sys
       (attempt (resolve_file vid fid sys) sys (\<lambda>_.
        ensure (blob_there (match_key vid fid) sys) (HTTP 404 ''match JSON not yet generated'') sys
        (attempt (load_json_or_http (match_key vid fid) sys) sys (\<lambda>j. (Inr j, sys)))))"

section \<open>Rule checks\<close>

definition role_bound :: "string \<Rightarrow> system \<Rightarrow> file_record list" where
  "role_bound vid sys = filter (\<lambda>f. b_role (r_binding f) \<noteq> []) (list_by_version vid (files_of sys))"

text \<open>The precondition shared with the bundle: files bound, and Match JSON saved for each of them.\<close>

definition all_saved :: "file_record list \<Rightarrow> api_error + unit" where
  "all_saved fs =
     (if fs = [] then Inl (HTTP 400 ''no DXFs uploaded to this version yet'')
      else if list_ex (\<lambda>f. \<not> b_match_saved (r_binding f)) fs
      then Inl (HTTP 400 (''these roles still need Save Match: '' @
             join_on '', '' (sort (map (b_role \<circ> r_binding) (filter (\<lambda>f. \<not> b_match_saved (r_binding f)) fs)))))
      else Inr ())"

fun inputs_on_disk :: "string \<Rightarrow> file_record list \<Rightarrow> system \<Rightarrow> api_error + unit" where
  "inputs_on_disk vid [] sys = Inr ()"
| "inputs_on_disk vid (f # fs) sys =
     (if \<not> blob_there (match_key vid (r_id f)) sys then Inl (HTTP 400 ''Match JSON missing'')
      else if \<not> blob_there (upload_key (r_id f)) sys then Inl (HTTP 500 ''source DXF missing'')
      else inputs_on_disk vid fs sys)"

definition run_rule_check :: "request_ctx \<Rightarrow> string \<Rightarrow> system \<Rightarrow> string reply" where
  "run_rule_check cx vid sys =
     guarded editor_guard cx (version_route cx vid) sys
       (attempt (require_unsigned vid sys) sys (\<lambda>v.
        attempt (all_saved (role_bound vid sys)) sys (\<lambda>_.
        attempt (inputs_on_disk vid (role_bound vid sys) sys) sys (\<lambda>_.
          (Inr (cx_job cx 0),
           submit_rule_check (cx_job cx 0) (cx_now cx) (v_product_id v) vid (map r_id (role_bound vid sys)) sys)))))"

text \<open>The JSON of a request or of a blob as the Python value the validator reads.\<close>

fun pyobj_of_json :: "json \<Rightarrow> pyobj" where
  "pyobj_of_json JNull = PNone"
| "pyobj_of_json (JBool b) = PBool b"
| "pyobj_of_json (JInt n) = PInt n"
| "pyobj_of_json (JFloat x) = PFloat x"
| "pyobj_of_json (JStr s) = PStr s"
| "pyobj_of_json (JList js) = PList (map pyobj_of_json js)"
| "pyobj_of_json (JObj d) = PDict (map (\<lambda>(k, v). (PStr k, pyobj_of_json v)) d)"

definition valid_results :: "json \<Rightarrow> api_error + pyobj" where
  "valid_results j =
     (case validate_envelope (pyobj_of_json j) of
        Inr _ \<Rightarrow> Inr (pyobj_of_json j)
      | Inl (OutputError _) \<Rightarrow> Inl (HTTP 400 ''rule-check JSON failed envelope validation'')
      | Inl _ \<Rightarrow> Inl (HTTP 500 ''Internal Server Error''))"

record check_summary =
  ck_results :: pyobj
  ck_rule_count :: nat
  ck_pass_count :: nat
  ck_fail_count :: int

definition check_summary_of :: "pyobj \<Rightarrow> check_summary" where
  "check_summary_of r =
     (let n = length (rule_rows r); n_pass = length (filter passes (rule_rows r))
      in \<lparr>ck_results = r, ck_rule_count = n, ck_pass_count = n_pass, ck_fail_count = int n - int n_pass\<rparr>)"

definition get_rule_check :: "request_ctx \<Rightarrow> string \<Rightarrow> system \<Rightarrow> (string \<times> check_summary) reply" where
  "get_rule_check cx vid sys =
     guarded viewer_guard cx (version_route cx vid) sys
       (attempt (resolve_version vid sys) sys (\<lambda>v.
        ensure (blob_there (rule_check_key vid) sys) (HTTP 404 ''rule check not yet run'') sys
        (attempt (load_json_or_http (rule_check_key vid) sys) sys (\<lambda>j.
         attempt (valid_results j) sys (\<lambda>r. (Inr (v_product_id v, check_summary_of r), sys))))))"

text \<open>\<^verbatim>\<open>body\<close> is None when the request's bytes are not JSON.\<close>

definition upload_rule_check :: "request_ctx \<Rightarrow> string \<Rightarrow> json option \<Rightarrow> system \<Rightarrow> check_summary reply" where
  "upload_rule_check cx vid body sys =
     guarded editor_guard cx (version_route cx vid) sys
       (attempt (require_unsigned vid sys) sys (\<lambda>_.
          (case body of
             None \<Rightarrow> (Inl (HTTP 400 ''invalid JSON''), sys)
           | Some payload \<Rightarrow>
               attempt (valid_results payload) sys (\<lambda>r.
                 (Inr (check_summary_of r), on_blobs (local_put_json (cx_mtime cx) (rule_check_key vid) payload) sys)))))"

section \<open>The handoff bundle\<close>

definition bundle_customer :: "product \<Rightarrow> system \<Rightarrow> string option" where
  "bundle_customer p sys =
     (case get_customer (p_customer_id p) (auth_of sys) of
        None \<Rightarrow> None | Some c \<Rightarrow> if c_name c = [] then None else Some (c_name c))"

definition get_drc_bundle ::
  "request_ctx \<Rightarrow> string \<Rightarrow> string \<Rightarrow> system \<Rightarrow> ((string \<times> blob) list \<times> string) reply" where
  "get_drc_bundle cx exported_at vid sys =
     guarded viewer_guard cx (version_route cx vid) sys
       (attempt (resolve_version vid sys) sys (\<lambda>v.
          (case get_product (v_product_id v) (core_of sys) of
             None \<Rightarrow> (Inl (HTTP 500 ''owning product missing''), sys)
           | Some p \<Rightarrow>
               attempt (all_saved (role_bound vid sys)) sys (\<lambda>_.
                 (case build_bundle p v (role_bound vid sys) (bundle_customer p sys) exported_at (sy_blobs sys) of
                    Inl _ \<Rightarrow> (Inl (HTTP 500 ''Internal Server Error''), sys)
                  | Inr bundle \<Rightarrow> (Inr bundle, sys))))))"

section \<open>Developer tools\<close>

definition require_dev_tools :: "string \<Rightarrow> api_error + unit" where
  "require_dev_tools env = (if env = ''0'' then Inl (HTTP 404 ''dev tools disabled'') else Inr ())"

definition dev_settings_get :: "string \<Rightarrow> request_ctx \<Rightarrow> system \<Rightarrow> entry_state list reply" where
  "dev_settings_get env cx sys =
     guarded admin_guard cx (plain_route cx) sys
       (attempt (require_dev_tools env) sys (\<lambda>_. (Inr (read_state (cx_attrs cx)), sys)))"

definition dev_reprocess_all :: "string \<Rightarrow> request_ctx \<Rightarrow> system \<Rightarrow> string reply" where
  "dev_reprocess_all env cx sys =
     guarded admin_guard cx (plain_route cx) sys
       (attempt (require_dev_tools env) sys (\<lambda>_.
          (Inr (cx_job cx 0),
           submit_reprocess_all (cx_job cx 0) (\<lambda>n. cx_job cx (Suc n)) (cx_now cx) ''reprocess-all'' (cx_attrs cx) sys)))"

end
