(* ===== verification/AdminApi.thy ===== *)
theory AdminApi
  imports CheckApi
begin

text \<open>
  The endpoints of \<^verbatim>\<open>app/main.py\<close> on customers, grants, the audit log and the edit lock, and the startup
  checks of its configuration and of the guards of its routes.
\<close>

section \<open>Customers\<close>

definition create_customer_endpoint :: "request_ctx \<Rightarrow> string \<Rightarrow> system \<Rightarrow> (string \<times> string) reply" where
  "create_customer_endpoint cx raw_name sys =
     guarded admin_guard cx (plain_route cx) sys
       (let name = py_strip raw_name in
        ensure (name \<noteq> []) (HTTP 400 ''name required'') sys
          (case create_customer (cx_row cx) (cx_now cx) name (i_userid (cx_ident cx)) (auth_of sys) of
             (Inr cid, db) \<Rightarrow> (Inr (cid, name), on_auth (\<lambda>_. db) sys)
           | (Inl (IntegrityError _), db) \<Rightarrow> (Inl (HTTP 409 ''customer name exists''), sys)
           | (Inl (GrantError e), db) \<Rightarrow> (Inl (HTTP 400 e), sys)))"

definition delete_customer_endpoint :: "request_ctx \<Rightarrow> string \<Rightarrow> system \<Rightarrow> string reply" where
  "delete_customer_endpoint cx customer_id sys =
     guarded admin_guard cx \<lparr>path_params = [(''customer_id'', customer_id)], query_params = cx_query cx\<rparr> sys
       (ensure (customer_id \<noteq> SEED_CUSTOMER_ID) (HTTP 400 ''the seed customer cannot be deleted'') sys
       (ensure (\<not> list_ex (\<lambda>p. p_customer_id p = customer_id) (list_products (core_of sys)))
          (HTTP 409 ''customer still has products'') sys
          (case delete_customer (cx_now cx) customer_id (i_userid (cx_ident cx)) (auth_of sys) of
             (Inl _, db) \<Rightarrow> (Inl (HTTP 400 ''the seed customer cannot be deleted''), sys)
           | (Inr gone, db) \<Rightarrow>
               ensure gone (HTTP 404 ''customer not found'') (on_auth (\<lambda>_. db) sys)
                 (Inr customer_id, on_auth (\<lambda>_. db) sys))))"

section \<open>Grants and audit\<close>

record grants_view =
  gv_grants :: "grant list"
  gv_deptids :: "string list"
  gv_users :: "(string \<times> string) list"

text \<open>The filter applies when both parts are given; an unknown grantee type matches no row.\<close>

definition filtered_grants :: "string option \<Rightarrow> string option \<Rightarrow> auth_db \<Rightarrow> grant list" where
  "filtered_grants gt gid db =
     (case (gt, gid) of
        (Some t, Some i) \<Rightarrow> (case parse_grantee_type t of None \<Rightarrow> [] | Some ty \<Rightarrow> list_grants (Some (ty, i)) db)
      | _ \<Rightarrow> list_grants None db)"

definition list_grants_endpoint :: "request_ctx \<Rightarrow> string option \<Rightarrow> string option \<Rightarrow> system \<Rightarrow> grants_view reply" where
  "list_grants_endpoint cx gt gid sys =
     guarded admin_guard cx (plain_route cx) sys
       (Inr \<lparr>gv_grants = filtered_grants gt gid (auth_of sys), gv_deptids = known_deptids (auth_of sys),
             gv_users = known_users (auth_of sys)\<rparr>, sys)"

record grant_request =
  gr_grantee_type :: string
  gr_grantee_id :: string
  gr_role :: string
  gr_scope_type :: string
  gr_scope_id :: string

text \<open>The scope of a grant must exist.\<close>

definition scope_exists :: "grant_request \<Rightarrow> system \<Rightarrow> api_error + unit" where
  "scope_exists rq sys =
     (if gr_scope_type rq = ''customer'' \<and> get_customer (gr_scope_id rq) (auth_of sys) = None
      then Inl (HTTP 400 ''unknown customer'')
      else if gr_scope_type rq = ''product'' \<and> get_product (gr_scope_id rq) (core_of sys) = None
      then Inl (HTTP 400 ''unknown product'') else Inr ())"

definition create_grant_endpoint :: "request_ctx \<Rightarrow> grant_request \<Rightarrow> system \<Rightarrow> grant reply" where
  "create_grant_endpoint cx rq sys =
     guarded admin_guard cx (plain_route cx) sys
       (attempt (scope_exists rq sys) sys (\<lambda>_.
          (case add_grant (cx_row cx) (cx_now cx) (gr_grantee_type rq) (py_strip (gr_grantee_id rq)) (gr_role rq)
                  (gr_scope_type rq) (gr_scope_id rq) (i_userid (cx_ident cx)) (auth_of sys) of
             (Inr g, db) \<Rightarrow> (Inr g, on_auth (\<lambda>_. db) sys)
           | (Inl (GrantError e), db) \<Rightarrow> (Inl (HTTP 400 e), sys)
           | (Inl _, db) \<Rightarrow> (Inl (HTTP 500 ''Internal Server Error''), sys))))"

definition revoke_grant_endpoint :: "request_ctx \<Rightarrow> string \<Rightarrow> system \<Rightarrow> string reply" where
  "revoke_grant_endpoint cx grant_id sys =
     guarded admin_guard cx \<lparr>path_params = [(''grant_id'', grant_id)], query_params = cx_query cx\<rparr> sys
       (case revoke_grant (cx_now cx) grant_id (i_userid (cx_ident cx)) (auth_of sys) of
          (gone, db) \<Rightarrow>
            ensure gone (HTTP 404 ''grant not found'') (on_auth (\<lambda>_. db) sys) (Inr grant_id, on_auth (\<lambda>_. db) sys))"

text \<open>The limit is applied before the filters.\<close>

definition given :: "string option \<Rightarrow> ('a \<Rightarrow> bool) \<Rightarrow> 'a list \<Rightarrow> 'a list" where
  "given x P rows = (if or_empty x = [] then rows else filter P rows)"

definition list_audit_endpoint ::
  "request_ctx \<Rightarrow> int \<Rightarrow> string option \<Rightarrow> string option \<Rightarrow> string option \<Rightarrow> system \<Rightarrow> audit_row list reply" where
  "list_audit_endpoint cx limit product_id actor action sys =
     guarded admin_guard cx (plain_route cx) sys
       (Inr (given action (\<lambda>e. Some (a_action e) = action)
              (given actor (\<lambda>e. Some (a_actor e) = actor)
                (given product_id (\<lambda>e. a_product_id e = product_id)
                  (list_audit (min limit 500) (auth_of sys))))), sys)"

section \<open>The edit lock\<close>

definition lock_status_endpoint :: "request_ctx \<Rightarrow> string \<Rightarrow> system \<Rightarrow> string option reply" where
  "lock_status_endpoint cx pid sys =
     guarded viewer_guard cx (product_route cx pid) sys (Inr (lock_holder pid (cx_now cx) (auth_of sys)), sys)"

definition acquire_lock_endpoint :: "request_ctx \<Rightarrow> string \<Rightarrow> system \<Rightarrow> string reply" where
  "acquire_lock_endpoint cx pid sys =
     guarded editor_guard_nolock cx (product_route cx pid) sys
       (attempt (resolve_product pid sys) sys (\<lambda>_.
          (case acquire_lock pid (i_userid (cx_ident cx)) (cx_now cx) (auth_of sys) of
             (st, db) \<Rightarrow>
               if ls_acquired st then (Inr (i_userid (cx_ident cx)), on_auth (\<lambda>_. db) sys)
               else (Inl (LockOccupied (ls_held_by st) (ls_heartbeat_at st)), on_auth (\<lambda>_. db) sys))))"

definition heartbeat_lock_endpoint :: "request_ctx \<Rightarrow> string \<Rightarrow> system \<Rightarrow> unit reply" where
  "heartbeat_lock_endpoint cx pid sys =
     guarded editor_guard_nolock cx (product_route cx pid) sys
       (case heartbeat_lock pid (i_userid (cx_ident cx)) (cx_now cx) (auth_of sys) of
          (ok, db) \<Rightarrow> ensure ok (HTTP 409 ''lock not held by you'') (on_auth (\<lambda>_. db) sys) (Inr (), on_auth (\<lambda>_. db) sys))"

definition release_lock_endpoint :: "request_ctx \<Rightarrow> string \<Rightarrow> bool \<Rightarrow> system \<Rightarrow> bool reply" where
  "release_lock_endpoint cx pid force sys =
     (if force then
        ensure (product_role (cx_dev cx) (cx_ident cx) None (sy_server sys) = Some Admin)
          (HTTP 403 ''force release is admin-only'') sys
          (Inr True, on_auth (\<lambda>db. snd (release_lock True (cx_now cx) pid (i_userid (cx_ident cx)) db)) sys)
      else
        (case release_lock False (cx_now cx) pid (i_userid (cx_ident cx)) (auth_of sys) of
           (released, db) \<Rightarrow> (Inr released, on_auth (\<lambda>_. db) sys)))"

section \<open>Startup\<close>

type_synonym environ = "string \<Rightarrow> string option"

definition missing_of :: "environ \<Rightarrow> string list \<Rightarrow> string list" where
  "missing_of env vars = filter (\<lambda>var. or_empty (env var) = []) vars"

definition missing_config :: "environ \<Rightarrow> string list" where
  "missing_config env =
     (if (case env ''SMDR2_AUTH_MODE'' of None \<Rightarrow> ''bypass'' | Some m \<Rightarrow> m) \<noteq> ''bypass''
      then missing_of env [''SESSION_SECRET'', ''OIDC_ISSUER'', ''OIDC_CLIENT_ID'', ''OIDC_CLIENT_SECRET'', ''OIDC_REDIRECT_URI'']
      else []) @
     (if or_empty (env ''S3_ENDPOINT_URL'') \<noteq> []
      then missing_of env [''S3_BUCKET'', ''S3_ACCESS_KEY_ID'', ''S3_SECRET_ACCESS_KEY''] else [])"

definition validate_startup_config :: "environ \<Rightarrow> string list + unit" where
  "validate_startup_config env = (if missing_config env = [] then Inr () else Inl (missing_config env))"

text \<open>\<^verbatim>\<open>_assert_api_routes_guarded\<close>: the paths of the routes with the names of the functions they
  depend on.\<close>

definition guard_functions :: "string list" where
  "guard_functions = [''viewer_guard'', ''editor_guard'', ''editor_guard_nolock'', ''admin_guard'', ''job_viewer_guard'',
     ''template_editor_guard'', ''current_identity'']"

definition unguarded_routes :: "(string \<times> string list) list \<Rightarrow> string list" where
  "unguarded_routes routes =
     map fst (filter (\<lambda>(path, deps). py_starts_with ''/api'' path \<and> path \<noteq> ''/api/me'' \<and>
        set deps \<inter> set guard_functions = {}) routes)"

definition assert_api_routes_guarded :: "(string \<times> string list) list \<Rightarrow> string list + unit" where
  "assert_api_routes_guarded routes =
     (if unguarded_routes routes = [] then Inr () else Inl (sort (remdups (unguarded_routes routes))))"

end
