(* ===== verification/Freeze.thy ===== *)
theory Freeze
  imports AdminApi
begin

text \<open>
  The freeze of a signed version as the HTTP interface gives it.  A request names an endpoint with its
  arguments; \<^verbatim>\<open>serve\<close> runs its handler.  What a version shows to a reviewer is its row, its bindings and
  the blobs it owns; a system is compared with another by these parts alone.
\<close>

section \<open>Requests\<close>

datatype request =
    Upload string upload
  | DeleteFile string string
  | UnitOverride string string string
  | SideRegions string string "rect option" "rect option" "rect option"
  | ConfirmLayers string string "string list"
  | DiscoverLayers string string
  | ConfirmLayout string string string
  | NewProduct string string string
  | NewVersion string string "string option"
  | DeleteProduct string
  | SignOffVersion string "(string option \<times> string) option"
  | CheckDam string bool
  | UnsignVersion string
  | ListClasses string
  | ListTemplates string
  | SetStrategy string class_name string "pyfloat option"
  | DeleteTemplate string
  | MoveTemplate string class_name
  | Match string string "handle list" "class_name option"
  | Commit string string class_name "handle list"
  | SaveMatch string string
  | RunRuleCheck string
  | UploadRuleCheck string "json option"
  | ReprocessAll string
  | NewCustomer string
  | DeleteCustomer string
  | NewGrant grant_request
  | RevokeGrant string
  | AcquireLock string
  | HeartbeatLock string
  | ReleaseLock string bool

text \<open>The system a request leaves behind; the hash of the upload and the environment of the matcher are
  arguments.\<close>

fun serve :: "(string \<Rightarrow> string) \<Rightarrow> worker_env \<Rightarrow> request_ctx \<Rightarrow> request \<Rightarrow> system \<Rightarrow> system" where
  "serve sha env cx (Upload vid up) sys = snd (upload_version_file sha cx vid up sys)"
| "serve sha env cx (DeleteFile vid fid) sys = snd (delete_version_file cx vid fid sys)"
| "serve sha env cx (UnitOverride vid fid unit) sys = snd (post_unit_override cx vid fid unit sys)"
| "serve sha env cx (SideRegions vid fid t b s) sys = snd (patch_side_regions cx vid fid t b s sys)"
| "serve sha env cx (ConfirmLayers vid fid ls) sys = snd (confirm_layers cx vid fid ls sys)"
| "serve sha env cx (DiscoverLayers vid fid) sys = snd (trigger_discover_layers cx vid fid sys)"
| "serve sha env cx (ConfirmLayout vid fid name) sys = snd (confirm_layout cx vid fid name sys)"
| "serve sha env cx (NewProduct name label cust) sys = snd (create_product_endpoint cx name label cust sys)"
| "serve sha env cx (NewVersion pid label src) sys = snd (create_version cx pid label src sys)"
| "serve sha env cx (DeleteProduct pid) sys = snd (delete_product_endpoint cx pid sys)"
| "serve sha env cx (SignOffVersion vid ev) sys = snd (sign_off_version cx vid ev sys)"
| "serve sha env cx (CheckDam vid val) sys = snd (set_version_check_dam cx vid val sys)"
| "serve sha env cx (UnsignVersion vid) sys = snd (unsign_version cx vid sys)"
| "serve sha env cx (ListClasses vid) sys = snd (classes_by_version cx vid sys)"
| "serve sha env cx (ListTemplates vid) sys = snd (list_templates_for_version cx vid sys)"
| "serve sha env cx (SetStrategy vid c st r) sys = snd (set_class_strategy cx vid c st r sys)"
| "serve sha env cx (DeleteTemplate tid) sys = snd (delete_template cx tid sys)"
| "serve sha env cx (MoveTemplate tid c) sys = snd (patch_template cx tid c sys)"
| "serve sha env cx (Match vid fid hs hint) sys = snd (match_endpoint env cx vid fid hs hint sys)"
| "serve sha env cx (Commit vid fid c hs) sys = snd (commit_endpoint cx vid fid c hs sys)"
| "serve sha env cx (SaveMatch vid fid) sys = snd (save_match_json cx vid fid sys)"
| "serve sha env cx (RunRuleCheck vid) sys = snd (run_rule_check cx vid sys)"
| "serve sha env cx (UploadRuleCheck vid body) sys = snd (upload_rule_check cx vid body sys)"
| "serve sha env cx (ReprocessAll tools) sys = snd (dev_reprocess_all tools cx sys)"
| "serve sha env cx (NewCustomer name) sys = snd (create_customer_endpoint cx name sys)"
| "serve sha env cx (DeleteCustomer cid) sys = snd (delete_customer_endpoint cx cid sys)"
| "serve sha env cx (NewGrant rq) sys = snd (create_grant_endpoint cx rq sys)"
| "serve sha env cx (RevokeGrant gid) sys = snd (revoke_grant_endpoint cx gid sys)"
| "serve sha env cx (AcquireLock pid) sys = snd (acquire_lock_endpoint cx pid sys)"
| "serve sha env cx (HeartbeatLock pid) sys = snd (heartbeat_lock_endpoint cx pid sys)"
| "serve sha env cx (ReleaseLock pid force) sys = snd (release_lock_endpoint cx pid force sys)"

definition serve_all ::
  "(string \<Rightarrow> string) \<Rightarrow> worker_env \<Rightarrow> (request_ctx \<times> request) list \<Rightarrow> system \<Rightarrow> system" where
  "serve_all sha env rs sys = fold (\<lambda>(cx, rq). serve sha env cx rq) rs sys"

section \<open>What a reviewer sees\<close>

definition bindings_of :: "string \<Rightarrow> core_db \<Rightarrow> binding list" where
  "bindings_of vid db = filter (\<lambda>b. b_version_id b = vid) (version_files (fdb db))"

definition same_rows :: "string \<Rightarrow> core_db \<Rightarrow> core_db \<Rightarrow> bool" where
  "same_rows vid db db' \<longleftrightarrow> get_version vid db' = get_version vid db \<and> bindings_of vid db' = bindings_of vid db"

definition same_blobs :: "string \<Rightarrow> local_files \<Rightarrow> local_files \<Rightarrow> bool" where
  "same_blobs vid fs fs' \<longleftrightarrow> (\<forall>k. key_segments k \<in> owned_segments vid \<longrightarrow> local_get k fs' = local_get k fs)"

text \<open>Version ids are unique and have no separator: the path and key of each is its own.\<close>

definition ids_ok :: "core_db \<Rightarrow> bool" where
  "ids_ok db \<longleftrightarrow> distinct (map v_id (versions db)) \<and> (\<forall>v\<in>set (versions db). CHR ''/'' \<notin> set (v_id v))"

definition spares :: "string \<Rightarrow> system \<Rightarrow> system \<Rightarrow> bool" where
  "spares vid sys sys' \<longleftrightarrow>
     same_rows vid (core_of sys) (core_of sys') \<and> same_blobs vid (sy_blobs sys) (sy_blobs sys') \<and> ids_ok (core_of sys')"

named_theorems spare "steps of a handler that spare a version"

lemma spares_refl: "ids_ok (core_of sys) \<Longrightarrow> spares vid sys sys"
  by (simp add: spares_def same_rows_def same_blobs_def)

lemma spares_trans: "spares vid a b \<Longrightarrow> spares vid b c \<Longrightarrow> spares vid a c"
  by (simp add: spares_def same_rows_def same_blobs_def)

text \<open>Early returns.\<close>

lemma spares_attempt [spare]:
  "spares vid s0 sys \<Longrightarrow> (\<And>x. r = Inr x \<Longrightarrow> spares vid s0 (snd (k x))) \<Longrightarrow> spares vid s0 (snd (attempt r sys k))"
  by (cases r) simp_all

lemma spares_ensure [spare]:
  "spares vid s0 sys \<Longrightarrow> (ok \<Longrightarrow> spares vid s0 (snd k)) \<Longrightarrow> spares vid s0 (snd (ensure ok e sys k))"
  by (cases ok) simp_all

lemma spares_guarded [spare]:
  "spares vid s0 sys \<Longrightarrow> spares vid s0 (snd k) \<Longrightarrow> spares vid s0 (snd (guarded g cx rq sys k))"
  by (simp add: guarded_def split: sum.splits)

lemma spares_template_guarded [spare]:
  "spares vid s0 sys \<Longrightarrow> spares vid s0 (snd k) \<Longrightarrow> spares vid s0 (snd (template_guarded cx tid sys k))"
  by (simp add: template_guarded_def split: sum.splits)

lemma spares_cases [spare]:
  "(\<And>r s1. p = (r, s1) \<Longrightarrow> spares vid s0 (snd (f r s1))) \<Longrightarrow> spares vid s0 (snd (case p of (r, s1) \<Rightarrow> f r s1))"
  "(\<And>e. q = Inl e \<Longrightarrow> spares vid s0 (snd (g e))) \<Longrightarrow> (\<And>x. q = Inr x \<Longrightarrow> spares vid s0 (snd (h x))) \<Longrightarrow>
     spares vid s0 (snd (case q of Inl e \<Rightarrow> g e | Inr x \<Rightarrow> h x))"
  "(o' = None \<Longrightarrow> spares vid s0 (snd k)) \<Longrightarrow> (\<And>x. o' = Some x \<Longrightarrow> spares vid s0 (snd (l x))) \<Longrightarrow>
     spares vid s0 (snd (case o' of None \<Rightarrow> k | Some x \<Rightarrow> l x))"
  "spares vid s0 s1 \<Longrightarrow> spares vid s0 (snd (y, s1))"
  "(c \<Longrightarrow> spares vid s0 s1) \<Longrightarrow> (\<not> c \<Longrightarrow> spares vid s0 s2) \<Longrightarrow> spares vid s0 (if c then s1 else s2)"
  "(c \<Longrightarrow> spares vid s0 (snd u)) \<Longrightarrow> (\<not> c \<Longrightarrow> spares vid s0 (snd w)) \<Longrightarrow> spares vid s0 (snd (if c then u else w))"
  by (auto split: prod.splits sum.splits option.splits)

text \<open>Updates of the other parts of the system.\<close>

lemma spares_jobs [spare]: "spares vid s0 sys \<Longrightarrow> spares vid s0 (on_jobs f sys)"
  by (simp add: spares_def core_of_def on_jobs_def)

lemma spares_auth [spare]: "spares vid s0 sys \<Longrightarrow> spares vid s0 (on_auth f sys)"
  by (simp add: spares_def core_of_def on_auth_def)

lemma same_rows_lib [simp]: "same_rows vid db (db'\<lparr>lib := l\<rparr>) = same_rows vid db db'"
  by (simp add: same_rows_def get_version_def bindings_of_def)

lemma ids_ok_lib [simp]: "ids_ok (db\<lparr>lib := l\<rparr>) = ids_ok db" "ids_ok (db\<lparr>fdb := f\<rparr>) = ids_ok db"
  by (simp_all add: ids_ok_def)

lemma spares_lib [spare]: "spares vid s0 sys \<Longrightarrow> spares vid s0 (on_lib f sys)"
  by (simp add: spares_def core_of_def on_lib_def on_core_def)

lemma spares_submit [spare]: "spares vid s0 sys \<Longrightarrow> spares vid s0 (submit j now rq sys)"
  by (simp add: submit_def spares_jobs)

lemma spares_submits [spare]:
  "spares vid s0 sys \<Longrightarrow> spares vid s0 (submit_preprocess j now at' v f l ls u n sys)"
  "spares vid s0 sys \<Longrightarrow> spares vid s0 (submit_discover_layers j now v f n sys)"
  "spares vid s0 sys \<Longrightarrow> spares vid s0 (submit_save_match j now v f sys)"
  "spares vid s0 sys \<Longrightarrow> spares vid s0 (submit_rule_check j now p v fids sys)"
  by (simp_all add: submit_preprocess_def submit_discover_layers_def submit_save_match_def submit_rule_check_def Let_def spares_submit)

lemma spares_audit [spare]: "spares vid s0 sys \<Longrightarrow> spares vid s0 (audit_now cx a tt ti p v d sys)"
  by (simp add: audit_now_def spares_auth)

lemma spares_library:
  "library_for_version v cx sys = (r, sys') \<Longrightarrow> spares vid s0 sys \<Longrightarrow> spares vid s0 sys'"
  by (auto simp: library_for_version_def split: prod.splits sum.splits intro: spares_lib)

lemma spares_files:
  assumes "spares vid s0 sys"
    "filter (\<lambda>b. b_version_id b = vid) (version_files (f (files_of sys))) = filter (\<lambda>b. b_version_id b = vid) (version_files (files_of sys))"
  shows "spares vid s0 (on_files f sys)"
  using assms by (simp add: spares_def core_of_def on_files_def files_of_def same_rows_def get_version_def bindings_of_def)

lemma filter_sql_update_other:
  "(\<And>r. P r \<Longrightarrow> \<not> Q r \<and> \<not> Q (f r)) \<Longrightarrow> filter Q (sql_update P f t) = filter Q t"
  by (induction t) simp_all

lemma filter_sql_delete_other: "(\<And>r. P r \<Longrightarrow> \<not> Q r) \<Longrightarrow> filter Q (sql_delete P t) = filter Q t"
  unfolding sql_delete_def by (induction t) auto

lemma filter_update_other:
  "vid' \<noteq> vid \<Longrightarrow> (\<And>b. b_version_id (f b) = b_version_id b) \<Longrightarrow>
   filter (\<lambda>b. b_version_id b = vid) (version_files (update_binding vid' fid f db)) =
   filter (\<lambda>b. b_version_id b = vid) (version_files db)"
  unfolding update_binding_def by (simp, rule filter_sql_update_other) (auto simp: binding_key_def)

lemma spares_bindings [spare]:
  assumes "vid' \<noteq> vid" "spares vid s0 sys"
  shows "spares vid s0 (on_files (bind_file vid' role fid view st now) sys)"
    "spares vid s0 (on_files (\<lambda>db. snd (unbind_file vid' fid db)) sys)"
    "spares vid s0 (on_files (register_content i n sz now) sys)"
    "spares vid s0 (on_files (update_selected_layers vid' fid ls) sys)"
    "spares vid s0 (on_files (update_side_regions vid' fid tv bv sv) sys)"
    "spares vid s0 (on_files (set_user_unit_override vid' fid u) sys)"
    "spares vid s0 (on_files (set_chosen_layout vid' fid lay) sys)"
    "spares vid s0 (on_files (set_match_saved vid' fid saved) sys)"
    "spares vid s0 (on_files (update_status vid' fid st err) sys)"
proof -
  show "spares vid s0 (on_files (bind_file vid' role fid view st now) sys)"
    using assms(1) by (intro spares_files[OF assms(2)])
      (auto simp: bind_file_def new_binding_def binding_key_def intro: filter_sql_delete_other)
  show "spares vid s0 (on_files (\<lambda>db. snd (unbind_file vid' fid db)) sys)"
    using assms(1) by (intro spares_files[OF assms(2)])
      (auto simp: unbind_file_def Let_def binding_key_def intro: filter_sql_delete_other)
  show "spares vid s0 (on_files (register_content i n sz now) sys)"
    by (intro spares_files[OF assms(2)]) (simp add: register_content_def)
qed (use assms(1) in \<open>auto simp: binding_updates intro!: spares_files[OF assms(2)] filter_update_other\<close>)

section \<open>Blobs\<close>

text \<open>A blob of another version, or an upload, is none of the version's.\<close>

lemma other_key:
  assumes "vid' \<noteq> vid" "key_segments k \<in> owned_segments vid'" shows "key_segments k \<notin> owned_segments vid"
  using owned_segments_disjoint[OF assms(1)] assms(2) by blast

lemma spares_blobs:
  assumes "\<And>k fs. key_segments k \<in> owned_segments vid \<Longrightarrow> local_get k (f fs) = local_get k fs" "spares vid s0 sys"
  shows "spares vid s0 (on_blobs f sys)"
  using assms(2) by (simp add: spares_def same_blobs_def core_of_def on_blobs_def assms(1))

lemma spares_put [spare]:
  assumes "key_segments k \<notin> owned_segments vid" "spares vid s0 sys"
  shows "spares vid s0 (on_blobs (local_put now k b) sys)" "spares vid s0 (on_blobs (local_put_json now k j) sys)"
  using assms by (auto simp: local_put_json_def local.get_content local.content_put intro!: spares_blobs)

lemma spares_remove:
  assumes "\<And>k. k \<in> set ks \<Longrightarrow> key_segments k \<notin> owned_segments vid" "spares vid s0 sys"
  shows "spares vid s0 (on_blobs (\<lambda>fs. snd (local_delete_many ks fs)) sys)"
proof (rule spares_blobs[OF _ assms(2)])
  show "local_get k (snd (local_delete_many ks fs)) = local_get k fs" if "key_segments k \<in> owned_segments vid" for k fs
    using that assms(1) local.get_remove[of k ks fs] by (auto simp: local_remove_def)
qed

lemma spares_drop [spare]:
  assumes "key_segments k \<notin> owned_segments vid" "spares vid s0 sys"
  shows "spares vid s0 (drop_blob k sys)"
  unfolding drop_blob_def
proof (rule spares_blobs[OF _ assms(2)])
  show "local_get k' (snd (local_delete k fs)) = local_get k' fs" if "key_segments k' \<in> owned_segments vid" for k' fs
    using that assms(1) local.content_del[of k fs] by (auto simp: local.get_content local_del_def)
qed

text \<open>A request that finds another version can write to its keys.\<close>

lemma known_version:
  "ids_ok db \<Longrightarrow> get_version vid db = Some v \<Longrightarrow> v_id v = vid \<and> CHR ''/'' \<notin> set vid"
  using row_by_SomeD[of v_id vid "versions db" v] by (auto simp: ids_ok_def get_version_def)

lemma known_keys:
  assumes "ids_ok db" "get_version vid' db = Some v" "vid' \<noteq> vid"
  shows "key_segments (match_key vid' f) \<notin> owned_segments vid"
    "key_segments (rule_check_key vid') \<notin> owned_segments vid"
    "key_segments (sign_off_evidence_key vid') \<notin> owned_segments vid"
proof -
  note k = key_segments_of[OF conjunct2[OF known_version[OF assms(1,2)]]]
  show "key_segments (match_key vid' f) \<notin> owned_segments vid" by (rule other_key[OF assms(3) k(3)])
  show "key_segments (rule_check_key vid') \<notin> owned_segments vid" by (rule other_key[OF assms(3) k(9)])
  show "key_segments (sign_off_evidence_key vid') \<notin> owned_segments vid" by (rule other_key[OF assms(3) k(10)])
qed

section \<open>The handlers\<close>

text \<open>Only another version passes the freeze check.\<close>

definition signed :: "string \<Rightarrow> core_db \<Rightarrow> bool" where
  "signed vid db \<longleftrightarrow> ids_ok db \<and> (\<exists>v. get_version vid db = Some v \<and> is_signed_off v)"

lemma signed_ids: "signed vid db \<Longrightarrow> ids_ok db"
  by (simp add: signed_def)

lemma unsigned_other:
  assumes "signed vid (core_of sys)" "require_unsigned vid' sys = Inr w"
  shows "get_version vid' (core_of sys) = Some w" "vid' \<noteq> vid"
  using assms by (auto simp: require_unsigned_def resolve_version_def signed_def is_signed_off_def split: option.splits sum.splits)

lemma resolved_version: "resolve_version vid' sys = Inr w \<Longrightarrow> get_version vid' (core_of sys) = Some w"
  by (simp add: resolve_version_def split: option.splits)

lemma unsigned_keys:
  assumes "signed vid (core_of sys)" "require_unsigned vid' sys = Inr w"
  shows "key_segments (match_key vid' f) \<notin> owned_segments vid" "key_segments (rule_check_key vid') \<notin> owned_segments vid"
  using known_keys[OF signed_ids[OF assms(1)] unsigned_other[OF assms]] by simp_all

lemma spares_evict:
  assumes "vid' \<noteq> vid" "key_segments (match_key vid' (or_empty old)) \<notin> owned_segments vid" "spares vid s0 sys"
  shows "evict_binding vid' role old sys = (r, sys') \<Longrightarrow> spares vid s0 sys'"
  using assms unfolding evict_binding_def Let_def
  by (auto simp: ensure_def split: if_splits option.splits intro!: spare)

lemma spares_store_upload:
  assumes "v_id w \<noteq> vid" "spares vid s0 sys"
  shows "spares vid s0 (snd (store_upload sha cx w up sys))"
  unfolding store_upload_def Let_def using assms upload_not_owned by (auto intro!: spare)

lemma spares_unit_submit:
  assumes "vid' \<noteq> vid" "spares vid s0 sys"
  shows "submit_unit_override_preprocess j now at' vid' fid u sys = (r, sys') \<Longrightarrow> spares vid s0 sys'"
  using assms unfolding submit_unit_override_preprocess_def Let_def
  by (auto split: option.splits sum.splits intro!: spare)

lemma file_handlers_spare:
  assumes "signed vid (core_of sys)"
  shows "spares vid sys (snd (upload_version_file sha cx vid' up sys))"
    "spares vid sys (snd (delete_version_file cx vid' fid sys))"
    "spares vid sys (snd (post_unit_override cx vid' fid unit sys))"
    "spares vid sys (snd (patch_side_regions cx vid' fid t b s sys))"
    "spares vid sys (snd (confirm_layers cx vid' fid ls sys))"
    "spares vid sys (snd (trigger_discover_layers cx vid' fid sys))"
    "spares vid sys (snd (confirm_layout cx vid' fid name sys))"
proof -
  note r = spares_refl[OF signed_ids[OF assms]]
  note o = unsigned_other[OF assms] unsigned_keys[OF assms]
  have id: "v_id w \<noteq> vid" if "require_unsigned vid' sys = Inr w" for w
    using known_version[OF signed_ids[OF assms] o(1)[OF that]] o(2)[OF that] by simp
  show "spares vid sys (snd (upload_version_file sha cx vid' up sys))"
    unfolding upload_version_file_def
    by (intro spare r spares_store_upload) ((erule id | erule spares_evict[OF o(2,3) r, rotated 2]; assumption)+)
  show "spares vid sys (snd (delete_version_file cx vid' fid sys))"
    unfolding delete_version_file_def by (intro spare r) (erule o)+
  show "spares vid sys (snd (post_unit_override cx vid' fid unit sys))"
    unfolding post_unit_override_def
    by (intro spare r) (erule spares_unit_submit[OF o(2) r, rotated], assumption)+
  show "spares vid sys (snd (patch_side_regions cx vid' fid t b s sys))"
    unfolding patch_side_regions_def Let_def by (intro spare r) (erule o)+
  show "spares vid sys (snd (confirm_layers cx vid' fid ls sys))"
    unfolding confirm_layers_def Let_def by (intro spare r) (erule o)+
  show "spares vid sys (snd (trigger_discover_layers cx vid' fid sys))"
    unfolding trigger_discover_layers_def by (intro spare r) (erule o)+
  show "spares vid sys (snd (confirm_layout cx vid' fid name sys))"
    unfolding confirm_layout_def Let_def by (intro spare r) (erule o)+
qed

subsection \<open>Version rows\<close>

definition keeps_rows :: "string \<Rightarrow> core_db \<Rightarrow> core_db \<Rightarrow> bool" where
  "keeps_rows vid db db' \<longleftrightarrow> same_rows vid db db' \<and> ids_ok db'"

lemma spares_core [spare]:
  "spares vid s0 sys \<Longrightarrow> keeps_rows vid (core_of sys) db \<Longrightarrow> spares vid s0 (on_core (\<lambda>_. db) sys)"
  by (simp add: spares_def keeps_rows_def core_of_def on_core_def same_rows_def)

lemma keeps_rows_trans: "keeps_rows vid a b \<Longrightarrow> keeps_rows vid b c \<Longrightarrow> keeps_rows vid a c"
  by (simp add: keeps_rows_def same_rows_def)

lemma keeps_insert:
  assumes "signed vid db" "insert_version_locked nv lid now pid label db = Inr (w, db')" "CHR ''/'' \<notin> set nv"
  shows "keeps_rows vid db db'" "v_id w \<noteq> vid"
proof -
  note I = insert_version_Inr[OF assms(2)]
  obtain v where v: "get_version vid db = Some v" and ids: "ids_ok db" using assms(1) by (auto simp: signed_def)
  have "nv \<noteq> vid" using I row_by_SomeD[OF v[unfolded get_version_def]] by auto
  then show "v_id w \<noteq> vid" using I by simp
  have "versions db' = versions db @ [w]" "fdb db' = fdb db" "v_id w = nv" "nv \<notin> v_id ` set (versions db)" using I by simp_all
  then show "keeps_rows vid db db'" using v ids assms(3)
    by (simp add: keeps_rows_def same_rows_def get_version_def row_by_snoc bindings_of_def ids_ok_def)
qed

lemma keeps_update_other:
  assumes "ids_ok db" "vid' \<noteq> vid" "\<And>v. v_id (f v) = v_id v"
  shows "keeps_rows vid db (update_version vid' f db)"
proof -
  have "map v_id (sql_update (\<lambda>v. v_id v = vid') f (versions db)) = map v_id (versions db)"
    by (rule map_sql_update) (simp add: assms(3))
  moreover have "get_version vid (update_version vid' f db) = get_version vid db"
    using assms(2) by (cases "get_version vid db")
      (auto simp: get_version_def update_version_def row_by_update_same assms(3) dest: row_by_SomeD)
  ultimately show ?thesis using assms(1)
    by (auto simp: keeps_rows_def same_rows_def ids_ok_def update_version_def bindings_of_def ball_sql_update assms(3))
qed

lemma keeps_delete_rows:
  assumes "ids_ok db" "v_id x \<noteq> vid"
  shows "keeps_rows vid db (delete_version_rows x db)"
proof -
  have "filter (\<lambda>b. b_version_id b = vid) (sql_delete (\<lambda>b. b_version_id b = v_id x) t) = filter (\<lambda>b. b_version_id b = vid) t" for t
    using assms(2) by (intro filter_sql_delete_other) auto
  moreover have "row_by v_id vid (sql_delete (\<lambda>w. v_id w = v_id x) (versions db)) = row_by v_id vid (versions db)"
    using assms by (auto simp: row_by_delete ids_ok_def split: option.splits dest: row_by_SomeD)
  ultimately show ?thesis using assms(1)
    by (auto simp: keeps_rows_def same_rows_def ids_ok_def delete_version_rows_def get_version_def bindings_of_def
        sql_delete_def distinct_map_filter)
qed

lemma keeps_delete_for_product:
  assumes "signed vid db" "get_version vid db = Some v" "v_product_id v \<noteq> pid"
  shows "keeps_rows vid db (snd (delete_for_product pid db))"
proof -
  have u: "v_id x \<noteq> vid" if "x \<in> set (list_by_product pid db)" for x
  proof
    assume "v_id x = vid"
    then have "row_by v_id vid (versions db) = Some x"
      using that signed_ids[OF assms(1)] row_by_unique[of v_id "versions db" x] by (auto simp: list_by_product_def ids_ok_def)
    then show False using assms(2,3) that by (auto simp: get_version_def list_by_product_def)
  qed
  have "keeps_rows vid db0 (fold delete_version_rows xs db0)" if "ids_ok db0" "\<forall>x\<in>set xs. v_id x \<noteq> vid" for xs db0
    using that
  proof (induction xs arbitrary: db0)
    case Nil then show ?case by (simp add: keeps_rows_def same_rows_def)
  next
    case (Cons x xs)
    have k: "keeps_rows vid db0 (delete_version_rows x db0)" using Cons.prems by (intro keeps_delete_rows) simp_all
    then have "ids_ok (delete_version_rows x db0)" by (simp add: keeps_rows_def)
    then show ?case using keeps_rows_trans[OF k Cons.IH] Cons.prems(2) by simp
  qed
  then show ?thesis using u signed_ids[OF assms(1)] by (simp add: delete_for_product_def Let_def)
qed

lemma keeps_same: "ids_ok db \<Longrightarrow> keeps_rows vid db db"
  by (simp add: keeps_rows_def same_rows_def)

lemma keeps_transaction:
  assumes "ids_ok db" "y = in_transaction body db" "y = (r, db')"
    "\<And>x. y = (Inr x, db') \<Longrightarrow> keeps_rows vid db db'"
  shows "keeps_rows vid db db'"
proof (cases r)
  case (Inl e)
  have "in_transaction body db = (Inl e, db')" using assms(2,3) Inl by simp
  then have "db' = db" using in_transaction_Inl[of body db e] by simp
  then show ?thesis using keeps_same[OF assms(1)] by simp
qed (use assms(3,4) in simp)

lemma keeps_ops:
  assumes "signed vid db" "CHR ''/'' \<notin> set (fi_version ids)"
  shows "create_product ids now name label cust db = (r, db') \<Longrightarrow> keeps_rows vid db db'"
    "create_clone ids now pid label src db = (q, db') \<Longrightarrow> keeps_rows vid db db'"
proof -
  note i = signed_ids[OF assms(1)]
  show "keeps_rows vid db db'" if "create_product ids now name label cust db = (r, db')"
  proof (rule keeps_transaction[OF i fun_cong[OF create_product_def] that])
    fix x assume "create_product ids now name label cust db = (Inr x, db')"
    then obtain pd p w where w: "insert_version_locked (fi_version ids) (fi_library ids) now pd (py_strip label)
        (db\<lparr>products := products db @ [p]\<rparr>) = Inr (w, db')"
      by (auto simp: create_product_def in_transaction_Inr Let_def split: if_split_asm sum.splits prod.splits)
    have "signed vid (db\<lparr>products := products db @ [p]\<rparr>)"
      using assms(1) by (simp add: signed_def ids_ok_def get_version_def)
    from keeps_insert(1)[OF this w assms(2)] show "keeps_rows vid db db'"
      by (simp add: keeps_rows_def same_rows_def get_version_def bindings_of_def)
  qed
  show "keeps_rows vid db db'" if "create_clone ids now pid label src db = (q, db')"
  proof (rule keeps_transaction[OF i fun_cong[OF create_clone_def] that])
    fix x assume "create_clone ids now pid label src db = (Inr x, db')"
    then obtain db1 where 1: "insert_version_locked (fi_version ids) (fi_library ids) now pid (py_strip label) db = Inr (x, db1)"
      and 2: "db' = db1\<lparr>lib := copy_templates (fi_template ids) (v_library_id src) (v_library_id x)
         (copy_classes (v_library_id src) (v_library_id x) (lib db1)),
        fdb := copy_bindings (v_id src) (v_id x) now (fdb db1)\<rparr>" by (rule create_clone_Inr)
    have "bindings_of vid db' = bindings_of vid db1"
      using keeps_insert(2)[OF assms(1) 1 assms(2)]
      by (auto simp: 2 bindings_of_def copy_bindings_def cloned_binding_def filter_empty_conv)
    then show "keeps_rows vid db db'" using keeps_insert(1)[OF assms(1) 1 assms(2)]
      by (simp add: keeps_rows_def same_rows_def get_version_def 2)
  qed
qed

lemma keeps_sign_off:
  assumes "signed vid db"
  shows "sign_off vid' who en et now db = (r, db') \<Longrightarrow> keeps_rows vid db db'"
    "set_check_dam vid' val db = (r, db') \<Longrightarrow> keeps_rows vid db db'"
    "unsign vid' db = (r, db') \<Longrightarrow> vid' \<noteq> vid \<Longrightarrow> keeps_rows vid db db'"
proof -
  note i = signed_ids[OF assms]
  have u: "vid' \<noteq> vid" if "\<exists>row. get_version vid' db = Some row \<and> v_signed_off_by row = None"
    using that assms by (auto simp: signed_def is_signed_off_def)
  show "keeps_rows vid db db'" if "sign_off vid' who en et now db = (r, db')"
  proof (rule keeps_transaction[OF i fun_cong[OF sign_off_def] that])
    fix x assume "sign_off vid' who en et now db = (Inr x, db')"
    from sign_off_Inr[OF this] u show "keeps_rows vid db db'" by (auto intro!: keeps_update_other[OF i])
  qed
  show "keeps_rows vid db db'" if "set_check_dam vid' val db = (r, db')"
  proof (rule keeps_transaction[OF i fun_cong[OF set_check_dam_def] that])
    fix x assume "set_check_dam vid' val db = (Inr x, db')"
    from set_check_dam_Inr[OF this] u show "keeps_rows vid db db'" by (auto intro!: keeps_update_other[OF i])
  qed
  show "keeps_rows vid db db'" if "unsign vid' db = (r, db')" "vid' \<noteq> vid"
  proof (rule keeps_transaction[OF i fun_cong[OF unsign_def] that(1)])
    fix x assume "unsign vid' db = (Inr x, db')"
    from unsign_Inr[OF this] that(2) show "keeps_rows vid db db'" by (auto intro!: keeps_update_other[OF i])
  qed
qed

subsection \<open>Handlers on versions and libraries\<close>

lemma spares_carried_over:
  "spares vid s0 sys \<Longrightarrow> spares vid s0 (submit_carried_over cx ver sys)"
proof -
  have "spares vid s0 (fold (\<lambda>(n, rc). submit_preprocess (cx_job cx n) (cx_now cx) (cx_attrs cx) (v_id ver) (r_id rc)
      (v_library_id ver) (b_selected_layers (r_binding rc)) None None) xs sys')" if "spares vid s0 sys'" for xs sys'
    using that by (induction xs arbitrary: sys') (auto intro: spare)
  then show "spares vid s0 sys \<Longrightarrow> ?thesis" by (simp add: submit_carried_over_def)
qed

lemma spares_delete_artifacts:
  assumes "\<forall>(v, fids)\<in>set owned. v \<noteq> vid \<and> CHR ''/'' \<notin> set v" "spares vid s0 sys"
  shows "spares vid s0 (snd (delete_artifacts owned sys))"
  using assms
proof (induction owned arbitrary: sys)
  case (Cons p owned)
  obtain v fids where p: "p = (v, fids)" by (cases p)
  then have v: "v \<noteq> vid" "CHR ''/'' \<notin> set v" using Cons.prems(1) by auto
  show ?case
  proof (cases "version_artifact_keys (sy_blobs sys) v fids")
    case (Inr ks)
    have "key_segments k \<notin> owned_segments vid" if "k \<in> set ks" for k
      using other_key[OF v(1)] version_artifact_keys_owned[OF v(2) Inr that] by blast
    then have "spares vid s0 (on_blobs (\<lambda>fs. snd (local_delete_many ks fs)) sys)"
      using Cons.prems(2) by (intro spares_remove)
    then show ?thesis using Cons p Inr by simp
  qed (simp add: p Cons.prems(2))
qed simp

lemma delete_product_spares:
  assumes "signed vid (core_of sys)" "get_version vid (core_of sys) = Some v" "v_product_id v \<noteq> pid"
  shows "spares vid sys (snd (delete_product_endpoint cx pid sys))"
proof -
  let ?s1 = "audit_now cx ''product.delete'' ''product'' pid (Some pid) None None sys"
  let ?owned = "map (\<lambda>v. (v_id v, map r_id (list_by_version (v_id v) (files_of ?s1)))) (list_by_product pid (core_of ?s1))"
  have c: "core_of ?s1 = core_of sys" by (simp add: audit_now_def on_auth_def core_of_def)
  note i = signed_ids[OF assms(1)]
  have "v_id x \<noteq> vid" if "x \<in> set (versions (core_of sys))" "v_product_id x = pid" for x
    using that assms(2,3) i row_by_unique[of v_id "versions (core_of sys)" x] by (auto simp: ids_ok_def get_version_def)
  then have o: "\<forall>(v, fids)\<in>set ?owned. v \<noteq> vid \<and> CHR ''/'' \<notin> set v"
    using i by (auto simp: c list_by_product_def ids_ok_def)
  have k: "keeps_rows vid (core_of ?s1) (snd (delete_for_product pid (core_of ?s1)))"
    unfolding c by (rule keeps_delete_for_product[OF assms])
  have s1: "spares vid sys ?s1" by (intro spare spares_refl i)
  let ?s2 = "on_core (\<lambda>db. snd (delete_for_product pid db)) ?s1"
  have "?s2 = on_core (\<lambda>_. snd (delete_for_product pid (core_of ?s1))) ?s1" by (simp add: on_core_def)
  then have s2: "spares vid sys ?s2" using spares_core[OF s1 k] by simp
  have row: "spares vid sys (on_core (\<lambda>db. snd (delete_product_row pid db)) s3)" if "spares vid sys s3" for s3
    using that by (simp add: spares_def core_of_def on_core_def delete_product_row_def same_rows_def get_version_def
        bindings_of_def ids_ok_def)
  have "spares vid sys (snd (delete_artifacts ?owned ?s2))" by (rule spares_delete_artifacts[OF o s2])
  then have "spares vid sys (snd (case delete_artifacts ?owned ?s2 of (Inl e, sys3) \<Rightarrow> (Inl e, sys3)
      | (Inr _, sys3) \<Rightarrow> (Inr (length (fst (delete_for_product pid (core_of ?s1)))),
           on_core (\<lambda>db. snd (delete_product_row pid db)) sys3)))"
    by (auto split: prod.splits sum.splits intro: row)
  then show ?thesis unfolding delete_product_endpoint_def Let_def
    by (intro spares_guarded spares_attempt spares_refl i)
qed

lemma version_handlers_spare:
  assumes "signed vid (core_of sys)" "CHR ''/'' \<notin> set (fi_version (cx_ids cx))"
  shows "spares vid sys (snd (create_product_endpoint cx name label cust sys))"
    "spares vid sys (snd (create_version cx pid label src sys))"
    "vid' \<noteq> vid \<or> ev = None \<Longrightarrow> spares vid sys (snd (sign_off_version cx vid' ev sys))"
    "spares vid sys (snd (set_version_check_dam cx vid' val sys))"
    "vid' \<noteq> vid \<Longrightarrow> spares vid sys (snd (unsign_version cx vid' sys))"
proof -
  note i = signed_ids[OF assms(1)]
  note r = spares_refl[OF i]
  note keep = keeps_ops[OF assms] keeps_sign_off[OF assms(1)]
  have key: "key_segments (sign_off_evidence_key vid') \<notin> owned_segments vid"
    if "resolve_version vid' sys = Inr w" "vid' \<noteq> vid" for w
    using known_keys(3)[OF i resolved_version[OF that(1)] that(2)] .
  have c: "core_of (on_blobs f sys) = core_of sys" for f by (simp add: core_of_def on_blobs_def)
  show "spares vid sys (snd (create_product_endpoint cx name label cust sys))"
    unfolding create_product_endpoint_def Let_def
    by (intro spare r) (auto intro!: r spare dest!: keep(1) spares_library)
  show "spares vid sys (snd (create_version cx pid label src sys))"
    unfolding create_version_def Let_def
    by (intro spare r) (auto intro!: r spare spares_carried_over dest!: keep(2) spares_library split: version_error.splits)
  show "spares vid sys (snd (sign_off_version cx vid' ev sys))" if n: "vid' \<noteq> vid \<or> ev = None"
  proof -
    let ?s1 = "\<lambda>image :: (string \<times> string) option. case image of None \<Rightarrow> sys
        | Some _ \<Rightarrow> on_blobs (local_put (cx_mtime cx) (sign_off_evidence_key vid') (Raw (snd (the ev)))) sys"
    have key': "key_segments (sign_off_evidence_key vid') \<notin> owned_segments vid"
      if "resolve_version vid' sys = Inr w" "check_evidence ev = Inr (Some p)" for w p
      using n that(2) key[OF that(1)] by (auto simp: check_evidence_def)
    have s1: "spares vid sys (?s1 image)" "core_of (?s1 image) = core_of sys"
      if "resolve_version vid' sys = Inr w" "check_evidence ev = Inr image" for w image
      using that key' by (auto simp: c split: option.splits intro!: r spare)
    show ?thesis unfolding sign_off_version_def Let_def
      by (intro spare r) (use n in
        \<open>auto simp: s1(2) c dest!: keep(3) dest: key' intro!: r s1(1) spare split: version_error.splits option.splits\<close>)
  qed
  show "spares vid sys (snd (set_version_check_dam cx vid' val sys))"
    unfolding set_version_check_dam_def
    by (intro spare r) (auto intro!: r spare dest!: keep(4) split: version_error.splits)
  show "spares vid sys (snd (unsign_version cx vid' sys))" if "vid' \<noteq> vid"
    unfolding unsign_version_def
    by (intro spare r) (use that in \<open>auto intro!: r spare dest!: keep(5) dest: key\<close>)
qed

lemma spares_owner: "spares vid s0 sys \<Longrightarrow> find_template_owner tid cx sys = (r, sys') \<Longrightarrow> spares vid s0 sys'"
  by (auto simp: find_template_owner_def split: prod.splits sum.splits option.splits intro: spares_lib)

lemma spares_hint: "spares vid s0 sys \<Longrightarrow> hinted_strategy hint v cx sys = (r, sys') \<Longrightarrow> spares vid s0 sys'"
  by (auto simp: hinted_strategy_def split: if_splits prod.splits sum.splits dest: spares_library)

lemma library_handlers_spare:
  assumes "signed vid (core_of sys)"
  shows "spares vid sys (snd (classes_by_version cx vid' sys))"
    "spares vid sys (snd (list_templates_for_version cx vid' sys))"
    "spares vid sys (snd (set_class_strategy cx vid' c st ra sys))"
    "spares vid sys (snd (delete_template cx tid sys))"
    "spares vid sys (snd (patch_template cx tid c sys))"
    "spares vid sys (snd (match_endpoint env cx vid' fid hs hint sys))"
    "spares vid sys (snd (commit_endpoint cx vid' fid c hs sys))"
proof -
  note r = spares_refl[OF signed_ids[OF assms]]
  note lib = spares_library[OF _ r] spares_owner[OF r] spares_hint[OF r]
  show "spares vid sys (snd (classes_by_version cx vid' sys))"
    unfolding classes_by_version_def by (intro spare r) (erule lib)+
  show "spares vid sys (snd (list_templates_for_version cx vid' sys))"
    unfolding list_templates_for_version_def by (intro spare r) (erule lib)+
  show "spares vid sys (snd (set_class_strategy cx vid' c st ra sys))"
    unfolding set_class_strategy_def by (intro spare r) (auto intro!: spare dest: lib split: bool.splits)
  show "spares vid sys (snd (delete_template cx tid sys))"
    unfolding delete_template_def by (intro spare r) (erule lib)+
  show "spares vid sys (snd (patch_template cx tid c sys))"
    unfolding patch_template_def by (intro spare r) (erule lib)+
  show "spares vid sys (snd (match_endpoint env cx vid' fid hs hint sys))"
    unfolding match_endpoint_def by (intro spare r) (auto dest: lib split: sum.splits)
  show "spares vid sys (snd (commit_endpoint cx vid' fid c hs sys))"
    unfolding commit_endpoint_def Let_def by (intro spare r) (erule lib)+
qed

lemma check_handlers_spare:
  assumes "signed vid (core_of sys)"
  shows "spares vid sys (snd (save_match_json cx vid' fid sys))"
    "spares vid sys (snd (run_rule_check cx vid' sys))"
    "spares vid sys (snd (upload_rule_check cx vid' body sys))"
    "spares vid sys (snd (dev_reprocess_all tools cx sys))"
    "spares vid sys (snd (create_customer_endpoint cx name sys))"
    "spares vid sys (snd (delete_customer_endpoint cx cid sys))"
    "spares vid sys (snd (create_grant_endpoint cx rq sys))"
    "spares vid sys (snd (revoke_grant_endpoint cx gid sys))"
    "spares vid sys (snd (acquire_lock_endpoint cx pid sys))"
    "spares vid sys (snd (heartbeat_lock_endpoint cx pid sys))"
    "spares vid sys (snd (release_lock_endpoint cx pid force sys))"
proof -
  note r = spares_refl[OF signed_ids[OF assms]]
  note o = unsigned_keys[OF assms]
  have many: "spares vid s0 (fold (\<lambda>(n, x). submit (j n) now (q x)) xs sys')" if "spares vid s0 sys'" for s0 sys' j now q and xs :: "(nat \<times> file_record) list"
    using that by (induction xs arbitrary: sys') (auto intro: spare)
  show "spares vid sys (snd (save_match_json cx vid' fid sys))"
    unfolding save_match_json_def by (intro spare r)
  show "spares vid sys (snd (run_rule_check cx vid' sys))"
    unfolding run_rule_check_def by (intro spare r)
  show "spares vid sys (snd (upload_rule_check cx vid' body sys))"
    unfolding upload_rule_check_def by (intro spare r) (erule o)+
  show "spares vid sys (snd (dev_reprocess_all tools cx sys))"
    unfolding dev_reprocess_all_def submit_reprocess_all_def Let_def by (intro spare r many)
  show "spares vid sys (snd (create_customer_endpoint cx name sys))"
    unfolding create_customer_endpoint_def Let_def by (intro spare r) (auto intro!: spare r split: auth_error.splits)
  show "spares vid sys (snd (delete_customer_endpoint cx cid sys))"
    unfolding delete_customer_endpoint_def by (intro spare r)
  show "spares vid sys (snd (create_grant_endpoint cx rq sys))"
    unfolding create_grant_endpoint_def by (intro spare r) (auto intro!: spare r split: auth_error.splits)
  show "spares vid sys (snd (revoke_grant_endpoint cx gid sys))"
    unfolding revoke_grant_endpoint_def by (intro spare r)
  show "spares vid sys (snd (acquire_lock_endpoint cx pid sys))"
    unfolding acquire_lock_endpoint_def by (intro spare r)
  show "spares vid sys (snd (heartbeat_lock_endpoint cx pid sys))"
    unfolding heartbeat_lock_endpoint_def by (intro spare r)
  show "spares vid sys (snd (release_lock_endpoint cx pid force sys))"
    unfolding release_lock_endpoint_def by (intro spare r)
qed

section \<open>The freeze\<close>

text \<open>The requests that may change a signed version: the admin's unsign, the deletion of its product, and
  a second sign-off with a new proof image.\<close>

fun may_change :: "version \<Rightarrow> request \<Rightarrow> bool" where
  "may_change v (UnsignVersion vid) \<longleftrightarrow> vid = v_id v"
| "may_change v (DeleteProduct pid) \<longleftrightarrow> pid = v_product_id v"
| "may_change v (SignOffVersion vid ev) \<longleftrightarrow> vid = v_id v \<and> ev \<noteq> None"
| "may_change v _ \<longleftrightarrow> False"

definition fresh_id_ok :: "request_ctx \<Rightarrow> bool" where
  "fresh_id_ok cx \<longleftrightarrow> CHR ''/'' \<notin> set (fi_version (cx_ids cx))"

lemma serve_spares:
  assumes "ids_ok (core_of sys)" "get_version vid (core_of sys) = Some v" "is_signed_off v"
    "\<not> may_change v rq" "fresh_id_ok cx"
  shows "spares vid sys (serve sha env cx rq sys)"
proof -
  have s: "signed vid (core_of sys)" using assms(1-3) by (simp add: signed_def)
  have v: "v_id v = vid" using known_version[OF assms(1,2)] by simp
  note handlers = file_handlers_spare[OF s] version_handlers_spare[OF s] library_handlers_spare[OF s] check_handlers_spare[OF s]
  show ?thesis using assms(4,5) delete_product_spares[OF s assms(2)]
    by (cases rq) (auto simp: handlers v fresh_id_ok_def simp del: not_None_eq)
qed

lemma serve_all_spares:
  assumes "ids_ok (core_of sys)" "get_version vid (core_of sys) = Some v" "is_signed_off v"
    "\<forall>(cx, rq)\<in>set rs. \<not> may_change v rq \<and> fresh_id_ok cx"
  shows "spares vid sys (serve_all sha env rs sys)"
  using assms(1,2,4)
proof (induction rs arbitrary: sys)
  case Nil then show ?case by (simp add: serve_all_def spares_refl)
next
  case (Cons p rs)
  obtain cx rq where p: "p = (cx, rq)" by (cases p)
  have 1: "spares vid sys (serve sha env cx rq sys)"
    using Cons.prems p assms(3) by (intro serve_spares) auto
  then have "ids_ok (core_of (serve sha env cx rq sys))" "get_version vid (core_of (serve sha env cx rq sys)) = Some v"
    using Cons.prems(2) by (simp_all add: spares_def same_rows_def)
  then have "spares vid (serve sha env cx rq sys) (serve_all sha env rs (serve sha env cx rq sys))"
    using Cons.prems(3) by (intro Cons.IH) simp_all
  then show ?case using spares_trans[OF 1] by (simp add: serve_all_def p)
qed

text \<open>C3. Whatever requests users send, in any order and with any rights, a signed version keeps its row,
  its bindings and every blob it owns until its unsign, the deletion of its product or a second
  sign-off with an image.\<close>

theorem signed_version_frozen_over_http:
  assumes "ids_ok (core_of sys)" "get_version vid (core_of sys) = Some v" "is_signed_off v"
    "\<forall>(cx, rq)\<in>set rs. \<not> may_change v rq \<and> fresh_id_ok cx"
  shows "get_version vid (core_of (serve_all sha env rs sys)) = Some v \<and>
    bindings_of vid (core_of (serve_all sha env rs sys)) = bindings_of vid (core_of sys) \<and>
    (\<forall>k. key_segments k \<in> owned_segments vid \<longrightarrow>
       local_get k (sy_blobs (serve_all sha env rs sys)) = local_get k (sy_blobs sys))"
  using serve_all_spares[OF assms, of sha env] assms(2) by (simp add: spares_def same_rows_def same_blobs_def)

text \<open>C17. A second sign-off with an image of a signed version is refused and leaves the tables, but it
  replaces and then deletes the proof image of the first: the evidence endpoint answers 404
  although the version still names its evidence.\<close>

theorem resign_destroys_evidence:
  assumes "get_version vid (core_of sys) = Some v" "v_signed_off_by v = Some who" "or_empty (v_evidence_name v) \<noteq> []"
    and "editor_guard (cx_dev cx) (cx_ident cx) (version_route cx vid) (cx_now cx) (sy_server sys) = Inr ident"
    and "check_evidence (Some (name, data)) = Inr (Some pic)"
  shows "fst (sign_off_version cx vid (Some (name, data)) sys) = Inl (FrozenVersion who (v_signed_off_at v)) \<and>
    core_of (snd (sign_off_version cx vid (Some (name, data)) sys)) = core_of sys \<and>
    fst (get_sign_off_evidence cx vid (snd (sign_off_version cx vid (Some (name, data)) sys))) =
      Inl (HTTP 404 ''no sign-off evidence'')"
proof -
  let ?put = "on_blobs (local_put (cx_mtime cx) (sign_off_evidence_key vid) (Raw data)) sys"
  let ?last = "drop_blob (sign_off_evidence_key vid) ?put"
  have c: "core_of ?put = core_of sys" "core_of ?last = core_of sys" "sy_server ?last = sy_server sys"
    by (simp_all add: core_of_def on_blobs_def drop_blob_def)
  have "sign_off vid u en et now (core_of sys) = (Inl (SignedOff who (v_signed_off_at v)), core_of sys)" for u en et now
    using assms(1,2) by (simp add: sign_off_def in_transaction_def)
  then have e: "sign_off_version cx vid (Some (name, data)) sys = (Inl (FrozenVersion who (v_signed_off_at v)), ?last)"
    using assms by (simp add: sign_off_version_def guarded_def resolve_version_def c(1) Let_def)
  have "viewer_guard (cx_dev cx) (cx_ident cx) (version_route cx vid) (cx_now cx) (sy_server sys) = Inr (cx_ident cx)"
    using assms(4) enforce_weaken[of _ _ _ Editor True _ _ "()" Viewer False]
    unfolding editor_guard_def viewer_guard_def require_role_Inr by auto
  moreover have "local_get (sign_off_evidence_key vid) (sy_blobs ?last) = Inl (FileNotFoundError (sign_off_evidence_key vid))"
    using local.content_del[of "sign_off_evidence_key vid" "sy_blobs ?put"]
    by (simp add: drop_blob_def local.get_content local_del_def)
  ultimately show ?thesis using assms(1,3) by (simp add: e c get_sign_off_evidence_def guarded_def resolve_version_def)
qed

definition reviewer :: identity where
  "reviewer = ann\<lparr>i_source := Bypass\<rparr>"

definition web :: request_ctx where
  "web = \<lparr>cx_dev = False, cx_ident = reviewer, cx_query = [], cx_now = 50, cx_mtime = 2, cx_job = (\<lambda>_. ''j1''),
     cx_ids = second_ids, cx_row = ''r1'', cx_attrs = DEFAULTS\<rparr>"

definition proven_version :: version where
  "proven_version = signed_version\<lparr>v_evidence_name := Some ''ok.jpg'', v_evidence_type := Some ''image/jpeg''\<rparr>"

definition signed_system :: system where
  "signed_system = \<lparr>sy_server = ann_server\<lparr>core := one_product\<lparr>versions := [proven_version]\<rparr>\<rparr>,
     sy_blobs = [(sign_off_evidence_key ''v1'', (Raw ''proof'', 1))]\<rparr>"

lemma signed_system_simps:
  "core_of signed_system = one_product\<lparr>versions := [proven_version]\<rparr>" "v_id proven_version = ''v1''"
  "v_signed_off_by proven_version = Some ''amy''" "v_product_id proven_version = ''p''"
  "v_evidence_name proven_version = Some ''ok.jpg''"
  "sy_blobs signed_system = [(sign_off_evidence_key ''v1'', (Raw ''proof'', 1))]"
  by (simp_all add: signed_system_def core_of_def proven_version_def signed_version_def first_version_def)

lemma signed_system_ok:
  "ids_ok (core_of signed_system)" "get_version ''v1'' (core_of signed_system) = Some proven_version"
  by (simp_all add: signed_system_simps ids_ok_def get_version_def)

lemma signed_version_frozen_over_http_witness:
  "get_version ''v1'' (core_of (serve_all rev idle_worker
      [(web, SaveMatch ''v1'' ''f''), (web, CheckDam ''v1'' True), (web, NewVersion ''p'' ''C'' None), (web, DeleteProduct ''q'')]
      signed_system)) = Some proven_version \<and>
   local_get (sign_off_evidence_key ''v1'') (sy_blobs (serve_all rev idle_worker
      [(web, SaveMatch ''v1'' ''f''), (web, CheckDam ''v1'' True), (web, NewVersion ''p'' ''C'' None), (web, DeleteProduct ''q'')]
      signed_system)) = Inr (Raw ''proof'')"
proof -
  let ?rs = "[(web, SaveMatch ''v1'' ''f''), (web, CheckDam ''v1'' True), (web, NewVersion ''p'' ''C'' None),
      (web, DeleteProduct ''q'')]"
  have "key_segments (sign_off_evidence_key ''v1'') \<in> owned_segments ''v1''" by (intro key_segments_of) simp
  moreover have "\<forall>(cx, rq)\<in>set ?rs. \<not> may_change proven_version rq \<and> fresh_id_ok cx"
    by (simp add: signed_system_simps fresh_id_ok_def web_def second_ids_def)
  moreover have "is_signed_off proven_version" by (simp add: is_signed_off_def signed_system_simps)
  ultimately show ?thesis
    using signed_version_frozen_over_http[OF signed_system_ok, of ?rs rev idle_worker]
    by (simp add: signed_system_simps local_get_def)
qed

lemma resign_destroys_evidence_witness:
  "fst (get_sign_off_evidence web ''v1'' signed_system) = Inr (Raw ''proof'', ''image/jpeg'', ''ok.jpg'') \<and>
   fst (get_sign_off_evidence web ''v1''
     (snd (sign_off_version web ''v1'' (Some (None, bytes [255, 216, 255, 224])) signed_system))) =
     Inl (HTTP 404 ''no sign-off evidence'')"
proof -
  have pass: "require_role r lk (cx_dev web) (cx_ident web) (version_route web ''v1'') (cx_now web) (sy_server signed_system)
      = Inr (cx_ident web)" for r lk
  proof -
    have "product_for (version_route web ''v1'') (core (sy_server signed_system)) = Inr (Some ''p'')"
      using signed_system_ok(2) signed_system_simps(4)
      by (simp add: product_for_def param_def version_route_def web_def or_empty_def core_of_def Let_def)
    moreover have "ROLE_RANK r \<le> ROLE_RANK Admin" by (cases r) (simp_all add: ROLE_RANK_def)
    ultimately show ?thesis
      by (simp add: require_role_def enforce_def product_role_def web_def reviewer_def is_bypass_def)
  qed
  have e: "check_evidence (Some (None, bytes [255, 216, 255, 224])) = Inr (Some (''evidence'', ''image/jpeg''))"
    by (simp add: check_evidence_def sniff_image_type_def bytes_def EVIDENCE_MAX_BYTES_def or_empty_def)
  have "fst (get_sign_off_evidence web ''v1'' signed_system) = Inr (Raw ''proof'', ''image/jpeg'', ''ok.jpg'')"
    using pass[of Viewer False] signed_system_ok(2)
    by (simp add: get_sign_off_evidence_def guarded_def viewer_guard_def resolve_version_def signed_system_simps local_get_def
        or_empty_def) (simp add: proven_version_def or_empty_def)
  then show ?thesis
    using resign_destroys_evidence[OF signed_system_ok(2) signed_system_simps(3) _ pass[of Editor True, folded editor_guard_def] e]
    by (simp add: signed_system_simps or_empty_def)
qed

end
