(* ===== verification/Overlay.thy ===== *)
theory Overlay
  imports Freeze
begin

text \<open>
  The overlay of \<^verbatim>\<open>scan_all\<close> against the Match JSON of the \<^verbatim>\<open>save_match\<close> worker: both scan the same library
  with the same view split, one stops before the suppression of contained instances and shows the
  handles per class.
\<close>

section \<open>Two loops over the same list\<close>

lemma fold_err_simulates:
  assumes "\<And>x s. x \<in> set xs \<Longrightarrow> g x (h s) = map_sum id h (f x s)"
  shows "fold_err g xs (h s) = map_sum id h (fold_err f xs s)"
  using assms by (induction xs arbitrary: s) (simp_all split: sum.splits)

text \<open>The state of the overlay is the Match JSON of the state of the worker.\<close>

lemma overlay_template_simulates:
  "overlay_template env tn drawing rc cfg c p (sv_out s) = map_sum id sv_out (save_template env tn drawing rc cfg c p s)"
  by (simp add: overlay_template_def save_template_def record_hits_def rect_for_def case_prod_beta split: sum.splits)

lemma overlay_class_simulates:
  "overlay_class env tn drawing rc cfgs ts c (sv_out s) = map_sum id sv_out (save_class env tn drawing rc cfgs ts c s)"
  by (simp add: overlay_class_def save_class_def fold_err_simulates overlay_template_simulates)

lemma overlay_scan_simulates:
  "overlay_scan env (tunables_of attrs) (build_entity_shapes (we_numerics env) ps (build_handle_index ps)) rc l =
     map_sum id sv_out (save_scan env attrs rc ps l)"
proof -
  obtain cs cfgs ts where l: "l = (cs, cfgs, ts)" by (cases l)
  have e: "[] = sv_out start_save" by (simp add: start_save_def)
  show ?thesis unfolding l overlay_scan_def save_scan_def prod.case
    by (subst e, rule fold_err_simulates) (rule overlay_class_simulates)
qed

section \<open>Handles per class\<close>

definition key_shows :: "string \<Rightarrow> class_name \<Rightarrow> bool" where
  "key_shows key c =
     (case parse_match_key key of None \<Rightarrow> False | Some (_, snake, _) \<Rightarrow> display_name snake = c)"

definition class_handles :: "match_out \<Rightarrow> class_name \<Rightarrow> handle set" where
  "class_handles out c = (\<Union>(key, instances)\<in>set out. if key_shows key c then set (concat instances) else {})"

lemma in_class_handles:
  "h \<in> class_handles out c \<longleftrightarrow>
     (\<exists>key instances hs. (key, instances) \<in> set out \<and> key_shows key c \<and> hs \<in> set instances \<and> h \<in> set hs)"
  by (auto simp: class_handles_def split: if_splits) (blast, force)

lemma dict_list_add_handles:
  "dict_list (add_handles c hs d) c' = (if c' = c then dict_list d c @ hs else dict_list d c')"
  by (simp add: add_handles_def dict_list_def AList.map_of_map_default split: option.splits)

lemma class_handles_Cons: "class_handles (p # out) c = class_handles [p] c \<union> class_handles out c"
  by (simp add: class_handles_def)

lemma dict_list_collapse_key:
  "set (dict_list (collapse_key p d) c) = set (dict_list d c) \<union> class_handles [p] c"
  by (auto simp: collapse_key_def dict_list_add_handles class_handles_def key_shows_def case_prod_beta split: option.splits)

lemma dict_list_collapse_fold:
  "set (dict_list (fold collapse_key out d) c) = set (dict_list d c) \<union> class_handles out c"
proof (induction out arbitrary: d)
  case Nil then show ?case by (simp add: class_handles_def)
next
  case (Cons p out) then show ?case by (simp add: dict_list_collapse_key class_handles_Cons[of p out] Un_assoc)
qed

lemma dict_list_sorted_sets: "dict_list (sorted_sets d) c = sort (remdups (dict_list d c))"
proof -
  have "map_of (sorted_sets d) c = map_option (\<lambda>hs. sort (remdups hs)) (map_of d c)"
    unfolding sorted_sets_def by (induction d) auto
  then show ?thesis by (simp add: dict_list_def split: option.splits)
qed

lemma collapse_handles: "set (dict_list (collapse out) c) = class_handles out c"
  by (simp add: collapse_def dict_list_sorted_sets dict_list_collapse_fold)

text \<open>Suppression keeps the handles of every class: a contained instance goes only for one of its own
  class that covers it.\<close>

lemma suppress_class_handles:
  assumes "dict_ok out" shows "class_handles (suppress_contained_matches enabled out) c = class_handles out c"
proof (cases enabled)
  case True
  have "h \<in> class_handles (suppress_contained_matches True out) c" if x: "h \<in> class_handles out c" for h
  proof -
    obtain key inst hs where k: "(key, inst) \<in> set out" "key_shows key c" "hs \<in> set inst" "h \<in> set hs"
      using x unfolding in_class_handles by blast
    then obtain prefix snake idx where s: "parse_match_key key = Some (prefix, snake, idx)" "display_name snake = c"
      by (auto simp: key_shows_def split: option.splits)
    obtain key' kept hs' prefix' idx' where "(key', kept) \<in> set (suppress_contained_matches True out)" "hs' \<in> set kept"
      "parse_match_key key' = Some (prefix', snake, idx')" "set hs \<subseteq> set hs'"
      using suppress_covers[OF assms k(1,3) s(1)] by blast
    moreover from this have "key_shows key' c" using s(2) by (simp add: key_shows_def)
    ultimately show ?thesis using k(4) unfolding in_class_handles by blast
  qed
  moreover have "h \<in> class_handles out c" if x: "h \<in> class_handles (suppress_contained_matches True out) c" for h
  proof -
    obtain key kept hs where k: "(key, kept) \<in> set (suppress_contained_matches True out)" "key_shows key c"
      "hs \<in> set kept" "h \<in> set hs" using x unfolding in_class_handles by blast
    have "\<exists>inst. (key, inst) \<in> set out \<and> hs \<in> set inst"
      using k(1,3) unfolding suppress_unfold[OF assms]
      by (force simp: drop_superseded_entry in_set_enumerate_eq split: if_splits)
    then show ?thesis using k(2,4) unfolding in_class_handles by blast
  qed
  ultimately show ?thesis using True by auto
qed (simp add: suppress_contained_matches_def)

section \<open>The overlay shows what the save would write\<close>

lemma dict_ok_merge_grouped: "dict_ok out \<Longrightarrow> dict_ok (merge_grouped g out)"
  unfolding merge_grouped_def by (induction g arbitrary: out) (auto simp: AList.distinct_map_default)

lemma save_scan_ok:
  assumes "save_scan env attrs rc ps l = Inr s" shows "dict_ok (sv_out s)"
proof -
  obtain cs cfgs ts where l: "l = (cs, cfgs, ts)" by (cases l)
  have t: "dict_ok (sv_out b)" if "save_template env tn drawing rc cfg c p a = Inr b" "dict_ok (sv_out a)"
    for env tn drawing cfg c p a b
    using that dict_ok_merge_grouped
    by (auto simp: save_template_def record_hits_def case_prod_beta split: sum.splits)
  have c: "dict_ok (sv_out b)" if "save_class env tn drawing rc cfgs ts c a = Inr b" "dict_ok (sv_out a)"
    for tn drawing c a b
    using that by (auto simp: save_class_def split: if_splits
        elim!: fold_err_invariant[where P = "\<lambda>s. dict_ok (sv_out s)"] intro: t)
  show ?thesis using assms unfolding l save_scan_def prod.case
    by (rule fold_err_invariant[where P = "\<lambda>s. dict_ok (sv_out s)"]) (auto simp: start_save_def intro: c)
qed

text \<open>What the worker reads when it is run on the state the overlay is computed on.\<close>

lemma read_parsed_shapes:
  assumes "read_parsed (parsed_key vid fid) (sy_blobs sys) = Inr ps"
  shows "shapes_for nm vid fid sys = Inr (build_handle_index ps, build_entity_shapes nm ps (build_handle_index ps))"
  using assms by (auto simp: read_parsed_def shapes_for_def parsed_primitives_def Let_def
      split: if_splits sum.splits option.splits blob_error.splits)


definition saving_system :: system where
  "saving_system = \<lparr>sy_server = ann_server\<lparr>core := saving_core\<rparr>, sy_blobs = saving_blobs\<rparr>"

lemma bypass_passes:
  assumes "product_for rq (core s) = Inr pid"
  shows "require_role r lk False reviewer rq now s = Inr reviewer"
proof -
  have "ROLE_RANK r \<le> ROLE_RANK Admin" by (cases r) (simp_all add: ROLE_RANK_def)
  then show ?thesis
    by (simp add: assms require_role_def enforce_def product_role_def reviewer_def is_bypass_def)
qed


text \<open>The worker of a save submitted before the sign-off does not read it: it writes the Match JSON of the
  signed version as it would have written that of the open one.\<close>

lemma late_save_ignores_sign_off:
  assumes "get_version vid db = Some v" "get_version vid db' = Some v'" "v_library_id v' = v_library_id v"
    "fdb db' = fdb db" "lib db' = lib db"
  shows "save_match_worker env vid fid dst t db' ldb attrs fs = save_match_worker env vid fid dst t db ldb attrs fs"
proof -
  have i: "save_inputs vid fid db' = (case save_inputs vid fid db of Inl e \<Rightarrow> Inl e | Inr (rc, _) \<Rightarrow> Inr (rc, v'))"
    using assms by (auto simp: save_inputs_def split: option.splits)
  have w: "w = v" if "save_inputs vid fid db = Inr (rc, w)" for rc w
    using that assms(1) by (auto simp: save_inputs_def split: option.splits if_splits)
  show ?thesis
  proof (cases "save_inputs vid fid db")
    case (Inr p)
    then obtain rc where "save_inputs vid fid db = Inr (rc, v)" using w by (cases p) auto
    then show ?thesis unfolding save_match_worker_def i by (simp only: sum.case prod.case assms(3,5))
  qed (simp add: save_match_worker_def i)
qed

end
