(* ===== verification/CheckFlow.thy ===== *)
theory CheckFlow
  imports Overlay WorkerRun
begin

text \<open>
  A rule check from the request to the worker: what \<^verbatim>\<open>run_rule_check\<close> verifies before it submits is what
  the worker needs to hand the bundle to the external checker, what the bundle holds, and what becomes of
  the answer.
\<close>

section \<open>The accepted request\<close>

lemma run_rule_check_Inr:
  assumes "run_rule_check cx vid sys = (Inr job, sys')"
  shows "\<exists>v. get_version vid (core_of sys) = Some v \<and> \<not> is_signed_off v \<and> job = cx_job cx 0 \<and>
    all_saved (role_bound vid sys) = Inr () \<and> inputs_on_disk vid (role_bound vid sys) sys = Inr () \<and>
    sys' = submit_rule_check job (cx_now cx) (v_product_id v) vid (map r_id (role_bound vid sys)) sys"
  using assms by (auto simp: run_rule_check_def guarded_def attempt_def require_unsigned_def resolve_version_def
      is_signed_off_def split: sum.splits option.splits)

lemma inputs_on_disk_blobs:
  assumes "inputs_on_disk vid fs sys = Inr ()" "f \<in> set fs"
  shows "\<exists>m u. local_get (match_key vid (r_id f)) (sy_blobs sys) = Inr m \<and> local_get (upload_key (r_id f)) (sy_blobs sys) = Inr u"
proof -
  have e: "\<exists>b. local_get k bs = Inr b" if "local_exists k bs = Inr True" for k bs
    using that by (auto simp: local_exists_def local_get_def split: option.splits)
  show ?thesis using assms by (induction fs) (auto simp: blob_there_def dest: e split: if_splits)
qed

lemma all_saved_bound: "all_saved fs = Inr () \<Longrightarrow> fs \<noteq> [] \<and> (\<forall>f\<in>set fs. b_match_saved (r_binding f))"
  by (auto simp: all_saved_def list_ex_iff split: if_splits)

lemma find_some: "x \<in> set xs \<Longrightarrow> P x \<Longrightarrow> \<exists>y. find P xs = Some y \<and> P y"
  by (induction xs) auto

lemma listed_file:
  assumes "f \<in> set (list_by_version vid db)"
  shows "\<exists>rc. get_file vid (r_id f) db = Some rc \<and> r_id rc = r_id f"
  using assms find_some[of f "binding_select db" "\<lambda>r. r_version_id r = vid \<and> r_id r = r_id f"]
  by (auto simp: list_by_version_def get_file_def)

section \<open>The worker\<close>

lemma worker_files_found:
  assumes "\<forall>f\<in>set fs. \<exists>rc. get_file vid (r_id f) db = Some rc \<and> r_id rc = r_id f"
  shows "\<exists>rcs. worker_files vid (map r_id fs) db = Inr rcs \<and> map r_id rcs = map r_id fs"
  using assms by (induction fs) auto

lemma copied_files_complete:
  assumes "\<forall>i\<in>set (map r_id rcs). (\<exists>u. local_get (upload_key i) blobs = Inr u) \<and> (\<exists>m. local_get (match_key vid i) blobs = Inr m)"
  shows "\<exists>es. copied_files blobs vid rcs = Inr es"
  using assms by (induction rcs) auto

lemma copied_from_blobs:
  "copied_files blobs vid fs = Inr es \<Longrightarrow>
     ((dxf_entry rc, b) \<in> set es \<longrightarrow> local_get (upload_key (r_id rc)) blobs = Inr b) \<and>
     ((match_entry rc, b) \<in> set es \<longrightarrow> local_get (match_key vid (r_id rc)) blobs = Inr b) \<and>
     MANIFEST_FILENAME \<notin> fst ` set es"
proof (induction fs arbitrary: es)
  case (Cons x fs)
  then show ?case
    using entry_names_distinct(1,2)[of rc x] entry_names_distinct(3)[of rc x] entry_names_distinct(3)[of x rc, symmetric]
      entry_names_distinct(4,5)[of x, symmetric]
    by (auto split: sum.splits)
qed simp

lemma map_of_updates: "map_of (fold (\<lambda>(k, b). AList.update k b) es tree) = map_of tree ++ map_of (rev es)"
  by (induction es arbitrary: tree) (auto simp: update_conv' map_add_assoc)

lemma map_of_rev_unique: "(k, b) \<in> set es \<Longrightarrow> (\<And>c. (k, c) \<in> set es \<Longrightarrow> c = b) \<Longrightarrow> map_of (rev es) k = Some b"
proof (cases "map_of (rev es) k")
  case None
  then show "(k, b) \<in> set es \<Longrightarrow> ?thesis" by (force simp: map_of_eq_None_iff)
next
  case (Some c)
  assume "\<And>c. (k, c) \<in> set es \<Longrightarrow> c = b"
  then show ?thesis using map_of_SomeD[OF Some] Some by simp
qed

text \<open>The bundle of a version whose inputs are there: the manifest and per file the upload and the Match JSON.\<close>

definition bundle_holds :: "product \<Rightarrow> version \<Rightarrow> file_record list \<Rightarrow> string \<Rightarrow> local_files \<Rightarrow> (string, blob) dict \<Rightarrow> bool" where
  "bundle_holds p v rcs exported_at blobs tree \<longleftrightarrow>
     (\<exists>m. build_manifest p v rcs None exported_at = Inr m \<and> map_of tree ''manifest.json'' = Some (Json m)) \<and>
     list_all (\<lambda>rc.
       (case local_get (upload_key (r_id rc)) blobs of Inl e \<Rightarrow> False
        | Inr dxf \<Rightarrow> map_of tree (''dxfs/'' @ r_id rc @ ''.dxf'') = Some dxf) \<and>
       (case local_get (match_key (v_id v) (r_id rc)) blobs of Inl e \<Rightarrow> False
        | Inr m \<Rightarrow> map_of tree (''match/'' @ r_id rc @ ''.json'') = Some m)) rcs"

lemma bundle_complete:
  assumes "get_version vid db = Some v" "v_id v = vid" "v_product_id v = p_id p"
    and "\<forall>i\<in>set (map r_id rcs). (\<exists>u. local_get (upload_key i) blobs = Inr u) \<and> (\<exists>m. local_get (match_key vid i) blobs = Inr m)"
  shows "\<exists>tree. materialise_bundle p vid rcs at_time db blobs = Inr tree \<and> bundle_holds p v rcs at_time blobs tree"
proof -
  obtain es where es: "copied_files blobs vid rcs = Inr es" using copied_files_complete[OF assms(4)] by blast
  note src = copied_from_blobs[OF es]
  obtain m where m: "build_manifest p v rcs None at_time = Inr m" using assms(3) by (simp add: build_manifest_def)
  let ?tree = "fold (\<lambda>(k, b). AList.update k b) es [(MANIFEST_FILENAME, Json m)]"
  have t: "materialise_bundle p vid rcs at_time db blobs = Inr ?tree"
    using es m assms(1,2) by (simp add: materialise_bundle_def build_bundle_dir_def write_files_copied)
  have "map_of (rev es) MANIFEST_FILENAME = None" using src by (simp add: map_of_eq_None_iff)
  then have manifest: "map_of ?tree ''manifest.json'' = Some (Json m)"
    by (simp add: map_of_updates map_add_def MANIFEST_FILENAME_def)
  have entry: "(\<exists>dxf. local_get (upload_key (r_id rc)) blobs = Inr dxf \<and> map_of ?tree (dxf_entry rc) = Some dxf) \<and>
      (\<exists>m. local_get (match_key vid (r_id rc)) blobs = Inr m \<and> map_of ?tree (match_entry rc) = Some m)"
    if rc: "rc \<in> set rcs" for rc
  proof -
    obtain dxf m where c: "local_get (upload_key (r_id rc)) blobs = Inr dxf" "(dxf_entry rc, dxf) \<in> set es"
      "local_get (match_key vid (r_id rc)) blobs = Inr m" "(match_entry rc, m) \<in> set es"
      using copied_contents[OF es rc] by blast
    have "map_of (rev es) (dxf_entry rc) = Some dxf" "map_of (rev es) (match_entry rc) = Some m"
      using c src[of rc] by (metis map_of_rev_unique sum.inject(2))+
    then show ?thesis using c(1,3) by (simp add: map_of_updates map_add_def)
  qed
  have "bundle_holds p v rcs at_time blobs ?tree"
    using m manifest entry unfolding bundle_holds_def assms(2) list_all_iff dxf_entry_def match_entry_def by fastforce
  then show ?thesis using t by blast
qed

text \<open>What the worker makes of the checker's answer.\<close>

definition checked :: "(pyfloat \<Rightarrow> string) \<Rightarrow> string \<Rightarrow> file_record list \<Rightarrow> nat \<Rightarrow> local_files \<Rightarrow> check_error + pyobj
    \<Rightarrow> (worker_error + rule_check_result) \<times> local_files" where
  "checked repr vid rcs t blobs answer =
     (case answer of
        Inl e \<Rightarrow> (Inl (CheckFailed e), blobs)
      | Inr result \<Rightarrow>
          (case json_dump repr result of
             None \<Rightarrow> (Inl (WorkerRuntime ''not JSON serializable''), blobs)
           | Some report \<Rightarrow>
               (Inr \<lparr>rc_rule_count = length (rule_rows result), rc_pass_count = length (filter passes (rule_rows result)),
                     rc_roles_covered = sort (remdups (filter (\<lambda>r. r \<noteq> []) (map (b_role \<circ> r_binding) rcs)))\<rparr>,
                local_put_json t (rule_check_key vid) report blobs)))"

text \<open>C15. An accepted rule check reaches the external checker with its inputs: the queued job is planned as a
  rule-check worker with the version's product, its role-bound files and its result key, and that worker,
  run on the state of the request, calls the checker with the product's id on a bundle that holds the
  version's manifest and, for every role-bound file, the uploaded DXF and its saved Match JSON.  Its answer
  is all that decides: an error or an answer that is not JSON fails the job, anything else is saved
  under the version's result key with the counts of the rules that were checked and that passed.\<close>

theorem accepted_rule_check_reaches_checker:
  assumes "core_inv (core_of sys)" "run_rule_check cx vid sys = (Inr job, sys')" "job \<notin> j_id ` set (jobs_of sys)"
  shows "\<exists>j v p rcs tree. get_job job (jobs_of sys') = Some j \<and> get_version vid (core_of sys) = Some v \<and>
    get_product (v_product_id v) (core_of sys) = Some p \<and>
    role_bound vid sys \<noteq> [] \<and> (\<forall>f\<in>set (role_bound vid sys). b_match_saved (r_binding f)) \<and>
    execution_plan j = Inr (RuleCheckWorker,
      [JStr (v_product_id v), JStr vid, JList (map JStr (map r_id (role_bound vid sys))), JStr (rule_check_key vid)]) \<and>
    map r_id rcs = map r_id (role_bound vid sys) \<and> bundle_holds p v rcs at_time (sy_blobs sys) tree \<and>
    rule_check_worker env repr (v_product_id v) vid (map r_id (role_bound vid sys)) (rule_check_key vid)
        at_time t (core_of sys') (sy_blobs sys') =
      checked repr vid rcs t (sy_blobs sys) (check_rules (\<lambda>pid dir. we_rules env pid tree) (v_product_id v) ''bundle'')"
proof -
  let ?fs = "role_bound vid sys"
  obtain v where v: "get_version vid (core_of sys) = Some v" "job = cx_job cx 0" "all_saved ?fs = Inr ()"
    "inputs_on_disk vid ?fs sys = Inr ()"
    "sys' = submit_rule_check job (cx_now cx) (v_product_id v) vid (map r_id ?fs) sys"
    using run_rule_check_Inr[OF assms(2)] by blast
  have same: "core_of sys' = core_of sys" "sy_blobs sys' = sy_blobs sys"
    by (simp_all add: v(5) submit_rule_check_def submit_def core_of_def on_jobs_def)
  obtain j where j: "get_job job (jobs_of sys') = Some j" "execution_plan j = Inr (RuleCheckWorker,
      [JStr (v_product_id v), JStr vid, JList (map JStr (map r_id ?fs)), JStr (rule_check_key vid)])"
    using assms(3) row_by_None[of j_id job "jobs_of sys"]
    by (auto simp: v(5) submit_rule_check_def submit_fresh get_job_def row_by_snoc job_of_request_def
        execution_plan_def payload_key_def json_opt_def json_opt_text_def Let_def split: option.splits)
  have vid: "v_id v = vid" "v \<in> set (versions (core_of sys))"
    using row_by_SomeD[of v_id vid "versions (core_of sys)" v] v(1) by (simp_all add: get_version_def)
  have "v_product_id ` set (versions (core_of sys)) = p_id ` set (products (core_of sys))"
    using assms(1) by (simp only: core_inv_def)
  then obtain p where p: "get_product (v_product_id v) (core_of sys) = Some p" "p_id p = v_product_id v"
    using vid(2) row_by_None[of p_id "v_product_id v" "products (core_of sys)"]
      row_by_SomeD[of p_id "v_product_id v" "products (core_of sys)"] by (force simp: get_product_def)
  have "\<forall>f\<in>set ?fs. \<exists>rc. get_file vid (r_id f) (fdb (core_of sys)) = Some rc \<and> r_id rc = r_id f"
    using listed_file[of _ vid "fdb (core_of sys)"] by (auto simp: role_bound_def files_of_def core_of_def)
  from worker_files_found[OF this] obtain rcs where rcs: "worker_files vid (map r_id ?fs) (fdb (core_of sys)) = Inr rcs"
    "map r_id rcs = map r_id ?fs" by blast
  have "\<forall>i\<in>set (map r_id rcs). (\<exists>u. local_get (upload_key i) (sy_blobs sys) = Inr u) \<and>
      (\<exists>m. local_get (match_key vid i) (sy_blobs sys) = Inr m)"
    unfolding rcs(2) using inputs_on_disk_blobs[OF v(4)] by auto
  from bundle_complete[OF v(1) vid(1) p(2)[symmetric] this] obtain tree
    where tree: "materialise_bundle p vid rcs at_time (core_of sys) (sy_blobs sys) = Inr tree"
      "bundle_holds p v rcs at_time (sy_blobs sys) tree" by blast
  have "rule_check_worker env repr (v_product_id v) vid (map r_id ?fs) (rule_check_key vid) at_time t
      (core_of sys') (sy_blobs sys') =
    checked repr vid rcs t (sy_blobs sys) (check_rules (\<lambda>pid dir. we_rules env pid tree) (v_product_id v) ''bundle'')"
    by (simp add: rule_check_worker_def p(1) rcs(1) same tree(1) checked_def)
  then show ?thesis using j v(1) p(1) all_saved_bound[OF v(3)] rcs(2) tree(2) by blast
qed

definition checkable_system :: system where
  "checkable_system = \<lparr>sy_server = ann_server\<lparr>core := one_product\<lparr>fdb := \<lparr>
     files = [\<lparr>f_id = ''f'', f_name = ''a.dxf'', f_size = 3, f_uploaded_at = 1, f_insunits = None, f_recover_notes = None\<rparr>],
     version_files = [(new_binding ''v1'' ''SBT'' ''f'' None ReadyToMatch 1)\<lparr>b_match_saved := True\<rparr>]\<rparr>\<rparr>\<rparr>,
     sy_blobs = bundle_blobs\<rparr>"

lemma accepted_rule_check_reaches_checker_witness:
  "\<exists>sys' j p rcs tree. run_rule_check web ''v1'' checkable_system = (Inr ''j1'', sys') \<and> get_job ''j1'' (jobs_of sys') = Some j \<and>
     execution_plan j =
       Inr (RuleCheckWorker, [JStr ''p'', JStr ''v1'', JList [JStr ''f''], JStr ''rule_check/v1.json'']) \<and>
     map r_id rcs = [''f''] \<and> bundle_holds p first_version rcs ''now'' bundle_blobs tree \<and>
     rule_check_worker idle_worker (\<lambda>_. ''repr'') ''p'' ''v1'' [''f''] ''rule_check/v1.json'' ''now'' 3 (core_of sys')
        (sy_blobs sys') =
       checked (\<lambda>_. ''repr'') ''v1'' rcs 3 bundle_blobs (check_rules (\<lambda>pid dir. we_rules idle_worker pid tree) ''p'' ''bundle'')"
proof -
  have c: "core_of checkable_system = one_product\<lparr>fdb := files_of checkable_system\<rparr>"
    by (simp add: checkable_system_def core_of_def files_of_def)
  have inv: "core_inv (core_of checkable_system)"
    unfolding c by (rule bindings_core_inv[OF one_product_inv])
      (simp add: checkable_system_def files_of_def one_product_simps first_version_def new_binding_def)
  have v: "get_version ''v1'' (core_of checkable_system) = Some first_version"
    by (simp add: c get_version_def one_product_simps first_version_def)
  have rb: "map r_id (role_bound ''v1'' checkable_system) = [''f'']" "\<forall>f\<in>set (role_bound ''v1'' checkable_system). b_match_saved (r_binding f)"
    by (simp_all add: role_bound_def list_by_version_def binding_select_def checkable_system_def files_of_def new_binding_def
        row_to_record_def List.map_filter_simps)
  obtain f where f: "role_bound ''v1'' checkable_system = [f]" "r_id f = ''f''" using rb(1) by auto
  have d: "inputs_on_disk ''v1'' [f] checkable_system = Inr ()" using f(2)
    by (simp add: blob_there_def checkable_system_def bundle_blobs_def local_exists_def upload_key_def match_key_def)
  have "product_for (version_route web ''v1'') (core (sy_server checkable_system)) = Inr (Some ''p'')"
    using v by (simp add: core_of_def product_for_def param_def version_route_def web_def or_empty_def first_version_def Let_def)
  then have g: "editor_guard (cx_dev web) (cx_ident web) (version_route web ''v1'') (cx_now web) (sy_server checkable_system)
      = Inr reviewer"
    by (simp add: editor_guard_def require_role_def enforce_def product_role_def web_def reviewer_def is_bypass_def ROLE_RANK_def)
  have j: "jobs_of checkable_system = []" by (simp add: checkable_system_def jobs_of_def ann_server_def)
  obtain sys' where r: "run_rule_check web ''v1'' checkable_system = (Inr ''j1'', sys')"
    using v rb(2) d by (simp add: run_rule_check_def guarded_def g require_unsigned_def resolve_version_def f all_saved_def)
      (simp add: first_version_def web_def)
  have b: "sy_blobs checkable_system = bundle_blobs" "v_product_id first_version = ''p''" "rule_check_key ''v1'' = ''rule_check/v1.json''"
    "''j1'' \<notin> j_id ` set (jobs_of checkable_system)"
    by (simp_all add: checkable_system_def first_version_def rule_check_key_def jobs_of_def ann_server_def)
  from accepted_rule_check_reaches_checker[OF inv r b(4), where env = idle_worker and repr = "\<lambda>_. ''repr''" and
      at_time = "''now''" and t = 3]
  obtain j v' p rcs tree where x: "get_job ''j1'' (jobs_of sys') = Some j" "get_version ''v1'' (core_of checkable_system) = Some v'"
    "execution_plan j = Inr (RuleCheckWorker, [JStr (v_product_id v'), JStr ''v1'', JList (map JStr [''f'']), JStr (rule_check_key ''v1'')])"
    "map r_id rcs = [''f'']" "bundle_holds p v' rcs ''now'' (sy_blobs checkable_system) tree"
    "rule_check_worker idle_worker (\<lambda>_. ''repr'') (v_product_id v') ''v1'' [''f''] (rule_check_key ''v1'') ''now'' 3 (core_of sys')
        (sy_blobs sys') = checked (\<lambda>_. ''repr'') ''v1'' rcs 3 (sy_blobs checkable_system)
          (check_rules (\<lambda>pid dir. we_rules idle_worker pid tree) (v_product_id v') ''bundle'')"
    unfolding rb(1) by (elim exE conjE)
  have "v' = first_version" using x(2) v by simp
  note x = x[unfolded this b(1-3) list.map]
  show ?thesis by (intro exI[of _ sys'] exI[of _ j] exI[of _ p] exI[of _ rcs] exI[of _ tree] conjI r x(1,3-6))
qed

end
