(* ===== verification/Access.thy ===== *)
theory Access
  imports Freeze
begin

text \<open>
  Which product a guarded route is checked against, and what the deletion of a product leaves.
\<close>

section \<open>The product of a version route\<close>

text \<open>The guard takes the product of the path's version only if the query names no product.\<close>

lemma version_route_product:
  assumes "get_version vid db = Some v" "vid \<noteq> []"
  shows "product_for (version_route cx vid) db =
    Inr (if or_empty (map_of (cx_query cx) ''product_id'') = [] then Some (v_product_id v)
         else map_of (cx_query cx) ''product_id'')"
  using assms by (simp add: product_for_def param_def version_route_def or_empty_def Let_def)

definition file_path :: "request_ctx \<Rightarrow> string \<Rightarrow> string \<Rightarrow> route" where
  "file_path cx vid fid = \<lparr>path_params = [(''version_id'', vid), (''file_id'', fid)], query_params = cx_query cx\<rparr>"

lemma file_path_product:
  "product_for (file_path cx vid fid) db = product_for (version_route cx vid) db"
  by (simp add: product_for_def param_def file_path_def version_route_def)

text \<open>C4. A \<^verbatim>\<open>product_id\<close> in the query overrides the owner of the version in the path: a user without any
  role on the product of a version, who is refused on its route, deletes its files there by naming a
  product of their own in the query.\<close>

theorem query_product_overrides_owner:
  assumes "get_version vid (core_of sys) = Some v" "vid \<noteq> []" "v_product_id v \<noteq> []" "v_signed_off_by v = None"
    and "product_role (cx_dev cx) (cx_ident cx) (Some (v_product_id v)) (sy_server sys) = None"
    and "get_file vid fid (files_of sys) = Some rc"
    and "map_of (cx_query cx) ''product_id'' = Some p" "p \<noteq> []"
    and "editor_guard (cx_dev cx) (cx_ident cx) (product_route cx p) (cx_now cx) (sy_server sys) = Inr ident"
  shows "fst (delete_version_file (cx\<lparr>cx_query := []\<rparr>) vid fid sys) = Inl (GuardFailed (Forbidden Editor True)) \<and>
    fst (delete_version_file cx vid fid sys) = Inr () \<and>
    get_binding (vid, fid) (files_of (snd (delete_version_file cx vid fid sys))) = None"
proof -
  have e: "enforce (cx_dev cx) (cx_ident cx) (Some p) Editor True (cx_now cx) (sy_server sys) = Inr ()"
    using assms(8,9) unfolding editor_guard_def require_role_Inr
    by (auto simp: product_for_def param_def product_route_def or_empty_def Let_def)
  have q: "product_for (version_route cx vid) (core (sy_server sys)) = Inr (Some p)"
    "product_for (version_route (cx\<lparr>cx_query := []\<rparr>) vid) (core (sy_server sys)) = Inr (Some (v_product_id v))"
    using version_route_product[OF assms(1,2)] assms(7,8) by (simp_all add: or_empty_def core_of_def)
  have g: "editor_guard (cx_dev cx) (cx_ident cx) (file_path cx vid fid) (cx_now cx) (sy_server sys) = Inr (cx_ident cx)"
    "editor_guard (cx_dev cx) (cx_ident cx) (file_path (cx\<lparr>cx_query := []\<rparr>) vid fid) (cx_now cx) (sy_server sys) =
       Inl (Forbidden Editor True)"
    using q e assms(3,5) by (simp_all add: editor_guard_def require_role_def file_path_product enforce_def or_empty_def)
  have "get_binding (vid, fid) (snd (unbind_file vid fid db)) = None" for db
    by (auto simp: get_binding_def unbind_file_def Let_def row_by_None sql_delete_def)
  then show ?thesis using g assms(1,4,6)
    by (simp add: delete_version_file_def guarded_def file_path_def require_unsigned_def resolve_version_def find_binding_def
        drop_blob_def)
qed

text \<open>Ann edits product p, with its lock; version v9 belongs to product q, on which she has no role.\<close>

definition foreign_system :: system where
  "foreign_system = \<lparr>sy_server = \<lparr>auth = editing_auth,
     core = one_product\<lparr>
       products := products one_product @
         [\<lparr>p_id = ''q'', p_name = ''other'', p_created_at = 2, p_customer_id = ''acme''\<rparr>],
       versions := [first_version, first_version\<lparr>v_id := ''v9'', v_product_id := ''q'', v_library_id := ''l9''\<rparr>],
       fdb := \<lparr>files = [\<lparr>f_id = ''f'', f_name = ''a.dxf'', f_size = 3, f_uploaded_at = 1, f_insunits = None,
                        f_recover_notes = None\<rparr>],
              version_files = [new_binding ''v9'' ''SBT'' ''f'' None ReadyToMatch 1]\<rparr>\<rparr>, queue = []\<rparr>, sy_blobs = []\<rparr>"

definition ann_web :: request_ctx where
  "ann_web = web\<lparr>cx_ident := ann, cx_query := [(''product_id'', ''p'')], cx_now := 150\<rparr>"

lemma ann_edits_p_only:
  "effective_role False ann (Some ''p'') (Some ''uncategorized'') editing_auth = Some Editor"
  "effective_role False ann (Some ''q'') (Some ''acme'') editing_auth = None"
  "lock_holder ''p'' 150 editing_auth = Some ''ann''"
  by (simp_all add: editing_auth_def add_grant_def parse_grantee_type_def parse_role_def parse_scope_type_def
      seed_customer_def empty_auth_db_def effective_role_def ann_def is_bypass_def grant_applies_def audit_def
      grant_key_def acquire_lock_def lock_holder_def LOCK_TTL_SECONDS_def rowcount_def Let_def)

lemma query_product_overrides_owner_witness:
  "fst (delete_version_file (ann_web\<lparr>cx_query := []\<rparr>) ''v9'' ''f'' foreign_system) = Inl (GuardFailed (Forbidden Editor True)) \<and>
   fst (delete_version_file ann_web ''v9'' ''f'' foreign_system) = Inr () \<and>
   get_binding (''v9'', ''f'') (files_of foreign_system) \<noteq> None \<and>
   get_binding (''v9'', ''f'') (files_of (snd (delete_version_file ann_web ''v9'' ''f'' foreign_system))) = None"
proof -
  let ?v = "first_version\<lparr>v_id := ''v9'', v_product_id := ''q'', v_library_id := ''l9''\<rparr>"
  have a: "i_userid ann = ''ann''" "\<not> is_bypass ann" by (simp_all add: ann_def is_bypass_def)
  have v: "get_version ''v9'' (core_of foreign_system) = Some ?v" "v_product_id ?v = ''q''" "v_signed_off_by ?v = None"
    by (simp_all add: foreign_system_def core_of_def get_version_def first_version_def)
  have none: "product_role (cx_dev ann_web) (cx_ident ann_web) (Some ''q'') (sy_server foreign_system) = None"
    using ann_edits_p_only(2) a by (simp add: product_role_def ann_web_def web_def foreign_system_def get_product_def one_product_simps)
  obtain rc where f: "get_file ''v9'' ''f'' (files_of foreign_system) = Some rc"
    by (simp add: foreign_system_def files_of_def get_file_def binding_select_def new_binding_def row_to_record_def
        List.map_filter_simps)
  have "product_role (cx_dev ann_web) (cx_ident ann_web) (Some ''p'') (sy_server foreign_system) = Some Editor"
    using ann_edits_p_only(1) a by (simp add: product_role_def ann_web_def web_def foreign_system_def get_product_def one_product_simps)
  then have g: "editor_guard (cx_dev ann_web) (cx_ident ann_web) (product_route ann_web ''p'') (cx_now ann_web)
      (sy_server foreign_system) = Inr ann"
    using ann_edits_p_only(3) a
    by (simp add: editor_guard_def require_role_def enforce_def product_for_def param_def product_route_def or_empty_def Let_def)
      (simp add: ann_web_def foreign_system_def)
  have "get_binding (''v9'', ''f'') (files_of foreign_system) \<noteq> None"
    by (simp add: foreign_system_def files_of_def get_binding_def binding_key_def new_binding_def)
  then show ?thesis
    using query_product_overrides_owner[OF v(1) _ _ v(3) _ f _ _ g] none v(2) by (simp add: ann_web_def)
qed

end
