(* ===== verification/Deletion.thy ===== *)
theory Deletion
  imports Overlay
begin

text \<open>
  What \<^verbatim>\<open>delete_product\<close> leaves: the tables and the artifacts of all versions of the product, when the
  artifacts are those of worker runs, and when a manifest does not parse.
\<close>

section \<open>Artifacts of several versions\<close>

text \<open>The enumeration reads only manifests of its version.\<close>

lemma same_blobs_json:
  "same_blobs v fs fs' \<Longrightarrow> key_segments k \<in> owned_segments v \<Longrightarrow> local_get_json k fs' = local_get_json k fs"
  by (simp add: same_blobs_def local_get_json_def)

lemma version_artifact_keys_cong:
  assumes "same_blobs v fs fs'" "CHR ''/'' \<notin> set v"
  shows "version_artifact_keys fs' v fids = version_artifact_keys fs v fids"
proof -
  have m: "manifest_keys fs' k field svg = manifest_keys fs k field svg" if "key_segments k \<in> owned_segments v" for k field svg
    using same_blobs_json[OF assms(1) that] by (simp add: manifest_keys_def)
  have "file_artifact_keys fs' v fid = file_artifact_keys fs v fid" for fid
    unfolding file_artifact_keys_def m[OF key_segments_of(4)[OF assms(2)]] m[OF key_segments_of(7)[OF assms(2)]] by (rule refl)
  then have "files_artifact_keys fs' v fids = files_artifact_keys fs v fids" by (induction fids) (simp_all only: files_artifact_keys.simps)
  then show ?thesis by (simp add: version_artifact_keys_def)
qed

lemma local_get_delete_many:
  "local_get k (snd (local_delete_many ks fs)) = (if k \<in> set ks then Inl (FileNotFoundError k) else local_get k fs)"
  using local.get_remove[of k ks fs] by (simp add: local_remove_def)

lemma delete_many_other:
  assumes "v \<noteq> v'" "CHR ''/'' \<notin> set v" "version_artifact_keys fs0 v fids = Inr ks"
  shows "same_blobs v' fs (snd (local_delete_many ks fs))"
  using version_artifact_keys_owned[OF assms(2,3)] owned_segments_disjoint[OF assms(1)]
  by (auto simp: same_blobs_def local_get_delete_many)

definition enumerable :: "(string \<times> string list) list \<Rightarrow> local_files \<Rightarrow> bool" where
  "enumerable owned fs \<longleftrightarrow> (\<forall>(v, fids)\<in>set owned. \<exists>ks. version_artifact_keys fs v fids = Inr ks)"

text \<open>With distinct versions the loop deletes what the first enumeration of each gives and nothing else.\<close>

lemma delete_artifacts_spec:
  assumes "distinct (map fst owned)" "\<forall>(v, fids)\<in>set owned. CHR ''/'' \<notin> set v" "enumerable owned (sy_blobs sys)"
  shows "\<exists>sys'. delete_artifacts owned sys = (Inr (), sys') \<and> sy_server sys' = sy_server sys \<and>
    (\<forall>k. local_get k (sy_blobs sys') =
       (if \<exists>(v, fids)\<in>set owned. \<exists>ks. version_artifact_keys (sy_blobs sys) v fids = Inr ks \<and> k \<in> set ks
        then Inl (FileNotFoundError k) else local_get k (sy_blobs sys)))"
  using assms
proof (induction owned arbitrary: sys)
  case (Cons p owned)
  obtain v fids where p: "p = (v, fids)" by (cases p)
  have s: "CHR ''/'' \<notin> set v" "v \<notin> fst ` set owned" using Cons.prems(1,2) by (simp_all add: p)
  obtain ks where ks: "version_artifact_keys (sy_blobs sys) v fids = Inr ks"
    using Cons.prems(3) by (auto simp: p enumerable_def)
  let ?s1 = "on_blobs (\<lambda>fs. snd (local_delete_many ks fs)) sys"
  have same: "version_artifact_keys (sy_blobs ?s1) v' fids' = version_artifact_keys (sy_blobs sys) v' fids'"
    if "(v', fids') \<in> set owned" for v' fids'
  proof -
    have "v \<noteq> v'" "CHR ''/'' \<notin> set v'" using that s(2) Cons.prems(2) by force+
    then show ?thesis using version_artifact_keys_cong[OF delete_many_other[OF _ s(1) ks]] by simp
  qed
  have "enumerable owned (sy_blobs ?s1)"
    using Cons.prems(3) same by (auto simp: enumerable_def simp del: system_updates)
  then obtain sys' where s': "delete_artifacts owned ?s1 = (Inr (), sys')" "sy_server sys' = sy_server ?s1"
    "\<forall>k. local_get k (sy_blobs sys') =
       (if \<exists>(v, fids)\<in>set owned. \<exists>ks. version_artifact_keys (sy_blobs ?s1) v fids = Inr ks \<and> k \<in> set ks
        then Inl (FileNotFoundError k) else local_get k (sy_blobs ?s1))"
    using Cons.IH[of ?s1] Cons.prems(1,2) by auto
  have e: "(\<exists>(v, fids)\<in>set owned. \<exists>ks. version_artifact_keys (sy_blobs ?s1) v fids = Inr ks \<and> k \<in> set ks) \<longleftrightarrow>
      (\<exists>(v, fids)\<in>set owned. \<exists>ks. version_artifact_keys (sy_blobs sys) v fids = Inr ks \<and> k \<in> set ks)" for k
    using same by (force simp del: system_updates)
  have g: "local_get k (sy_blobs ?s1) = (if k \<in> set ks then Inl (FileNotFoundError k) else local_get k (sy_blobs sys))" for k
    by (simp add: local_get_delete_many)
  show ?case
    by (rule exI[of _ sys']) (use s'(1,2) ks in \<open>simp add: p s'(3)[unfolded e g] on_blobs_def\<close>)
qed simp

section \<open>The deletion of a product\<close>

definition owned_files :: "string \<Rightarrow> system \<Rightarrow> (string \<times> string list) list" where
  "owned_files pid sys =
     map (\<lambda>v. (v_id v, map r_id (list_by_version (v_id v) (files_of sys)))) (list_by_product pid (core_of sys))"

lemma delete_product_unfold:
  assumes "get_product pid (core_of sys) = Some p"
    and "admin_guard (cx_dev cx) (cx_ident cx) (product_route cx pid) (cx_now cx) (sy_server sys) = Inr ident"
  shows "\<exists>sys2. core_of sys2 = snd (delete_for_product pid (core_of sys)) \<and> sy_blobs sys2 = sy_blobs sys \<and>
    delete_product_endpoint cx pid sys =
      (case delete_artifacts (owned_files pid sys) sys2 of
         (Inl e, sys3) \<Rightarrow> (Inl e, sys3)
       | (Inr _, sys3) \<Rightarrow> (Inr (length (list_by_product pid (core_of sys))), on_core (\<lambda>db. snd (delete_product_row pid db)) sys3))"
proof -
  let ?s1 = "audit_now cx ''product.delete'' ''product'' pid (Some pid) None None sys"
  let ?s2 = "on_core (\<lambda>db. snd (delete_for_product pid db)) ?s1"
  have same: "core_of ?s1 = core_of sys" "files_of ?s1 = files_of sys" "sy_blobs ?s1 = sy_blobs sys"
    by (simp_all add: audit_now_def on_auth_def core_of_def files_of_def)
  have o: "owned_files pid ?s1 = owned_files pid sys" by (simp only: owned_files_def same)
  have n: "fst (delete_for_product pid (core_of ?s1)) = list_by_product pid (core_of sys)"
    by (simp add: delete_for_product_def same Let_def)
  have "core_of ?s2 = snd (delete_for_product pid (core_of sys))" using same(1) by (simp add: on_core_def core_of_def)
  moreover have "sy_blobs ?s2 = sy_blobs sys" using same(3) by (simp add: on_core_def)
  moreover have "delete_product_endpoint cx pid sys =
      (case delete_artifacts (owned_files pid ?s1) ?s2 of
         (Inl e, sys3) \<Rightarrow> (Inl e, sys3)
       | (Inr _, sys3) \<Rightarrow> (Inr (length (fst (delete_for_product pid (core_of ?s1)))),
           on_core (\<lambda>db. snd (delete_product_row pid db)) sys3))"
    using assms by (simp add: delete_product_endpoint_def guarded_def resolve_product_def owned_files_def Let_def)
  ultimately show ?thesis unfolding o n by blast
qed

lemma owned_files_distinct:
  assumes "core_inv db" "core_of sys = db"
  shows "distinct (map fst (owned_files pid sys))"
  using assms by (auto simp: owned_files_def list_by_product_def comp_def core_inv_def distinct_map inj_on_def)

lemma deleted_product_clears:
  assumes "core_inv db" "db' = snd (delete_product_row pid (snd (delete_for_product pid db)))"
  shows "core_inv db'" "get_product pid db' = None" "list_by_product pid db' = []"
    "v \<in> set (list_by_product pid db) \<Longrightarrow> bindings_of (v_id v) db' = []"
proof -
  note rows = delete_product_rows[OF assms]
  show inv: "core_inv db'" by (rule rows(1))
  show "list_by_product pid db' = []" by (simp add: list_by_product_def rows(2))
  show "get_product pid db' = None" by (simp only: get_product_def row_by_None rows(3)) simp
  show "bindings_of (v_id v) db' = []" if v: "v \<in> set (list_by_product pid db)"
  proof -
    have d: "inj_on v_id (set (versions db))" using assms(1) by (auto simp: core_inv_def distinct_map)
    have "v \<in> set (versions db)" "v_product_id v = pid" using v by (auto simp: list_by_product_def)
    then have "v_id v \<notin> v_id ` set (versions db')" using rows(2) d by (auto dest: inj_onD)
    moreover have "b_version_id ` set (version_files (fdb db')) \<subseteq> v_id ` set (versions db')"
      using inv by (simp only: core_inv_def)
    ultimately have "v_id v \<notin> b_version_id ` set (version_files (fdb db'))" by blast
    then show ?thesis by (auto simp: bindings_of_def filter_empty_conv image_iff)
  qed
qed

text \<open>The artifacts of a version whose bindings only saw worker runs can be enumerated, completely.\<close>

lemma bound_artifacts_enumerated:
  assumes "\<forall>f\<in>set fids. binding_blobs env v f fs"
  shows "\<exists>ks. version_artifact_keys fs v fids = Inr ks \<and> rule_check_key v \<in> set ks \<and> sign_off_evidence_key v \<in> set ks \<and>
    (\<forall>f\<in>set fids. \<forall>k. owned_key v f k \<longrightarrow> local_content fs k \<noteq> None \<longrightarrow> k \<in> set ks)"
proof -
  have "\<exists>ks. files_artifact_keys fs v fids = Inr ks \<and>
    (\<forall>f\<in>set fids. \<forall>k. owned_key v f k \<longrightarrow> local_content fs k \<noteq> None \<longrightarrow> k \<in> set ks)"
    using assms
  proof (induction fids)
    case (Cons f fids)
    then obtain ks where ks: "files_artifact_keys fs v fids = Inr ks"
      "\<forall>f\<in>set fids. \<forall>k. owned_key v f k \<longrightarrow> local_content fs k \<noteq> None \<longrightarrow> k \<in> set ks" by auto
    obtain ls where ls: "file_artifact_keys fs v f = Inr ls" "\<forall>k. owned_key v f k \<longrightarrow> local_content fs k \<noteq> None \<longrightarrow> k \<in> set ls"
      using tracked_enumerated[OF binding_blobs_tracked, of env v f fs] Cons.prems by auto
    show ?case using ks ls by (intro exI[of _ "ls @ ks"]) auto
  qed simp
  then show ?thesis by (auto simp: version_artifact_keys_def)
qed

text \<open>C16. The deletion of a product whose bindings' artifacts were written by runs of their workers (failed
  runs included) succeeds: it removes the product's row, its versions, their bindings, every blob that a
  bound file of one of the versions owns, the rule-check report and the sign-off evidence of every version,
  and leaves every blob outside the name spaces of these versions: other versions' artifacts and all
  uploads.  A manifest that no worker wrote and that does not parse makes the request fail half-way
  instead, as the lemma after it shows.\<close>

theorem product_deletion_is_complete:
  assumes "core_inv (core_of sys)" "ids_ok (core_of sys)" "get_product pid (core_of sys) = Some p"
    and "admin_guard (cx_dev cx) (cx_ident cx) (product_route cx pid) (cx_now cx) (sy_server sys) = Inr ident"
    and "\<forall>v\<in>set (list_by_product pid (core_of sys)). \<forall>f\<in>set (list_by_version (v_id v) (files_of sys)).
      binding_blobs env (v_id v) (r_id f) (sy_blobs sys)"
  shows "\<exists>sys'. delete_product_endpoint cx pid sys = (Inr (length (list_by_product pid (core_of sys))), sys') \<and>
    core_inv (core_of sys') \<and> get_product pid (core_of sys') = None \<and> list_by_product pid (core_of sys') = [] \<and>
    (\<forall>v\<in>set (list_by_product pid (core_of sys)). bindings_of (v_id v) (core_of sys') = [] \<and>
      (\<forall>f\<in>set (list_by_version (v_id v) (files_of sys)). \<forall>k. owned_key (v_id v) (r_id f) k \<longrightarrow>
        local_get k (sy_blobs sys') = Inl (FileNotFoundError k)) \<and>
      local_get (rule_check_key (v_id v)) (sy_blobs sys') = Inl (FileNotFoundError (rule_check_key (v_id v))) \<and>
      local_get (sign_off_evidence_key (v_id v)) (sy_blobs sys') = Inl (FileNotFoundError (sign_off_evidence_key (v_id v)))) \<and>
    (\<forall>k. (\<forall>v\<in>set (list_by_product pid (core_of sys)). key_segments k \<notin> owned_segments (v_id v)) \<longrightarrow>
      local_get k (sy_blobs sys') = local_get k (sy_blobs sys))"
proof -
  let ?vs = "list_by_product pid (core_of sys)" and ?fids = "\<lambda>v. map r_id (list_by_version (v_id v) (files_of sys))"
  obtain sys2 where s2: "core_of sys2 = snd (delete_for_product pid (core_of sys))" "sy_blobs sys2 = sy_blobs sys"
    "delete_product_endpoint cx pid sys =
      (case delete_artifacts (owned_files pid sys) sys2 of
         (Inl e, sys3) \<Rightarrow> (Inl e, sys3)
       | (Inr _, sys3) \<Rightarrow> (Inr (length ?vs), on_core (\<lambda>db. snd (delete_product_row pid db)) sys3))"
    using delete_product_unfold[OF assms(3,4)] by blast
  have slash: "\<forall>(v, fids)\<in>set (owned_files pid sys). CHR ''/'' \<notin> set v"
    using assms(2) by (auto simp: owned_files_def list_by_product_def ids_ok_def)
  have enum: "\<exists>ks. version_artifact_keys (sy_blobs sys) (v_id v) (?fids v) = Inr ks \<and> rule_check_key (v_id v) \<in> set ks \<and>
      sign_off_evidence_key (v_id v) \<in> set ks \<and>
      (\<forall>f\<in>set (?fids v). \<forall>k. owned_key (v_id v) f k \<longrightarrow> local_content (sy_blobs sys) k \<noteq> None \<longrightarrow> k \<in> set ks)"
    if "v \<in> set ?vs" for v
    using bound_artifacts_enumerated[of "?fids v" env "v_id v" "sy_blobs sys"] assms(5) that by simp
  then have "enumerable (owned_files pid sys) (sy_blobs sys)" by (fastforce simp: enumerable_def owned_files_def)
  then obtain sys3 where s3: "delete_artifacts (owned_files pid sys) sys2 = (Inr (), sys3)" "sy_server sys3 = sy_server sys2"
    "\<forall>k. local_get k (sy_blobs sys3) =
       (if \<exists>(v, fids)\<in>set (owned_files pid sys). \<exists>ks. version_artifact_keys (sy_blobs sys) v fids = Inr ks \<and> k \<in> set ks
        then Inl (FileNotFoundError k) else local_get k (sy_blobs sys))"
    using delete_artifacts_spec[OF owned_files_distinct[OF assms(1) refl] slash, of sys2] unfolding s2(2) by blast
  let ?last = "on_core (\<lambda>db. snd (delete_product_row pid db)) sys3"
  have blobs: "sy_blobs ?last = sy_blobs sys3" by (simp add: on_core_def)
  have hit: "local_get k (sy_blobs ?last) = Inl (FileNotFoundError k)"
    if "v \<in> set ?vs" "version_artifact_keys (sy_blobs sys) (v_id v) (?fids v) = Inr ks" "k \<in> set ks" for v ks k
    using that unfolding blobs s3(3)[rule_format] by (auto simp: owned_files_def)
  have gone: "local_get (rule_check_key (v_id v)) (sy_blobs ?last) = Inl (FileNotFoundError (rule_check_key (v_id v)))"
    "local_get (sign_off_evidence_key (v_id v)) (sy_blobs ?last) = Inl (FileNotFoundError (sign_off_evidence_key (v_id v)))"
    if "v \<in> set ?vs" for v
    using enum[OF that] hit[OF that] by blast+
  have owned: "local_get k (sy_blobs ?last) = Inl (FileNotFoundError k)"
    if "v \<in> set ?vs" "f \<in> set (list_by_version (v_id v) (files_of sys))" "owned_key (v_id v) (r_id f) k" for v f k
  proof (cases "local_content (sy_blobs sys) k")
    case None
    then have "local_get k (sy_blobs sys) = Inl (FileNotFoundError k)" by (simp add: local.get_content)
    then show ?thesis using s3(3) blobs by simp
  next
    case (Some b)
    have "r_id f \<in> set (?fids v)" using that(2) by simp
    then show ?thesis using enum[OF that(1)] hit[OF that(1)] that(3) Some by (metis option.discI)
  qed
  have kept: "local_get k (sy_blobs ?last) = local_get k (sy_blobs sys)"
    if k: "\<forall>v\<in>set ?vs. key_segments k \<notin> owned_segments (v_id v)" for k
  proof -
    have "k \<notin> set ks" if v: "(v, fids) \<in> set (owned_files pid sys)" "version_artifact_keys (sy_blobs sys) v fids = Inr ks" for v fids ks
      using version_artifact_keys_owned[OF _ v(2), of k] slash v(1) k by (auto simp: owned_files_def)
    then show ?thesis unfolding blobs s3(3)[rule_format] by auto
  qed
  have c: "core_of ?last = snd (delete_product_row pid (snd (delete_for_product pid (core_of sys))))"
    using s3(2) s2(1) by (simp add: core_of_def on_core_def)
  note cleared = deleted_product_clears[where pid = pid, OF assms(1) c]
  have "delete_product_endpoint cx pid sys = (Inr (length ?vs), ?last)" using s2(3) s3(1) by simp
  then show ?thesis
    by (intro exI[of _ ?last] conjI ballI allI impI) (simp_all only: cleared gone owned kept)
qed

text \<open>A product with a checked version and one bound file whose discovery ran.\<close>

definition deleting_blobs :: local_files where
  "deleting_blobs = snd (discover_layers_worker idle_worker ''v1'' ''f'' (upload_key ''f'') None 3 DEFAULTS
     [(upload_key ''f'', (Raw ''dxf'', 1)), (rule_check_key ''v1'', (Json JNull, 2))])"

lemma deleting_blobs_ok: "binding_blobs idle_worker ''v1'' ''f'' deleting_blobs"
  unfolding deleting_blobs_def
  by (rule binding_blobs.discovered, rule binding_blobs.untouched)
    (auto simp: owned_key_def binding_prefix_def layer_preview_prefix_def local_content_def upload_key_def
        parsed_key_def prematch_key_def match_key_def rule_check_key_def)

lemma product_deletion_is_complete_witness:
  "\<exists>sys'. delete_product_endpoint web ''p'' (saving_system\<lparr>sy_blobs := deleting_blobs\<rparr>) = (Inr 1, sys') \<and>
     get_product ''p'' (core_of sys') = None \<and> bindings_of ''v1'' (core_of sys') = [] \<and>
     local_get (layer_preview_primitives_key ''v1'' ''f'') (sy_blobs sys') =
       Inl (FileNotFoundError (layer_preview_primitives_key ''v1'' ''f'')) \<and>
     local_get (rule_check_key ''v1'') (sy_blobs sys') = Inl (FileNotFoundError (rule_check_key ''v1'')) \<and>
     local_get (upload_key ''f'') (sy_blobs sys') = local_get (upload_key ''f'') deleting_blobs"
proof -
  let ?sys = "saving_system\<lparr>sy_blobs := deleting_blobs\<rparr>"
  have same: "core_of ?sys = core_of saving_system" "files_of ?sys = files_of saving_system" "sy_server ?sys = sy_server saving_system"
    by (simp_all add: core_of_def files_of_def)
  have c: "core_of saving_system = one_product\<lparr>fdb := files_of saving_system\<rparr>"
    by (simp add: saving_system_def core_of_def files_of_def saving_core_def)
  have inv: "core_inv (core_of saving_system)"
    unfolding c by (rule bindings_core_inv[OF one_product_inv])
      (simp add: saving_system_def saving_core_def files_of_def one_product_simps first_version_def new_binding_def)
  have ids: "ids_ok (core_of saving_system)" by (simp add: c ids_ok_def one_product_simps first_version_def)
  obtain p where p: "get_product ''p'' (core_of saving_system) = Some p" by (simp add: c get_product_def one_product_simps)
  have "product_for (product_route web ''p'') (core (sy_server saving_system)) = Inr (Some ''p'')"
    by (simp add: product_for_def param_def product_route_def or_empty_def Let_def)
  then have g: "admin_guard (cx_dev web) (cx_ident web) (product_route web ''p'') (cx_now web) (sy_server saving_system) = Inr reviewer"
    by (simp add: admin_guard_def web_def bypass_passes)
  have vs: "list_by_product ''p'' (core_of saving_system) = [first_version]"
    by (simp add: c list_by_product_def one_product_simps first_version_def)
  have fs: "map r_id (list_by_version ''v1'' (files_of saving_system)) = [''f'']"
    by (simp add: saving_system_def saving_core_def files_of_def list_by_version_def binding_select_def
        new_binding_def row_to_record_def List.map_filter_simps)
  then obtain f where f: "list_by_version ''v1'' (files_of saving_system) = [f]" "r_id f = ''f''" by auto
  have b: "\<forall>v\<in>set (list_by_product ''p'' (core_of ?sys)). \<forall>f\<in>set (list_by_version (v_id v) (files_of ?sys)).
      binding_blobs idle_worker (v_id v) (r_id f) (sy_blobs ?sys)"
    unfolding same vs by (simp add: first_version_def f deleting_blobs_ok)
  have "owned_key ''v1'' ''f'' (layer_preview_primitives_key ''v1'' ''f'')" by (rule owned_fixed) (simp add: fixed_keys_def)
  moreover have "key_segments (upload_key ''f'') \<notin> owned_segments ''v1''" by (rule upload_not_owned)
  moreover have v: "v_id first_version = ''v1''" by (simp add: first_version_def)
  ultimately show ?thesis
    using product_deletion_is_complete[OF inv[folded same(1)] ids[folded same(1)] p[folded same(1)] g[folded same(3)] b]
    unfolding same vs by (auto simp: f)
qed

text \<open>If the manifest of one version is unreadable, the request fails after the versions are gone: the
  product stays without any version and is listed so.\<close>

lemma corrupt_manifest_strands_product:
  assumes "core_inv (core_of sys)" "get_product pid (core_of sys) = Some p" "list_by_product pid (core_of sys) = [v]"
    and "admin_guard (cx_dev cx) (cx_ident cx) (product_route cx pid) (cx_now cx) (sy_server sys) = Inr ident"
    and "version_artifact_keys (sy_blobs sys) (v_id v) (map r_id (list_by_version (v_id v) (files_of sys))) = Inl e"
  shows "\<exists>sys'. delete_product_endpoint cx pid sys = (Inl (HTTP 500 ''Internal Server Error''), sys') \<and>
    get_product pid (core_of sys') = Some p \<and> list_by_product pid (core_of sys') = []"
proof -
  obtain sys2 where s2: "core_of sys2 = snd (delete_for_product pid (core_of sys))" "sy_blobs sys2 = sy_blobs sys"
    "delete_product_endpoint cx pid sys =
      (case delete_artifacts (owned_files pid sys) sys2 of
         (Inl e, sys3) \<Rightarrow> (Inl e, sys3)
       | (Inr _, sys3) \<Rightarrow> (Inr (length (list_by_product pid (core_of sys))), on_core (\<lambda>db. snd (delete_product_row pid db)) sys3))"
    using delete_product_unfold[OF assms(2,4)] by blast
  have "core_of sys2 = delete_version_rows v (core_of sys)"
    using s2(1) assms(3) by (simp add: delete_for_product_def)
  moreover have "list_by_product pid (delete_version_rows v (core_of sys)) = []"
  proof -
    have "x = v" if "x \<in> set (versions (core_of sys))" "v_product_id x = pid" for x
      using that arg_cong[OF assms(3), of set] by (auto simp: list_by_product_def)
    then have "set (list_by_product pid (delete_version_rows v (core_of sys))) = {}"
      by (auto simp: list_by_product_def delete_version_rows_def sql_delete_def)
    then show ?thesis by simp
  qed
  moreover have "get_product pid (delete_version_rows v (core_of sys)) = Some p"
    using assms(2) by (simp add: get_product_def delete_version_rows_def)
  ultimately show ?thesis using s2(2,3) assms(3,5) by (simp add: owned_files_def)
qed

end
