(* ===== verification/Spec2Isabelle.thy ===== *)
theory Spec2Isabelle
  imports SideRegions AuthStore JobStore LibraryStore LibrarySync FileStore VersionStore Matching IndexCache RuleCheck VersionDiff
    Guards ProductViews DevOverrides Layers EntityIndex DrcBundle Workers Pipeline WorkerRun AdminApi Freeze Overlay
    CheckFlow Access Deletion
begin

text \<open>
  A verification library of the SMDR2 server (the Python package \<^verbatim>\<open>app/\<close>).

  The server keeps products with versions.  A version owns a library of templates by class and binds
  uploaded DXF drawings under a role.  A drawing is rendered to primitives, its layers and tab are
  chosen, every template is matched against it, the matches are split by the drawn views and saved as
  a Match JSON, and a bundle of all drawings and Match JSONs goes to an external rule checker.  Sign-off
  freezes a version.  Web processes serve the HTTP interface and queue jobs in a table; worker processes
  claim them, run them in a pool and apply their results.

  State.  \<^verbatim>\<open>core_db\<close> (VersionStore) joins the tables of products, versions, libraries and files;
  \<^verbatim>\<open>auth_db\<close> (AuthStore) holds users, grants, locks, sessions and the audit log; \<^verbatim>\<open>jobs\<close> (JobStore) is the
  queue.  \<^verbatim>\<open>server\<close> (Guards) is the three together and \<^verbatim>\<open>system\<close> (JobSubmit) the server with the blob store.
  A table is a list of records in insertion order; a statement is a function on it and a transaction
  either commits or leaves it.  Exceptions and HTTP errors are left values, and writes made before a
  raise stay in the returned state where the code leaves them.

  The theories, in the order of import:

  \<^item> Prelude: dictionaries in insertion order, Python strings and integers, tables, folds with errors, JSON.
  \<^item> Taxonomy, LibraryStore, LibrarySync (\<^verbatim>\<open>library.py\<close>): class constants; the template store, its boot maintenance,
    the write-through cache and the registry; the dedup signature and its invariance; histories of all
    operations of a library against a fresh load of its tables.
  \<^item> SideRegions (\<^verbatim>\<open>side_regions.py\<close>): view split of matches and suppression of contained instances; the indexed
    suppression equals the documented rule.
  \<^item> FileStore, VersionStore, VersionDiff, ProductViews (\<^verbatim>\<open>files.py\<close>, \<^verbatim>\<open>products.py\<close>, \<^verbatim>\<open>versions.py\<close>,
    \<^verbatim>\<open>version_diff.py\<close>, \<^verbatim>\<open>product_views.py\<close>): bindings, version creation and clone, sign-off, library edits, deletion in
    its two steps (the versions, then the product's row), with the invariant of all reachable databases.
  \<^item> AuthStore, Guards (\<^verbatim>\<open>auth.py\<close>, \<^verbatim>\<open>guards.py\<close>): grants and roles, the edit lock as a lease that only an
    admin's audited force release breaks, sessions; what each guard lets through.
  \<^item> JobStore, JobSubmit, WorkerLoop, WorkerRun (\<^verbatim>\<open>jobstore.py\<close>, \<^verbatim>\<open>jobs.py\<close>, \<^verbatim>\<open>worker_loop.py\<close>): the queue with
    optimistic claims, submission, the execution plan, callbacks, a tick of the loop and runs of it.
  \<^item> Blobs (\<^verbatim>\<open>storage.py\<close>, \<^verbatim>\<open>blobstore.py\<close>): keys, and one locale of a map from keys to contents interpreted on
    the local and on the S3 store.
  \<^item> Dxf, Layers, EntityIndex, Artifacts, DevOverrides (\<^verbatim>\<open>dxf.py\<close>, \<^verbatim>\<open>dev_overrides.py\<close>, helpers of \<^verbatim>\<open>library.py\<close>
    and \<^verbatim>\<open>jobs.py\<close>): rendering, circle detection, bounding boxes, thumbnails, handles of primitives, the JSON
    artifacts and their readers, tunables.
  \<^item> Shapes, Matching, IndexCache (\<^verbatim>\<open>matching.py\<close>): signatures, resampling, alignment, the four matchers, the
    chunked parallel run over a process pool, each process with its signature index cache keyed by object
    identities; the run equals the serial match while an identity stands for one dict.
  \<^item> RuleCheck, DrcBundle (\<^verbatim>\<open>rule_check.py\<close>, \<^verbatim>\<open>drc_bundle.py\<close>): the envelope contract and the handoff bundle, as the
    zip of the download and as the directory of the worker.
  \<^item> Workers, Pipeline (\<^verbatim>\<open>jobs.py\<close>): the worker functions and histories of them: fresh snapshots, no orphaned
    blobs, the transient cache equals a re-parse under the same DXF tunables.
  \<^item> Api, FileApi, VersionApi, LibraryApi, CheckApi, AdminApi (\<^verbatim>\<open>main.py\<close>): one definition per route with its
    guard, the order of its checks and its error statuses.
  \<^item> Freeze, Overlay, CheckFlow, Access, Deletion: properties across components.  Freeze runs arbitrary
    sequences of requests; Overlay relates the live scan to the saved Match JSON; CheckFlow follows a rule
    check from the request to the checker's answer; Access shows which product a route is checked against; Deletion
    what the removal of a product leaves, and what a corrupt manifest leaves.

  Interfaces are locales interpreted on the definitions of the model: rows kept by a key (FileStore), a
  lease that expires (AuthStore, for the edit lock), a blob store (Blobs, local and S3).

  Bounds and fuel.  The claim loop takes one round per queued job and one more, which a lost race per
  round cannot exceed (\<^verbatim>\<open>claim_loop_returns\<close>); the slots of a tick are filled with at most one round per
  queued job and one more, and the loop is shown to leave for lack of jobs or slots (\<^verbatim>\<open>claim_slots_exit\<close>).
  A run of the worker loop is a number of ticks; \<^verbatim>\<open>potential\<close> bounds how many a queue needs.  No other loop
  has fuel.

  Parameters.  Code outside the repository is an argument: ezdxf (records of what it reads and renders),
  numpy's eigenvectors and scipy's k-d tree (\<^verbatim>\<open>numerics\<close>), the least-squares solver, boto3, SHA-256, the
  external checker.  Times and fresh ids are arguments; all clock reads of a request agree.  Floats are
  real numbers, with NaN and the infinities where the code meets them.

  Not modelled.  SQL text, engine set-up and migrations (\<^verbatim>\<open>db.py\<close>, \<^verbatim>\<open>dbschema.py\<close>, \<^verbatim>\<open>alembic/\<close>): the stores are
  modelled on rows.  The login flow and network probes (\<^verbatim>\<open>oidc.py\<close>, \<^verbatim>\<open>tlsconfig.py\<close>, \<^verbatim>\<open>connectivity.py\<close>).  HTML
  pages and the browser client.  The match-swap and radius diagnostics.  The process pool, signals and
  sleeping: a tick takes the futures that have finished.  Benchmarks, scripts and the slide generator.
\<close>

end
